(* ===== verification/Rust_Prelude.thy ===== *)
theory Rust_Prelude
  imports Main "HOL-Library.Word"
begin

text \<open>
  Shared vocabulary of the development: how Rust values are represented and the generic facts
  about them.

  \<^item> A Rust \<open>String\<close>/\<open>&str\<close> and a \<open>Vec<u8>\<close> are both a HOL \<open>string\<close>, read as a list of bytes
    (a HOL \<open>char\<close> is one byte). \<open>len()\<close> is \<open>length\<close>; \<open>chars()\<close> is \<open>rust_chars\<close>, which splits
    the bytes in front of every byte that is not a UTF-8 continuation byte.
  \<^item> \<open>DateTime<Utc>\<close> is an \<open>int\<close>, nanoseconds since the epoch; \<open>Instant\<close> and \<open>Duration\<close> are
    \<open>nat\<close> nanoseconds, so that \<open>duration_since\<close>, which saturates at zero, is subtraction on \<open>nat\<close>.
  \<^item> An integer whose wrap-around matters keeps its width (\<open>u32\<close>, \<open>u64\<close>); counts that the code
    cannot overflow are \<open>nat\<close>.
  \<^item> \<open>Result<T, E>\<close> is \<open>'e + 'a\<close>, the error on the left.
\<close>

named_theorems strlen \<open>length facts of rendered text\<close>
named_theorems frame \<open>what an operation leaves unchanged\<close>

type_synonym bytes = string
type_synonym u32 = "32 word"
type_synonym u64 = "64 word"
type_synonym datetime = int
type_synonym instant = nat
type_synonym duration = nat
type_synonym uuid = string

abbreviation Ok :: "'a \<Rightarrow> 'e + 'a" where "Ok \<equiv> Inr"
abbreviation Err :: "'e \<Rightarrow> 'e + 'a" where "Err \<equiv> Inl"

definition ns_per_sec :: nat where
  "ns_per_sec = 1000000000"

definition secs :: "nat \<Rightarrow> duration" where
  "secs n = n * ns_per_sec"

definition csecs :: "int \<Rightarrow> int" where
  "csecs n = n * 1000000000"

subsection \<open>UTF-8 text\<close>

definition byte_val :: "char \<Rightarrow> nat" where
  "byte_val c = of_char c"

definition is_cont :: "char \<Rightarrow> bool" where
  "is_cont b \<longleftrightarrow> 128 \<le> byte_val b \<and> byte_val b \<le> 191"

definition is_char_boundary :: "string \<Rightarrow> nat \<Rightarrow> bool" where
  "is_char_boundary s i =
     (if i = 0 then True else if i \<ge> length s then i = length s else \<not> is_cont (s ! i))"

function rust_chars :: "string \<Rightarrow> string list" where
  "rust_chars [] = []"
| "rust_chars (b # bs) = (b # takeWhile is_cont bs) # rust_chars (dropWhile is_cont bs)"
  by pat_completeness auto
termination
  by (relation "measure length") (auto simp: le_imp_less_Suc length_dropWhile_le)

definition utf8_char :: "string \<Rightarrow> bool" where
  "utf8_char c =
    (case map byte_val c of
       [a] \<Rightarrow> a < 128
     | [a, b] \<Rightarrow> 194 \<le> a \<and> a \<le> 223 \<and> 128 \<le> b \<and> b \<le> 191
     | [a, b, d] \<Rightarrow>
         128 \<le> b \<and> b \<le> 191 \<and> 128 \<le> d \<and> d \<le> 191 \<and> 224 \<le> a \<and> a \<le> 239 \<and>
         (a = 224 \<longrightarrow> 160 \<le> b) \<and> (a = 237 \<longrightarrow> b \<le> 159)
     | [a, b, d, e] \<Rightarrow>
         128 \<le> b \<and> b \<le> 191 \<and> 128 \<le> d \<and> d \<le> 191 \<and> 128 \<le> e \<and> e \<le> 191 \<and> 240 \<le> a \<and> a \<le> 244 \<and>
         (a = 240 \<longrightarrow> 144 \<le> b) \<and> (a = 244 \<longrightarrow> b \<le> 143)
     | _ \<Rightarrow> False)"

definition valid_utf8 :: "string \<Rightarrow> bool" where
  "valid_utf8 s \<longleftrightarrow> list_all utf8_char (rust_chars s)"

text \<open>One character as \<open>rust_chars\<close> delivers it: a lead byte, then continuation bytes.\<close>

definition char_shape :: "string \<Rightarrow> bool" where
  "char_shape c \<longleftrightarrow> c \<noteq> [] \<and> \<not> is_cont (hd c) \<and> list_all is_cont (tl c)"

text \<open>The loop \<open>while cut > 0 && !s.is_char_boundary(cut) { cut -= 1 }\<close>.\<close>

fun cut_back :: "string \<Rightarrow> nat \<Rightarrow> nat" where
  "cut_back s 0 = 0"
| "cut_back s (Suc k) = (if is_char_boundary s (Suc k) then Suc k else cut_back s k)"

text \<open>The bytes of the character \<open>U+2026\<close> and of \<open>U+2014\<close>.\<close>

definition ellipsis :: string where
  "ellipsis = [CHR 0xE2, CHR 0x80, CHR 0xA6]"

definition emdash :: string where
  "emdash = [CHR 0xE2, CHR 0x80, CHR 0x94]"

definition newline :: string where
  "newline = [CHR 0x0A]"

definition dquote :: string where
  "dquote = [CHR 0x22]"

text \<open>\<open>char::is_whitespace\<close> on encoded characters, and \<open>str::trim\<close>.\<close>

definition white_char :: "string \<Rightarrow> bool" where
  "white_char c \<longleftrightarrow> map byte_val c \<in> set (
     [[9], [10], [11], [12], [13], [32], [194, 133], [194, 160], [225, 154, 128],
      [226, 128, 168], [226, 128, 169], [226, 128, 175], [226, 129, 159], [227, 128, 128]]
     @ map (\<lambda>i. [226, 128, 128 + i]) [0..<11])"

text \<open>The code point of an encoded character, and \<open>char::is_control\<close>.\<close>

definition code_point :: "string \<Rightarrow> nat" where
  "code_point c =
     (case map byte_val c of
        [a] \<Rightarrow> a
      | [a, b] \<Rightarrow> (a mod 32) * 64 + b mod 64
      | [a, b, e] \<Rightarrow> (a mod 16) * 4096 + (b mod 64) * 64 + e mod 64
      | [a, b, e, f] \<Rightarrow> (a mod 8) * 262144 + (b mod 64) * 4096 + (e mod 64) * 64 + f mod 64
      | _ \<Rightarrow> 0)"

definition is_control :: "string \<Rightarrow> bool" where
  "is_control c \<longleftrightarrow> code_point c \<le> 0x1F \<or> (0x7F \<le> code_point c \<and> code_point c \<le> 0x9F)"

definition trim_chars :: "string \<Rightarrow> string" where
  "trim_chars s = concat (rev (dropWhile white_char (rev (dropWhile white_char (rust_chars s)))))"

definition is_digit_byte :: "char \<Rightarrow> bool" where
  "is_digit_byte c \<longleftrightarrow> 48 \<le> byte_val c \<and> byte_val c \<le> 57"

definition is_upper_byte :: "char \<Rightarrow> bool" where
  "is_upper_byte c \<longleftrightarrow> 65 \<le> byte_val c \<and> byte_val c \<le> 90"

definition is_lower_byte :: "char \<Rightarrow> bool" where
  "is_lower_byte c \<longleftrightarrow> 97 \<le> byte_val c \<and> byte_val c \<le> 122"

text \<open>\<open>str::split_once\<close> on an ASCII separator, \<open>starts_with\<close>, \<open>strip_prefix\<close>.\<close>

fun split_once :: "char \<Rightarrow> string \<Rightarrow> (string \<times> string) option" where
  "split_once c [] = None"
| "split_once c (x # xs) =
     (if x = c then Some ([], xs)
      else map_option (\<lambda>(a, b). (x # a, b)) (split_once c xs))"

definition starts_with :: "string \<Rightarrow> string \<Rightarrow> bool" where
  "starts_with s p \<longleftrightarrow> take (length p) s = p"

definition strip_prefix :: "string \<Rightarrow> string \<Rightarrow> string option" where
  "strip_prefix s p = (if starts_with s p then Some (drop (length p) s) else None)"

fun join_with :: "string \<Rightarrow> string list \<Rightarrow> string" where
  "join_with sep [] = []"
| "join_with sep [x] = x"
| "join_with sep (x # y # ys) = x @ sep @ join_with sep (y # ys)"

subsection \<open>Number formatting and byte orders\<close>

definition digit_char :: "nat \<Rightarrow> char" where
  "digit_char n = char_of (48 + n mod 10)"

fun nat_str :: "nat \<Rightarrow> string" where
  "nat_str n = (if n < 10 then [digit_char n] else nat_str (n div 10) @ [digit_char (n mod 10)])"

declare nat_str.simps [simp del]

definition int_str :: "int \<Rightarrow> string" where
  "int_str i = (if i < 0 then CHR ''-'' # nat_str (nat (- i)) else nat_str (nat i))"

definition hex_digit :: "nat \<Rightarrow> nat \<Rightarrow> char" where
  "hex_digit base n = (if n < 10 then char_of (48 + n) else char_of (base + (n - 10)))"

definition hex_byte_upper :: "char \<Rightarrow> string" where
  "hex_byte_upper b = [hex_digit 65 (byte_val b div 16), hex_digit 65 (byte_val b mod 16)]"

definition hex_encode :: "bytes \<Rightarrow> string" where
  "hex_encode bs = concat (map (\<lambda>b. [hex_digit 97 (byte_val b div 16), hex_digit 97 (byte_val b mod 16)]) bs)"

definition le_bytes8 :: "nat \<Rightarrow> bytes" where
  "le_bytes8 n = map (\<lambda>i. char_of (n div 256 ^ i mod 256)) [0..<8]"

definition be_bytes4 :: "u32 \<Rightarrow> bytes" where
  "be_bytes4 w = map (\<lambda>i. char_of (unat w div 256 ^ i mod 256)) [3, 2, 1, 0]"

definition be_val4 :: "bytes \<Rightarrow> u32" where
  "be_val4 bs = of_nat (foldl (\<lambda>n b. n * 256 + byte_val b) 0 bs)"

subsection \<open>Association lists standing for maps of the source\<close>

definition alist_put :: "'k \<Rightarrow> 'v \<Rightarrow> ('k \<times> 'v) list \<Rightarrow> ('k \<times> 'v) list" where
  "alist_put k v m = (k, v) # filter (\<lambda>e. fst e \<noteq> k) m"

definition alist_del :: "'k \<Rightarrow> ('k \<times> 'v) list \<Rightarrow> ('k \<times> 'v) list" where
  "alist_del k m = filter (\<lambda>e. fst e \<noteq> k) m"

lemma map_of_filter_key: "map_of (filter (\<lambda>e. fst e \<noteq> k) m) = (map_of m)(k := None)"
  by (induction m) auto

lemma map_of_alist_put [simp]: "map_of (alist_put k v m) = (map_of m)(k \<mapsto> v)"
  by (simp add: alist_put_def map_of_filter_key)

lemma map_of_alist_del [simp]: "map_of (alist_del k m) = (map_of m)(k := None)"
  by (simp add: alist_del_def map_of_filter_key)

lemma distinct_keys_put [simp]:
  "distinct (map fst m) \<Longrightarrow> distinct (map fst (alist_put k v m))"
  by (auto simp: alist_put_def distinct_map inj_on_def)

subsection \<open>Facts about characters and boundaries\<close>

lemma byte_val_less [simp]: "byte_val c < 256"
  by (simp add: byte_val_def)

lemma byte_val_char_of [simp]: "byte_val (char_of n) = n mod 256"
  by (simp add: byte_val_def)

lemma rust_chars_concat [simp]: "concat (rust_chars s) = s"
  by (induction s rule: rust_chars.induct) auto

lemma rust_chars_Nil_iff [simp]: "rust_chars s = [] \<longleftrightarrow> s = []"
  by (cases s) auto

lemma utf8_char_shape: "utf8_char c \<Longrightarrow> char_shape c"
  unfolding utf8_char_def char_shape_def
  by (cases c rule: rust_chars.cases)
     (auto simp: is_cont_def list_all_iff split: list.splits)

lemma takeWhile_cont_append:
  assumes "list_all is_cont t" "s = [] \<or> \<not> is_cont (hd s)"
  shows "takeWhile is_cont (t @ s) = t" "dropWhile is_cont (t @ s) = s"
  using assms by (induction t) (cases s; auto)+

lemma rust_chars_concat_shape:
  "list_all char_shape cs \<Longrightarrow> rust_chars (concat cs) = cs"
proof (induction cs)
  case (Cons c cs)
  obtain b t where c: "c = b # t" using Cons.prems by (cases c) (auto simp: char_shape_def)
  have t: "list_all is_cont t" using Cons.prems c by (simp add: char_shape_def)
  have hd: "concat cs = [] \<or> \<not> is_cont (hd (concat cs))"
  proof (cases cs)
    case (Cons e es)
    then have "char_shape e" using Cons.prems \<open>list_all char_shape (c # cs)\<close> by simp
    then show ?thesis using Cons by (auto simp: char_shape_def)
  qed simp
  show ?case using Cons takeWhile_cont_append[OF t hd] c by simp
qed simp

lemma valid_utf8_shape: "valid_utf8 s \<Longrightarrow> list_all char_shape (rust_chars s)"
  by (auto simp: valid_utf8_def list_all_iff utf8_char_shape)

lemma valid_utf8_concat:
  "list_all utf8_char cs \<Longrightarrow> valid_utf8 (concat cs)"
  by (simp add: valid_utf8_def rust_chars_concat_shape list_all_iff utf8_char_shape)

lemma valid_utf8_chars: "valid_utf8 s \<Longrightarrow> list_all utf8_char (rust_chars s)"
  by (simp add: valid_utf8_def)

lemma valid_utf8_append:
  assumes "valid_utf8 s" "valid_utf8 t"
  shows "valid_utf8 (s @ t)"
    and "rust_chars (s @ t) = rust_chars s @ rust_chars t"
proof -
  let ?cs = "rust_chars s @ rust_chars t"
  have u: "list_all utf8_char ?cs" using assms by (simp add: valid_utf8_def)
  have e: "s @ t = concat ?cs" by simp
  show "valid_utf8 (s @ t)" unfolding e using u by (rule valid_utf8_concat)
  show "rust_chars (s @ t) = ?cs" unfolding e
    by (rule rust_chars_concat_shape) (use u in \<open>auto simp: list_all_iff utf8_char_shape\<close>)
qed

lemma valid_utf8_ellipsis [simp]: "valid_utf8 ellipsis"
  unfolding valid_utf8_def ellipsis_def by code_simp

lemma length_ellipsis [simp]: "length ellipsis = 3"
  by (simp add: ellipsis_def)

lemma rust_chars_ellipsis [simp]: "rust_chars ellipsis = [ellipsis]"
  unfolding ellipsis_def by code_simp

lemma cut_back_le [simp]: "cut_back s k \<le> k"
  by (induction k) (auto simp: le_SucI)

lemma cut_back_boundary: "is_char_boundary s (cut_back s k)"
  by (induction k) (auto simp: is_char_boundary_def)

text \<open>A prefix cut at a boundary consists of whole characters.\<close>

lemma boundary_prefix:
  assumes "k \<le> length s" "is_char_boundary s k"
  shows "\<exists>j. take k s = concat (take j (rust_chars s))"
  using assms
proof (induction s arbitrary: k rule: rust_chars.induct)
  case (2 b bs)
  let ?t = "takeWhile is_cont bs" and ?d = "dropWhile is_cont bs"
  have split: "bs = ?t @ ?d" by simp
  show ?case
  proof (cases "k = 0")
    case False
    have big: "length ?t < k"
    proof (rule ccontr)
      assume "\<not> length ?t < k"
      then obtain m where m: "k = Suc m" "m < length ?t" using False by (cases k) auto
      then have "bs ! m = ?t ! m" by (metis nth_append split)
      then have "is_cont ((b # bs) ! k)" using m by (auto dest: set_takeWhileD nth_mem)
      moreover have "k < length (b # bs)" using m by (metis Suc_less_eq length_Cons length_takeWhile_le order_less_le_trans)
      ultimately show False using 2(3) False by (simp add: is_char_boundary_def)
    qed
    define q where "q = k - Suc (length ?t)"
    have k: "k = Suc (length ?t + q)" using big by (simp add: q_def)
    have tk: "take k (b # bs) = b # ?t @ take q ?d"
      unfolding k by (subst split) (simp del: takeWhile_dropWhile_id)
    have len: "length bs = length ?t + length ?d" by (metis length_append split)
    have ql: "q \<le> length ?d" using 2(2) k len by simp
    have qb: "is_char_boundary ?d q"
    proof (cases "q = 0 \<or> q \<ge> length ?d")
      case True then show ?thesis using ql by (auto simp: is_char_boundary_def)
    next
      case False
      have "(b # bs) ! k = ?d ! q" unfolding k by (subst split) (simp add: nth_append del: takeWhile_dropWhile_id)
      then show ?thesis using False 2(3) k len by (auto simp: is_char_boundary_def)
    qed
    obtain j where "take q ?d = concat (take j (rust_chars ?d))" using 2(1)[OF ql qb] by blast
    then have "take k (b # bs) = concat (take (Suc j) (rust_chars (b # bs)))" by (simp add: tk)
    then show ?thesis by blast
  qed (auto intro: exI[of _ 0])
qed auto

lemma valid_utf8_cut:
  assumes "valid_utf8 s" "k \<le> length s"
  shows "valid_utf8 (take (cut_back s k) s)"
proof -
  obtain j where j: "take (cut_back s k) s = concat (take j (rust_chars s))"
    using boundary_prefix[OF _ cut_back_boundary] cut_back_le assms(2) le_trans by blast
  have "list_all utf8_char (take j (rust_chars s))"
    using valid_utf8_chars[OF assms(1)] by (auto simp: list_all_iff dest: in_set_takeD)
  then show ?thesis unfolding j by (rule valid_utf8_concat)
qed

subsection \<open>Facts about splitting and numbers\<close>

lemma split_once_Some:
  "split_once c s = Some (a, b) \<longleftrightarrow> s = a @ c # b \<and> c \<notin> set a"
proof (induction s arbitrary: a)
  case (Cons x xs)
  show ?case
  proof (cases a)
    case (Cons y ys)
    then show ?thesis using Cons.IH[of ys] by (auto split: prod.splits)
  qed auto
qed simp

lemma split_once_append [simp]: "c \<notin> set a \<Longrightarrow> split_once c (a @ c # b) = Some (a, b)"
  by (simp add: split_once_Some)

lemma split_once_None: "split_once c s = None \<longleftrightarrow> c \<notin> set s"
  by (induction s) auto

lemma starts_with_iff: "starts_with s p \<longleftrightarrow> (\<exists>r. s = p @ r)"
  unfolding starts_with_def by (metis append_eq_conv_conj append_take_drop_id)

lemma digit_char_inj: "i < 10 \<Longrightarrow> j < 10 \<Longrightarrow> digit_char i = digit_char j \<Longrightarrow> i = j"
  by (auto simp: digit_char_def dest!: arg_cong[where f = byte_val])

lemma nat_str_ne [simp]: "nat_str n \<noteq> []"
  by (subst nat_str.simps) simp

lemma be_roundtrip4: "be_val4 (be_bytes4 w) = w"
proof -
  let ?n = "unat w"
  have b: "?n < 4294967296" using unsigned_less[of w] by simp
  have "foldl (\<lambda>n b. n * 256 + byte_val b) 0 (be_bytes4 w) =
        ((?n div 16777216 mod 256 * 256 + ?n div 65536 mod 256) * 256 + ?n div 256 mod 256) * 256 + ?n mod 256"
    by (simp add: be_bytes4_def)
  also have "\<dots> = ?n"
  proof -
    define x y z where "x = ?n div 256" and "y = x div 256" and "z = y div 256"
    have e: "?n div 65536 = y" "?n div 16777216 = z"
      by (simp_all add: x_def y_def z_def div_mult2_eq[symmetric])
    have "z mod 256 = z" using b by (simp add: e(2)[symmetric] less_mult_imp_div_less)
    moreover have "z * 256 + y mod 256 = y" "y * 256 + x mod 256 = x" "x * 256 + ?n mod 256 = ?n"
      by (simp_all add: x_def y_def z_def)
    ultimately show ?thesis by (simp add: e x_def[symmetric])
  qed
  finally show ?thesis by (simp add: be_val4_def)
qed

lemma length_be_bytes4 [simp]: "length (be_bytes4 w) = 4"
  by (simp add: be_bytes4_def)

lemma length_le_bytes8 [simp]: "length (le_bytes8 n) = 8"
  by (simp add: le_bytes8_def)

subsection \<open>Transition systems\<close>

text \<open>
  The interface of every interleaving in the development: a step relation and a predicate its steps preserve. The
  stores, the daemon, the connection layers, the web front end, the configuration files and the MQTT bridge are
  instances.
\<close>

locale invariant_system =
  fixes step :: "'s \<Rightarrow> 's \<Rightarrow> bool" and inv :: "'s \<Rightarrow> bool"
  assumes preserved: "step s s' \<Longrightarrow> inv s \<Longrightarrow> inv s'"
begin

lemma reach_inv: "step\<^sup>*\<^sup>* s s' \<Longrightarrow> inv s \<Longrightarrow> inv s'"
  by (induction rule: rtranclp_induct) (auto intro: preserved)

end

end
