(* ===== verification/Relay_Core.thy ===== *)
theory Relay_Core
  imports Rust_Prelude
begin

text \<open>
  The crate \<open>relay-core\<close> (\<open>src/crates/relay-core/src/lib.rs\<close> and \<open>transport.rs\<close>): priority
  classes, endpoints with their textual form, the message envelope and the transport classes.
  A struct is a record, an enum a datatype; a field keeps its Rust name behind a short prefix,
  because record selectors are global names.
\<close>

subsection \<open>Priority classes\<close>

definition PRIORITY_CLASSES :: "string list" where
  "PRIORITY_CLASSES = [''emergency'', ''high'', ''normal'', ''bulk'', ''background'']"

definition default_priority :: string where
  "default_priority = PRIORITY_CLASSES ! 2"

fun position_from :: "nat \<Rightarrow> string list \<Rightarrow> string \<Rightarrow> nat option" where
  "position_from i [] p = None"
| "position_from i (c # cs) p = (if c = p then Some i else position_from (Suc i) cs p)"

definition priority_rank :: "string \<Rightarrow> nat" where
  "priority_rank priority =
     (case position_from 0 PRIORITY_CLASSES priority of None \<Rightarrow> 2 | Some i \<Rightarrow> i)"

subsection \<open>Endpoints\<close>

record endpoint =
  ep_protocol :: string
  ep_endpoint :: string

definition endpoint_from_str :: "string \<Rightarrow> string + endpoint" where
  "endpoint_from_str s =
     (let err = ''endpoint '' @ [CHR 0x27] @ s @ [CHR 0x27] @ '' must be '' @ [CHR 0x27]
                @ ''protocol:endpoint'' @ [CHR 0x27]
      in case split_once (CHR '':'') s of
           None \<Rightarrow> Err err
         | Some (protocol, ep) \<Rightarrow>
             if protocol = [] \<or> ep = [] then Err err
             else Ok \<lparr>ep_protocol = protocol, ep_endpoint = ep\<rparr>)"

definition endpoint_display :: "endpoint \<Rightarrow> string" where
  "endpoint_display e = ep_protocol e @ '':'' @ ep_endpoint e"

subsection \<open>The envelope\<close>

record attachment_meta =
  am_filename :: string
  am_mime :: string
  am_size :: u64
  am_sha256 :: string

record origin_sig =
  os_node_id :: string
  os_sig :: bytes

record attestation =
  at_node_id :: string
  at_ts :: datetime
  at_sig :: bytes

record envelope =
  env_version :: nat
  env_id :: uuid
  env_source :: endpoint
  env_native_ref :: string
  env_kind :: string
  env_body :: string
  env_created_at :: datetime
  env_received_at :: datetime
  env_expires_at :: datetime
  env_reply_to :: "uuid option"
  env_hop_count :: nat
  env_hop_limit :: nat
  env_attachments :: "attachment_meta list"
  env_priority :: string
  env_origin :: "origin_sig option"
  env_attestations :: "attestation list"
  env_hops :: u32

definition ENVELOPE_VERSION :: nat where
  "ENVELOPE_VERSION = 1"

text \<open>
  \<open>Envelope::new\<close>: the fresh identifier (\<open>Uuid::now_v7()\<close>) and the clock reading
  (\<open>Utc::now()\<close>) are its first two arguments.
\<close>

definition envelope_new ::
  "uuid \<Rightarrow> datetime \<Rightarrow> endpoint \<Rightarrow> string \<Rightarrow> string \<Rightarrow> string \<Rightarrow> datetime \<Rightarrow> datetime \<Rightarrow> nat \<Rightarrow> envelope" where
  "envelope_new fresh now source native_ref kind body created_at expires_at hop_limit =
     \<lparr>env_version = ENVELOPE_VERSION, env_id = fresh, env_source = source,
      env_native_ref = native_ref, env_kind = kind, env_body = body,
      env_created_at = created_at, env_received_at = now, env_expires_at = expires_at,
      env_reply_to = None, env_hop_count = 0, env_hop_limit = hop_limit,
      env_attachments = [], env_priority = default_priority, env_origin = None,
      env_attestations = [], env_hops = 0\<rparr>"

definition is_expired :: "envelope \<Rightarrow> datetime \<Rightarrow> bool" where
  "is_expired env now \<longleftrightarrow> now \<ge> env_expires_at env"

record capabilities =
  cap_text :: bool
  cap_direct_messages :: bool
  cap_groups :: bool
  cap_attachments :: bool
  cap_location :: bool
  cap_reactions :: bool
  cap_receipts :: bool
  cap_presence :: bool
  cap_max_payload :: "nat option"

definition capabilities_default :: capabilities where
  "capabilities_default =
     \<lparr>cap_text = True, cap_direct_messages = False, cap_groups = False, cap_attachments = False,
      cap_location = False, cap_reactions = False, cap_receipts = False, cap_presence = False,
      cap_max_payload = None\<rparr>"

subsection \<open>Transport classes\<close>

datatype transport_class = TerrestrialInternet | SatelliteInternet | Reticulum | Meshtastic
  | MeshCore | Bluetooth | LocalNetwork

record transport_policy =
  tp_max_payload_bytes :: nat
  tp_allow_images :: bool
  tp_allow_video :: bool
  tp_compress :: bool
  tp_batch_telemetry :: bool

definition TERRESTRIAL_MAX_PAYLOAD_BYTES :: nat where
  "TERRESTRIAL_MAX_PAYLOAD_BYTES = 16 * 1024 * 1024"

definition mk_policy :: "nat \<Rightarrow> bool \<Rightarrow> bool \<Rightarrow> bool \<Rightarrow> transport_policy" where
  "mk_policy max_payload media compress batch =
     \<lparr>tp_max_payload_bytes = max_payload, tp_allow_images = media, tp_allow_video = media,
      tp_compress = compress, tp_batch_telemetry = batch\<rparr>"

fun for_class :: "transport_class \<Rightarrow> transport_policy" where
  "for_class SatelliteInternet = mk_policy (32 * 1024) False True True"
| "for_class Meshtastic = mk_policy 237 False True True"
| "for_class MeshCore = mk_policy 237 False True True"
| "for_class Reticulum = mk_policy (32 * 1024) True False True"
| "for_class TerrestrialInternet = mk_policy TERRESTRIAL_MAX_PAYLOAD_BYTES True False False"
| "for_class Bluetooth = mk_policy 65536 True False True"
| "for_class LocalNetwork = mk_policy TERRESTRIAL_MAX_PAYLOAD_BYTES True False False"

subsection \<open>Facts\<close>

lemma default_priority_normal: "default_priority = ''normal''"
  by (simp add: default_priority_def PRIORITY_CLASSES_def)

lemma priority_rank_le: "priority_rank p \<le> 4"
  by (simp add: priority_rank_def PRIORITY_CLASSES_def)

lemma priority_rank_normal [simp]: "priority_rank ''normal'' = 2"
  by (simp add: priority_rank_def PRIORITY_CLASSES_def)

lemma priority_rank_0_iff: "priority_rank p = 0 \<longleftrightarrow> p = ''emergency''"
  by (simp add: priority_rank_def PRIORITY_CLASSES_def)

lemma for_class_pos: "tp_max_payload_bytes (for_class c) > 0"
  by (cases c) (auto simp: mk_policy_def TERRESTRIAL_MAX_PAYLOAD_BYTES_def)

lemma for_class_le: "tp_max_payload_bytes (for_class c) \<le> TERRESTRIAL_MAX_PAYLOAD_BYTES"
  by (cases c) (auto simp: mk_policy_def TERRESTRIAL_MAX_PAYLOAD_BYTES_def)

lemma endpoint_from_str_Ok:
  "endpoint_from_str s = Ok e \<longleftrightarrow>
     s = ep_protocol e @ CHR '':'' # ep_endpoint e \<and> ep_protocol e \<noteq> [] \<and> ep_endpoint e \<noteq> [] \<and>
     CHR '':'' \<notin> set (ep_protocol e)"
proof
  assume "endpoint_from_str s = Ok e"
  then show "s = ep_protocol e @ CHR '':'' # ep_endpoint e \<and> ep_protocol e \<noteq> [] \<and> ep_endpoint e \<noteq> [] \<and>
     CHR '':'' \<notin> set (ep_protocol e)"
    by (auto simp: endpoint_from_str_def Let_def split_once_Some split: option.splits if_splits)
qed (auto simp: endpoint_from_str_def)

text \<open>
  Endpoint text round trip. Parsing a text succeeds exactly when it is the printed form of the
  resulting endpoint and that endpoint is well formed (a non-empty protocol without a colon and a
  non-empty address); so printing then parsing is the identity on well-formed endpoints, parsing
  then printing is the identity on every accepted text, and everything else is an error.
\<close>

theorem endpoint_roundtrip:
  "endpoint_from_str s = Ok e \<longleftrightarrow>
     s = endpoint_display e \<and> ep_protocol e \<noteq> [] \<and> CHR '':'' \<notin> set (ep_protocol e) \<and> ep_endpoint e \<noteq> []"
  by (auto simp: endpoint_from_str_Ok endpoint_display_def)

end
