(* ===== verification/Config_Types.thy ===== *)
theory Config_Types
  imports Relay_Core
begin

text \<open>
  The configuration as the daemon holds it after loading (\<open>src/switchyardd/src/config.rs\<close>): the
  records of the file, the per-plugin transport policy and the effective decryption floor. A
  \<open>BTreeMap\<close> is an association list; a plugin's opaque YAML block is a value of \<open>yaml\<close>.
  The checks of \<open>validate\<close> are in \<open>Config_Validate\<close>; loading and secret resolution in \<open>Secrets\<close>.
\<close>

datatype yaml = YNull | YBool bool | YNumber string | YString string
  | YSequence "yaml list" | YMapping "(yaml \<times> yaml) list" | YTagged string yaml

record node_config =
  nc_name :: string
  nc_data_dir :: string
  nc_public :: bool

record plugin_config =
  pc_enabled :: bool
  pc_command :: "string option"
  pc_config :: yaml
  pc_peer_uid :: "nat option"

record render_config =
  rn_tag :: string
  rn_max_chars :: nat

record route_config =
  rc_name :: string
  rc_sources :: "endpoint list"
  rc_destinations :: "endpoint list"
  rc_identity_mode :: string
  rc_render :: render_config
  rc_security_mode :: string
  rc_allow_gateway_decryption :: "bool option"

record policy_rules =
  pr_max_payload :: "nat option"
  pr_drop_kinds :: "string list"
  pr_deny :: bool
  pr_attachments :: "string option"
  pr_max_attachment_bytes :: "nat option"

record policy =
  pol_name :: string
  pol_destination_protocol :: "string list"
  pol_rules :: policy_rules

record limits =
  lim_sender_messages_per_minute :: u32
  lim_sender_bytes_per_hour :: u64
  lim_route_queue_max :: nat
  lim_global_queue_max :: nat
  lim_global_cas_max_bytes :: nat

record peer_config =
  pe_name :: string
  pe_node_id :: string
  pe_addr :: string
  pe_trust :: string
  pe_messages_per_minute :: u32
  pe_sealed_key :: "string option"

record federation_config =
  fc_listen :: "string option"
  fc_accept_from :: string
  fc_max_hops :: u32
  fc_max_ttl_secs :: nat
  fc_identity_exposure :: string
  fc_ingress_routes :: "string list"
  fc_peers :: "peer_config list"
  fc_trusted :: "string list"
  fc_blocked :: "string list"

record discovery_config =
  dc_mode :: string
  dc_advert_ttl_secs :: nat

record privacy_config =
  pv_minimum_security :: string
  pv_allow_gateway_decryption :: bool
  pv_allow_protocol_downgrade :: bool

record transport_entry =
  te_class :: transport_class
  te_max_payload_bytes :: "nat option"
  te_allow_images :: "bool option"
  te_allow_video :: "bool option"
  te_compress :: "bool option"
  te_batch_telemetry :: "bool option"

record public_service =
  ps_name :: string
  ps_type :: string
  ps_ingress :: "string list"
  ps_egress :: "string list"

record alert_config =
  al_endpoint :: string
  al_events :: "string list"

record config =
  cf_node :: node_config
  cf_plugins :: "(string \<times> plugin_config) list"
  cf_routes :: "route_config list"
  cf_policies :: "policy list"
  cf_ttl_default_secs :: nat
  cf_dedup_ttl_secs :: nat
  cf_retention_secs :: nat
  cf_hop_limit :: nat
  cf_max_attachment_bytes :: nat
  cf_public_services :: "public_service list"
  cf_limits :: limits
  cf_transport_budgets :: "(string \<times> u32) list"
  cf_federation :: "federation_config option"
  cf_discovery :: discovery_config
  cf_privacy :: privacy_config
  cf_transports :: "(string \<times> transport_entry) list"
  cf_alerts :: "alert_config option"
  cf_raw_plugin_configs :: "(string \<times> yaml) list"
  cf_raw_yaml :: string

definition IDENTITY_ROUTE :: string where
  "IDENTITY_ROUTE = ''@identity''"

definition FED_PROTOCOL :: string where
  "FED_PROTOCOL = ''fed''"

definition default_transport_class_for :: "string \<Rightarrow> transport_class" where
  "default_transport_class_for plugin =
     (if plugin \<in> {''mqtt'', ''signal'', ''nostr'', ''bitchat''} then TerrestrialInternet
      else if plugin = ''meshtastic'' then Meshtastic
      else if plugin = ''meshcore'' then MeshCore
      else if plugin = ''lxmf'' then Reticulum
      else TerrestrialInternet)"

definition override :: "'a option \<Rightarrow> 'a \<Rightarrow> 'a" where
  "override v d = (case v of None \<Rightarrow> d | Some x \<Rightarrow> x)"

definition transport_policy_for :: "config \<Rightarrow> string \<Rightarrow> transport_policy" where
  "transport_policy_for c plugin =
     (case map_of (cf_transports c) plugin of
        None \<Rightarrow> for_class (default_transport_class_for plugin)
      | Some e \<Rightarrow>
          let p = for_class (te_class e) in
          \<lparr>tp_max_payload_bytes = override (te_max_payload_bytes e) (tp_max_payload_bytes p),
           tp_allow_images = override (te_allow_images e) (tp_allow_images p),
           tp_allow_video = override (te_allow_video e) (tp_allow_video p),
           tp_compress = override (te_compress e) (tp_compress p),
           tp_batch_telemetry = override (te_batch_telemetry e) (tp_batch_telemetry p)\<rparr>)"

definition effective_allow_gateway_decryption :: "config \<Rightarrow> route_config \<Rightarrow> bool" where
  "effective_allow_gateway_decryption c r =
     (case rc_allow_gateway_decryption r of
        None \<Rightarrow> pv_allow_gateway_decryption (cf_privacy c) | Some b \<Rightarrow> b)"

definition route_cfg :: "config \<Rightarrow> string \<Rightarrow> route_config option" where
  "route_cfg c name = find (\<lambda>r. rc_name r = name) (cf_routes c)"

definition find_peer :: "federation_config \<Rightarrow> string \<Rightarrow> peer_config option" where
  "find_peer f name = find (\<lambda>p. pe_name p = name) (fc_peers f)"

definition peer_name_byte :: "char \<Rightarrow> bool" where
  "peer_name_byte c \<longleftrightarrow> is_lower_byte c \<or> is_digit_byte c \<or> c = CHR ''-''"

definition is_valid_peer_name :: "string \<Rightarrow> bool" where
  "is_valid_peer_name name \<longleftrightarrow> name \<noteq> [] \<and> length name \<le> 32 \<and> list_all peer_name_byte name"

lemma route_cfg_name: "route_cfg c name = Some r \<Longrightarrow> rc_name r = name \<and> r \<in> set (cf_routes c)"
  by (auto simp: route_cfg_def find_Some_iff)

end
