(* ===== verification/Storage.thy ===== *)
theory Storage
  imports Config_Types "HOL-Library.Product_Lexorder" "HOL-Library.List_Lexorder" "HOL-Library.Char_ord"
begin

text \<open>
  The message store (\<open>src/switchyardd/src/storage.rs\<close>), part one: the tables, the messages, the
  delivery rows with their life cycle, the attachment references and the retention purge.

  A table is the list of its rows in rowid order, so \<open>ORDER BY id\<close> is list order and an insert
  appends. Each function is the meaning of its SQL statements on those lists. A statement can fail:
  \<open>sql_fails\<close> says which statements do, a failing statement changes nothing, and a function of
  several statements keeps the effect of the ones before the failure, as without a transaction.
  Timestamp columns hold the instant itself (the RFC 3339 text of years 0 to 9999 sorts as the
  instants do). The foreign key of \<open>deliveries.message_id\<close> is enforced, as in the bundled SQLite. The envelope column holds the envelope, or \<open>None\<close> where its JSON does not parse.
\<close>

datatype dstate = Pending | Attempting | Delivered | Failed | Expired | DeadLetter

fun state_name :: "dstate \<Rightarrow> string" where
  "state_name Pending = ''pending''"
| "state_name Attempting = ''attempting''"
| "state_name Delivered = ''delivered''"
| "state_name Failed = ''failed''"
| "state_name Expired = ''expired''"
| "state_name DeadLetter = ''dead_letter''"

definition in_flight :: "dstate \<Rightarrow> bool" where
  "in_flight s \<longleftrightarrow> s = Pending \<or> s = Attempting"

definition terminal :: "dstate \<Rightarrow> bool" where
  "terminal s \<longleftrightarrow> s \<in> {Delivered, Failed, Expired, DeadLetter}"

record delivery =
  dl_id :: int
  dl_message_id :: uuid
  dl_route :: string
  dl_destination :: endpoint
  dl_priority :: nat
  dl_attempt_count :: nat
  dl_state :: dstate
  dl_reason :: "string option"
  dl_next_attempt :: datetime
  dl_attempted_at :: "datetime option"
  dl_expires_at :: datetime
  dl_created_at :: datetime
  dl_updated_at :: datetime

record message_row =
  mr_id :: uuid
  mr_envelope :: "envelope option"
  mr_created_at :: datetime

record challenge =
  ch_id :: int
  ch_code :: string
  ch_target_protocol :: string
  ch_target_ref :: string
  ch_requester_protocol :: string
  ch_requester_ref :: string
  ch_display_name :: string
  ch_created_at :: datetime
  ch_expires_at :: datetime

record link =
  lk_id :: int
  lk_a_protocol :: string
  lk_a_ref :: string
  lk_b_protocol :: string
  lk_b_ref :: string
  lk_display_name :: string
  lk_verified_at :: datetime

record trust_row =
  tr_node_id :: string
  tr_level :: string
  tr_first_seen :: datetime
  tr_updated_at :: datetime

record advert_row =
  ar_node_id :: string
  ar_advert_cbor :: bytes
  ar_name :: string
  ar_expires :: datetime
  ar_received_at :: datetime

text \<open>One constructor per SQL statement, with the arguments that select the row.\<close>

datatype stmt =
    InsertMessage uuid | InsertRef uuid string | HasRef uuid string | GetMessage uuid
  | InsertDelivery uuid string endpoint | InsertDead uuid string endpoint | PendingCount "string option"
  | SelectDue | MarkAttempting int | MarkDelivered int | MarkRetry int | MarkTerminal int
  | PurgeTerminal | PruneMessages | SelectOrphans | PruneRefs | Requeue int | PurgeDead | Recover
  | ReclaimStale | SelectDeliveries | SelectDelivery int | QueueCounts
  | DeleteChallengesFor string string | InsertChallenge string string | FindChallenge string string
  | DeleteChallenge int | ListChallenges | PurgeChallenges
  | InsertLink string string string string | DeleteLink int | LinkFor string string
  | TrustLevel string | RecordSeen string | SeedTrust string | Downgrade | PruneSeen
  | ListLinks | ListTrust
  | UpsertAdvert string | ListAdverts | PurgeAdverts | PruneAdverts

datatype sql_error = SqlError

record store =
  st_messages :: "message_row list"
  st_deliveries :: "delivery list"
  st_next_delivery :: int
  st_attachments :: "(uuid \<times> string) list"
  st_links :: "link list"
  st_next_link :: int
  st_challenges :: "challenge list"
  st_next_challenge :: int
  st_trust :: "trust_row list"
  st_adverts :: "advert_row list"
  sql_fails :: "stmt \<Rightarrow> bool"

definition store_empty :: "(stmt \<Rightarrow> bool) \<Rightarrow> store" where
  "store_empty fails =
     \<lparr>st_messages = [], st_deliveries = [], st_next_delivery = 1, st_attachments = [], st_links = [],
      st_next_link = 1, st_challenges = [], st_next_challenge = 1, st_trust = [], st_adverts = [],
      sql_fails = fails\<rparr>"

subsection \<open>Messages and attachment references\<close>

definition insert_message :: "envelope \<Rightarrow> store \<Rightarrow> (sql_error + unit) \<times> store" where
  "insert_message env st =
     (if sql_fails st (InsertMessage (env_id env)) then (Err SqlError, st)
      else if env_id env \<in> mr_id ` set (st_messages st) then (Ok (), st)
      else (Ok (), st\<lparr>st_messages := st_messages st @
              [\<lparr>mr_id = env_id env, mr_envelope = Some env, mr_created_at = env_created_at env\<rparr>]\<rparr>))"

fun insert_attachment_refs :: "uuid \<Rightarrow> string list \<Rightarrow> store \<Rightarrow> (sql_error + unit) \<times> store" where
  "insert_attachment_refs mid [] st = (Ok (), st)"
| "insert_attachment_refs mid (sha # shas) st =
     (if sql_fails st (InsertRef mid sha) then (Err SqlError, st)
      else insert_attachment_refs mid shas (st\<lparr>st_attachments := st_attachments st @ [(mid, sha)]\<rparr>))"

definition has_attachment_ref :: "uuid \<Rightarrow> string \<Rightarrow> store \<Rightarrow> sql_error + bool" where
  "has_attachment_ref mid sha st =
     (if sql_fails st (HasRef mid sha) then Err SqlError
      else Ok (0 < length (filter (\<lambda>r. r = (mid, sha)) (st_attachments st))))"

definition get_message :: "uuid \<Rightarrow> store \<Rightarrow> sql_error + envelope option" where
  "get_message mid st =
     (if sql_fails st (GetMessage mid) then Err SqlError
      else Ok (case find (\<lambda>r. mr_id r = mid) (st_messages st) of None \<Rightarrow> None | Some r \<Rightarrow> mr_envelope r))"

subsection \<open>Delivery rows\<close>

definition live_ids :: "store \<Rightarrow> uuid set" where
  "live_ids st = mr_id ` set (st_messages st)"

definition insert_delivery ::
  "datetime \<Rightarrow> uuid \<Rightarrow> string \<Rightarrow> endpoint \<Rightarrow> datetime \<Rightarrow> datetime \<Rightarrow> nat \<Rightarrow> store \<Rightarrow> (sql_error + int) \<times> store" where
  "insert_delivery now mid route dest next_attempt expires_at priority st =
     (if sql_fails st (InsertDelivery mid route dest) \<or> mid \<notin> live_ids st then (Err SqlError, st)
      else (Ok (st_next_delivery st),
            st\<lparr>st_deliveries := st_deliveries st @
                 [\<lparr>dl_id = st_next_delivery st, dl_message_id = mid, dl_route = route, dl_destination = dest,
                   dl_priority = priority, dl_attempt_count = 0, dl_state = Pending, dl_reason = None,
                   dl_next_attempt = next_attempt, dl_attempted_at = None, dl_expires_at = expires_at,
                   dl_created_at = now, dl_updated_at = now\<rparr>],
               st_next_delivery := st_next_delivery st + 1\<rparr>))"

definition insert_dead_delivery ::
  "datetime \<Rightarrow> uuid \<Rightarrow> string \<Rightarrow> endpoint \<Rightarrow> datetime \<Rightarrow> datetime \<Rightarrow> string \<Rightarrow> store \<Rightarrow> (sql_error + int) \<times> store" where
  "insert_dead_delivery now mid route dest next_attempt expires_at reason st =
     (if sql_fails st (InsertDead mid route dest) \<or> mid \<notin> live_ids st then (Err SqlError, st)
      else (Ok (st_next_delivery st),
            st\<lparr>st_deliveries := st_deliveries st @
                 [\<lparr>dl_id = st_next_delivery st, dl_message_id = mid, dl_route = route, dl_destination = dest,
                   dl_priority = 2, dl_attempt_count = 0, dl_state = DeadLetter, dl_reason = Some reason,
                   dl_next_attempt = next_attempt, dl_attempted_at = None, dl_expires_at = expires_at,
                   dl_created_at = now, dl_updated_at = now\<rparr>],
               st_next_delivery := st_next_delivery st + 1\<rparr>))"

definition counts_pending :: "string option \<Rightarrow> delivery \<Rightarrow> bool" where
  "counts_pending route d \<longleftrightarrow> in_flight (dl_state d) \<and> (case route of None \<Rightarrow> True | Some r \<Rightarrow> dl_route d = r)"

definition pending_count :: "string option \<Rightarrow> store \<Rightarrow> sql_error + nat" where
  "pending_count route st =
     (if sql_fails st (PendingCount route) then Err SqlError
      else Ok (length (filter (counts_pending route) (st_deliveries st))))"

definition due_deliveries :: "datetime \<Rightarrow> nat \<Rightarrow> store \<Rightarrow> sql_error + delivery list" where
  "due_deliveries now limit st =
     (if sql_fails st SelectDue then Err SqlError
      else Ok (take limit (sort_key (\<lambda>d. (dl_priority d, dl_next_attempt d))
             (filter (\<lambda>d. dl_state d = Pending \<and> dl_next_attempt d \<le> now) (st_deliveries st)))))"

definition update_deliveries :: "(delivery \<Rightarrow> bool) \<Rightarrow> (delivery \<Rightarrow> delivery) \<Rightarrow> store \<Rightarrow> store" where
  "update_deliveries P f st = st\<lparr>st_deliveries := map (\<lambda>d. if P d then f d else d) (st_deliveries st)\<rparr>"

definition mark_attempting :: "datetime \<Rightarrow> int \<Rightarrow> store \<Rightarrow> (sql_error + unit) \<times> store" where
  "mark_attempting now i st =
     (if sql_fails st (MarkAttempting i) then (Err SqlError, st)
      else (Ok (), update_deliveries (\<lambda>d. dl_id d = i)
              (\<lambda>d. d\<lparr>dl_state := Attempting, dl_attempt_count := dl_attempt_count d + 1,
                     dl_attempted_at := Some now, dl_updated_at := now\<rparr>) st))"

definition mark_delivered :: "datetime \<Rightarrow> int \<Rightarrow> store \<Rightarrow> (sql_error + unit) \<times> store" where
  "mark_delivered now i st =
     (if sql_fails st (MarkDelivered i) then (Err SqlError, st)
      else (Ok (), update_deliveries (\<lambda>d. dl_id d = i \<and> dl_state d = Attempting)
              (\<lambda>d. d\<lparr>dl_state := Delivered, dl_updated_at := now\<rparr>) st))"

definition mark_retry :: "datetime \<Rightarrow> int \<Rightarrow> datetime \<Rightarrow> store \<Rightarrow> (sql_error + unit) \<times> store" where
  "mark_retry now i next_attempt st =
     (if sql_fails st (MarkRetry i) then (Err SqlError, st)
      else (Ok (), update_deliveries (\<lambda>d. dl_id d = i \<and> in_flight (dl_state d))
              (\<lambda>d. d\<lparr>dl_state := Pending, dl_next_attempt := next_attempt, dl_updated_at := now\<rparr>) st))"

definition mark_terminal :: "datetime \<Rightarrow> int \<Rightarrow> dstate \<Rightarrow> string \<Rightarrow> store \<Rightarrow> (sql_error + unit) \<times> store" where
  "mark_terminal now i state reason st =
     (if sql_fails st (MarkTerminal i) then (Err SqlError, st)
      else (Ok (), update_deliveries (\<lambda>d. dl_id d = i \<and> in_flight (dl_state d))
              (\<lambda>d. d\<lparr>dl_state := state, dl_reason := Some reason, dl_updated_at := now\<rparr>) st))"

subsection \<open>Retention and operator actions\<close>

definition prune_orphans :: "store \<Rightarrow> (sql_error + string list) \<times> store" where
  "prune_orphans st =
     (if sql_fails st PruneMessages then (Err SqlError, st)
      else
        let st1 = st\<lparr>st_messages := filter (\<lambda>r. mr_id r \<in> dl_message_id ` set (st_deliveries st)) (st_messages st)\<rparr> in
        if sql_fails st SelectOrphans then (Err SqlError, st1)
        else
          let orphans = filter (\<lambda>sha. \<forall>(m, s) \<in> set (st_attachments st1). s = sha \<longrightarrow> m \<notin> live_ids st1)
                               (remdups (map snd (st_attachments st1))) in
          if sql_fails st PruneRefs then (Err SqlError, st1)
          else (Ok orphans, st1\<lparr>st_attachments := filter (\<lambda>(m, s). m \<in> live_ids st1) (st_attachments st1)\<rparr>))"

definition delete_deliveries :: "(delivery \<Rightarrow> bool) \<Rightarrow> store \<Rightarrow> nat \<times> store" where
  "delete_deliveries P st =
     (length (filter P (st_deliveries st)), st\<lparr>st_deliveries := filter (\<lambda>d. \<not> P d) (st_deliveries st)\<rparr>)"

definition purge_terminal :: "datetime \<Rightarrow> store \<Rightarrow> (sql_error + nat \<times> string list) \<times> store" where
  "purge_terminal older_than st =
     (if sql_fails st PurgeTerminal then (Err SqlError, st)
      else
        let (deleted, st1) = delete_deliveries (\<lambda>d. terminal (dl_state d) \<and> dl_next_attempt d < older_than) st in
        case prune_orphans st1 of
          (Err e, st2) \<Rightarrow> (Err e, st2)
        | (Ok orphans, st2) \<Rightarrow> (Ok (deleted, orphans), st2))"

definition requeue :: "datetime \<Rightarrow> int \<Rightarrow> store \<Rightarrow> (sql_error + bool) \<times> store" where
  "requeue now i st =
     (let P = (\<lambda>d. dl_id d = i \<and> dl_state d \<in> {DeadLetter, Failed, Expired}) in
      if sql_fails st (Requeue i) then (Err SqlError, st)
      else (Ok (0 < length (filter P (st_deliveries st))),
            update_deliveries P
              (\<lambda>d. d\<lparr>dl_state := Pending, dl_next_attempt := now, dl_attempt_count := 0,
                     dl_reason := None, dl_updated_at := now\<rparr>) st))"

definition purge_dead_letters :: "store \<Rightarrow> (sql_error + nat \<times> string list) \<times> store" where
  "purge_dead_letters st =
     (if sql_fails st PurgeDead then (Err SqlError, st)
      else
        let (deleted, st1) = delete_deliveries (\<lambda>d. dl_state d = DeadLetter) st in
        case prune_orphans st1 of
          (Err e, st2) \<Rightarrow> (Err e, st2)
        | (Ok orphans, st2) \<Rightarrow> (Ok (deleted, orphans), st2))"

definition recover :: "store \<Rightarrow> (sql_error + nat) \<times> store" where
  "recover st =
     (if sql_fails st Recover then (Err SqlError, st)
      else (Ok (length (filter (\<lambda>d. dl_state d = Attempting) (st_deliveries st))),
            update_deliveries (\<lambda>d. dl_state d = Attempting) (\<lambda>d. d\<lparr>dl_state := Pending\<rparr>) st))"

definition stale :: "datetime \<Rightarrow> delivery \<Rightarrow> bool" where
  "stale older_than d \<longleftrightarrow> dl_state d = Attempting \<and>
     (case dl_attempted_at d of None \<Rightarrow> False | Some t \<Rightarrow> t < older_than)"

definition reclaim_stale :: "datetime \<Rightarrow> store \<Rightarrow> (sql_error + nat) \<times> store" where
  "reclaim_stale older_than st =
     (if sql_fails st ReclaimStale then (Err SqlError, st)
      else (Ok (length (filter (stale older_than) (st_deliveries st))),
            update_deliveries (stale older_than) (\<lambda>d. d\<lparr>dl_state := Pending\<rparr>) st))"

subsection \<open>Queries\<close>

definition queue_count :: "dstate \<Rightarrow> store \<Rightarrow> sql_error + nat" where
  "queue_count s st =
     (if sql_fails st SelectDeliveries then Err SqlError
      else Ok (length (filter (\<lambda>d. dl_state d = s) (st_deliveries st))))"

definition deliveries_for :: "uuid \<Rightarrow> store \<Rightarrow> sql_error + delivery list" where
  "deliveries_for mid st =
     (if sql_fails st SelectDeliveries then Err SqlError
      else Ok (filter (\<lambda>d. dl_message_id d = mid) (st_deliveries st)))"

text \<open>SQLite's \<open>LIKE\<close>: \<open>%\<close> matches any run, \<open>_\<close> one character, ASCII letters match in either case.\<close>

definition ascii_lower :: "char \<Rightarrow> char" where
  "ascii_lower c = (if is_upper_byte c then char_of (byte_val c + 32) else c)"

function like :: "string \<Rightarrow> string \<Rightarrow> bool" where
  "like [] s = (s = [])"
| "like (p # ps) s =
     (if p = CHR ''%'' then like ps s \<or> (case s of [] \<Rightarrow> False | _ # t \<Rightarrow> like (p # ps) t)
      else case s of
             [] \<Rightarrow> False
           | c # t \<Rightarrow>
               if p = CHR ''_'' then like ps (dropWhile is_cont t)
               else ascii_lower p = ascii_lower c \<and> like ps t)"
  by pat_completeness auto
termination
  by (relation "measure (\<lambda>(p, s). length p + length s)") (auto simp: le_imp_less_Suc le_SucI length_dropWhile_le)

declare like.simps(2) [simp del]

definition deliveries_for_fed_ack :: "uuid \<Rightarrow> string \<Rightarrow> store \<Rightarrow> sql_error + delivery list" where
  "deliveries_for_fed_ack mid peer_key st =
     (if sql_fails st SelectDeliveries then Err SqlError
      else Ok (filter (\<lambda>d. dl_message_id d = mid \<and> ep_protocol (dl_destination d) = ''fed'' \<and>
                           like (peer_key @ ''/%'') (ep_endpoint (dl_destination d))) (st_deliveries st)))"

definition deliveries_for_id :: "int \<Rightarrow> store \<Rightarrow> delivery option" where
  "deliveries_for_id i st =
     (if sql_fails st (SelectDelivery i) then None
      else find (\<lambda>d. dl_id d = i) (st_deliveries st))"

definition list_deliveries :: "string option \<Rightarrow> nat \<Rightarrow> store \<Rightarrow> sql_error + delivery list" where
  "list_deliveries state limit st =
     (if sql_fails st SelectDeliveries then Err SqlError
      else Ok (take limit (rev (filter (\<lambda>d. case state of None \<Rightarrow> True | Some s \<Rightarrow> state_name (dl_state d) = s)
                 (st_deliveries st)))))"

text \<open>The groups come in the order of the state names.\<close>

definition queue_counts :: "store \<Rightarrow> sql_error + (string \<times> int) list" where
  "queue_counts st =
     (if sql_fails st QueueCounts then Err SqlError
      else Ok (map (\<lambda>s. (state_name s, int (length (filter (\<lambda>d. dl_state d = s) (st_deliveries st)))))
                 (filter (\<lambda>s. list_ex (\<lambda>d. dl_state d = s) (st_deliveries st)) [Attempting, DeadLetter, Delivered, Expired, Failed, Pending])))"

end
