(* ===== verification/Routing_Policy.thy ===== *)
theory Routing_Policy
  imports Config_Types
begin

text \<open>
  Route selection (\<open>src/switchyardd/src/routes.rs\<close>), policy evaluation (\<open>policy.rs\<close>) and the
  route-scoped pseudonym (\<open>alias.rs\<close>). HMAC-SHA-256 and the Unicode upper-case table for characters
  outside ASCII are arguments.
\<close>

definition route :: "route_config list \<Rightarrow> endpoint \<Rightarrow> (string \<times> endpoint) list" where
  "route routes source =
     concat (map (\<lambda>r. if source \<in> set (rc_sources r)
                      then map (\<lambda>dest. (rc_name r, dest)) (filter (\<lambda>dest. dest \<noteq> source) (rc_destinations r))
                      else []) routes)"

datatype decision =
    Allow (max_payload: "nat option") (attachments_allowed: bool) (max_attachment_bytes: "nat option")
  | Deny (denied_by: string)

definition policy_matches :: "policy \<Rightarrow> endpoint \<Rightarrow> bool" where
  "policy_matches p dest \<longleftrightarrow>
     pol_destination_protocol p = [] \<or> ep_protocol dest \<in> set (pol_destination_protocol p)"

definition tighten :: "nat option \<Rightarrow> nat option \<Rightarrow> nat option" where
  "tighten cur new = (case new of None \<Rightarrow> cur | Some m \<Rightarrow> Some (case cur of None \<Rightarrow> m | Some c \<Rightarrow> min c m))"

fun evaluate_from ::
  "nat option \<Rightarrow> bool \<Rightarrow> nat option \<Rightarrow> policy list \<Rightarrow> envelope \<Rightarrow> endpoint \<Rightarrow> decision" where
  "evaluate_from mp att mab [] env dest = Allow mp att mab"
| "evaluate_from mp att mab (p # ps) env dest =
     (if \<not> policy_matches p dest then evaluate_from mp att mab ps env dest
      else if pr_deny (pol_rules p) \<or> env_kind env \<in> set (pr_drop_kinds (pol_rules p)) then Deny (pol_name p)
      else evaluate_from
             (tighten mp (pr_max_payload (pol_rules p)))
             (if pr_attachments (pol_rules p) = Some ''reject'' then False else att)
             (tighten mab (pr_max_attachment_bytes (pol_rules p)))
             ps env dest)"

definition evaluate :: "policy list \<Rightarrow> envelope \<Rightarrow> endpoint \<Rightarrow> decision" where
  "evaluate policies env dest = evaluate_from None True None policies env dest"

definition to_upper :: "(string \<Rightarrow> string) \<Rightarrow> string \<Rightarrow> string" where
  "to_upper upper_nonascii s =
     concat (map (\<lambda>c. if length c = 1 \<and> is_lower_byte (hd c) then [char_of (byte_val (hd c) - 32)]
                      else if length c = 1 then c else upper_nonascii c) (rust_chars s))"

definition alias_for ::
  "(bytes \<Rightarrow> bytes \<Rightarrow> bytes) \<Rightarrow> (string \<Rightarrow> string) \<Rightarrow> bytes \<Rightarrow> string \<Rightarrow> string \<Rightarrow> string \<Rightarrow> string" where
  "alias_for hmac upper_nonascii key protocol native_ref scope =
     (let out = hmac key (protocol @ ''|'' @ native_ref @ ''|'' @ scope);
          prefix = to_upper upper_nonascii (concat (take 4 (rust_chars protocol)))
      in prefix @ ''-'' @ hex_byte_upper (out ! 0) @ hex_byte_upper (out ! 1))"

subsection \<open>Facts\<close>

lemma route_iff:
  "(name, dest) \<in> set (route routes source) \<longleftrightarrow>
     (\<exists>r \<in> set routes. rc_name r = name \<and> source \<in> set (rc_sources r) \<and> dest \<in> set (rc_destinations r) \<and> dest \<noteq> source)"
  by (auto simp: route_def)

lemma route_no_match: "\<forall>r \<in> set routes. source \<notin> set (rc_sources r) \<Longrightarrow> route routes source = []"
  by (auto simp: route_def)

text \<open>
  Deny by default. A (route, destination) pair is a target of an ingress endpoint exactly when
  some configured route of that name lists the endpoint as a source and the destination as a
  destination, and the destination is not the ingress endpoint itself; an endpoint no route lists
  has no target at all.
\<close>

theorem route_deny_by_default:
  "((name, dest) \<in> set (route routes source) \<longleftrightarrow>
     (\<exists>r \<in> set routes. rc_name r = name \<and> source \<in> set (rc_sources r) \<and>
        dest \<in> set (rc_destinations r) \<and> dest \<noteq> source)) \<and>
   (route routes source = [] \<longleftrightarrow>
     (\<forall>r \<in> set routes. source \<in> set (rc_sources r) \<longrightarrow> set (rc_destinations r) \<subseteq> {source}))"
proof -
  have "route routes source = [] \<longleftrightarrow> (\<forall>name dest. (name, dest) \<notin> set (route routes source))"
    by (metis hd_in_set list.set_cases list.distinct(1) prod.collapse)
  also have "\<dots> \<longleftrightarrow> (\<forall>r \<in> set routes. source \<in> set (rc_sources r) \<longrightarrow> set (rc_destinations r) \<subseteq> {source})"
    unfolding route_iff by blast
  finally show ?thesis using route_iff by blast
qed

definition mk_route :: "string \<Rightarrow> endpoint list \<Rightarrow> endpoint list \<Rightarrow> route_config" where
  "mk_route name srcs dests =
     \<lparr>rc_name = name, rc_sources = srcs, rc_destinations = dests, rc_identity_mode = ''pseudonymous'',
      rc_render = \<lparr>rn_tag = ''alias'', rn_max_chars = 0\<rparr>, rc_security_mode = ''gateway'',
      rc_allow_gateway_decryption = None\<rparr>"

definition mk_ep :: "string \<Rightarrow> string \<Rightarrow> endpoint" where
  "mk_ep p e = \<lparr>ep_protocol = p, ep_endpoint = e\<rparr>"

theorem route_deny_by_default_witness:
  "(''demo'', mk_ep ''mqtt'' ''b'') \<in> set (route [mk_route ''demo'' [mk_ep ''mqtt'' ''a''] [mk_ep ''mqtt'' ''b'', mk_ep ''mqtt'' ''a'']] (mk_ep ''mqtt'' ''a'')) \<and>
   route [mk_route ''demo'' [mk_ep ''mqtt'' ''a''] [mk_ep ''mqtt'' ''b'']] (mk_ep ''mqtt'' ''b'') = []"
  using route_deny_by_default[of "''demo''" "mk_ep ''mqtt'' ''b''" "[mk_route ''demo'' [mk_ep ''mqtt'' ''a''] [mk_ep ''mqtt'' ''b'', mk_ep ''mqtt'' ''a'']]" "mk_ep ''mqtt'' ''a''"]
        route_deny_by_default[of "''demo''" "mk_ep ''mqtt'' ''b''" "[mk_route ''demo'' [mk_ep ''mqtt'' ''a''] [mk_ep ''mqtt'' ''b'']]" "mk_ep ''mqtt'' ''b''"]
  by (simp add: mk_route_def mk_ep_def)

text \<open>The caps of the matching policies, as the specification reads them.\<close>

definition denies :: "policy \<Rightarrow> envelope \<Rightarrow> endpoint \<Rightarrow> bool" where
  "denies p env dest \<longleftrightarrow> policy_matches p dest \<and>
     (pr_deny (pol_rules p) \<or> env_kind env \<in> set (pr_drop_kinds (pol_rules p)))"

definition opt_le :: "nat option \<Rightarrow> nat \<Rightarrow> bool" where
  "opt_le m v \<longleftrightarrow> (\<exists>x. m = Some x \<and> x \<le> v)"

lemma tighten_le: "opt_le (tighten cur new) v \<longleftrightarrow> opt_le cur v \<or> opt_le new v"
  by (auto simp: opt_le_def tighten_def min_le_iff_disj split: option.splits)

lemma evaluate_from_deny:
  "evaluate_from mp att mab ps env dest = Deny n \<longleftrightarrow>
     (\<exists>p. find (\<lambda>p. denies p env dest) ps = Some p \<and> n = pol_name p)"
  by (induction ps arbitrary: mp att mab) (auto simp: denies_def)

lemma evaluate_from_payload:
  "evaluate_from mp att mab ps env dest = Allow mp' att' mab' \<Longrightarrow>
   opt_le mp' v \<longleftrightarrow> opt_le mp v \<or> (\<exists>p \<in> set ps. policy_matches p dest \<and> opt_le (pr_max_payload (pol_rules p)) v)"
  by (induction ps arbitrary: mp att mab) (auto simp: tighten_le split: if_splits)

lemma evaluate_from_att_bytes:
  "evaluate_from mp att mab ps env dest = Allow mp' att' mab' \<Longrightarrow>
   opt_le mab' v \<longleftrightarrow> opt_le mab v \<or> (\<exists>p \<in> set ps. policy_matches p dest \<and> opt_le (pr_max_attachment_bytes (pol_rules p)) v)"
  by (induction ps arbitrary: mp att mab) (auto simp: tighten_le split: if_splits)

lemma evaluate_from_att:
  "evaluate_from mp att mab ps env dest = Allow mp' att' mab' \<Longrightarrow>
   att' \<longleftrightarrow> att \<and> (\<forall>p \<in> set ps. policy_matches p dest \<longrightarrow> pr_attachments (pol_rules p) \<noteq> Some ''reject'')"
proof (induction ps arbitrary: mp att mab)
  case (Cons p ps)
  show ?case
  proof (cases "policy_matches p dest")
    case True
    then have "evaluate_from (tighten mp (pr_max_payload (pol_rules p)))
        (if pr_attachments (pol_rules p) = Some ''reject'' then False else att)
        (tighten mab (pr_max_attachment_bytes (pol_rules p))) ps env dest = Allow mp' att' mab'"
      using Cons.prems by (auto split: if_splits)
    from Cons.IH[OF this] show ?thesis using True by auto
  qed (use Cons in auto)
qed simp

lemmas evaluate_from_allow = evaluate_from_payload evaluate_from_att_bytes evaluate_from_att

text \<open>
  Policy evaluation. A message is denied exactly when some matching policy denies it (by
  \<open>deny\<close> or by its kind), and then the first such policy is reported; otherwise the payload and
  attachment caps are the tightest of all matching policies (a value is allowed to be capped at
  \<open>v\<close> exactly when some matching policy sets a cap of at most \<open>v\<close>) and attachments are allowed
  unless a matching policy says \<open>reject\<close>. Policies that do not match have no influence.
\<close>

theorem evaluate_correct:
  "(case evaluate ps env dest of
      Deny n \<Rightarrow> (\<exists>p. find (\<lambda>p. denies p env dest) ps = Some p \<and> n = pol_name p)
    | Allow mp att mab \<Rightarrow>
        (\<forall>p \<in> set ps. \<not> denies p env dest) \<and>
        (\<forall>v. opt_le mp v \<longleftrightarrow> (\<exists>p \<in> set ps. policy_matches p dest \<and> opt_le (pr_max_payload (pol_rules p)) v)) \<and>
        (\<forall>v. opt_le mab v \<longleftrightarrow> (\<exists>p \<in> set ps. policy_matches p dest \<and> opt_le (pr_max_attachment_bytes (pol_rules p)) v)) \<and>
        (att \<longleftrightarrow> (\<forall>p \<in> set ps. policy_matches p dest \<longrightarrow> pr_attachments (pol_rules p) \<noteq> Some ''reject'')))"
proof (cases "evaluate ps env dest")
  case (Deny n)
  then have "\<exists>p. find (\<lambda>p. denies p env dest) ps = Some p \<and> n = pol_name p"
    using evaluate_from_deny by (metis evaluate_def)
  then show ?thesis using Deny by simp
next
  case (Allow mp att mab)
  then have e: "evaluate_from None True None ps env dest = Allow mp att mab" by (simp add: evaluate_def)
  have "find (\<lambda>p. denies p env dest) ps = None"
    using evaluate_from_deny[of None True None ps env dest] e by (metis decision.distinct(1) not_None_eq)
  then have "\<forall>p \<in> set ps. \<not> denies p env dest" by (simp add: find_None_iff)
  moreover have "opt_le None v = False" for v by (simp add: opt_le_def)
  ultimately show ?thesis using Allow evaluate_from_allow[OF e] by simp
qed

definition mk_policy_rule :: "string \<Rightarrow> string list \<Rightarrow> nat option \<Rightarrow> string list \<Rightarrow> policy" where
  "mk_policy_rule name protos mp kinds =
     \<lparr>pol_name = name, pol_destination_protocol = protos,
      pol_rules = \<lparr>pr_max_payload = mp, pr_drop_kinds = kinds, pr_deny = False, pr_attachments = None,
                   pr_max_attachment_bytes = None\<rparr>\<rparr>"

definition sample_env :: "string \<Rightarrow> string \<Rightarrow> envelope" where
  "sample_env kind body = envelope_new ''id-1'' 0 (mk_ep ''mqtt'' ''a'') ''alice'' kind body 0 1000 8"

theorem evaluate_correct_witness:
  "evaluate [mk_policy_rule ''p1'' [] (Some 100) [], mk_policy_rule ''p2'' [''lora''] (Some 50) [''video'']]
     (sample_env ''text'' ''hi'') (mk_ep ''lora'' ''x'') = Allow (Some 50) True None \<and>
   evaluate [mk_policy_rule ''p1'' [] (Some 100) [], mk_policy_rule ''p2'' [''lora''] (Some 50) [''video'']]
     (sample_env ''video'' ''hi'') (mk_ep ''lora'' ''x'') = Deny ''p2'' \<and>
   opt_le (Some 50) 60"
proof -
  let ?ps = "[mk_policy_rule ''p1'' [] (Some 100) [], mk_policy_rule ''p2'' [''lora''] (Some 50) [''video'']]"
  have a: "evaluate ?ps (sample_env ''text'' ''hi'') (mk_ep ''lora'' ''x'') = Allow (Some 50) True None"
    by (simp add: evaluate_def policy_matches_def mk_policy_rule_def mk_ep_def sample_env_def envelope_new_def tighten_def)
  have d: "evaluate ?ps (sample_env ''video'' ''hi'') (mk_ep ''lora'' ''x'') = Deny ''p2''"
    by (simp add: evaluate_def policy_matches_def mk_policy_rule_def mk_ep_def sample_env_def envelope_new_def tighten_def)
  have "opt_le (Some 50) 60 \<longleftrightarrow> (\<exists>p \<in> set ?ps. policy_matches p (mk_ep ''lora'' ''x'') \<and> opt_le (pr_max_payload (pol_rules p)) 60)"
    using evaluate_correct[of ?ps "sample_env ''text'' ''hi''" "mk_ep ''lora'' ''x''"] unfolding a decision.case by blast
  moreover have "opt_le (Some 50) 60" by (simp add: opt_le_def)
  ultimately show ?thesis using a d by simp
qed

end
