(* ===== verification/Storage_Lifecycle.thy ===== *)
theory Storage_Lifecycle
  imports Storage Routing_Policy
begin

text \<open>
  What the delivery tables promise. The interface \<open>delivery_update\<close> is the shape every
  \<open>UPDATE deliveries\<close> of the store has; \<open>settling_update\<close> adds that only rows in flight are
  touched. Both are interpreted on the operations of \<open>Storage\<close>. The step relation
  \<open>store_step\<close> collects all operations that change the delivery tables, and the table invariant
  \<open>store_inv\<close> is kept by each step.
\<close>

subsection \<open>Updates of delivery rows\<close>

locale delivery_update =
  fixes upd :: "store \<Rightarrow> (sql_error + 'r) \<times> store"
    and guard :: "delivery \<Rightarrow> bool"
    and change :: "delivery \<Rightarrow> delivery"
  assumes upd_effect: "snd (upd st) = st \<or> snd (upd st) = update_deliveries guard change st"
    and same_row: "dl_id (change d) = dl_id d" "dl_message_id (change d) = dl_message_id d"
      "dl_route (change d) = dl_route d" "dl_destination (change d) = dl_destination d"
      "dl_priority (change d) = dl_priority d" "dl_expires_at (change d) = dl_expires_at d"
      "dl_created_at (change d) = dl_created_at d"
begin

lemma upd_rows:
  obtains "snd (upd st) = st"
  | "st_deliveries (snd (upd st)) = map (\<lambda>d. if guard d then change d else d) (st_deliveries st)"
  using upd_effect[of st] by (auto simp: update_deliveries_def)

lemma upd_frame:
  "st_messages (snd (upd st)) = st_messages st" "st_attachments (snd (upd st)) = st_attachments st"
  "st_next_delivery (snd (upd st)) = st_next_delivery st" "st_links (snd (upd st)) = st_links st"
  "st_challenges (snd (upd st)) = st_challenges st" "st_trust (snd (upd st)) = st_trust st"
  "st_adverts (snd (upd st)) = st_adverts st" "sql_fails (snd (upd st)) = sql_fails st"
  "live_ids (snd (upd st)) = live_ids st"
  using upd_effect[of st] by (auto simp: update_deliveries_def live_ids_def)

lemma upd_keys:
  "map (\<lambda>d. (dl_id d, dl_message_id d, dl_route d, dl_destination d, dl_priority d, dl_expires_at d))
     (st_deliveries (snd (upd st))) =
   map (\<lambda>d. (dl_id d, dl_message_id d, dl_route d, dl_destination d, dl_priority d, dl_expires_at d))
     (st_deliveries st)"
  by (rule upd_rows[of st]) (auto simp: same_row)

lemma upd_ids: "map dl_id (st_deliveries (snd (upd st))) = map dl_id (st_deliveries st)"
  "map dl_message_id (st_deliveries (snd (upd st))) = map dl_message_id (st_deliveries st)"
  by (rule upd_rows[of st]; auto simp: same_row)+

lemma upd_untouched: "d \<in> set (st_deliveries st) \<Longrightarrow> \<not> guard d \<Longrightarrow> d \<in> set (st_deliveries (snd (upd st)))"
  by (rule upd_rows[of st]) force+

lemma upd_row:
  assumes "d' \<in> set (st_deliveries (snd (upd st)))"
  obtains "d' \<in> set (st_deliveries st)" | d where "d \<in> set (st_deliveries st)" "guard d" "d' = change d"
  using assms by (rule_tac upd_rows[of st]) (auto split: if_splits)

end

locale settling_update = delivery_update +
  assumes only_in_flight: "guard d \<Longrightarrow> in_flight (dl_state d)"
begin

lemma terminal_kept:
  "d \<in> set (st_deliveries st) \<Longrightarrow> terminal (dl_state d) \<Longrightarrow> d \<in> set (st_deliveries (snd (upd st)))"
  by (rule upd_untouched) (auto dest: only_in_flight simp: in_flight_def terminal_def)

end

lemma update_deliveries_changed:
  "d \<in> set (st_deliveries st) \<Longrightarrow> P d \<Longrightarrow> f d \<in> set (st_deliveries (update_deliveries P f st))"
  by (force simp: update_deliveries_def image_iff)

interpretation attempting: delivery_update "mark_attempting now i" "\<lambda>d. dl_id d = i"
  "\<lambda>d. d\<lparr>dl_state := Attempting, dl_attempt_count := dl_attempt_count d + 1,
         dl_attempted_at := Some now, dl_updated_at := now\<rparr>" for now i
  by unfold_locales (auto simp: mark_attempting_def)

interpretation delivered: settling_update "mark_delivered now i" "\<lambda>d. dl_id d = i \<and> dl_state d = Attempting"
  "\<lambda>d. d\<lparr>dl_state := Delivered, dl_updated_at := now\<rparr>" for now i
  by unfold_locales (auto simp: mark_delivered_def in_flight_def)

interpretation retry: settling_update "mark_retry now i nxt" "\<lambda>d. dl_id d = i \<and> in_flight (dl_state d)"
  "\<lambda>d. d\<lparr>dl_state := Pending, dl_next_attempt := nxt, dl_updated_at := now\<rparr>" for now i nxt
  by unfold_locales (auto simp: mark_retry_def)

interpretation settle: settling_update "mark_terminal now i s reason" "\<lambda>d. dl_id d = i \<and> in_flight (dl_state d)"
  "\<lambda>d. d\<lparr>dl_state := s, dl_reason := Some reason, dl_updated_at := now\<rparr>" for now i s reason
  by unfold_locales (auto simp: mark_terminal_def)

interpretation recovering: settling_update recover "\<lambda>d. dl_state d = Attempting" "\<lambda>d. d\<lparr>dl_state := Pending\<rparr>"
  by unfold_locales (auto simp: recover_def in_flight_def)

interpretation reclaim: settling_update "reclaim_stale older" "stale older" "\<lambda>d. d\<lparr>dl_state := Pending\<rparr>" for older
  by unfold_locales (auto simp: reclaim_stale_def stale_def in_flight_def)

interpretation requeueing: delivery_update "requeue now i"
  "\<lambda>d. dl_id d = i \<and> dl_state d \<in> {DeadLetter, Failed, Expired}"
  "\<lambda>d. d\<lparr>dl_state := Pending, dl_next_attempt := now, dl_attempt_count := 0,
         dl_reason := None, dl_updated_at := now\<rparr>" for now i
  by unfold_locales (auto simp: requeue_def Let_def)

subsection \<open>The steps of the store\<close>

inductive store_step :: "store \<Rightarrow> store \<Rightarrow> bool" where
  s_insert_message: "store_step st (snd (insert_message env st))"
| s_insert_refs: "store_step st (snd (insert_attachment_refs mid shas st))"
| s_insert_delivery: "store_step st (snd (insert_delivery now mid r dest nxt ex prio st))"
| s_insert_dead: "store_step st (snd (insert_dead_delivery now mid r dest nxt ex reason st))"
| s_attempting: "store_step st (snd (mark_attempting now i st))"
| s_delivered: "store_step st (snd (mark_delivered now i st))"
| s_retry: "store_step st (snd (mark_retry now i nxt st))"
| s_terminal: "s \<in> {Failed, Expired, DeadLetter} \<Longrightarrow> store_step st (snd (mark_terminal now i s reason st))"
| s_purge: "store_step st (snd (purge_terminal older st))"
| s_requeue: "store_step st (snd (requeue now i st))"
| s_purge_dead: "store_step st (snd (purge_dead_letters st))"
| s_recover: "store_step st (snd (recover st))"
| s_reclaim: "store_step st (snd (reclaim_stale older st))"

definition ids_ok :: "store \<Rightarrow> bool" where
  "ids_ok st \<longleftrightarrow> sorted_wrt (<) (map dl_id (st_deliveries st)) \<and> (\<forall>d \<in> set (st_deliveries st). dl_id d < st_next_delivery st)"

definition refs_ok :: "store \<Rightarrow> bool" where
  "refs_ok st \<longleftrightarrow> distinct (map mr_id (st_messages st)) \<and> dl_message_id ` set (st_deliveries st) \<subseteq> live_ids st"

definition store_inv :: "store \<Rightarrow> bool" where
  "store_inv st \<longleftrightarrow> ids_ok st \<and> refs_ok st"

lemma store_inv_empty [simp]: "store_inv (store_empty fails)"
  by (simp add: store_inv_def ids_ok_def refs_ok_def store_empty_def)

lemma store_inv_same_keys:
  assumes "map dl_id (st_deliveries st') = map dl_id (st_deliveries st)"
    "map dl_message_id (st_deliveries st') = map dl_message_id (st_deliveries st)"
    "st_messages st' = st_messages st" "st_next_delivery st' = st_next_delivery st"
    "store_inv st"
  shows "store_inv st'"
proof -
  have i: "dl_id ` set (st_deliveries st') = dl_id ` set (st_deliveries st)"
    and m: "dl_message_id ` set (st_deliveries st') = dl_message_id ` set (st_deliveries st)"
    using assms(1,2) by (metis set_map)+
  have "\<forall>x \<in> dl_id ` set (st_deliveries st'). x < st_next_delivery st"
    unfolding i using assms(5) by (auto simp: store_inv_def ids_ok_def)
  then show ?thesis using assms m
    by (auto simp: store_inv_def ids_ok_def refs_ok_def live_ids_def)
qed

lemma store_inv_insert_message: "store_inv st \<Longrightarrow> store_inv (snd (insert_message env st))"
  by (auto simp: store_inv_def ids_ok_def refs_ok_def insert_message_def live_ids_def)

lemma insert_refs_frame:
  "st_messages (snd (insert_attachment_refs mid shas st)) = st_messages st"
  "st_deliveries (snd (insert_attachment_refs mid shas st)) = st_deliveries st"
  "st_next_delivery (snd (insert_attachment_refs mid shas st)) = st_next_delivery st"
  by (induction mid shas st rule: insert_attachment_refs.induct) auto

lemma store_inv_append_row:
  assumes "store_inv st" "dl_id d = st_next_delivery st" "dl_message_id d \<in> live_ids st"
  shows "store_inv (st\<lparr>st_deliveries := st_deliveries st @ [d], st_next_delivery := st_next_delivery st + 1\<rparr>)"
  using assms by (force simp: store_inv_def ids_ok_def refs_ok_def live_ids_def sorted_wrt_append)

lemma sorted_wrt_map_filter: "sorted_wrt R (map f xs) \<Longrightarrow> sorted_wrt R (map f (filter P xs))"
  by (induction xs) auto

lemma store_inv_delete: "store_inv st \<Longrightarrow> store_inv (snd (delete_deliveries P st))"
  by (auto simp: store_inv_def ids_ok_def refs_ok_def delete_deliveries_def live_ids_def sorted_wrt_map_filter)

lemma prune_orphans_rows:
  "st_deliveries (snd (prune_orphans st)) = st_deliveries st"
  "st_next_delivery (snd (prune_orphans st)) = st_next_delivery st"
  "st_messages (snd (prune_orphans st)) =
     (if sql_fails st PruneMessages then st_messages st
      else filter (\<lambda>r. mr_id r \<in> dl_message_id ` set (st_deliveries st)) (st_messages st))"
  by (auto simp: prune_orphans_def Let_def)

lemma store_inv_prune:
  assumes "store_inv st"
  shows "store_inv (snd (prune_orphans st))"
proof -
  have "dl_message_id ` set (st_deliveries st) \<subseteq> mr_id ` set (st_messages (snd (prune_orphans st)))"
  proof
    fix m assume m: "m \<in> dl_message_id ` set (st_deliveries st)"
    then obtain r where "r \<in> set (st_messages st)" "mr_id r = m"
      using assms by (auto simp: store_inv_def refs_ok_def live_ids_def)
    then show "m \<in> mr_id ` set (st_messages (snd (prune_orphans st)))"
      using m by (auto simp: prune_orphans_rows)
  qed
  moreover have "distinct (map mr_id (st_messages (snd (prune_orphans st))))"
    using assms by (auto simp: store_inv_def refs_ok_def prune_orphans_rows distinct_map intro: inj_on_subset)
  ultimately show ?thesis using assms
    by (simp add: store_inv_def ids_ok_def refs_ok_def live_ids_def prune_orphans_rows)
qed

lemma purge_terminal_snd:
  "snd (purge_terminal older st) =
     (if sql_fails st PurgeTerminal then st
      else snd (prune_orphans (snd (delete_deliveries (\<lambda>d. terminal (dl_state d) \<and> dl_next_attempt d < older) st))))"
  by (auto simp: purge_terminal_def delete_deliveries_def Let_def split: prod.splits sum.splits)

lemma purge_dead_snd:
  "snd (purge_dead_letters st) =
     (if sql_fails st PurgeDead then st
      else snd (prune_orphans (snd (delete_deliveries (\<lambda>d. dl_state d = DeadLetter) st))))"
  by (auto simp: purge_dead_letters_def delete_deliveries_def Let_def split: prod.splits sum.splits)

lemma store_step_inv: "store_step st st' \<Longrightarrow> store_inv st \<Longrightarrow> store_inv st'"
proof (induction rule: store_step.induct)
  case (s_insert_delivery now mid r dest nxt ex prio st)
  then show ?case by (auto simp: insert_delivery_def intro!: store_inv_append_row)
next
  case (s_insert_dead now mid r dest nxt ex reason st)
  then show ?case by (auto simp: insert_dead_delivery_def intro!: store_inv_append_row)
next
  case (s_insert_refs mid shas st)
  then show ?case by (intro store_inv_same_keys[OF _ _ _ _ s_insert_refs]) (simp_all add: insert_refs_frame)
next
  case (s_attempting now i st)
  show ?case by (intro store_inv_same_keys[OF _ _ _ _ s_attempting] attempting.upd_ids attempting.upd_frame)
next
  case (s_delivered now i st)
  show ?case by (intro store_inv_same_keys[OF _ _ _ _ s_delivered] delivered.upd_ids delivered.upd_frame)
next
  case (s_retry now i nxt st)
  show ?case by (intro store_inv_same_keys[OF _ _ _ _ s_retry] retry.upd_ids retry.upd_frame)
next
  case (s_terminal s st now i reason)
  show ?case by (intro store_inv_same_keys[OF _ _ _ _ s_terminal(2)] settle.upd_ids settle.upd_frame)
next
  case (s_requeue now i st)
  show ?case by (intro store_inv_same_keys[OF _ _ _ _ s_requeue] requeueing.upd_ids requeueing.upd_frame)
next
  case (s_recover st)
  show ?case by (intro store_inv_same_keys[OF _ _ _ _ s_recover] recovering.upd_ids recovering.upd_frame)
next
  case (s_reclaim older st)
  show ?case by (intro store_inv_same_keys[OF _ _ _ _ s_reclaim] reclaim.upd_ids reclaim.upd_frame)
qed (simp_all add: store_inv_insert_message purge_terminal_snd purge_dead_snd store_inv_prune store_inv_delete)

subsection \<open>The life of a row\<close>

definition row_ok :: "delivery \<Rightarrow> bool" where
  "row_ok d \<longleftrightarrow>
     (dl_state d \<in> {Attempting, Delivered} \<longrightarrow> dl_attempt_count d \<ge> 1 \<and> dl_attempted_at d \<noteq> None) \<and>
     (dl_state d \<in> {Failed, Expired, DeadLetter} \<longrightarrow> dl_reason d \<noteq> None)"

definition rows_ok :: "store \<Rightarrow> bool" where
  "rows_ok st \<longleftrightarrow> (\<forall>d \<in> set (st_deliveries st). row_ok d)"

context delivery_update
begin

lemma rows_ok_upd:
  assumes "rows_ok st" "\<And>d. row_ok d \<Longrightarrow> guard d \<Longrightarrow> row_ok (change d)"
  shows "rows_ok (snd (upd st))"
  using assms by (auto simp: rows_ok_def elim!: upd_row)

end

lemma rows_ok_empty [simp]: "rows_ok (store_empty fails)"
  by (simp add: rows_ok_def store_empty_def)

lemma store_step_rows: "store_step st st' \<Longrightarrow> rows_ok st \<Longrightarrow> rows_ok st'"
proof (induction rule: store_step.induct)
  case (s_insert_message env st) then show ?case by (auto simp: rows_ok_def insert_message_def)
next
  case (s_insert_refs mid shas st) then show ?case by (simp add: rows_ok_def insert_refs_frame)
next
  case (s_insert_delivery now mid r dest nxt ex prio st)
  then show ?case by (auto simp: rows_ok_def insert_delivery_def row_ok_def)
next
  case (s_insert_dead now mid r dest nxt ex reason st)
  then show ?case by (auto simp: rows_ok_def insert_dead_delivery_def row_ok_def)
next
  case s_attempting then show ?case by (rule attempting.rows_ok_upd) (auto simp: row_ok_def)
next
  case s_delivered then show ?case by (rule delivered.rows_ok_upd) (auto simp: row_ok_def)
next
  case s_retry then show ?case by (rule retry.rows_ok_upd) (auto simp: row_ok_def)
next
  case (s_terminal s st now i reason)
  show ?case by (rule settle.rows_ok_upd[OF s_terminal(2)]) (use s_terminal(1) in \<open>auto simp: row_ok_def\<close>)
next
  case s_requeue then show ?case by (rule requeueing.rows_ok_upd) (auto simp: row_ok_def)
next
  case s_recover then show ?case by (rule recovering.rows_ok_upd) (auto simp: row_ok_def)
next
  case s_reclaim then show ?case by (rule reclaim.rows_ok_upd) (auto simp: row_ok_def)
qed (auto simp: purge_terminal_snd purge_dead_snd prune_orphans_rows delete_deliveries_def rows_ok_def)

interpretation store_sys: invariant_system store_step "\<lambda>st. store_inv st \<and> rows_ok st"
  by unfold_locales (auto intro: store_step_inv store_step_rows)

text \<open>
  Store invariant. In every store reached from the empty one by any sequence of the store's
  operations, failing statements included, delivery ids increase strictly in table order and stay
  below the next id, message ids are unique, every delivery refers to an existing message, a row
  being attempted or delivered carries at least one attempt and its time, and a failed, expired or
  dead-lettered row carries a reason.
\<close>

theorem store_invariant:
  assumes "store_step\<^sup>*\<^sup>* (store_empty fails) st"
  shows "sorted_wrt (<) (map dl_id (st_deliveries st)) \<and>
    (\<forall>d \<in> set (st_deliveries st). dl_id d < st_next_delivery st) \<and>
    distinct (map mr_id (st_messages st)) \<and>
    dl_message_id ` set (st_deliveries st) \<subseteq> mr_id ` set (st_messages st) \<and>
    (\<forall>d \<in> set (st_deliveries st). row_ok d)"
proof -
  have "store_inv st \<and> rows_ok st" by (rule store_sys.reach_inv[OF assms]) simp
  then show ?thesis by (auto simp: store_inv_def ids_ok_def refs_ok_def live_ids_def rows_ok_def)
qed

definition no_fails :: "stmt \<Rightarrow> bool" where
  "no_fails s = False"

definition store_one :: store where
  "store_one = snd (insert_delivery 5 ''id-1'' ''demo'' (mk_ep ''lora'' ''x'') 5 1000 2
     (snd (insert_message (sample_env ''text'' ''hi'') (store_empty no_fails))))"

theorem store_invariant_witness:
  "store_step\<^sup>*\<^sup>* (store_empty no_fails) (snd (mark_delivered 7 1 (snd (mark_attempting 6 1 store_one)))) \<and>
   map dl_state (st_deliveries (snd (mark_delivered 7 1 (snd (mark_attempting 6 1 store_one))))) = [Delivered] \<and>
   list_all row_ok (st_deliveries (snd (mark_delivered 7 1 (snd (mark_attempting 6 1 store_one)))))"
proof -
  have s: "store_step\<^sup>*\<^sup>* (store_empty no_fails) (snd (mark_delivered 7 1 (snd (mark_attempting 6 1 store_one))))"
    unfolding store_one_def
    by (meson r_into_rtranclp rtranclp.rtrancl_into_rtrancl rtranclp.rtrancl_refl
          store_step.s_insert_message store_step.s_insert_delivery store_step.s_attempting store_step.s_delivered)
  moreover have "map dl_state (st_deliveries (snd (mark_delivered 7 1 (snd (mark_attempting 6 1 store_one))))) = [Delivered]"
    by (simp add: store_one_def insert_delivery_def insert_message_def store_empty_def mark_delivered_def
        mark_attempting_def update_deliveries_def no_fails_def live_ids_def sample_env_def envelope_new_def)
  ultimately show ?thesis using store_invariant[OF s] by (simp add: list_all_iff)
qed

subsection \<open>Terminal rows\<close>

text \<open>The operations that settle or return a row in flight, with the inserts beside them.\<close>

inductive late_step :: "store \<Rightarrow> store \<Rightarrow> bool" where
  l_insert_message: "late_step st (snd (insert_message env st))"
| l_insert_refs: "late_step st (snd (insert_attachment_refs mid shas st))"
| l_insert_delivery: "late_step st (snd (insert_delivery now mid r dest nxt ex prio st))"
| l_insert_dead: "late_step st (snd (insert_dead_delivery now mid r dest nxt ex reason st))"
| l_delivered: "late_step st (snd (mark_delivered now i st))"
| l_retry: "late_step st (snd (mark_retry now i nxt st))"
| l_terminal: "late_step st (snd (mark_terminal now i s reason st))"
| l_recover: "late_step st (snd (recover st))"
| l_reclaim: "late_step st (snd (reclaim_stale older st))"

lemma late_step_terminal:
  "late_step st st' \<Longrightarrow> d \<in> set (st_deliveries st) \<Longrightarrow> terminal (dl_state d) \<Longrightarrow> d \<in> set (st_deliveries st')"
  by (induction rule: late_step.induct)
     (auto simp: insert_message_def insert_refs_frame insert_delivery_def insert_dead_delivery_def
       intro: delivered.terminal_kept retry.terminal_kept settle.terminal_kept recovering.terminal_kept
         reclaim.terminal_kept)

interpretation late_sys: invariant_system late_step "\<lambda>st. d \<in> set (st_deliveries st) \<and> terminal (dl_state d)" for d
  by unfold_locales (auto intro: late_step_terminal)

text \<open>
  A terminal row is final. Once a row is delivered, failed, expired or dead-lettered, no
  sequence of late or duplicate results, retries, terminal marks, stale reclaims, restart recoveries
  and new messages or deliveries changes any field of it.
\<close>

theorem terminal_row_final:
  "late_step\<^sup>*\<^sup>* st st' \<Longrightarrow> d \<in> set (st_deliveries st) \<Longrightarrow> terminal (dl_state d) \<Longrightarrow>
   d \<in> set (st_deliveries st')"
  using late_sys.reach_inv by blast

definition store_done :: store where
  "store_done = snd (mark_delivered 7 1 (snd (mark_attempting 6 1 store_one)))"

lemma store_done_rows:
  "st_deliveries store_done =
     [\<lparr>dl_id = 1, dl_message_id = ''id-1'', dl_route = ''demo'', dl_destination = mk_ep ''lora'' ''x'',
       dl_priority = 2, dl_attempt_count = 1, dl_state = Delivered, dl_reason = None,
       dl_next_attempt = 5, dl_attempted_at = Some 6, dl_expires_at = 1000, dl_created_at = 5, dl_updated_at = 7\<rparr>]"
  by (simp add: store_done_def store_one_def insert_delivery_def insert_message_def store_empty_def mark_delivered_def
      mark_attempting_def update_deliveries_def no_fails_def live_ids_def sample_env_def envelope_new_def)

theorem terminal_row_final_witness:
  "late_step\<^sup>*\<^sup>* store_done (snd (mark_terminal 9 1 DeadLetter ''X'' (snd (mark_retry 8 1 50 store_done)))) \<and>
   hd (st_deliveries store_done) \<in> set (st_deliveries (snd (mark_terminal 9 1 DeadLetter ''X'' (snd (mark_retry 8 1 50 store_done)))))"
proof -
  have s: "late_step\<^sup>*\<^sup>* store_done (snd (mark_terminal 9 1 DeadLetter ''X'' (snd (mark_retry 8 1 50 store_done))))"
    by (meson rtranclp.rtrancl_into_rtrancl rtranclp.rtrancl_refl l_retry l_terminal)
  show ?thesis
    using s terminal_row_final[OF s, of "hd (st_deliveries store_done)"] by (simp add: store_done_rows terminal_def)
qed

text \<open>
  The claim fails for \<open>mark_attempting\<close>. Its update has no guard on the state: on any store it
  sends every row with the id, terminal or not, back to \<open>attempting\<close> with one more attempt, after
  which the guarded \<open>mark_delivered\<close> accepts the row again. That terminal rows stay closed therefore
  rests on the callers attempting only rows they have just read as due.
\<close>

theorem mark_attempting_reopens:
  assumes "\<not> sql_fails st (MarkAttempting i)" "\<not> sql_fails st (MarkDelivered i)"
    and "d \<in> set (st_deliveries st)" "dl_id d = i" "terminal (dl_state d)"
  shows "\<exists>d' \<in> set (st_deliveries (snd (mark_attempting now i st))).
           dl_id d' = i \<and> dl_state d' = Attempting \<and> dl_attempt_count d' = dl_attempt_count d + 1 \<and>
           (\<exists>d'' \<in> set (st_deliveries (snd (mark_delivered now' i (snd (mark_attempting now i st))))).
              dl_id d'' = i \<and> dl_state d'' = Delivered \<and> dl_reason d'' = dl_reason d)"
proof -
  let ?a = "d\<lparr>dl_state := Attempting, dl_attempt_count := dl_attempt_count d + 1,
              dl_attempted_at := Some now, dl_updated_at := now\<rparr>"
  have a: "?a \<in> set (st_deliveries (snd (mark_attempting now i st)))"
    using assms(1,4) update_deliveries_changed[OF assms(3), of "\<lambda>d. dl_id d = i"] by (simp add: mark_attempting_def)
  have "sql_fails (snd (mark_attempting now i st)) = sql_fails st" by (rule attempting.upd_frame)
  then have b: "?a\<lparr>dl_state := Delivered, dl_updated_at := now'\<rparr>
      \<in> set (st_deliveries (snd (mark_delivered now' i (snd (mark_attempting now i st)))))"
    using assms(2,4) update_deliveries_changed[OF a, of "\<lambda>d. dl_id d = i \<and> dl_state d = Attempting"
        "\<lambda>d. d\<lparr>dl_state := Delivered, dl_updated_at := now'\<rparr>"]
    by (simp add: mark_delivered_def)
  show ?thesis by (intro bexI[OF _ a] conjI bexI[OF _ b]) (simp_all add: assms)
qed

theorem mark_attempting_reopens_witness:
  "dl_state (hd (st_deliveries store_done)) = Delivered \<and>
   (\<exists>d' \<in> set (st_deliveries (snd (mark_attempting 20 1 store_done))). dl_state d' = Attempting)"
proof -
  have f: "sql_fails store_done = no_fails"
    by (simp add: store_done_def store_one_def insert_delivery_def insert_message_def store_empty_def mark_delivered_def
      mark_attempting_def update_deliveries_def no_fails_def live_ids_def)
  show ?thesis
    using mark_attempting_reopens[of store_done 1 "hd (st_deliveries store_done)" 20 21]
    by (auto simp: store_done_rows terminal_def f no_fails_def)
qed

subsection \<open>Retention\<close>

lemma purge_terminal_Ok:
  assumes "purge_terminal older st = (Ok (n, orphans), st')"
  shows "n = length (filter (\<lambda>d. terminal (dl_state d) \<and> dl_next_attempt d < older) (st_deliveries st))"
    and "st_deliveries st' = filter (\<lambda>d. \<not> (terminal (dl_state d) \<and> dl_next_attempt d < older)) (st_deliveries st)"
    and "st_messages st' = filter (\<lambda>r. mr_id r \<in> dl_message_id ` set (st_deliveries st')) (st_messages st)"
    and "orphans = filter (\<lambda>sha. \<forall>(m, s) \<in> set (st_attachments st). s = sha \<longrightarrow> m \<notin> live_ids st')
                     (remdups (map snd (st_attachments st)))"
    and "st_attachments st' = filter (\<lambda>(m, s). m \<in> live_ids st') (st_attachments st)"
  using assms
  by (auto simp: purge_terminal_def delete_deliveries_def prune_orphans_def Let_def live_ids_def
      split: if_splits prod.splits sum.splits)

text \<open>
  C32: Retention purge. A successful purge removes exactly the terminal rows whose \<open>next_attempt\<close> is
  older than the cut-off and reports how many; a message survives exactly when a delivery of it does,
  and a reference exactly when its message does. A content hash is reported for removal from the blob
  store exactly when something referenced it before and nothing that survives references it, so a blob
  shared with a surviving message is never reported, and none is reported twice.
\<close>

theorem purge_terminal_gc:
  assumes "purge_terminal older st = (Ok (n, orphans), st')"
  shows "st_deliveries st' = filter (\<lambda>d. \<not> (terminal (dl_state d) \<and> dl_next_attempt d < older)) (st_deliveries st) \<and>
    n + length (st_deliveries st') = length (st_deliveries st) \<and>
    (\<forall>m. m \<in> live_ids st' \<longleftrightarrow> m \<in> live_ids st \<and> (\<exists>d \<in> set (st_deliveries st'). dl_message_id d = m)) \<and>
    (\<forall>m s. (m, s) \<in> set (st_attachments st') \<longleftrightarrow> (m, s) \<in> set (st_attachments st) \<and> m \<in> live_ids st') \<and>
    (\<forall>s. s \<in> set orphans \<longleftrightarrow> s \<in> snd ` set (st_attachments st) \<and> s \<notin> snd ` set (st_attachments st')) \<and>
    distinct orphans"
proof -
  note p = purge_terminal_Ok[OF assms]
  have "n + length (st_deliveries st') = length (st_deliveries st)"
    unfolding p(1,2) by (rule sum_length_filter_compl)
  moreover have "\<forall>m. m \<in> live_ids st' \<longleftrightarrow> m \<in> live_ids st \<and> (\<exists>d \<in> set (st_deliveries st'). dl_message_id d = m)"
    unfolding live_ids_def p(3) by (auto intro!: imageI) (metis (mono_tags, lifting) image_eqI mem_Collect_eq)
  moreover have "\<forall>s. s \<in> set orphans \<longleftrightarrow> s \<in> snd ` set (st_attachments st) \<and> s \<notin> snd ` set (st_attachments st')"
    unfolding p(4,5) by (auto simp: image_iff)
  ultimately show ?thesis using p(2,4,5) by auto
qed

definition store_refs :: store where
  "store_refs = store_done\<lparr>st_attachments := [(''id-1'', ''sha-a''), (''gone'', ''sha-b'')]\<rparr>"

theorem purge_terminal_gc_witness:
  "\<exists>st'. purge_terminal 100 store_refs = (Ok (1, [''sha-a'', ''sha-b'']), st') \<and> st_deliveries st' = []"
proof -
  let ?r = "purge_terminal 100 store_refs"
  have e: "?r = (Ok (1, [''sha-a'', ''sha-b'']), snd ?r)"
    by (simp add: store_refs_def purge_terminal_def delete_deliveries_def prune_orphans_def Let_def live_ids_def
        store_done_rows terminal_def)
       (simp add: store_done_def store_one_def insert_delivery_def insert_message_def store_empty_def mark_delivered_def
      mark_attempting_def update_deliveries_def no_fails_def live_ids_def)
  have "st_deliveries (snd ?r) = []"
    using purge_terminal_gc[OF e] by (simp add: store_refs_def store_done_rows terminal_def)
  then show ?thesis using e by blast
qed

subsection \<open>The due queue\<close>

definition due :: "datetime \<Rightarrow> delivery \<Rightarrow> bool" where
  "due now d \<longleftrightarrow> dl_state d = Pending \<and> dl_next_attempt d \<le> now"

definition due_key :: "delivery \<Rightarrow> nat \<times> datetime" where
  "due_key d = (dl_priority d, dl_next_attempt d)"

lemma due_deliveries_eq:
  "due_deliveries now limit st =
     (if sql_fails st SelectDue then Err SqlError
      else Ok (take limit (sort_key due_key (filter (due now) (st_deliveries st)))))"
  by (simp add: due_deliveries_def due_def[abs_def] due_key_def[abs_def])

lemma due_key_le:
  "due_key y \<le> due_key x \<longleftrightarrow> dl_priority y < dl_priority x \<or>
     dl_priority y = dl_priority x \<and> dl_next_attempt y \<le> dl_next_attempt x"
  by (auto simp: due_key_def)

lemma take_sorted_le:
  assumes "sorted (map k xs)" "x \<in> set xs" "x \<notin> set (take n xs)" "y \<in> set (take n xs)"
  shows "n < length xs \<and> k y \<le> k x"
proof -
  obtain i where i: "i < length xs" "x = xs ! i" using assms(2) by (auto simp: in_set_conv_nth)
  have ni: "n \<le> i" using assms(3) i by (metis in_set_conv_nth length_take min_less_iff_conj not_le nth_take)
  obtain j where j: "j < n" "j < length xs" "y = xs ! j" using assms(4) by (auto simp: in_set_conv_nth)
  have "map k xs ! j \<le> map k xs ! i" using assms(1) i j ni by (intro sorted_nth_mono) auto
  then show ?thesis using i j ni by simp
qed

text \<open>
  The due queue. The scheduler's query returns only pending rows that are due, each row once, at
  most \<open>limit\<close> of them, ordered by priority class and then by due time; a due row is left out only
  when the limit is reached, and then every returned row comes before it in that order, so an urgent
  class is never delayed by a less urgent one.
\<close>

theorem due_deliveries_correct:
  assumes "due_deliveries now limit st = Ok ds" "distinct (st_deliveries st)"
  shows "set ds \<subseteq> {d \<in> set (st_deliveries st). dl_state d = Pending \<and> dl_next_attempt d \<le> now} \<and>
    distinct ds \<and> length ds \<le> limit \<and> sorted (map (\<lambda>d. (dl_priority d, dl_next_attempt d)) ds) \<and>
    (\<forall>x \<in> set (st_deliveries st). dl_state x = Pending \<and> dl_next_attempt x \<le> now \<and> x \<notin> set ds \<longrightarrow>
       length ds = limit \<and>
       (\<forall>y \<in> set ds. dl_priority y < dl_priority x \<or>
          dl_priority y = dl_priority x \<and> dl_next_attempt y \<le> dl_next_attempt x))"
proof -
  let ?q = "sort_key due_key (filter (due now) (st_deliveries st))"
  have ds: "ds = take limit ?q" using assms(1) by (auto simp: due_deliveries_eq split: if_splits)
  have sq: "sorted (map due_key ?q)" by simp
  have "set ds \<subseteq> set ?q" unfolding ds by (rule set_take_subset)
  then have sub: "set ds \<subseteq> {d \<in> set (st_deliveries st). due now d}" by simp
  have k: "map due_key ds = take limit (map due_key ?q)" by (simp add: ds take_map)
  have s: "sorted (map due_key ds)" unfolding k by (rule sorted_wrt_take[OF sq])
  have "length ds = limit \<and> (\<forall>y \<in> set ds. dl_priority y < dl_priority x \<or>
          dl_priority y = dl_priority x \<and> dl_next_attempt y \<le> dl_next_attempt x)"
    if x: "x \<in> set (st_deliveries st)" "due now x" "x \<notin> set ds" for x
  proof -
    have xq: "x \<in> set ?q" using x by simp
    have "\<not> length ?q \<le> limit" using xq x(3) by (auto simp: ds)
    then have "length ds = limit" by (simp add: ds)
    then show ?thesis unfolding due_key_le[symmetric] using take_sorted_le[OF sq xq] x(3) by (auto simp: ds)
  qed
  moreover have "distinct ds" "length ds \<le> limit" using assms(2) by (simp_all add: ds)
  moreover have "set ds \<subseteq> {d \<in> set (st_deliveries st). dl_state d = Pending \<and> dl_next_attempt d \<le> now}"
    using sub by (auto simp: due_def)
  ultimately show ?thesis
    using s unfolding due_def due_key_def[abs_def] by (intro conjI ballI impI) (blast | assumption)+
qed

lemma store_inv_distinct: "store_inv st \<Longrightarrow> distinct (st_deliveries st)"
  by (auto simp: store_inv_def ids_ok_def strict_sorted_iff distinct_map)

theorem due_deliveries_correct_witness:
  "due_deliveries 10 5 store_one = Ok (st_deliveries store_one) \<and> length (st_deliveries store_one) = 1 \<and>
   sorted (map (\<lambda>d. (dl_priority d, dl_next_attempt d)) (st_deliveries store_one))"
proof -
  have r: "length (st_deliveries store_one) = 1" "distinct (st_deliveries store_one)"
    by (simp_all add: store_one_def insert_delivery_def insert_message_def store_empty_def no_fails_def live_ids_def
        sample_env_def envelope_new_def)
  have e: "due_deliveries 10 5 store_one = Ok (st_deliveries store_one)"
    by (simp add: store_one_def insert_delivery_def insert_message_def store_empty_def no_fails_def live_ids_def
        sample_env_def envelope_new_def due_deliveries_def)
  show ?thesis using due_deliveries_correct[OF e r(2)] e r by blast
qed

subsection \<open>Acknowledgements from a peer\<close>

lemma like_any: "like ''%'' s"
  by (induction s) (simp_all add: like.simps)

lemma peer_name_byte_plain:
  "peer_name_byte c \<Longrightarrow> ascii_lower c = c \<and> c \<noteq> CHR ''%'' \<and> c \<noteq> CHR ''_'' \<and> c \<noteq> CHR ''/''"
  by (auto simp: peer_name_byte_def ascii_lower_def is_lower_byte_def is_upper_byte_def is_digit_byte_def byte_val_def)

lemma like_slash: "like (CHR ''/'' # ps) (c # t) \<longleftrightarrow> ascii_lower c = CHR ''/'' \<and> like ps t"
  by (auto simp: like.simps(2)[of "CHR ''/''"] ascii_lower_def[of "CHR ''/''"] is_upper_byte_def byte_val_def)

lemma ascii_lower_slash [simp]: "ascii_lower (CHR ''/'') = CHR ''/''"
  by (simp add: ascii_lower_def is_upper_byte_def byte_val_def)

lemma like_peer:
  "list_all peer_name_byte k \<Longrightarrow> list_all peer_name_byte p \<Longrightarrow> like (k @ ''/%'') (p @ CHR ''/'' # r) \<longleftrightarrow> k = p"
proof (induction k arbitrary: p)
  case Nil
  show ?case
  proof (cases p)
    case Nil then show ?thesis by (simp add: like_slash like_any)
  next
    case (Cons c t)
    then have "ascii_lower c \<noteq> CHR ''/''" using Nil.prems peer_name_byte_plain by auto
    then show ?thesis using Cons by (simp add: like_slash)
  qed
next
  case (Cons a k)
  have a: "ascii_lower a = a" "a \<noteq> CHR ''%''" "a \<noteq> CHR ''_''" "a \<noteq> CHR ''/''"
    using peer_name_byte_plain Cons.prems(1) by auto
  show ?case
  proof (cases p)
    case Nil
    then show ?thesis using a by (simp add: like.simps(2)[of a])
  next
    case (Cons c t)
    then have "ascii_lower c = c" "list_all peer_name_byte t" using Cons.prems peer_name_byte_plain by auto
    then show ?thesis using a Cons Cons.IH[of t] Cons.prems by (simp add: like.simps(2)[of a])
  qed
qed

text \<open>
  Acknowledgement lookup. When the federation destinations of the table name valid peers, as
  configuration validation demands, the rows an acknowledgement from the peer \<open>k\<close> resolves to are
  exactly the rows of that message addressed to \<open>k\<close>: the \<open>LIKE\<close> pattern with its case folding and
  wildcards confuses no two peers, a prefix of a name included.
\<close>

theorem fed_ack_exact:
  assumes "is_valid_peer_name k" "\<not> sql_fails st SelectDeliveries"
    and "\<forall>d \<in> set (st_deliveries st). ep_protocol (dl_destination d) = ''fed'' \<longrightarrow>
           (\<exists>p r. is_valid_peer_name p \<and> split_once (CHR ''/'') (ep_endpoint (dl_destination d)) = Some (p, r))"
  shows "deliveries_for_fed_ack mid k st =
    Ok (filter (\<lambda>d. dl_message_id d = mid \<and> ep_protocol (dl_destination d) = ''fed'' \<and>
          map_option fst (split_once (CHR ''/'') (ep_endpoint (dl_destination d))) = Some k) (st_deliveries st))"
proof -
  have "like (k @ ''/%'') (ep_endpoint (dl_destination d)) \<longleftrightarrow>
        map_option fst (split_once (CHR ''/'') (ep_endpoint (dl_destination d))) = Some k"
    if d: "d \<in> set (st_deliveries st)" "ep_protocol (dl_destination d) = ''fed''" for d
  proof -
    obtain p r where p: "is_valid_peer_name p" "split_once (CHR ''/'') (ep_endpoint (dl_destination d)) = Some (p, r)"
      using assms(3) d by blast
    have "ep_endpoint (dl_destination d) = p @ CHR ''/'' # r" using p(2) by (simp add: split_once_Some)
    then show ?thesis using like_peer[of k p r] assms(1) p by (auto simp: is_valid_peer_name_def)
  qed
  then show ?thesis using assms(2) by (auto simp: deliveries_for_fed_ack_def intro!: filter_cong)
qed

definition store_fed :: store where
  "store_fed = snd (insert_delivery 5 ''id-1'' ''demo'' (mk_ep ''fed'' ''phoenix/chat'') 5 1000 2
     (snd (insert_delivery 5 ''id-1'' ''demo'' (mk_ep ''fed'' ''phoen/chat'') 5 1000 2
        (snd (insert_message (sample_env ''text'' ''hi'') (store_empty no_fails))))))"

theorem fed_ack_exact_witness:
  "map_option (map dl_id) (case deliveries_for_fed_ack ''id-1'' ''phoen'' store_fed of Inr ds \<Rightarrow> Some ds | Inl _ \<Rightarrow> None) = Some [1]"
proof -
  have "deliveries_for_fed_ack ''id-1'' ''phoen'' store_fed =
    Ok (filter (\<lambda>d. dl_message_id d = ''id-1'' \<and> ep_protocol (dl_destination d) = ''fed'' \<and>
          map_option fst (split_once (CHR ''/'') (ep_endpoint (dl_destination d))) = Some ''phoen'') (st_deliveries store_fed))"
    by (rule fed_ack_exact)
       (auto simp: store_fed_def insert_delivery_def insert_message_def store_empty_def no_fails_def live_ids_def
        sample_env_def envelope_new_def mk_ep_def is_valid_peer_name_def peer_name_byte_def is_lower_byte_def byte_val_def)
  then show ?thesis
    by (simp add: store_fed_def insert_delivery_def insert_message_def store_empty_def no_fails_def live_ids_def
        sample_env_def envelope_new_def mk_ep_def)
qed

end
