(* ===== verification/Fed_Crypto.thy ===== *)
theory Fed_Crypto
  imports Relay_Core "HOL-Library.List_Lexorder" "HOL-Library.Char_ord"
begin

text \<open>
  Node identities (\<open>src/switchyardd/src/node_identity.rs\<close>), signed envelopes with their attestation
  chain (\<open>fed/sign.rs\<close>, \<open>fed/domains.rs\<close>), signed adverts (\<open>fed/advert.rs\<close>) and the sealed envelope
  (\<open>fed/seal.rs\<close>). Ed25519, SHA-256, HMAC, the box cipher, CBOR and the text form of a time are
  third-party code: they are fields of the record \<open>ext\<close>, an argument of every definition that uses
  them.
\<close>

type_synonym canonical =
  "uuid \<times> string \<times> string \<times> string \<times> string \<times> string \<times> string \<times> (string \<times> string \<times> string \<times> u64) list"

record proto_caps =
  px_rx :: bool
  px_tx :: bool
  px_text :: bool
  px_files :: bool
  px_max_payload :: "u32 option"

record security_caps =
  sc_translate :: bool
  sc_signed :: bool
  sc_sealed :: bool
  sc_sealed_key :: "string option"

record advert =
  ad_rf_version :: u32
  ad_node_id :: string
  ad_name :: string
  ad_services :: "(string \<times> bool) list"
  ad_protocols :: "(string \<times> proto_caps) list"
  ad_security :: security_caps
  ad_expires :: int
  ad_sig :: bytes

type_synonym canonical_advert =
  "u32 \<times> string \<times> string \<times> (string \<times> bool) list \<times> (string \<times> proto_caps) list \<times>
   (bool \<times> bool \<times> bool \<times> string option) \<times> int"

record ext =
  x_sha256 :: "bytes \<Rightarrow> bytes"
  x_hmac :: "bytes \<Rightarrow> bytes \<Rightarrow> bytes"
  x_upper :: "string \<Rightarrow> string"
  x_ed_public :: "bytes \<Rightarrow> bytes"
  x_ed_sign :: "bytes \<Rightarrow> bytes \<Rightarrow> bytes"
  x_ed_verify :: "bytes \<Rightarrow> bytes \<Rightarrow> bytes \<Rightarrow> bool"
  x_rfc3339 :: "datetime \<Rightarrow> string"
  x_try_seconds :: "int \<Rightarrow> int option"
  x_checked_add :: "datetime \<Rightarrow> int \<Rightarrow> datetime option"
  x_cbor_canonical :: "canonical \<Rightarrow> bytes"
  x_cbor_advert :: "canonical_advert \<Rightarrow> bytes"
  x_uncbor_advert :: "bytes \<Rightarrow> advert option"
  x_cbor_envelope :: "envelope \<Rightarrow> bytes"
  x_uncbor_envelope :: "bytes \<Rightarrow> envelope option"
  x_cbor_plaintext :: "bytes \<times> string \<times> int \<Rightarrow> bytes"
  x_uncbor_plaintext :: "bytes \<Rightarrow> (bytes \<times> string \<times> int) option"
  x_box_public :: "bytes \<Rightarrow> bytes"
  x_box_encrypt :: "bytes \<Rightarrow> bytes \<Rightarrow> bytes \<Rightarrow> bytes \<Rightarrow> bytes"
  x_box_decrypt :: "bytes \<Rightarrow> bytes \<Rightarrow> bytes \<Rightarrow> bytes \<Rightarrow> bytes option"

subsection \<open>Node identities\<close>

definition hex_val :: "char \<Rightarrow> nat option" where
  "hex_val c =
     (if is_digit_byte c then Some (byte_val c - 48)
      else if 97 \<le> byte_val c \<and> byte_val c \<le> 102 then Some (byte_val c - 87)
      else if 65 \<le> byte_val c \<and> byte_val c \<le> 70 then Some (byte_val c - 55) else None)"

fun hex_decode :: "string \<Rightarrow> bytes option" where
  "hex_decode [] = Some []"
| "hex_decode [a] = None"
| "hex_decode (a # b # s) =
     (case (hex_val a, hex_val b, hex_decode s) of
        (Some h, Some l, Some r) \<Rightarrow> Some (char_of (16 * h + l) # r)
      | _ \<Rightarrow> None)"

definition identity_node_id :: "ext \<Rightarrow> bytes \<Rightarrow> string" where
  "identity_node_id X seed = ''rf:'' @ hex_encode (x_ed_public X seed)"

definition identity_sign :: "ext \<Rightarrow> bytes \<Rightarrow> bytes \<Rightarrow> bytes" where
  "identity_sign X seed msg = x_ed_sign X seed msg"

definition identity_verify :: "ext \<Rightarrow> string \<Rightarrow> bytes \<Rightarrow> bytes \<Rightarrow> bool" where
  "identity_verify X node_id msg sig =
     (case strip_prefix node_id ''rf:'' of
        None \<Rightarrow> False
      | Some hex_part \<Rightarrow>
          (case hex_decode hex_part of
             None \<Rightarrow> False
           | Some b \<Rightarrow>
               if hex_encode b \<noteq> hex_part then False
               else if length b \<noteq> 32 then False
               else x_ed_verify X b msg sig))"

fun trim_rf :: "string \<Rightarrow> string" where
  "trim_rf (a # b # c # s) = (if [a, b, c] = ''rf:'' then trim_rf s else a # b # c # s)"
| "trim_rf s = s"

definition short_node_id :: "string \<Rightarrow> string" where
  "short_node_id node_id = concat (take 8 (rust_chars (trim_rf node_id)))"

subsection \<open>Signing domains\<close>

definition NOISE_STATIC_V1 :: bytes where "NOISE_STATIC_V1 = ''relayfabric-noise-static-v1:''"
definition ENVELOPE_V1 :: bytes where "ENVELOPE_V1 = ''relayfabric-envelope-v1:''"
definition ATTEST_V1 :: bytes where "ATTEST_V1 = ''relayfabric-attest-v1:''"
definition ADVERT_V1 :: bytes where "ADVERT_V1 = ''relayfabric-advert-v1:''"

definition domain_separated :: "bytes \<Rightarrow> bytes list \<Rightarrow> bytes" where
  "domain_separated domain parts = domain @ concat parts"

subsection \<open>Signed envelopes\<close>

datatype sig_error = MissingOrigin | BadSignature

definition canonical_tuple :: "ext \<Rightarrow> envelope \<Rightarrow> canonical" where
  "canonical_tuple X env =
     (env_id env, ep_protocol (env_source env), ep_endpoint (env_source env), env_native_ref env,
      env_kind env, env_body env, x_rfc3339 X (env_created_at env),
      sort_key fst (map (\<lambda>a. (am_sha256 a, am_filename a, am_mime a, am_size a)) (env_attachments env)))"

definition canonical_bytes :: "ext \<Rightarrow> envelope \<Rightarrow> bytes" where
  "canonical_bytes X env = x_cbor_canonical X (canonical_tuple X env)"

definition digest_canonical :: "ext \<Rightarrow> envelope \<Rightarrow> bytes" where
  "digest_canonical X env = x_sha256 X (canonical_bytes X env)"

definition origin_bytes :: "ext \<Rightarrow> envelope \<Rightarrow> bytes" where
  "origin_bytes X env = domain_separated ENVELOPE_V1 [canonical_bytes X env]"

definition sign_origin :: "ext \<Rightarrow> envelope \<Rightarrow> bytes \<Rightarrow> origin_sig" where
  "sign_origin X env seed =
     \<lparr>os_node_id = identity_node_id X seed, os_sig = identity_sign X seed (origin_bytes X env)\<rparr>"

definition verify_origin :: "ext \<Rightarrow> envelope \<Rightarrow> sig_error + unit" where
  "verify_origin X env =
     (case env_origin env of
        None \<Rightarrow> Err MissingOrigin
      | Some origin \<Rightarrow>
          if identity_verify X (os_node_id origin) (origin_bytes X env) (os_sig origin) then Ok ()
          else Err BadSignature)"

definition attestation_bytes :: "ext \<Rightarrow> bytes \<Rightarrow> bytes \<Rightarrow> datetime \<Rightarrow> bytes" where
  "attestation_bytes X digest prev_sig ts = domain_separated ATTEST_V1 [digest, prev_sig, x_rfc3339 X ts]"

definition append_attestation :: "ext \<Rightarrow> envelope \<Rightarrow> bytes \<Rightarrow> datetime \<Rightarrow> sig_error + envelope" where
  "append_attestation X env seed now =
     (let digest = digest_canonical X env;
          finish = (\<lambda>prev_sig. Ok (env\<lparr>env_attestations := env_attestations env @
             [\<lparr>at_node_id = identity_node_id X seed, at_ts = now,
               at_sig = identity_sign X seed (attestation_bytes X digest prev_sig now)\<rparr>]\<rparr>))
      in if env_attestations env \<noteq> [] then finish (at_sig (last (env_attestations env)))
         else case env_origin env of
                None \<Rightarrow> Err MissingOrigin
              | Some origin \<Rightarrow> finish (os_sig origin))"

fun verify_links :: "ext \<Rightarrow> bytes \<Rightarrow> bytes \<Rightarrow> attestation list \<Rightarrow> sig_error + unit" where
  "verify_links X digest prev_sig [] = Ok ()"
| "verify_links X digest prev_sig (att # atts) =
     (if \<not> identity_verify X (at_node_id att) (attestation_bytes X digest prev_sig (at_ts att)) (at_sig att)
      then Err BadSignature
      else verify_links X digest (at_sig att) atts)"

definition verify_chain :: "ext \<Rightarrow> envelope \<Rightarrow> sig_error + unit" where
  "verify_chain X env =
     (case verify_origin X env of
        Err e \<Rightarrow> Err e
      | Ok _ \<Rightarrow>
          (case env_origin env of
             None \<Rightarrow> Err MissingOrigin
           | Some origin \<Rightarrow> verify_links X (digest_canonical X env) (os_sig origin) (env_attestations env)))"

subsection \<open>Signed adverts\<close>

datatype advert_error = InvalidExpiry | AdvertBadSignature

definition advert_tuple :: "advert \<Rightarrow> canonical_advert" where
  "advert_tuple a =
     (ad_rf_version a, ad_node_id a, ad_name a, ad_services a, ad_protocols a,
      (sc_translate (ad_security a), sc_signed (ad_security a), sc_sealed (ad_security a), sc_sealed_key (ad_security a)),
      ad_expires a)"

definition advert_bytes :: "ext \<Rightarrow> advert \<Rightarrow> bytes" where
  "advert_bytes X a = ADVERT_V1 @ x_cbor_advert X (advert_tuple a)"

definition advert_sign :: "ext \<Rightarrow> advert \<Rightarrow> bytes \<Rightarrow> advert" where
  "advert_sign X a seed = a\<lparr>ad_sig := identity_sign X seed (advert_bytes X a)\<rparr>"

definition advert_verify :: "ext \<Rightarrow> advert \<Rightarrow> advert_error + unit" where
  "advert_verify X a =
     (if ad_expires a \<le> 0 then Err InvalidExpiry
      else if identity_verify X (ad_node_id a) (advert_bytes X a) (ad_sig a) then Ok ()
      else Err AdvertBadSignature)"

subsection \<open>Sealed envelopes\<close>

definition SEAL_ALG_V1 :: string where
  "SEAL_ALG_V1 = ''x25519-xchacha20poly1305-v1''"

record sealed_envelope =
  se_alg :: string
  se_id :: string
  se_expires_at :: int
  se_epk :: bytes
  se_nonce :: bytes
  se_ct :: bytes

datatype seal_error = UnsupportedAlg | BadSeal | BadBinding

definition parse_epk :: "bytes \<Rightarrow> seal_error + bytes" where
  "parse_epk epk = (if length epk = 32 then Ok epk else Err BadSeal)"

definition parse_nonce :: "bytes \<Rightarrow> seal_error + bytes" where
  "parse_nonce nonce = (if length nonce \<noteq> 24 then Err BadSeal else Ok nonce)"

definition seal_fixed :: "ext \<Rightarrow> bytes \<Rightarrow> string \<Rightarrow> int \<Rightarrow> bytes \<Rightarrow> bytes \<Rightarrow> bytes \<Rightarrow> sealed_envelope" where
  "seal_fixed X canonical_env_cbor i expires_at recipient_pub ephemeral_secret nonce =
     \<lparr>se_alg = SEAL_ALG_V1, se_id = i, se_expires_at = expires_at,
      se_epk = x_box_public X ephemeral_secret, se_nonce = nonce,
      se_ct = x_box_encrypt X recipient_pub ephemeral_secret nonce
                (x_cbor_plaintext X (canonical_env_cbor, i, expires_at))\<rparr>"

definition unseal :: "ext \<Rightarrow> sealed_envelope \<Rightarrow> bytes \<Rightarrow> seal_error + bytes" where
  "unseal X sealed own_secret =
     (if se_alg sealed \<noteq> SEAL_ALG_V1 then Err UnsupportedAlg
      else case parse_epk (se_epk sealed) of
        Err e \<Rightarrow> Err e
      | Ok epk \<Rightarrow>
        (case parse_nonce (se_nonce sealed) of
           Err e \<Rightarrow> Err e
         | Ok nonce \<Rightarrow>
           (case x_box_decrypt X epk own_secret nonce (se_ct sealed) of
              None \<Rightarrow> Err BadSeal
            | Some plaintext \<Rightarrow>
              (case x_uncbor_plaintext X plaintext of
                 None \<Rightarrow> Err BadSeal
               | Some (canonical_env_cbor, inner_id, inner_expires_at) \<Rightarrow>
                   if inner_id \<noteq> se_id sealed \<or> inner_expires_at \<noteq> se_expires_at sealed then Err BadBinding
                   else Ok canonical_env_cbor))))"

end
