(* ===== verification/Fed_Crypto_Props.thy ===== *)
theory Fed_Crypto_Props
  imports Fed_Crypto Routing_Policy
begin

text \<open>
  What signatures and sealing give the federation: a chain built by honest gateways verifies, a
  verified origin signature pins every signed field, and sealing binds the clear-text header. The
  cryptographic primitives enter through the correctness statements their documentation makes.
\<close>

subsection \<open>Hexadecimal text\<close>

lemma hex_val_digit: "n < 16 \<Longrightarrow> hex_val (hex_digit 97 n) = Some n"
  by (auto simp: hex_val_def hex_digit_def is_digit_byte_def)

lemma hex_decode_encode [simp]: "hex_decode (hex_encode b) = Some b"
proof (induction b)
  case (Cons a b)
  have h: "byte_val a div 16 < 16" using byte_val_less[of a] by (intro less_mult_imp_div_less) simp
  have "char_of (16 * (byte_val a div 16) + byte_val a mod 16) = a"
    by (simp add: byte_val_def)
  then show ?case using Cons h by (simp add: hex_encode_def hex_val_digit)
qed (simp add: hex_encode_def)

lemma identity_verify_own:
  assumes "length (x_ed_public X seed) = 32"
  shows "identity_verify X (identity_node_id X seed) msg sig = x_ed_verify X (x_ed_public X seed) msg sig"
  by (simp add: identity_verify_def identity_node_id_def strip_prefix_def starts_with_def assms)

text \<open>Only the canonical spelling of an identity verifies: no two node ids name one key.\<close>

lemma identity_verify_canonical:
  assumes "identity_verify X n msg sig"
  shows "\<exists>pk. n = ''rf:'' @ hex_encode pk \<and> length pk = 32 \<and> x_ed_verify X pk msg sig"
proof -
  obtain hex_part where h: "strip_prefix n ''rf:'' = Some hex_part"
    using assms by (auto simp: identity_verify_def split: option.splits)
  then have n: "n = ''rf:'' @ hex_part" by (auto simp: strip_prefix_def starts_with_iff split: if_splits)
  show ?thesis using assms h by (auto simp: n identity_verify_def split: option.splits if_splits)
qed

subsection \<open>Honest chains\<close>

definition ed25519_correct :: "ext \<Rightarrow> bool" where
  "ed25519_correct X \<longleftrightarrow>
     (\<forall>s. length (x_ed_public X s) = 32) \<and> (\<forall>s m. x_ed_verify X (x_ed_public X s) m (x_ed_sign X s m))"

fun forward_chain :: "ext \<Rightarrow> envelope \<Rightarrow> (bytes \<times> datetime) list \<Rightarrow> sig_error + envelope" where
  "forward_chain X env [] = Ok env"
| "forward_chain X env ((seed, ts) # hops) =
     (case append_attestation X (env\<lparr>env_hops := env_hops env + 1\<rparr>) seed ts of
        Err e \<Rightarrow> Err e
      | Ok env1 \<Rightarrow> forward_chain X env1 hops)"

lemma canonical_tuple_unsigned [simp]:
  "canonical_tuple X (env\<lparr>env_origin := ogn\<rparr>) = canonical_tuple X env"
  "canonical_tuple X (env\<lparr>env_attestations := ats\<rparr>) = canonical_tuple X env"
  "canonical_tuple X (env\<lparr>env_hops := h\<rparr>) = canonical_tuple X env"
  "canonical_tuple X (env\<lparr>env_priority := p\<rparr>) = canonical_tuple X env"
  "canonical_tuple X (env\<lparr>env_expires_at := e\<rparr>) = canonical_tuple X env"
  "canonical_tuple X (env\<lparr>env_received_at := r\<rparr>) = canonical_tuple X env"
  by (simp_all add: canonical_tuple_def)

lemmas signed_bytes_defs = canonical_bytes_def digest_canonical_def origin_bytes_def

lemma verify_chain_unsigned [simp]:
  "verify_chain X (env\<lparr>env_hops := h\<rparr>) = verify_chain X env"
  "verify_chain X (env\<lparr>env_priority := p\<rparr>) = verify_chain X env"
  "verify_chain X (env\<lparr>env_expires_at := e\<rparr>) = verify_chain X env"
  "verify_chain X (env\<lparr>env_received_at := r\<rparr>) = verify_chain X env"
  by (simp_all add: verify_chain_def verify_origin_def signed_bytes_defs cong: option.case_cong sum.case_cong)

lemma verify_origin_sign:
  assumes "ed25519_correct X"
  shows "verify_origin X (env\<lparr>env_origin := Some (sign_origin X env seed)\<rparr>) = Ok ()"
  using assms
  by (simp add: verify_origin_def sign_origin_def signed_bytes_defs identity_verify_own ed25519_correct_def identity_sign_def)

lemma verify_links_append:
  "verify_links X dg prev (as @ [a]) =
     (case verify_links X dg prev as of Err e \<Rightarrow> Err e
      | Ok _ \<Rightarrow> if identity_verify X (at_node_id a)
                   (attestation_bytes X dg (if as = [] then prev else at_sig (last as)) (at_ts a)) (at_sig a)
               then Ok () else Err BadSignature)"
  by (induction as arbitrary: prev) auto

lemma append_attestation_verifies:
  assumes "ed25519_correct X" "verify_chain X env = Ok ()"
  obtains env' where "append_attestation X env seed ts = Ok env'" "verify_chain X env' = Ok ()"
    "env_attestations env' = env_attestations env @ [last (env_attestations env')]"
    "at_node_id (last (env_attestations env')) = identity_node_id X seed"
    "canonical_tuple X env' = canonical_tuple X env" "env_origin env' = env_origin env" "env_hops env' = env_hops env"
proof -
  obtain origin where o: "env_origin env = Some origin" and vo: "verify_origin X env = Ok ()"
    and vl: "verify_links X (digest_canonical X env) (os_sig origin) (env_attestations env) = Ok ()"
    using assms(2) by (auto simp: verify_chain_def split: option.splits sum.splits)
  let ?prev = "if env_attestations env = [] then os_sig origin else at_sig (last (env_attestations env))"
  let ?a = "\<lparr>at_node_id = identity_node_id X seed, at_ts = ts,
      at_sig = identity_sign X seed (attestation_bytes X (digest_canonical X env) ?prev ts)\<rparr>"
  let ?e = "env\<lparr>env_attestations := env_attestations env @ [?a]\<rparr>"
  have a: "append_attestation X env seed ts = Ok ?e" using o by (simp add: append_attestation_def Let_def)
  have "identity_verify X (at_node_id ?a) (attestation_bytes X (digest_canonical X env) ?prev (at_ts ?a)) (at_sig ?a)"
    using assms(1) by (simp add: identity_verify_own ed25519_correct_def identity_sign_def)
  moreover have "digest_canonical X ?e = digest_canonical X env" by (simp add: signed_bytes_defs)
  moreover have "verify_origin X ?e = verify_origin X env"
    by (simp add: verify_origin_def signed_bytes_defs o)
  ultimately have "verify_chain X ?e = Ok ()"
    using o vo vl by (simp add: verify_chain_def verify_links_append)
  then show ?thesis using a that[of ?e] by simp
qed

lemma forward_chain_verifies:
  assumes "ed25519_correct X"
  shows "verify_chain X env = Ok () \<Longrightarrow>
    \<exists>env'. forward_chain X env hops = Ok env' \<and> verify_chain X env' = Ok () \<and>
      map at_node_id (env_attestations env') = map at_node_id (env_attestations env) @ map (identity_node_id X \<circ> fst) hops \<and>
      canonical_tuple X env' = canonical_tuple X env \<and> env_origin env' = env_origin env \<and>
      env_hops env' = env_hops env + of_nat (length hops)"
proof (induction hops arbitrary: env)
  case (Cons h hops)
  obtain seed ts where h: "h = (seed, ts)" by (cases h)
  let ?e = "env\<lparr>env_hops := env_hops env + 1\<rparr>"
  obtain env1 where e: "append_attestation X ?e seed ts = Ok env1" "verify_chain X env1 = Ok ()"
    "env_attestations env1 = env_attestations ?e @ [last (env_attestations env1)]"
    "at_node_id (last (env_attestations env1)) = identity_node_id X seed"
    "canonical_tuple X env1 = canonical_tuple X ?e" "env_origin env1 = env_origin ?e" "env_hops env1 = env_hops ?e"
    using append_attestation_verifies[OF assms, of ?e seed ts] Cons.prems by auto
  have "map at_node_id (env_attestations env1) = map at_node_id (env_attestations env) @ [identity_node_id X seed]"
    by (subst e(3)) (simp add: e(4))
  then show ?case using Cons.IH[OF e(2)] e(1,5,6,7) h by auto
qed simp

text \<open>
  Honest provenance. An envelope signed by its origin gateway and attested by any sequence of
  forwarding gateways verifies at the receiver, with one attestation per hop, in order, naming the
  gateways that forwarded it; and the fields a receiver rewrites (priority, hops, expiry, arrival time) do
  not disturb the verification.
\<close>

theorem honest_chain_verifies:
  assumes "ed25519_correct X" "env_attestations env = []"
  shows "\<exists>env'. forward_chain X (env\<lparr>env_origin := Some (sign_origin X env seed)\<rparr>) hops = Ok env' \<and>
    verify_chain X env' = Ok () \<and>
    map at_node_id (env_attestations env') = map (\<lambda>h. identity_node_id X (fst h)) hops \<and>
    env_hops env' = env_hops env + of_nat (length hops) \<and>
    (\<forall>p h e r. verify_chain X (env'\<lparr>env_priority := p, env_hops := h, env_expires_at := e, env_received_at := r\<rparr>) = Ok ())"
proof -
  let ?e = "env\<lparr>env_origin := Some (sign_origin X env seed)\<rparr>"
  have "verify_chain X ?e = Ok ()"
    using verify_origin_sign[OF assms(1), of env seed] assms(2) by (simp add: verify_chain_def)
  from forward_chain_verifies[OF assms(1) this, of hops] show ?thesis
    using assms(2) by (auto simp: comp_def)
qed

text \<open>An executable stand-in for the third-party primitives, used to evaluate examples.\<close>

definition enc_str :: "string \<Rightarrow> bytes" where
  "enc_str s = replicate (length s) (CHR ''1'') @ ''0'' @ s"

definition enc_strs :: "string list \<Rightarrow> bytes" where
  "enc_strs xs = concat (map enc_str xs)"

definition pad32 :: "bytes \<Rightarrow> bytes" where
  "pad32 s = take 32 (s @ replicate 32 (CHR ''0''))"

fun enc_canonical :: "canonical \<Rightarrow> bytes" where
  "enc_canonical (a, b, c, d, e, f, g, atts) =
     enc_strs ([a, b, c, d, e, f, g] @
       concat (map (\<lambda>(s, n, m, z). [s, n, m, replicate (unat z) (CHR ''1'')]) atts))"

definition ext_demo :: ext where
  "ext_demo =
     \<lparr>x_sha256 = pad32, x_hmac = (\<lambda>k m. pad32 m), x_upper = (\<lambda>s. s), x_ed_public = pad32,
      x_ed_sign = (\<lambda>s m. pad32 s @ m), x_ed_verify = (\<lambda>pk m sig. sig = pk @ m), x_rfc3339 = int_str,
      x_try_seconds = (\<lambda>s. Some (s * 1000000000)), x_checked_add = (\<lambda>t d. Some (t + d)),
      x_cbor_canonical = enc_canonical, x_cbor_advert = (\<lambda>a. []), x_uncbor_advert = (\<lambda>b. None),
      x_cbor_envelope = (\<lambda>e. env_body e), x_uncbor_envelope = (\<lambda>b. None),
      x_cbor_plaintext = (\<lambda>(b, i, e). enc_strs [b, i, int_str e]), x_uncbor_plaintext = (\<lambda>b. None),
      x_box_public = pad32, x_box_encrypt = (\<lambda>pub sec n pt. pt), x_box_decrypt = (\<lambda>pub sec n ct. Some ct)\<rparr>"

lemma length_pad32 [simp]: "length (pad32 s) = 32"
  by (simp add: pad32_def)

lemma ed25519_demo: "ed25519_correct ext_demo"
  by (simp add: ed25519_correct_def ext_demo_def)

theorem honest_chain_verifies_witness:
  "\<exists>env'. forward_chain ext_demo ((sample_env ''text'' ''hi'')\<lparr>env_origin :=
       Some (sign_origin ext_demo (sample_env ''text'' ''hi'') ''k0'')\<rparr>) [(''k1'', 5), (''k2'', 6)] = Ok env' \<and>
     verify_chain ext_demo env' = Ok () \<and> length (env_attestations env') = 2"
proof -
  have "env_attestations (sample_env ''text'' ''hi'') = []" by (simp add: sample_env_def envelope_new_def)
  from honest_chain_verifies[OF ed25519_demo this, of "''k0''" "[(''k1'', 5), (''k2'', 6)]"]
  obtain env' where "forward_chain ext_demo ((sample_env ''text'' ''hi'')\<lparr>env_origin :=
       Some (sign_origin ext_demo (sample_env ''text'' ''hi'') ''k0'')\<rparr>) [(''k1'', 5), (''k2'', 6)] = Ok env'"
    "verify_chain ext_demo env' = Ok ()"
    "map at_node_id (env_attestations env') = map (\<lambda>h. identity_node_id ext_demo (fst h)) [(''k1'', 5 :: datetime), (''k2'', 6)]"
    by blast
  moreover from this(3) have "length (map at_node_id (env_attestations env')) = 2" by simp
  ultimately show ?thesis by auto
qed

subsection \<open>What a verified signature pins\<close>

lemmas domain_defs = NOISE_STATIC_V1_def ENVELOPE_V1_def ATTEST_V1_def ADVERT_V1_def domain_separated_def

lemma domains_disjoint:
  "origin_bytes X env \<noteq> attestation_bytes X d p t"
  "origin_bytes X env \<noteq> NOISE_STATIC_V1 @ k"
  "origin_bytes X env \<noteq> ADVERT_V1 @ a"
  "attestation_bytes X d p t \<noteq> NOISE_STATIC_V1 @ k"
  "attestation_bytes X d p t \<noteq> ADVERT_V1 @ a"
  "NOISE_STATIC_V1 @ k \<noteq> ADVERT_V1 @ a"
  by (simp_all add: origin_bytes_def attestation_bytes_def domain_defs)

lemma origin_bytes_inj:
  "inj (x_cbor_canonical X) \<Longrightarrow> origin_bytes X e = origin_bytes X e' \<longleftrightarrow> canonical_tuple X e = canonical_tuple X e'"
  by (auto simp: origin_bytes_def canonical_bytes_def domain_separated_def dest: injD)

text \<open>The messages a gateway signs: envelopes it originates, attestations, its transport key, its adverts.\<close>

definition honest_messages :: "ext \<Rightarrow> envelope set \<Rightarrow> bytes set" where
  "honest_messages X E =
     origin_bytes X ` E \<union> {m. \<exists>d p t. m = attestation_bytes X d p t} \<union>
     {m. \<exists>k. m = NOISE_STATIC_V1 @ k} \<union> {m. \<exists>a. m = ADVERT_V1 @ a}"


lemma enc_str_prefix: "enc_str s @ r = enc_str s' @ r' \<Longrightarrow> s = s' \<and> r = r'"
proof -
  assume e: "enc_str s @ r = enc_str s' @ r'"
  have run: "replicate n (CHR ''1'') @ CHR ''0'' # a = replicate m (CHR ''1'') @ CHR ''0'' # b \<Longrightarrow> n = m" for n m a b
  proof (induction n arbitrary: m)
    case 0 then show ?case by (cases m) auto
  next
    case (Suc n) then show ?case by (cases m) auto
  qed
  have "length s = length s'" 
    using e by (intro run[of "length s" "s @ r" "length s'" "s' @ r'"]) (simp add: enc_str_def)
  then show ?thesis using e by (simp add: enc_str_def)
qed

lemma enc_strs_inj: "enc_strs xs = enc_strs ys \<Longrightarrow> xs = ys"
proof (induction xs arbitrary: ys)
  case Nil then show ?case by (cases ys) (auto simp: enc_strs_def enc_str_def)
next
  case (Cons x xs)
  then obtain y ys' where "ys = y # ys'" by (cases ys) (auto simp: enc_strs_def enc_str_def)
  then show ?case using Cons enc_str_prefix[of x "enc_strs xs" y "enc_strs ys'"] by (auto simp: enc_strs_def)
qed

lemma enc_canonical_inj: "inj enc_canonical"
proof (rule injI)
  fix u v assume e: "enc_canonical u = enc_canonical v"
  let ?f = "\<lambda>(s, n, m, z). [s, n, m, replicate (unat (z :: u64)) (CHR ''1'')]"
  have atts: "concat (map ?f as) = concat (map ?f bs) \<Longrightarrow> as = bs" for as bs
  proof (induction as arbitrary: bs)
    case Nil then show ?case by (cases bs) auto
  next
    case (Cons a as)
    obtain s n m z where a: "a = (s, n, m, z)" by (cases a)
    then obtain b bs' where b: "bs = b # bs'" using Cons.prems by (cases bs) auto
    obtain s' n' m' z' where b': "b = (s', n', m', z')" by (cases b)
    have "s = s'" "n = n'" "m = m'" "replicate (unat z) (CHR ''1'') = replicate (unat z') (CHR ''1'')" "concat (map ?f as) = concat (map ?f bs')"
      using Cons.prems unfolding b a b' by auto
    moreover from this(4) have "z = z'" by (metis length_replicate word_unat_eq_iff)
    ultimately show ?case using Cons.IH[of bs'] by (simp add: a b b')
  qed
  obtain a b c d f g h as where u: "u = (a, b, c, d, f, g, h, as)" by (metis surj_pair)
  obtain a' b' c' d' f' g' h' as' where v: "v = (a', b', c', d', f', g', h', as')" by (metis surj_pair)
  have "[a, b, c, d, f, g, h] @ concat (map ?f as) = [a', b', c', d', f', g', h'] @ concat (map ?f as')"
    using e unfolding u v enc_canonical.simps by (rule enc_strs_inj)
  then show "u = v" using atts[of as as'] by (simp add: u v)
qed


subsection \<open>Sealing\<close>

definition box_correct :: "ext \<Rightarrow> bytes \<Rightarrow> bool" where
  "box_correct X own \<longleftrightarrow>
     (\<forall>s. length (x_box_public X s) = 32) \<and>
     (\<forall>eph nonce pt. x_box_decrypt X (x_box_public X eph) own nonce
        (x_box_encrypt X (x_box_public X own) eph nonce pt) = Some pt)"

text \<open>
  Sealing round trip and header binding. What was sealed to a node's key opens there to exactly
  the sealed bytes; with a clear-text header whose identifier or expiry was rewritten on the way it is
  refused as a bad binding; and an unknown algorithm tag or a key or nonce of the wrong length is
  refused without decrypting.
\<close>

theorem seal_unseal:
  assumes "box_correct X own" "length nonce = 24"
    and "x_uncbor_plaintext X (x_cbor_plaintext X (cbor, i, ex)) = Some (cbor, i, ex)"
    and "s = seal_fixed X cbor i ex (x_box_public X own) eph nonce"
  shows "unseal X s own = Ok cbor \<and>
    (\<forall>i' ex'. (i', ex') \<noteq> (i, ex) \<longrightarrow> unseal X (s\<lparr>se_id := i', se_expires_at := ex'\<rparr>) own = Err BadBinding) \<and>
    (\<forall>s'. se_alg s' \<noteq> SEAL_ALG_V1 \<longrightarrow> unseal X s' own = Err UnsupportedAlg) \<and>
    (\<forall>s'. se_alg s' = SEAL_ALG_V1 \<and> (length (se_epk s') \<noteq> 32 \<or> length (se_nonce s') \<noteq> 24) \<longrightarrow> unseal X s' own = Err BadSeal)"
  using assms by (auto simp: unseal_def seal_fixed_def parse_epk_def parse_nonce_def box_correct_def)

definition ext_seal :: ext where
  "ext_seal = ext_demo\<lparr>x_uncbor_plaintext :=
     (\<lambda>b. if b = enc_strs [''cbor'', ''id-1'', int_str 90] then Some (''cbor'', ''id-1'', 90) else None)\<rparr>"

theorem seal_unseal_witness:
  "unseal ext_seal (seal_fixed ext_seal ''cbor'' ''id-1'' 90 (x_box_public ext_seal ''own'') ''eph'' (replicate 24 (CHR ''n''))) ''own'' = Ok ''cbor'' \<and>
   unseal ext_seal ((seal_fixed ext_seal ''cbor'' ''id-1'' 90 (x_box_public ext_seal ''own'') ''eph'' (replicate 24 (CHR ''n'')))
     \<lparr>se_id := ''id-1'', se_expires_at := 999\<rparr>) ''own'' = Err BadBinding"
proof -
  have b: "box_correct ext_seal ''own''" by (simp add: box_correct_def ext_seal_def ext_demo_def)
  have p: "x_uncbor_plaintext ext_seal (x_cbor_plaintext ext_seal (''cbor'', ''id-1'', 90)) = Some (''cbor'', ''id-1'', 90)"
    by (simp add: ext_seal_def ext_demo_def)
  show ?thesis using seal_unseal[OF b _ p refl, of "replicate 24 (CHR ''n'')" "''eph''"] by simp
qed

end
