(* ===== verification/Relay_Ipc.thy ===== *)
theory Relay_Ipc
  imports Relay_Core
begin

text \<open>
  The plugin protocol (\<open>src/crates/relay-ipc/src/lib.rs\<close>): the messages in both directions and the
  framing, a 4-byte big-endian length in front of a CBOR body, bounded by \<open>MAX_FRAME\<close>.

  The CBOR codec (\<open>ciborium\<close>) and the async stream (\<open>tokio\<close>) are not part of the repository: the
  codec is the arguments \<open>enc\<close>/\<open>dec\<close>, the stream the arguments \<open>write_all\<close>/\<open>flush\<close>/\<open>read_exact\<close>.
  The locale \<open>byte_stream\<close> states what the framing relies on; \<open>vec_write_all\<close>/\<open>slice_read_exact\<close>
  (the in-memory stream of the standard library) satisfy it. A gauge value is the bit pattern of its \<open>f64\<close>.
\<close>

definition MAX_FRAME :: nat where
  "MAX_FRAME = 16 * 1024 * 1024"

record ipc_attachment =
  ia_filename :: string
  ia_mime :: string
  ia_data :: bytes

datatype plugin_to_daemon =
    Hello string string nat capabilities
  | Inbound string string string string "datetime option" "ipc_attachment list" "string option"
  | DeliveryResult int bool "string option"
  | Gauges "(string \<times> u64) list"
  | Pong
  | UnknownP2D

datatype daemon_to_plugin =
    HelloAck nat "string option"
  | Send (send_corr: int) (send_endpoint: string) (send_kind: string) (send_body: string)
      (send_attachments: "ipc_attachment list")
  | Shutdown
  | SendDirect (direct_corr: int) (direct_ref: string) (direct_body: string)
  | Ping
  | UnknownD2P

datatype io_error = InvalidInput string | OtherIo string | UnexpectedEof

definition write_frame ::
  "('t \<Rightarrow> io_error + bytes) \<Rightarrow> ('w \<Rightarrow> bytes \<Rightarrow> io_error + 'w) \<Rightarrow> ('w \<Rightarrow> io_error + 'w) \<Rightarrow>
   'w \<Rightarrow> 't \<Rightarrow> io_error + 'w" where
  "write_frame enc write_all flush w msg =
     (let too_big = InvalidInput ''frame exceeds MAX_FRAME'' in
      case enc msg of
        Err e \<Rightarrow> Err e
      | Ok body \<Rightarrow>
          if length body \<ge> 2 ^ 32 then Err too_big
          else if length body > MAX_FRAME then Err too_big
          else case write_all w (be_bytes4 (of_nat (length body))) of
                 Err e \<Rightarrow> Err e
               | Ok w1 \<Rightarrow> (case write_all w1 body of Err e \<Rightarrow> Err e | Ok w2 \<Rightarrow> flush w2))"

definition read_frame ::
  "(bytes \<Rightarrow> io_error + 't) \<Rightarrow> ('r \<Rightarrow> nat \<Rightarrow> io_error + bytes \<times> 'r) \<Rightarrow> 'r \<Rightarrow> (io_error + 't) \<times> 'r" where
  "read_frame dec read_exact r =
     (case read_exact r 4 of
        Err e \<Rightarrow> (Err e, r)
      | Ok (hdr, r1) \<Rightarrow>
          let len = unat (be_val4 hdr) in
          if len > MAX_FRAME then (Err (OtherIo ''frame exceeds MAX_FRAME''), r1)
          else case read_exact r1 len of
                 Err e \<Rightarrow> (Err e, r1)
               | Ok (body, r2) \<Rightarrow> (dec body, r2))"

text \<open>The in-memory stream: \<open>Vec<u8>\<close> as a writer, \<open>&[u8]\<close> as a reader.\<close>

definition vec_write_all :: "bytes \<Rightarrow> bytes \<Rightarrow> io_error + bytes" where
  "vec_write_all w bs = Ok (w @ bs)"

definition vec_flush :: "bytes \<Rightarrow> io_error + bytes" where
  "vec_flush w = Ok w"

definition slice_read_exact :: "bytes \<Rightarrow> nat \<Rightarrow> io_error + bytes \<times> bytes" where
  "slice_read_exact r n = (if length r < n then Err UnexpectedEof else Ok (take n r, drop n r))"

text \<open>Writing a list of messages one after the other, and reading \<open>n\<close> of them back.\<close>

fun write_all_frames ::
  "('t \<Rightarrow> io_error + bytes) \<Rightarrow> ('w \<Rightarrow> bytes \<Rightarrow> io_error + 'w) \<Rightarrow> ('w \<Rightarrow> io_error + 'w) \<Rightarrow>
   'w \<Rightarrow> 't list \<Rightarrow> io_error + 'w" where
  "write_all_frames enc wa fl w [] = Ok w"
| "write_all_frames enc wa fl w (m # ms) =
     (case write_frame enc wa fl w m of Err e \<Rightarrow> Err e | Ok w' \<Rightarrow> write_all_frames enc wa fl w' ms)"

fun read_n_frames ::
  "(bytes \<Rightarrow> io_error + 't) \<Rightarrow> ('r \<Rightarrow> nat \<Rightarrow> io_error + bytes \<times> 'r) \<Rightarrow> 'r \<Rightarrow> nat \<Rightarrow>
   (io_error + 't) list \<times> 'r" where
  "read_n_frames dec re r 0 = ([], r)"
| "read_n_frames dec re r (Suc n) =
     (let (m, r1) = read_frame dec re r; (ms, r2) = read_n_frames dec re r1 n in (m # ms, r2))"

subsection \<open>The stream interface\<close>

text \<open>
  \<open>sent w\<close> is everything written so far, \<open>avail r\<close> everything still to be read.
\<close>

locale byte_stream =
  fixes write_all :: "'w \<Rightarrow> bytes \<Rightarrow> io_error + 'w"
    and flush :: "'w \<Rightarrow> io_error + 'w"
    and read_exact :: "'r \<Rightarrow> nat \<Rightarrow> io_error + bytes \<times> 'r"
    and sent :: "'w \<Rightarrow> bytes"
    and avail :: "'r \<Rightarrow> bytes"
  assumes write_sent: "write_all w bs = Ok w' \<Longrightarrow> sent w' = sent w @ bs"
    and flush_sent: "flush w = Ok w' \<Longrightarrow> sent w' = sent w"
    and read_avail: "avail r = bs @ rest \<Longrightarrow> \<exists>r'. read_exact r (length bs) = Ok (bs, r') \<and> avail r' = rest"
begin

definition frame_bytes :: "bytes \<Rightarrow> bytes" where
  "frame_bytes body = be_bytes4 (of_nat (length body)) @ body"

lemma write_frame_sent:
  assumes "write_frame enc write_all flush w m = Ok w'"
  shows "\<exists>body. enc m = Ok body \<and> length body \<le> MAX_FRAME \<and> sent w' = sent w @ frame_bytes body"
  using assms by (auto simp: write_frame_def frame_bytes_def Let_def dest!: write_sent flush_sent
      split: sum.splits if_splits)

lemma read_frame_avail:
  assumes "avail r = frame_bytes body @ rest" "length body \<le> MAX_FRAME"
  shows "\<exists>r'. read_frame dec read_exact r = (dec body, r') \<and> avail r' = rest"
proof -
  have small: "length body < 2 ^ 32" using assms(2) by (simp add: MAX_FRAME_def)
  obtain r1 where r1: "read_exact r 4 = Ok (be_bytes4 (of_nat (length body)), r1)" "avail r1 = body @ rest"
    using read_avail[of r "be_bytes4 (of_nat (length body))" "body @ rest"] assms(1)
    by (auto simp: frame_bytes_def)
  obtain r2 where r2: "read_exact r1 (length body) = Ok (body, r2)" "avail r2 = rest"
    using read_avail[OF r1(2)] by blast
  have "unat (of_nat (length body) :: u32) = length body"
    using small by (simp add: unat_of_nat)
  then show ?thesis using r1 r2 assms(2) by (auto simp: read_frame_def be_roundtrip4 Let_def)
qed

lemma write_all_frames_sent:
  assumes "write_all_frames enc write_all flush w ms = Ok w'"
  shows "\<exists>bodies. list_all2 (\<lambda>m b. enc m = Ok b \<and> length b \<le> MAX_FRAME) ms bodies \<and>
                  sent w' = sent w @ concat (map frame_bytes bodies)"
  using assms
proof (induction ms arbitrary: w)
  case (Cons m ms)
  then obtain w1 where w1: "write_frame enc write_all flush w m = Ok w1"
    "write_all_frames enc write_all flush w1 ms = Ok w'" by (auto split: sum.splits)
  obtain b where b: "enc m = Ok b" "length b \<le> MAX_FRAME" "sent w1 = sent w @ frame_bytes b"
    using write_frame_sent[OF w1(1)] by blast
  obtain bs where "list_all2 (\<lambda>m b. enc m = Ok b \<and> length b \<le> MAX_FRAME) ms bs"
    "sent w' = sent w1 @ concat (map frame_bytes bs)" using Cons.IH[OF w1(2)] by blast
  then show ?case using b by (intro exI[of _ "b # bs"]) simp
qed simp

lemma read_frames_bodies:
  assumes "avail r = concat (map frame_bytes bodies) @ rest" "list_all (\<lambda>b. length b \<le> MAX_FRAME) bodies"
  shows "\<exists>r'. read_n_frames dec read_exact r (length bodies) = (map dec bodies, r') \<and> avail r' = rest"
  using assms
proof (induction bodies arbitrary: r)
  case (Cons b bs)
  obtain r1 where r1: "read_frame dec read_exact r = (dec b, r1)" "avail r1 = concat (map frame_bytes bs) @ rest"
    using read_frame_avail[of r b "concat (map frame_bytes bs) @ rest" dec] Cons.prems by auto
  then show ?case using Cons.IH[OF r1(2)] Cons.prems by auto
qed simp

lemma frames_roundtrip:
  assumes wr: "write_all_frames enc write_all flush w ms = Ok w'"
    and av: "sent w @ avail r = sent w' @ rest"
    and rt: "\<And>m b. enc m = Ok b \<Longrightarrow> dec b = Ok m"
  shows "\<exists>r'. read_n_frames dec read_exact r (length ms) = (map Ok ms, r') \<and> avail r' = rest"
proof -
  obtain bodies where b: "list_all2 (\<lambda>m b. enc m = Ok b \<and> length b \<le> MAX_FRAME) ms bodies"
    "sent w' = sent w @ concat (map frame_bytes bodies)" using write_all_frames_sent[OF wr] by blast
  have len: "length bodies = length ms" using b(1) by (simp add: list_all2_lengthD)
  have dec: "map dec bodies = map Ok ms"
    using b(1) rt by (induction rule: list_all2_induct) auto
  have small: "list_all (\<lambda>b. length b \<le> MAX_FRAME) bodies"
    using b(1) by (induction rule: list_all2_induct) auto
  have "avail r = concat (map frame_bytes bodies) @ rest" using av b(2) by simp
  from read_frames_bodies[OF this small, of dec] show ?thesis by (simp add: dec len)
qed

end

interpretation mem: byte_stream vec_write_all vec_flush slice_read_exact "\<lambda>w. w" "\<lambda>r. r"
  by unfold_locales (auto simp: vec_write_all_def vec_flush_def slice_read_exact_def)

text \<open>
  Framing round trip. Whatever list of messages is written frame by frame to a byte buffer without
  an error, reading that many frames back from it (followed by any further bytes) gives exactly those messages in order
  and leaves exactly the further bytes, provided the codec decodes what it encoded.
\<close>

theorem frame_stream_roundtrip:
  assumes "write_all_frames enc vec_write_all vec_flush [] ms = Ok buf"
    and "\<And>m b. enc m = Ok b \<Longrightarrow> dec b = Ok m"
  shows "read_n_frames dec slice_read_exact (buf @ rest) (length ms) = (map Ok ms, rest)"
  using mem.frames_roundtrip[OF assms(1), of "buf @ rest" rest dec] assms(2) by auto

theorem frame_stream_roundtrip_witness:
  "read_n_frames Ok slice_read_exact ((be_bytes4 2 @ ''ab'' @ be_bytes4 0) @ ''tail'') 2
     = ([Ok ''ab'', Ok []], ''tail'')"
proof -
  have "write_all_frames Ok vec_write_all vec_flush [] [''ab'', []] = Ok (be_bytes4 2 @ ''ab'' @ be_bytes4 0)"
    by (simp add: write_frame_def vec_write_all_def vec_flush_def MAX_FRAME_def Let_def)
  from frame_stream_roundtrip[where rest = "''tail''" and dec = Ok, OF this] show ?thesis
    by (simp add: eval_nat_numeral)
qed

text \<open>
  Frame bound, both directions. A frame whose length prefix exceeds \<open>MAX_FRAME\<close> is refused by the reader
  before any body byte is consumed, and the writer refuses an encoded body above \<open>MAX_FRAME\<close>
  without writing anything (the error is \<open>InvalidInput\<close>, so a writer loop can drop the one frame).
\<close>

theorem frame_bound:
  "(4 \<le> length r \<longrightarrow> MAX_FRAME < unat (be_val4 (take 4 r)) \<longrightarrow>
      read_frame dec slice_read_exact r = (Err (OtherIo ''frame exceeds MAX_FRAME''), drop 4 r)) \<and>
   (\<forall>body. enc m = Ok body \<longrightarrow> MAX_FRAME < length body \<longrightarrow>
      write_frame enc wa fl w m = Err (InvalidInput ''frame exceeds MAX_FRAME''))"
  by (auto simp: read_frame_def slice_read_exact_def write_frame_def Let_def)

theorem frame_bound_witness:
  "read_frame Ok slice_read_exact ([CHR 0xFF, CHR 0x00, CHR 0x00, CHR 0x00] @ ''xyz'')
     = (Err (OtherIo ''frame exceeds MAX_FRAME''), ''xyz'') \<and>
   write_frame (\<lambda>n. Ok (replicate n CHR 0x00)) vec_write_all vec_flush [] (Suc MAX_FRAME)
     = Err (InvalidInput ''frame exceeds MAX_FRAME'')"
proof -
  have v: "unat (be_val4 [CHR 0xFF, CHR 0x00, CHR 0x00, CHR 0x00]) = 4278190080"
    by (simp add: be_val4_def byte_val_def)
  show ?thesis
    using frame_bound[where r = "[CHR 0xFF, CHR 0x00, CHR 0x00, CHR 0x00] @ ''xyz''" and dec = Ok
        and enc = "\<lambda>n. Ok (replicate n CHR 0x00)" and m = "Suc MAX_FRAME" and wa = vec_write_all
        and fl = vec_flush and w = "[]"] v
    by (simp add: MAX_FRAME_def)
qed

end
