(* ===== verification/Transform.thy ===== *)
theory Transform
  imports Rust_Prelude
begin

text \<open>
  Rendering of outgoing text (\<open>src/switchyardd/src/transform.rs\<close>): the route-level truncation by
  characters, the transport-level truncation by bytes, and the notes that replace dropped
  attachments.
\<close>

definition truncate_body :: "string \<Rightarrow> nat \<Rightarrow> string" where
  "truncate_body body max_chars =
     (if length (rust_chars body) \<le> max_chars then body
      else concat (take (max_chars - 1) (rust_chars body)) @ ellipsis)"

definition render :: "string option \<Rightarrow> string \<Rightarrow> nat option \<Rightarrow> string" where
  "render tag body max_payload =
     (let full = (case tag of Some t \<Rightarrow> ''['' @ t @ '']'' @ newline @ body | None \<Rightarrow> body) in
      case max_payload of
        None \<Rightarrow> full
      | Some limit \<Rightarrow>
          if length full \<le> limit then full
          else if limit < 3 then take (cut_back full limit) full
          else take (cut_back full (limit - 3)) full @ ellipsis)"

definition drop_note :: "string \<times> nat \<Rightarrow> string \<Rightarrow> string" where
  "drop_note ns reason =
     newline @ ''[dropped '' @ fst ns @ '': '' @ nat_str (snd ns) @ '' B over '' @ reason @ '']''"

definition attachment_notes :: "(string \<times> nat) list \<Rightarrow> string \<Rightarrow> string" where
  "attachment_notes dropped reason =
     (if reason = ''omitted'' then concat (map (\<lambda>_. newline @ ''[attachment omitted]'') dropped)
      else concat (map (\<lambda>ns. drop_note ns reason) dropped))"

subsection \<open>Facts\<close>

lemma truncate_body_chars:
  assumes "valid_utf8 body" "max_chars < length (rust_chars body)"
  shows "rust_chars (truncate_body body max_chars) = take (max_chars - 1) (rust_chars body) @ [ellipsis]"
proof -
  let ?p = "concat (take (max_chars - 1) (rust_chars body))"
  have u: "list_all utf8_char (take (max_chars - 1) (rust_chars body))"
    using valid_utf8_chars[OF assms(1)] by (auto simp: list_all_iff dest: in_set_takeD)
  have v: "valid_utf8 ?p" using u by (rule valid_utf8_concat)
  have "rust_chars ?p = take (max_chars - 1) (rust_chars body)"
    by (rule rust_chars_concat_shape) (use u in \<open>auto simp: list_all_iff utf8_char_shape\<close>)
  then show ?thesis using assms valid_utf8_append(2)[OF v valid_utf8_ellipsis]
    by (simp add: truncate_body_def)
qed

lemma truncate_body_valid: "valid_utf8 body \<Longrightarrow> valid_utf8 (truncate_body body n)"
proof (cases "length (rust_chars body) \<le> n")
  case False
  assume v: "valid_utf8 body"
  then show ?thesis
    using False truncate_body_chars[OF v, of n] valid_utf8_chars[OF v] valid_utf8_chars[OF valid_utf8_ellipsis]
    by (auto simp: valid_utf8_def list_all_iff dest: in_set_takeD)
qed (simp add: truncate_body_def)

definition assembled :: "string option \<Rightarrow> string \<Rightarrow> string" where
  "assembled tag body = (case tag of Some t \<Rightarrow> ''['' @ t @ '']'' @ newline @ body | None \<Rightarrow> body)"

lemma render_Some:
  "render tag body (Some limit) =
     (let full = assembled tag body in
      if length full \<le> limit then full
      else if limit < 3 then take (cut_back full limit) full
      else take (cut_back full (limit - 3)) full @ ellipsis)"
  by (simp add: render_def assembled_def Let_def)

lemma render_le: "length (render tag body (Some limit)) \<le> limit"
  using cut_back_le[of "assembled tag body" limit] cut_back_le[of "assembled tag body" "limit - 3"]
  by (auto simp: render_Some Let_def min_def simp del: cut_back_le)

lemma valid_utf8_assembled:
  assumes "valid_utf8 body" "\<forall>t. tag = Some t \<longrightarrow> valid_utf8 t"
  shows "valid_utf8 (assembled tag body)"
proof (cases tag)
  case (Some t)
  have a: "valid_utf8 ''[''" and b: "valid_utf8 '']''" and n: "valid_utf8 newline"
    unfolding valid_utf8_def newline_def by code_simp+
  have "valid_utf8 (''['' @ (t @ ('']'' @ (newline @ body))))"
    by (intro valid_utf8_append(1) a b n) (use assms Some in auto)
  then show ?thesis using Some by (simp add: assembled_def)
qed (use assms in \<open>simp add: assembled_def\<close>)

text \<open>
  Route-level truncation. On valid UTF-8 the result is valid UTF-8; a body of at most
  \<open>max_chars\<close> characters is unchanged; a longer one becomes its first \<open>max_chars - 1\<close> characters
  followed by the single ellipsis character, so (for \<open>max_chars \<ge> 1\<close>) it has exactly \<open>max_chars\<close> characters and no
  multi-byte character is ever split.
\<close>

theorem truncate_body_correct:
  assumes "valid_utf8 body" "1 \<le> max_chars"
  shows "valid_utf8 (truncate_body body max_chars) \<and>
    length (rust_chars (truncate_body body max_chars)) = min max_chars (length (rust_chars body)) \<and>
    rust_chars (truncate_body body max_chars) =
           (if length (rust_chars body) \<le> max_chars then rust_chars body
            else take (max_chars - 1) (rust_chars body) @ [ellipsis])"
proof -
  have c: "rust_chars (truncate_body body max_chars) =
           (if length (rust_chars body) \<le> max_chars then rust_chars body
            else take (max_chars - 1) (rust_chars body) @ [ellipsis])"
    using truncate_body_chars[OF assms(1)] by (simp add: truncate_body_def)
  show ?thesis using assms truncate_body_valid by (simp add: c)
qed

theorem truncate_body_correct_witness:
  "truncate_body (''ab'' @ ellipsis @ ''d'') 3 = ''ab'' @ ellipsis \<and>
   valid_utf8 (truncate_body (''ab'' @ ellipsis @ ''d'') 3)"
proof -
  have v: "valid_utf8 (''ab'' @ ellipsis @ ''d'')" unfolding valid_utf8_def ellipsis_def by code_simp
  have e: "truncate_body (''ab'' @ ellipsis @ ''d'') 3 = ''ab'' @ ellipsis"
    unfolding truncate_body_def ellipsis_def by code_simp
  show ?thesis using truncate_body_correct[OF v, of 3] e by simp
qed

text \<open>
  Transport-level rendering. With a byte limit the rendered text never exceeds it, whatever the
  tag, the body and the limit (limits below the three bytes of the ellipsis included); a text that
  fits is sent unchanged; a text that does not fit is a prefix of the assembled text that ends at a
  character boundary, followed by the ellipsis when the limit has room for it; and valid UTF-8 stays valid.
\<close>

theorem render_correct:
  "length (render tag body (Some limit)) \<le> limit \<and>
   (length (assembled tag body) \<le> limit \<longrightarrow> render tag body (Some limit) = assembled tag body) \<and>
   (limit < length (assembled tag body) \<longrightarrow> (\<exists>cut. is_char_boundary (assembled tag body) cut \<and>
      render tag body (Some limit) = take cut (assembled tag body) @ (if limit < 3 then [] else ellipsis))) \<and>
   (valid_utf8 body \<longrightarrow> (\<forall>t. tag = Some t \<longrightarrow> valid_utf8 t) \<longrightarrow> valid_utf8 (render tag body (Some limit)))"
proof (intro conjI impI)
  show "length (render tag body (Some limit)) \<le> limit" by (rule render_le)
  show "\<exists>cut. is_char_boundary (assembled tag body) cut \<and>
      render tag body (Some limit) = take cut (assembled tag body) @ (if limit < 3 then [] else ellipsis)"
    if "limit < length (assembled tag body)"
    using that by (auto simp: render_Some Let_def intro: cut_back_boundary)
  show "valid_utf8 (render tag body (Some limit))" if "valid_utf8 body" "\<forall>t. tag = Some t \<longrightarrow> valid_utf8 t"
  proof -
    have v: "valid_utf8 (assembled tag body)" using that by (rule valid_utf8_assembled)
    show ?thesis
      using v valid_utf8_cut[OF v, of limit] valid_utf8_cut[OF v, of "limit - 3"]
        valid_utf8_append(1)[OF _ valid_utf8_ellipsis]
      by (auto simp: render_Some Let_def)
  qed
qed (simp add: render_Some)

theorem render_correct_witness:
  "length (render (Some ''SIGN-0A1B'') ''hello'' (Some 10)) \<le> 10 \<and>
   render (Some ''SIGN-0A1B'') ''hello'' (Some 10) = ''[SIGN-0'' @ ellipsis \<and>
   valid_utf8 (render (Some ''SIGN-0A1B'') ''hello'' (Some 10))"
proof -
  have v: "valid_utf8 ''hello''" "valid_utf8 ''SIGN-0A1B''" unfolding valid_utf8_def by code_simp+
  have e: "render (Some ''SIGN-0A1B'') ''hello'' (Some 10) = ''[SIGN-0'' @ ellipsis"
    by code_simp
  show ?thesis using render_correct[of "Some ''SIGN-0A1B''" "''hello''" 10] v e by simp
qed

end
