(* ===== verification/Dedup.thy ===== *)
theory Dedup
  imports Rust_Prelude "HOL-Library.List_Lexorder" "HOL-Library.Char_ord" "HOL-Library.Multiset"
begin

text \<open>
  Duplicate suppression (\<open>src/switchyardd/src/dedup.rs\<close>), the retry schedule (\<open>queue.rs\<close>) and the
  masking of native references (\<open>identity_links.rs\<close>). SHA-256 is the argument \<open>sha256\<close>.
\<close>

subsection \<open>The dedup key\<close>

definition key_preimage :: "string list \<Rightarrow> bytes" where
  "key_preimage fields = concat (map (\<lambda>f. le_bytes8 (length f) @ f) fields)"

definition key_fields ::
  "string \<Rightarrow> string \<Rightarrow> string \<Rightarrow> string \<Rightarrow> datetime option \<Rightarrow> string list \<Rightarrow> string list" where
  "key_fields protocol sender endpoint body created_at shas =
     (let ts = (case created_at of None \<Rightarrow> [] | Some t \<Rightarrow> int_str (t div 1000000000));
          joined = join_with '','' (sort shas)
      in [protocol, sender, endpoint, ts, body, joined])"

definition dedup_key ::
  "(bytes \<Rightarrow> bytes) \<Rightarrow> string \<Rightarrow> string \<Rightarrow> string \<Rightarrow> string \<Rightarrow> datetime option \<Rightarrow> string list \<Rightarrow> string" where
  "dedup_key sha256 protocol sender endpoint body created_at shas =
     hex_encode (sha256 (key_preimage (key_fields protocol sender endpoint body created_at shas)))"

subsection \<open>The table of seen keys\<close>

record dedup =
  dd_ttl :: duration
  dd_seen :: "(string \<times> (instant \<times> duration)) list"

definition dedup_new :: "duration \<Rightarrow> dedup" where
  "dedup_new ttl = \<lparr>dd_ttl = ttl, dd_seen = []\<rparr>"

definition set_ttl :: "duration \<Rightarrow> dedup \<Rightarrow> dedup" where
  "set_ttl ttl d = d\<lparr>dd_ttl := ttl\<rparr>"

definition dedup_prune :: "instant \<Rightarrow> dedup \<Rightarrow> dedup" where
  "dedup_prune now d = d\<lparr>dd_seen := filter (\<lambda>(_, t, ttl). now - t < ttl) (dd_seen d)\<rparr>"

definition is_duplicate :: "string \<Rightarrow> instant \<Rightarrow> dedup \<Rightarrow> bool \<times> dedup" where
  "is_duplicate key now d =
     (let d' = dedup_prune now d in (map_of (dd_seen d') key \<noteq> None, d'))"

definition dedup_record :: "string \<Rightarrow> instant \<Rightarrow> dedup \<Rightarrow> dedup" where
  "dedup_record key now d = d\<lparr>dd_seen := alist_put key (now, dd_ttl d) (dd_seen d)\<rparr>"

subsection \<open>Retry schedule and masking\<close>

definition MAX_ATTEMPTS :: nat where
  "MAX_ATTEMPTS = 8"

fun backoff :: "nat \<Rightarrow> duration" where
  "backoff attempt =
     secs (if attempt = 0 \<or> attempt = 1 then 5
           else if attempt = 2 then 30
           else if attempt = 3 then 120
           else if attempt = 4 then 600
           else 3600)"

definition mask_ref :: "string \<Rightarrow> string" where
  "mask_ref s =
     (let chars = rust_chars s in
      if length chars > 8
      then concat (take 2 chars) @ ''****'' @ concat (drop (length chars - 4) chars)
      else ''****'')"

definition format_code :: "nat \<Rightarrow> string" where
  "format_code n = (let s = nat_str n in replicate (6 - length s) (CHR ''0'') @ s)"

subsection \<open>Runs of operations\<close>

text \<open>
  What callers do to the table: look a key up, record one, change the lifetime. \<open>last_record\<close> is the
  specification: the time and lifetime of the latest record of a key in the history.
\<close>

datatype dedup_op = Peek string instant | Record string instant | SetTtl duration

fun dedup_step :: "dedup \<Rightarrow> dedup_op \<Rightarrow> dedup" where
  "dedup_step d (Peek k now) = snd (is_duplicate k now d)"
| "dedup_step d (Record k now) = dedup_record k now d"
| "dedup_step d (SetTtl ttl) = set_ttl ttl d"

fun op_time :: "dedup_op \<Rightarrow> instant option" where
  "op_time (Peek k now) = Some now"
| "op_time (Record k now) = Some now"
| "op_time (SetTtl ttl) = None"

fun ttl_after :: "duration \<Rightarrow> dedup_op list \<Rightarrow> duration" where
  "ttl_after ttl [] = ttl"
| "ttl_after ttl (SetTtl t # ops) = ttl_after t ops"
| "ttl_after ttl (_ # ops) = ttl_after ttl ops"

fun last_record :: "duration \<Rightarrow> (instant \<times> duration) option \<Rightarrow> string \<Rightarrow> dedup_op list \<Rightarrow> (instant \<times> duration) option" where
  "last_record ttl acc k [] = acc"
| "last_record ttl acc k (Record k' now # ops) = last_record ttl (if k' = k then Some (now, ttl) else acc) k ops"
| "last_record ttl acc k (SetTtl t # ops) = last_record t acc k ops"
| "last_record ttl acc k (Peek _ _ # ops) = last_record ttl acc k ops"

fun times_from :: "instant \<Rightarrow> dedup_op list \<Rightarrow> bool" where
  "times_from t [] = True"
| "times_from t (op # ops) =
     (case op_time op of None \<Rightarrow> times_from t ops | Some now \<Rightarrow> t \<le> now \<and> times_from now ops)"

definition last_time :: "instant \<Rightarrow> dedup_op list \<Rightarrow> instant" where
  "last_time t ops = foldl (\<lambda>t op. case op_time op of None \<Rightarrow> t | Some now \<Rightarrow> now) t ops"

subsection \<open>Facts about the table\<close>

lemma map_of_filter_val:
  "distinct (map fst m) \<Longrightarrow>
   map_of (filter (\<lambda>(k, v). P v) m) k = (case map_of m k of None \<Rightarrow> None | Some v \<Rightarrow> if P v then Some v else None)"
proof (induction m)
  case (Cons e m)
  then show ?case by (cases e) (auto simp: map_of_eq_None_iff split: option.splits)
qed simp

definition dedup_wf :: "dedup \<Rightarrow> bool" where
  "dedup_wf d \<longleftrightarrow> distinct (map fst (dd_seen d))"

lemma dedup_wf_new [simp]: "dedup_wf (dedup_new ttl)"
  by (simp add: dedup_wf_def dedup_new_def)

lemma distinct_fst_filter: "distinct (map fst m) \<Longrightarrow> distinct (map fst (filter P m))"
  by (induction m) auto

lemma dedup_wf_step [simp]: "dedup_wf d \<Longrightarrow> dedup_wf (dedup_step d op)"
  by (cases op) (auto simp: dedup_wf_def is_duplicate_def Let_def dedup_prune_def dedup_record_def
      set_ttl_def distinct_fst_filter)

lemma seen_prune:
  "dedup_wf d \<Longrightarrow> map_of (dd_seen (dedup_prune now d)) k =
     (case map_of (dd_seen d) k of None \<Rightarrow> None
      | Some (t, ttl) \<Rightarrow> if now - t < ttl then Some (t, ttl) else None)"
  using map_of_filter_val[of "dd_seen d" "\<lambda>(t, ttl). now - t < ttl" k]
  by (auto simp: dedup_wf_def dedup_prune_def split_def split: option.splits)

lemma ttl_prune [simp]: "dd_ttl (dedup_prune now d) = dd_ttl d"
  by (simp add: dedup_prune_def)

lemma is_duplicate_iff:
  "dedup_wf d \<Longrightarrow> fst (is_duplicate k now d) \<longleftrightarrow>
     (\<exists>t ttl. map_of (dd_seen d) k = Some (t, ttl) \<and> now - t < ttl)"
  by (auto simp: is_duplicate_def Let_def seen_prune split: option.splits if_splits)

lemma is_duplicate_keeps:
  "dedup_wf d \<Longrightarrow> map_of (dd_seen (snd (is_duplicate k now d))) k' = Some (t, ttl) \<longleftrightarrow>
     map_of (dd_seen d) k' = Some (t, ttl) \<and> now - t < ttl"
  by (auto simp: is_duplicate_def Let_def seen_prune split: option.splits if_splits)

text \<open>
  The table and the history agree: what the table holds is the latest record, and the latest
  record is held as long as it has not expired at the time of the latest operation.
\<close>

definition agrees :: "dedup \<Rightarrow> (string \<Rightarrow> (instant \<times> duration) option) \<Rightarrow> instant \<Rightarrow> bool" where
  "agrees d h now \<longleftrightarrow> dedup_wf d \<and>
     (\<forall>k v. map_of (dd_seen d) k = Some v \<longrightarrow> h k = Some v) \<and>
     (\<forall>k t ttl. h k = Some (t, ttl) \<longrightarrow> now - t < ttl \<longrightarrow> map_of (dd_seen d) k = Some (t, ttl))"

lemma agreesD:
  assumes "agrees d h now"
  shows "dedup_wf d" "map_of (dd_seen d) k = Some v \<Longrightarrow> h k = Some v"
    "h k = Some (t, ttl) \<Longrightarrow> now - t < ttl \<Longrightarrow> map_of (dd_seen d) k = Some (t, ttl)"
  using assms unfolding agrees_def by blast+

lemma agreesI:
  assumes "dedup_wf d" "\<And>k v. map_of (dd_seen d) k = Some v \<Longrightarrow> h k = Some v"
    "\<And>k t ttl. h k = Some (t, ttl) \<Longrightarrow> now - t < ttl \<Longrightarrow> map_of (dd_seen d) k = Some (t, ttl)"
  shows "agrees d h now"
  using assms unfolding agrees_def by blast

lemma agrees_peek:
  assumes a: "agrees d h t0" and t0: "t0 \<le> now"
  shows "agrees (snd (is_duplicate k now d)) h now"
proof (rule agreesI)
  note w = agreesD(1)[OF a]
  show "dedup_wf (snd (is_duplicate k now d))" using dedup_wf_step[OF w, of "Peek k now"] by simp
  show "h k' = Some v" if "map_of (dd_seen (snd (is_duplicate k now d))) k' = Some v" for k' v
    using that agreesD(2)[OF a] is_duplicate_keeps[OF w, of k now k' "fst v" "snd v"] by simp
  show "map_of (dd_seen (snd (is_duplicate k now d))) k' = Some (t, ttl)"
    if h: "h k' = Some (t, ttl)" "now - t < ttl" for k' t ttl
  proof -
    have "t0 - t < ttl" using h(2) t0 by linarith
    then show ?thesis using agreesD(3)[OF a h(1)] h(2) is_duplicate_keeps[OF w] by blast
  qed
qed

lemma agrees_record:
  assumes a: "agrees d h t0" and t0: "t0 \<le> now"
  shows "agrees (dedup_record k now d) (h(k \<mapsto> (now, dd_ttl d))) now"
proof (rule agreesI)
  have seen: "map_of (dd_seen (dedup_record k now d)) = (map_of (dd_seen d))(k \<mapsto> (now, dd_ttl d))"
    by (simp add: dedup_record_def)
  show "dedup_wf (dedup_record k now d)" using dedup_wf_step[OF agreesD(1)[OF a], of "Record k now"] by simp
  show "(h(k \<mapsto> (now, dd_ttl d))) k' = Some v" if "map_of (dd_seen (dedup_record k now d)) k' = Some v" for k' v
    using that agreesD(2)[OF a] by (auto simp: seen split: if_splits)
  show "map_of (dd_seen (dedup_record k now d)) k' = Some (t, ttl)"
    if h: "(h(k \<mapsto> (now, dd_ttl d))) k' = Some (t, ttl)" "now - t < ttl" for k' t ttl
  proof (cases "k' = k")
    case False
    have "t0 - t < ttl" using h(2) t0 by linarith
    then show ?thesis using agreesD(3)[OF a, of k' t ttl] h(1) False by (simp add: seen)
  qed (use h in \<open>auto simp: seen dedup_record_def\<close>)
qed

lemma agrees_set_ttl: "agrees (set_ttl ttl d) h t = agrees d h t"
  by (simp add: agrees_def set_ttl_def dedup_wf_def)

lemma dedup_run_agrees:
  assumes "agrees d h t0" "times_from t0 ops"
  shows "agrees (foldl dedup_step d ops) (\<lambda>k. last_record (dd_ttl d) (h k) k ops) (last_time t0 ops)"
  using assms
proof (induction ops arbitrary: d h t0)
  case (Cons op ops)
  show ?case
  proof (cases op)
    case (Peek k now)
    then have "agrees (snd (is_duplicate k now d)) h now" "times_from now ops"
      using Cons.prems agrees_peek by auto
    from Cons.IH[OF this] show ?thesis using Peek
      by (simp add: last_time_def is_duplicate_def Let_def)
  next
    case (Record k now)
    then have ag: "agrees (dedup_record k now d) (h(k \<mapsto> (now, dd_ttl d))) now" "times_from now ops"
      using Cons.prems agrees_record by auto
    have "(\<lambda>k'. last_record (dd_ttl d) ((h(k \<mapsto> (now, dd_ttl d))) k') k' ops) =
        (\<lambda>k'. last_record (dd_ttl d) (h k') k' (op # ops))" using Record by (simp add: fun_eq_iff)
    moreover have "dd_ttl (dedup_record k now d) = dd_ttl d" by (simp add: dedup_record_def)
    ultimately show ?thesis using Cons.IH[OF ag] Record by (simp add: last_time_def)
  next
    case (SetTtl ttl)
    then have "agrees (set_ttl ttl d) h t0" "times_from t0 ops"
      using Cons.prems by (simp_all add: agrees_set_ttl)
    from Cons.IH[OF this] show ?thesis using SetTtl by (simp add: last_time_def set_ttl_def)
  qed
qed (simp add: last_time_def)

text \<open>
  C30: Duplicate suppression. After any history of look-ups, records and lifetime changes on a
  monotone clock, starting from an empty table, a key is reported as a duplicate exactly when its
  latest record has not outlived the lifetime that was configured at the moment of that record.
  Look-ups never count as seen, pruning never forgets a live entry, and a lifetime change affects
  later records only.
\<close>

theorem dedup_refines_history:
  assumes "times_from 0 ops" "last_time 0 ops \<le> now"
  shows "fst (is_duplicate k now (foldl dedup_step (dedup_new ttl) ops)) \<longleftrightarrow>
     (\<exists>t T. last_record ttl None k ops = Some (t, T) \<and> now - t < T)"
proof -
  let ?d = "foldl dedup_step (dedup_new ttl) ops"
  have "agrees (dedup_new ttl) (\<lambda>_. None) 0" by (rule agreesI) (auto simp: dedup_new_def dedup_wf_def)
  from dedup_run_agrees[OF this assms(1)]
  have ag: "agrees ?d (\<lambda>k. last_record ttl None k ops) (last_time 0 ops)" by (simp add: dedup_new_def)
  have "map_of (dd_seen ?d) k = Some (t, T)"
    if "last_record ttl None k ops = Some (t, T)" "now - t < T" for t T
  proof -
    have "last_time 0 ops - t < T" using that(2) assms(2) by linarith
    then show ?thesis using agreesD(3)[OF ag] that(1) by blast
  qed
  then show ?thesis using is_duplicate_iff[OF agreesD(1)[OF ag]] agreesD(2)[OF ag] by blast
qed

theorem dedup_refines_history_witness:
  "fst (is_duplicate ''k'' 9 (foldl dedup_step (dedup_new 5) [Record ''k'' 5, SetTtl 1, Peek ''k'' 6])) \<and>
   \<not> fst (is_duplicate ''k'' 10 (foldl dedup_step (dedup_new 5) [Record ''k'' 5, SetTtl 1, Peek ''k'' 6]))"
  using dedup_refines_history[of "[Record ''k'' 5, SetTtl 1, Peek ''k'' 6]" 9 "''k''" 5]
        dedup_refines_history[of "[Record ''k'' 5, SetTtl 1, Peek ''k'' 6]" 10 "''k''" 5]
  by (simp add: last_time_def)

subsection \<open>The key determines the message\<close>

lemma le_bytes8_inj:
  assumes "le_bytes8 m = le_bytes8 n" "m < 2 ^ 64" "n < 2 ^ 64"
  shows "m = n"
proof -
  have d: "m div 256 ^ i mod 256 = n div 256 ^ i mod 256" if "i < 8" for i
  proof -
    have "le_bytes8 m ! i = le_bytes8 n ! i" using assms(1) by simp
    then have "(char_of (m div 256 ^ i mod 256) :: char) = char_of (n div 256 ^ i mod 256)"
      using that unfolding le_bytes8_def by (simp only: nth_map length_upt nth_upt add_0 diff_zero)
    then have "byte_val (char_of (m div 256 ^ i mod 256)) = byte_val (char_of (n div 256 ^ i mod 256))"
      by simp
    then show ?thesis by simp
  qed
  have "m mod 256 ^ i = n mod 256 ^ i" if "i \<le> 8" for i
    using that
  proof (induction i)
    case (Suc i)
    have s: "x mod 256 ^ Suc i = 256 ^ i * (x div 256 ^ i mod 256) + x mod 256 ^ i" for x :: nat
      by (simp add: mod_mult2_eq[symmetric] mult.commute)
    show ?case using Suc d[of i] by (simp add: s del: power_Suc)
  qed simp
  from this[of 8] show ?thesis using assms(2,3) by simp
qed

lemma key_preimage_inj:
  assumes "key_preimage xs = key_preimage ys" "length xs = length ys"
    and "\<forall>x \<in> set xs \<union> set ys. length x < 2 ^ 64"
  shows "xs = ys"
  using assms
proof (induction xs arbitrary: ys)
  case (Cons x xs)
  then obtain y ys' where y: "ys = y # ys'" by (cases ys) auto
  have e: "le_bytes8 (length x) @ x @ key_preimage xs = le_bytes8 (length y) @ y @ key_preimage ys'"
    using Cons.prems(1) y by (simp add: key_preimage_def)
  then have "le_bytes8 (length x) = le_bytes8 (length y)" by (simp add: append_eq_append_conv)
  then have len: "length x = length y" using le_bytes8_inj Cons.prems(3) y by auto
  then have "x = y" "key_preimage xs = key_preimage ys'" using e by (auto simp: append_eq_append_conv)
  then show ?case using Cons.IH[of ys'] Cons.prems y by auto
qed simp

lemma hex_digit_inj: "a < 16 \<Longrightarrow> b < 16 \<Longrightarrow> hex_digit 97 a = hex_digit 97 b \<Longrightarrow> a = b"
  by (auto simp: hex_digit_def split: if_splits dest!: arg_cong[where f = byte_val])

lemma hex_encode_inj: "hex_encode a = hex_encode b \<Longrightarrow> a = b"
proof (induction a arbitrary: b)
  case (Cons x a)
  then obtain y b' where b: "b = y # b'" by (cases b) (auto simp: hex_encode_def)
  have "byte_val x div 16 < 16" "byte_val y div 16 < 16" "byte_val x mod 16 < 16" "byte_val y mod 16 < 16"
    using byte_val_less[of x] byte_val_less[of y] by (linarith | simp)+
  then have "byte_val x div 16 = byte_val y div 16" "byte_val x mod 16 = byte_val y mod 16"
    using Cons.prems b by (auto simp: hex_encode_def intro: hex_digit_inj)
  then have "byte_val x = byte_val y" by (metis div_mult_mod_eq)
  then have "x = y" by (simp add: byte_val_def)
  then show ?case using Cons b by (auto simp: hex_encode_def)
qed (auto simp: hex_encode_def split: list.splits)

lemma join_with_inj:
  assumes "join_with '','' xs = join_with '','' ys"
    and "\<forall>x \<in> set xs \<union> set ys. x \<noteq> [] \<and> CHR '','' \<notin> set x"
  shows "xs = ys"
  using assms
proof (induction xs arbitrary: ys)
  case Nil
  then show ?case by (cases ys; cases "tl ys") auto
next
  case (Cons x xs)
  obtain y ys' where ys: "ys = y # ys'" using Cons.prems by (cases ys; cases xs) auto
  have x: "CHR '','' \<notin> set x" and y: "CHR '','' \<notin> set y" using Cons.prems(2) ys by auto
  consider "xs = []" "ys' = []" | "xs \<noteq> []" "ys' = []" | "xs = []" "ys' \<noteq> []" | "xs \<noteq> []" "ys' \<noteq> []" by blast
  then show ?case
  proof cases
    case 1 then show ?thesis using Cons.prems ys by simp
  next
    case 2 then show ?thesis using Cons.prems(1) ys y by (cases xs) auto
  next
    case 3 then show ?thesis using Cons.prems(1) ys x by (cases ys') auto
  next
    case 4
    then have e: "x @ CHR '','' # join_with '','' xs = y @ CHR '','' # join_with '','' ys'"
      using Cons.prems(1) ys by (cases xs; cases ys') auto
    have "Some (x, join_with '','' xs) = Some (y, join_with '','' ys')"
      using split_once_append[OF x, of "join_with '','' xs"] split_once_append[OF y] e by metis
    then show ?thesis using Cons.IH[of ys'] Cons.prems(2) ys by auto
  qed
qed

text \<open>
  The dedup key separates messages. Two messages (with fields shorter than \<open>2^64\<close> bytes and
  attachment digests that are non-empty and comma-free, as hex digests are) whose keys are equal
  agree in protocol, sender, endpoint, body and the multiset of attachment digests, unless the
  two hashed texts are a SHA-256 collision: the length prefixes rule out any confusion between
  neighbouring, sender-controlled fields. The order of the digests does not matter to the key.
\<close>

theorem dedup_key_separates:
  assumes "dedup_key sha256 p s e b t shas = dedup_key sha256 p' s' e' b' t' shas'"
    and "\<forall>f \<in> set (key_fields p s e b t shas) \<union> set (key_fields p' s' e' b' t' shas'). length f < 2 ^ 64"
    and "\<forall>x \<in> set shas \<union> set shas'. x \<noteq> [] \<and> CHR '','' \<notin> set x"
    and "sha256 (key_preimage (key_fields p s e b t shas)) = sha256 (key_preimage (key_fields p' s' e' b' t' shas'))
         \<Longrightarrow> key_preimage (key_fields p s e b t shas) = key_preimage (key_fields p' s' e' b' t' shas')"
  shows "p = p' \<and> s = s' \<and> e = e' \<and> b = b' \<and> mset shas = mset shas'"
proof -
  have "key_preimage (key_fields p s e b t shas) = key_preimage (key_fields p' s' e' b' t' shas')"
    using assms(1,4) hex_encode_inj unfolding dedup_key_def by blast
  then have f: "key_fields p s e b t shas = key_fields p' s' e' b' t' shas'"
    using assms(2) by (intro key_preimage_inj) (auto simp: key_fields_def Let_def)
  have "sort shas = sort shas'"
    using f assms(3) by (intro join_with_inj) (auto simp: key_fields_def Let_def)
  then have "mset shas = mset shas'" by (metis mset_sort)
  then show ?thesis using f by (auto simp: key_fields_def Let_def)
qed

theorem dedup_key_separates_witness:
  "mset [''aa'', ''bb''] = mset [''bb'', ''aa''] \<and>
   dedup_key (\<lambda>x. x) ''m'' ''s'' ''e'' ''hi'' None [''aa'', ''bb''] = dedup_key (\<lambda>x. x) ''m'' ''s'' ''e'' ''hi'' None [''bb'', ''aa'']"
proof -
  have sorted: "sort [''bb'', ''aa''] = sort [''aa'', ''bb'']" by code_simp
  have k: "dedup_key (\<lambda>x. x) ''m'' ''s'' ''e'' ''hi'' None [''aa'', ''bb'']
      = dedup_key (\<lambda>x. x) ''m'' ''s'' ''e'' ''hi'' None [''bb'', ''aa'']"
    by (simp only: dedup_key_def key_fields_def sorted)
  have l: "length (join_with '','' (sort [''aa'', ''bb''])) = 5" by code_simp
  have f: "key_fields ''m'' ''s'' ''e'' ''hi'' None [''bb'', ''aa''] = key_fields ''m'' ''s'' ''e'' ''hi'' None [''aa'', ''bb'']"
    by (simp only: key_fields_def sorted)
  have b: "\<forall>x \<in> set (key_fields ''m'' ''s'' ''e'' ''hi'' None [''aa'', ''bb'']). length x < 2 ^ 64"
    unfolding key_fields_def Let_def using l by (simp del: sort_key_simps)
  have "''m'' = ''m'' \<and> ''s'' = ''s'' \<and> ''e'' = ''e'' \<and> ''hi'' = ''hi'' \<and> mset [''aa'', ''bb''] = mset [''bb'', ''aa'']"
    by (rule dedup_key_separates[OF k]) (use b in \<open>auto simp: f\<close>)
  then show ?thesis using k by blast
qed

text \<open>
  The retry delay grows with every attempt up to the cap: it is monotone, at least five
  seconds, at most one hour, and constant from the fifth attempt on.
\<close>

theorem backoff_schedule:
  "(m \<le> n \<longrightarrow> backoff m \<le> backoff n) \<and> secs 5 \<le> backoff n \<and> backoff n \<le> secs 3600 \<and>
   (5 \<le> n \<longrightarrow> backoff n = secs 3600)"
  by (auto simp: secs_def ns_per_sec_def)

theorem backoff_schedule_witness:
  "backoff 3 \<le> backoff 7 \<and> backoff 7 = secs 3600"
  using backoff_schedule[of 3 7] by simp

lemma mask_ref_middle:
  assumes "length (rust_chars s) > 8" "length (rust_chars t) > 8"
    and "take 2 (rust_chars s) = take 2 (rust_chars t)"
    and "drop (length (rust_chars s) - 4) (rust_chars s) = drop (length (rust_chars t) - 4) (rust_chars t)"
  shows "mask_ref s = mask_ref t"
  using assms by (simp add: mask_ref_def Let_def)

end
