(* ===== verification/Limits.thy ===== *)
theory Limits
  imports Rust_Prelude
begin

text \<open>
  The quota limiters (\<open>src/switchyardd/src/limits.rs\<close>): a per-sender sliding window over messages
  per minute and bytes per hour, and the per-key egress budget. Byte counts are \<open>u64\<close> and added
  with wrap-around, which is what the release build does; the message count is compared as \<open>u32\<close>.
  A map from keys to their history is an association list.
\<close>

definition MINUTE :: duration where
  "MINUTE = secs 60"

definition HOUR :: duration where
  "HOUR = secs 3600"

record sender_limiter =
  sl_messages_per_minute :: u32
  sl_bytes_per_hour :: u64
  sl_windows :: "(string \<times> (instant \<times> u64) list) list"

definition sender_limiter_new :: "u32 \<Rightarrow> u64 \<Rightarrow> sender_limiter" where
  "sender_limiter_new mpm bph =
     \<lparr>sl_messages_per_minute = mpm, sl_bytes_per_hour = bph, sl_windows = []\<rparr>"

definition sl_sweep :: "duration \<Rightarrow> instant \<Rightarrow> (string \<times> (instant \<times> u64) list) list \<Rightarrow> (string \<times> (instant \<times> u64) list) list" where
  "sl_sweep horizon now ws =
     filter (\<lambda>(_, entries). entries \<noteq> [])
       (map (\<lambda>(k, entries). (k, filter (\<lambda>(t, _). now - t < horizon) entries)) ws)"

definition sender_allow :: "string \<Rightarrow> u64 \<Rightarrow> instant \<Rightarrow> sender_limiter \<Rightarrow> bool \<times> sender_limiter" where
  "sender_allow key bytes now l =
    (if sl_messages_per_minute l = 0 \<and> sl_bytes_per_hour l = 0 then (True, l)
     else
       let horizon = (if sl_bytes_per_hour l > 0 then HOUR else MINUTE);
           l = l\<lparr>sl_windows := sl_sweep horizon now (sl_windows l)\<rparr>;
           existing = map_of (sl_windows l) key;
           count_in_minute = (case existing of None \<Rightarrow> 0
              | Some e \<Rightarrow> length (filter (\<lambda>(t, _). now - t < MINUTE) e));
           bytes_in_hour = (case existing of None \<Rightarrow> 0 | Some e \<Rightarrow> sum_list (map snd e))
       in
       if sl_messages_per_minute l > 0 \<and> (of_nat count_in_minute :: u32) \<ge> sl_messages_per_minute l
       then (False, l)
       else if sl_bytes_per_hour l > 0 \<and> bytes_in_hour + bytes > sl_bytes_per_hour l
       then (False, l)
       else (True, l\<lparr>sl_windows :=
               alist_put key (case existing of None \<Rightarrow> [(now, bytes)] | Some e \<Rightarrow> e @ [(now, bytes)])
                 (sl_windows l)\<rparr>))"

type_synonym budget_limiter = "(string \<times> instant list) list"

definition budget_limiter_new :: budget_limiter where
  "budget_limiter_new = []"

definition budget_allow :: "string \<Rightarrow> u32 \<Rightarrow> instant \<Rightarrow> budget_limiter \<Rightarrow> bool \<times> budget_limiter" where
  "budget_allow protocol per_minute now b =
    (if per_minute = 0 then (True, b)
     else
       let entry = (case map_of b protocol of None \<Rightarrow> [] | Some e \<Rightarrow> e);
           entry = filter (\<lambda>t. now - t < MINUTE) entry
       in
       if (of_nat (length entry) :: u32) \<ge> per_minute then (False, alist_put protocol entry b)
       else (True, alist_put protocol (entry @ [now]) b))"

subsection \<open>Specification: a log of what was accepted\<close>

type_synonym accepted = "string \<times> instant \<times> u64"

definition in_window :: "duration \<Rightarrow> instant \<Rightarrow> string \<Rightarrow> accepted list \<Rightarrow> (instant \<times> u64) list" where
  "in_window h now k log = map snd (filter (\<lambda>(k', t, _). k' = k \<and> now - t < h) log)"

text \<open>A run of calls: it returns the limiter and the log of accepted messages.\<close>

fun limiter_run :: "sender_limiter \<Rightarrow> accepted list \<Rightarrow> (string \<times> instant \<times> u64) list \<Rightarrow> sender_limiter \<times> accepted list" where
  "limiter_run l log [] = (l, log)"
| "limiter_run l log ((k, t, b) # calls) =
     (let (ok, l') = sender_allow k b t l
      in limiter_run l' (if ok then log @ [(k, t, b)] else log) calls)"

fun calls_from :: "instant \<Rightarrow> (string \<times> instant \<times> u64) list \<Rightarrow> bool" where
  "calls_from t0 [] = True"
| "calls_from t0 ((k, t, b) # calls) = (t0 \<le> t \<and> calls_from t calls)"

fun calls_end :: "instant \<Rightarrow> (string \<times> instant \<times> u64) list \<Rightarrow> instant" where
  "calls_end t0 [] = t0"
| "calls_end t0 ((k, t, b) # calls) = calls_end t calls"

definition horizon_of :: "sender_limiter \<Rightarrow> duration" where
  "horizon_of l = (if sl_bytes_per_hour l > 0 then HOUR else MINUTE)"

definition entries_of :: "sender_limiter \<Rightarrow> string \<Rightarrow> (instant \<times> u64) list" where
  "entries_of l k = (case map_of (sl_windows l) k of None \<Rightarrow> [] | Some e \<Rightarrow> e)"

text \<open>The decision the limiter is meant to take, on the full log.\<close>

definition spec_allow :: "u32 \<Rightarrow> u64 \<Rightarrow> accepted list \<Rightarrow> string \<Rightarrow> u64 \<Rightarrow> instant \<Rightarrow> bool" where
  "spec_allow mpm bph log k b now \<longleftrightarrow>
     \<not> (mpm > 0 \<and> (of_nat (length (in_window MINUTE now k log)) :: u32) \<ge> mpm) \<and>
     \<not> (bph > 0 \<and> sum_list (map snd (in_window HOUR now k log)) + b > bph)"

subsection \<open>Facts\<close>

lemma minute_le_hour: "MINUTE \<le> HOUR"
  by (simp add: MINUTE_def HOUR_def secs_def)

lemma minute_le_horizon: "MINUTE \<le> horizon_of l"
  using minute_le_hour by (simp add: horizon_of_def)

lemma in_window_narrow:
  assumes "t0 \<le> now" "h \<le> h0"
  shows "filter (\<lambda>(t, _). now - t < h) (in_window h0 t0 k log) = in_window h now k log"
proof -
  have "now - t < h \<Longrightarrow> t0 - t < h0" for t using assms by linarith
  then show ?thesis unfolding in_window_def
    by (induction log) (auto split: prod.splits)
qed

lemma in_window_snoc [simp]:
  "in_window h now k (log @ [(k', t, b)]) = in_window h now k log @ (if k' = k \<and> now - t < h then [(t, b)] else [])"
  by (simp add: in_window_def)

definition sl_wf :: "sender_limiter \<Rightarrow> bool" where
  "sl_wf l \<longleftrightarrow> distinct (map fst (sl_windows l))"

lemma map_of_map_val: "map_of (map (\<lambda>(k, v). (k, f v)) m) k = map_option f (map_of m k)"
  by (induction m) auto

lemma map_of_filter_ne:
  "distinct (map fst m) \<Longrightarrow>
   map_of (filter (\<lambda>(_, v). v \<noteq> []) m) k = (case map_of m k of None \<Rightarrow> None | Some v \<Rightarrow> if v = [] then None else Some v)"
proof (induction m)
  case (Cons e m)
  then show ?case by (cases e) (auto simp: map_of_eq_None_iff split: option.splits)
qed simp

lemma keys_filter: "distinct (map fst m) \<Longrightarrow> distinct (map fst (filter P m))"
  by (induction m) auto

lemma keys_map_val: "map fst (map (\<lambda>(k, v). (k, f v)) m) = map fst m"
  by (induction m) auto

lemma sl_sweep_wf: "distinct (map fst ws) \<Longrightarrow> distinct (map fst (sl_sweep h now ws))"
  unfolding sl_sweep_def by (rule keys_filter) (simp only: keys_map_val)

lemma sl_sweep_entries:
  assumes "sl_wf l"
  shows "entries_of (l\<lparr>sl_windows := sl_sweep h now (sl_windows l)\<rparr>) k =
         filter (\<lambda>(t, _). now - t < h) (entries_of l k)"
proof -
  let ?m = "map (\<lambda>(k, entries). (k, filter (\<lambda>(t, _). now - t < h) entries)) (sl_windows l)"
  have "distinct (map fst ?m)" using assms by (simp only: sl_wf_def keys_map_val)
  from map_of_filter_ne[OF this, of k] show ?thesis
    by (auto simp: entries_of_def sl_sweep_def map_of_map_val split: option.splits)
qed

lemma existing_entries:
  "(case map_of ws k of None \<Rightarrow> 0 | Some e \<Rightarrow> f e) = f (case map_of ws k of None \<Rightarrow> [] | Some e \<Rightarrow> e)"
  if "f [] = 0" for f :: "'b list \<Rightarrow> 'c::zero"
  using that by (auto split: option.splits)

text \<open>
  The invariant that relates the limiter to the log: each key's history is the part of the log that
  is still inside the horizon.
\<close>

definition sl_rel :: "sender_limiter \<Rightarrow> accepted list \<Rightarrow> instant \<Rightarrow> bool" where
  "sl_rel l log t \<longleftrightarrow> sl_wf l \<and> (\<forall>k. entries_of l k = in_window (horizon_of l) t k log)"

lemma sl_rel_new: "sl_rel (sender_limiter_new mpm bph) [] t"
  by (simp add: sl_rel_def sl_wf_def sender_limiter_new_def entries_of_def in_window_def)

text \<open>One call, in terms of the log.\<close>

lemma sender_allow_step:
  assumes rel: "sl_rel l log t0" and t: "t0 \<le> now"
    and on: "\<not> (sl_messages_per_minute l = 0 \<and> sl_bytes_per_hour l = 0)"
    and call: "sender_allow k b now l = (ok, l')"
  shows "ok = spec_allow (sl_messages_per_minute l) (sl_bytes_per_hour l) log k b now"
    and "sl_rel l' (if ok then log @ [(k, now, b)] else log) now"
    and "sl_messages_per_minute l' = sl_messages_per_minute l \<and> sl_bytes_per_hour l' = sl_bytes_per_hour l"
proof -
  define l1 where "l1 = l\<lparr>sl_windows := sl_sweep (horizon_of l) now (sl_windows l)\<rparr>"
  have wf1: "sl_wf l1" using rel sl_sweep_wf by (simp add: sl_rel_def sl_wf_def l1_def)
  have e1: "entries_of l1 k' = in_window (horizon_of l) now k' log" for k'
    using rel sl_sweep_entries[of l "horizon_of l" now k'] in_window_narrow[OF t, of "horizon_of l" "horizon_of l"]
    by (simp add: sl_rel_def l1_def)
  have hor1: "horizon_of l1 = horizon_of l" by (simp add: horizon_of_def l1_def)
  let ?e = "case map_of (sl_windows l1) k of None \<Rightarrow> [] | Some e \<Rightarrow> e"
  have e: "?e = in_window (horizon_of l) now k log" using e1[of k] by (simp add: entries_of_def)
  have cnt: "(case map_of (sl_windows l1) k of None \<Rightarrow> 0
              | Some e \<Rightarrow> length (filter (\<lambda>(t, _). now - t < MINUTE) e)) = length (in_window MINUTE now k log)"
    using in_window_narrow[of now now MINUTE "horizon_of l" k log] minute_le_horizon[of l]
    by (subst existing_entries) (simp_all add: e)
  have sum: "(case map_of (sl_windows l1) k of None \<Rightarrow> 0 | Some e \<Rightarrow> sum_list (map snd e))
             = sum_list (map snd (in_window (horizon_of l) now k log))"
    by (subst existing_entries) (simp_all add: e)
  have upd: "(case map_of (sl_windows l1) k of None \<Rightarrow> [(now, b)] | Some e \<Rightarrow> e @ [(now, b)]) = ?e @ [(now, b)]"
    by (simp split: option.splits)
  have hour: "sl_bytes_per_hour l > 0 \<Longrightarrow> horizon_of l = HOUR" by (simp add: horizon_of_def)
  let ?l2 = "l1\<lparr>sl_windows := alist_put k (?e @ [(now, b)]) (sl_windows l1)\<rparr>"
  have run: "sender_allow k b now l =
     (if spec_allow (sl_messages_per_minute l) (sl_bytes_per_hour l) log k b now then (True, ?l2) else (False, l1))"
    using on hour
    unfolding sender_allow_def Let_def horizon_of_def[symmetric] l1_def[symmetric] cnt sum upd spec_allow_def
    by (auto simp: l1_def)
  show "ok = spec_allow (sl_messages_per_minute l) (sl_bytes_per_hour l) log k b now"
    using call run by (simp split: if_splits)
  show "sl_messages_per_minute l' = sl_messages_per_minute l \<and> sl_bytes_per_hour l' = sl_bytes_per_hour l"
    using call run by (auto simp: l1_def split: if_splits)
  have hpos: "0 < horizon_of l" by (simp add: horizon_of_def MINUTE_def HOUR_def secs_def ns_per_sec_def)
  have "sl_rel l1 log now" using wf1 e1 by (simp add: sl_rel_def hor1)
  moreover have "sl_rel ?l2 (log @ [(k, now, b)]) now"
  proof -
    have h2: "horizon_of ?l2 = horizon_of l" using hor1 by (simp add: horizon_of_def)
    have "entries_of ?l2 k' = in_window (horizon_of l) now k' (log @ [(k, now, b)])" for k'
    proof (cases "k' = k")
      case False then show ?thesis using e1[of k'] hpos by (simp add: entries_of_def)
    qed (use e hpos in \<open>simp add: entries_of_def\<close>)
    then show ?thesis using wf1 h2 by (simp add: sl_rel_def sl_wf_def)
  qed
  ultimately show "sl_rel l' (if ok then log @ [(k, now, b)] else log) now"
    using call run by (auto split: if_splits)
qed

lemma unat_of_nat_u32: "n < 2 ^ 32 \<Longrightarrow> unat (of_nat n :: u32) = n"
  by (simp add: unat_of_nat)

lemma unat_u32_less: "unat (w :: u32) < 2 ^ 32"
  using unsigned_less[of w] by simp

lemma in_window_later:
  assumes "t0 \<le> now"
  shows "length (in_window h now k log) \<le> length (in_window h t0 k log)"
  using in_window_narrow[OF assms order_refl, of h k log] length_filter_le by metis

text \<open>The bounds along a run, as an invariant of the log.\<close>

definition within_rate :: "u32 \<Rightarrow> accepted list \<Rightarrow> instant \<Rightarrow> bool" where
  "within_rate mpm log now \<longleftrightarrow> (\<forall>k. length (in_window MINUTE now k log) \<le> unat mpm)"

lemma within_rate_step:
  assumes "within_rate mpm log t0" "t0 \<le> now" "mpm > 0" "ok = spec_allow mpm bph log k b now"
  shows "within_rate mpm (if ok then log @ [(k, now, b)] else log) now"
proof -
  have old: "length (in_window MINUTE now k' log) \<le> unat mpm" for k'
    using assms(1) in_window_later[OF assms(2)] le_trans unfolding within_rate_def by blast
  have "length (in_window MINUTE now k log) < unat mpm" if ok
  proof -
    have small: "length (in_window MINUTE now k log) < 2 ^ 32"
      using old[of k] unat_u32_less[of mpm] by linarith
    have "(of_nat (length (in_window MINUTE now k log)) :: u32) < mpm"
      using that assms(3,4) by (simp add: spec_allow_def not_le)
    then show ?thesis using unat_of_nat_u32[OF small] by (simp add: word_less_nat_alt)
  qed
  then show ?thesis using old by (auto simp: within_rate_def MINUTE_def secs_def ns_per_sec_def Suc_le_eq)
qed

definition sum_bytes :: "(instant \<times> u64) list \<Rightarrow> nat" where
  "sum_bytes es = sum_list (map (unat \<circ> snd) es)"

definition within_bytes :: "u64 \<Rightarrow> accepted list \<Rightarrow> instant \<Rightarrow> bool" where
  "within_bytes bph log now \<longleftrightarrow> (\<forall>k. sum_bytes (in_window HOUR now k log) \<le> unat bph)"

lemma sum_bytes_filter: "sum_bytes (filter P es) \<le> sum_bytes es"
  by (induction es) (auto simp: sum_bytes_def)

lemma sum_bytes_later:
  assumes "t0 \<le> now"
  shows "sum_bytes (in_window h now k log) \<le> sum_bytes (in_window h t0 k log)"
  using in_window_narrow[OF assms order_refl, of h k log] sum_bytes_filter by metis

lemma unat_sum_exact:
  "sum_bytes es < 2 ^ 64 \<Longrightarrow> unat (sum_list (map snd es)) = sum_bytes es"
proof (induction es)
  case (Cons e es)
  have "sum_bytes es < 2 ^ 64" using Cons.prems by (simp add: sum_bytes_def)
  then have "unat (snd e) + unat (sum_list (map snd es)) < 2 ^ 64"
    using Cons by (simp add: sum_bytes_def)
  then show ?case using Cons by (simp add: sum_bytes_def unat_word_ariths)
qed (simp add: sum_bytes_def)

lemma within_bytes_step:
  assumes "within_bytes bph log t0" "t0 \<le> now" "bph > 0" "ok = spec_allow mpm bph log k b now"
    and fits: "unat bph + unat b < 2 ^ 64"
  shows "within_bytes bph (if ok then log @ [(k, now, b)] else log) now"
proof -
  have old: "sum_bytes (in_window HOUR now k' log) \<le> unat bph" for k'
    using assms(1) sum_bytes_later[OF assms(2)] le_trans unfolding within_bytes_def by blast
  have "sum_bytes (in_window HOUR now k log) + unat b \<le> unat bph" if ok
  proof -
    let ?es = "in_window HOUR now k log"
    have "sum_bytes ?es < 2 ^ 64" using old[of k] fits by linarith
    then have s: "unat (sum_list (map snd ?es)) = sum_bytes ?es" by (rule unat_sum_exact)
    have "sum_list (map snd ?es) + b \<le> bph" using that assms(3,4) by (auto simp: spec_allow_def)
    then have "unat (sum_list (map snd ?es) + b) \<le> unat bph" by (simp add: word_le_nat_alt)
    moreover have "unat (sum_list (map snd ?es) + b) = sum_bytes ?es + unat b"
      using s old[of k] fits by (simp add: unat_word_ariths)
    ultimately show ?thesis by simp
  qed
  then show ?thesis using old by (auto simp: within_bytes_def sum_bytes_def)
qed

lemma limiter_run_rate:
  assumes "sl_rel l log t0" "calls_from t0 calls" "sl_messages_per_minute l > 0"
    and "within_rate (sl_messages_per_minute l) log t0"
    and "limiter_run l log calls = (l', log')"
  shows "within_rate (sl_messages_per_minute l) log' (calls_end t0 calls)"
  using assms
proof (induction calls arbitrary: l log t0)
  case (Cons c calls)
  obtain k t b where c: "c = (k, t, b)" by (cases c)
  obtain ok l1 where call: "sender_allow k b t l = (ok, l1)" by fastforce
  have on: "\<not> (sl_messages_per_minute l = 0 \<and> sl_bytes_per_hour l = 0)" using Cons.prems(3) by auto
  have t: "t0 \<le> t" "calls_from t calls" using Cons.prems(2) c by auto
  note step = sender_allow_step[OF Cons.prems(1) t(1) on call]
  have wr: "within_rate (sl_messages_per_minute l) (if ok then log @ [(k, t, b)] else log) t"
    using within_rate_step[OF Cons.prems(4) t(1) Cons.prems(3) step(1)] .
  show ?case using Cons.IH[OF step(2) t(2)] step(3) wr Cons.prems(3,5) c call by simp
qed simp

lemma limiter_run_bytes:
  assumes "sl_rel l log t0" "calls_from t0 calls" "sl_bytes_per_hour l > 0"
    and "within_bytes (sl_bytes_per_hour l) log t0"
    and "\<forall>(k, t, b) \<in> set calls. unat (sl_bytes_per_hour l) + unat b < 2 ^ 64"
    and "limiter_run l log calls = (l', log')"
  shows "within_bytes (sl_bytes_per_hour l) log' (calls_end t0 calls)"
  using assms
proof (induction calls arbitrary: l log t0)
  case (Cons c calls)
  obtain k t b where c: "c = (k, t, b)" by (cases c)
  obtain ok l1 where call: "sender_allow k b t l = (ok, l1)" by fastforce
  have on: "\<not> (sl_messages_per_minute l = 0 \<and> sl_bytes_per_hour l = 0)" using Cons.prems(3) by auto
  have t: "t0 \<le> t" "calls_from t calls" using Cons.prems(2) c by auto
  note step = sender_allow_step[OF Cons.prems(1) t(1) on call]
  have fits: "unat (sl_bytes_per_hour l) + unat b < 2 ^ 64" using Cons.prems(5) c by simp
  have wb: "within_bytes (sl_bytes_per_hour l) (if ok then log @ [(k, t, b)] else log) t"
    using within_bytes_step[OF Cons.prems(4) t(1) Cons.prems(3) step(1) fits] .
  show ?case using Cons.IH[OF step(2) t(2)] step(3) wb Cons.prems(3,5,6) c call by simp
qed simp

text \<open>
  C31: Per-sender quotas are real sliding windows. Over any sequence of calls on a monotone clock,
  starting from a fresh limiter, and for every sender key: at no time are more than
  \<open>messages_per_minute\<close> accepted messages of that key less than a minute old, and (provided no
  single byte count can overflow \<open>u64\<close> together with the quota) the accepted bytes of that key less
  than an hour old never exceed \<open>bytes_per_hour\<close>.
\<close>

theorem sender_limiter_window_bound:
  assumes "calls_from 0 calls" and "limiter_run (sender_limiter_new mpm bph) [] calls = (l', log)"
    and "calls_end 0 calls \<le> now"
  shows "(mpm > 0 \<longrightarrow> length (in_window MINUTE now k log) \<le> unat mpm) \<and>
         (bph > 0 \<longrightarrow> (\<forall>(_, _, b) \<in> set calls. unat bph + unat b < 2 ^ 64) \<longrightarrow>
            sum_bytes (in_window HOUR now k log) \<le> unat bph)"
proof (intro conjI impI)
  let ?l = "sender_limiter_new mpm bph"
  note rel = sl_rel_new[of mpm bph 0]
  have f: "sl_messages_per_minute ?l = mpm" "sl_bytes_per_hour ?l = bph" by (simp_all add: sender_limiter_new_def)
  have e: "within_rate mpm [] 0" "within_bytes bph [] 0"
    by (simp_all add: within_rate_def within_bytes_def in_window_def sum_bytes_def)
  show "length (in_window MINUTE now k log) \<le> unat mpm" if "mpm > 0"
  proof -
    have "within_rate mpm log (calls_end 0 calls)"
      using limiter_run_rate[OF rel assms(1) _ _ assms(2)] that e(1) by (simp add: f)
    then show ?thesis using in_window_later[OF assms(3), of MINUTE k log] le_trans
      unfolding within_rate_def by blast
  qed
  show "sum_bytes (in_window HOUR now k log) \<le> unat bph"
    if "bph > 0" "\<forall>(_, _, b) \<in> set calls. unat bph + unat b < 2 ^ 64"
  proof -
    have "within_bytes bph log (calls_end 0 calls)"
      using limiter_run_bytes[OF rel assms(1) _ _ _ assms(2)] that e(2) by (simp add: f)
    then show ?thesis using sum_bytes_later[OF assms(3), of HOUR k log] le_trans
      unfolding within_bytes_def by blast
  qed
qed

theorem sender_limiter_window_bound_witness:
  "snd (limiter_run (sender_limiter_new 1 100) [] [(''a'', 5, 60), (''a'', 6, 1), (''b'', 7, 9)])
     = [(''a'', 5, 60), (''b'', 7, 9)] \<and>
   length (in_window MINUTE 8 ''a''
     (snd (limiter_run (sender_limiter_new 1 100) [] [(''a'', 5, 60), (''a'', 6, 1), (''b'', 7, 9)]))) \<le> 1 \<and>
   sum_bytes (in_window HOUR 8 ''a''
     (snd (limiter_run (sender_limiter_new 1 100) [] [(''a'', 5, 60), (''a'', 6, 1), (''b'', 7, 9)]))) \<le> 100"
proof -
  let ?c = "[(''a'', 5, 60), (''a'', 6, 1), (''b'', 7, 9)] :: (string \<times> instant \<times> u64) list"
  obtain l' log where r: "limiter_run (sender_limiter_new 1 100) [] ?c = (l', log)" by fastforce
  have log: "snd (limiter_run (sender_limiter_new 1 100) [] ?c) = [(''a'', 5, 60), (''b'', 7, 9)]"
    by (simp add: sender_allow_def sender_limiter_new_def Let_def sl_sweep_def alist_put_def
        MINUTE_def HOUR_def secs_def ns_per_sec_def)
  show ?thesis using sender_limiter_window_bound[OF _ r, of 8 "''a''"] log r by simp
qed

text \<open>
  Byte quota and wrap-around. The byte sum is a \<open>u64\<close> addition: once one byte of the quota is used, a
  message whose claimed size is \<open>2^64 - 1\<close> wraps the sum to zero and is accepted although it
  exceeds every quota, and the history then sums to zero, which clears the sender's used quota.
\<close>

theorem sender_limiter_wraps:
  assumes "bph > 0" and "bph \<noteq> - 1"
  shows "\<exists>l1 l2. sender_allow k 1 now (sender_limiter_new 0 bph) = (True, l1) \<and>
           sender_allow k (- 1) now l1 = (True, l2) \<and>
           sum_list (map snd (entries_of l2 k)) = 0"
proof -
  have one: "(1::u64) \<le> bph" using assms(1) by (simp add: word_le_nat_alt word_less_nat_alt)
  show ?thesis using assms one
    by (simp add: sender_allow_def sender_limiter_new_def Let_def sl_sweep_def alist_put_def entries_of_def
        HOUR_def secs_def ns_per_sec_def not_less[symmetric])
qed

theorem sender_limiter_wraps_witness:
  "\<exists>l1 l2. sender_allow ''a'' 1 0 (sender_limiter_new 0 10) = (True, l1) \<and>
           sender_allow ''a'' (- 1) 0 l1 = (True, l2) \<and> sum_list (map snd (entries_of l2 ''a'')) = 0"
  by (rule sender_limiter_wraps) simp_all

subsection \<open>The egress budget\<close>

text \<open>
  Egress budget. A send is admitted exactly when fewer than \<open>per_minute\<close> sends of the same key
  are recorded less than a minute ago (a budget of zero is unlimited); an admitted send is recorded,
  a refused one is not, and no call changes what is recorded for any other key.
\<close>

theorem budget_allow_spec:
  assumes "per_minute \<noteq> 0" "budget_allow key per_minute now b = (ok, b')"
    and "map_of b key = Some hist" "length hist < 2 ^ 32"
  shows "ok = (length (filter (\<lambda>t. now - t < MINUTE) hist) < unat per_minute) \<and>
    map_of b' key = Some (filter (\<lambda>t. now - t < MINUTE) hist @ (if ok then [now] else [])) \<and>
    (\<forall>k. k \<noteq> key \<longrightarrow> map_of b' k = map_of b k)"
proof -
  let ?f = "filter (\<lambda>t. now - t < MINUTE) hist"
  have "length ?f < 2 ^ 32" using assms(4) length_filter_le[of _ hist] le_less_trans by blast
  then have "((of_nat (length ?f) :: u32) \<ge> per_minute) = (\<not> length ?f < unat per_minute)"
    using unat_of_nat_u32 by (simp add: word_le_nat_alt not_less)
  then show ?thesis using assms by (auto simp: budget_allow_def Let_def split: if_splits)
qed

theorem budget_allow_spec_witness:
  "fst (budget_allow ''mqtt'' 2 (secs 90) [(''mqtt'', [secs 5, secs 60])]) \<and>
   \<not> fst (budget_allow ''mqtt'' 1 (secs 90) [(''mqtt'', [secs 5, secs 60])])"
proof -
  obtain x y where a: "budget_allow ''mqtt'' 2 (secs 90) [(''mqtt'', [secs 5, secs 60])] = (x, y)" by fastforce
  obtain u v where b: "budget_allow ''mqtt'' 1 (secs 90) [(''mqtt'', [secs 5, secs 60])] = (u, v)" by fastforce
  show ?thesis using budget_allow_spec[OF _ a] budget_allow_spec[OF _ b] a b
    by (simp add: MINUTE_def secs_def ns_per_sec_def)
qed

end
