(* ===== verification/Storage_Peers.thy ===== *)
theory Storage_Peers
  imports Storage_Lifecycle
begin

text \<open>
  The message store (\<open>src/switchyardd/src/storage.rs\<close>), part two: link challenges and identity
  links, the federation trust table and the stored peer advertisements. Tables are lists in rowid
  order, as in \<open>Storage\<close>; gaps that a conflicting insert may leave in the id sequence of the links
  are not modelled.
\<close>

subsection \<open>Challenges\<close>

definition for_target :: "string \<Rightarrow> string \<Rightarrow> challenge \<Rightarrow> bool" where
  "for_target p r c \<longleftrightarrow> ch_target_protocol c = p \<and> ch_target_ref c = r"

definition delete_challenges_for_target :: "string \<Rightarrow> string \<Rightarrow> store \<Rightarrow> (sql_error + nat) \<times> store" where
  "delete_challenges_for_target p r st =
     (if sql_fails st (DeleteChallengesFor p r) then (Err SqlError, st)
      else (Ok (length (filter (for_target p r) (st_challenges st))),
            st\<lparr>st_challenges := filter (\<lambda>c. \<not> for_target p r c) (st_challenges st)\<rparr>))"

definition create_challenge ::
  "string \<Rightarrow> string \<Rightarrow> string \<Rightarrow> string \<Rightarrow> string \<Rightarrow> string \<Rightarrow> datetime \<Rightarrow> datetime \<Rightarrow> store \<Rightarrow> (sql_error + int) \<times> store" where
  "create_challenge code tp tr rp rr name now expires st =
     (case delete_challenges_for_target tp tr st of
        (Err e, st1) \<Rightarrow> (Err e, st1)
      | (Ok n, st1) \<Rightarrow>
          if sql_fails st1 (InsertChallenge tp tr) then (Err SqlError, st1)
          else (Ok (st_next_challenge st1),
                st1\<lparr>st_challenges := st_challenges st1 @
                      [\<lparr>ch_id = st_next_challenge st1, ch_code = code, ch_target_protocol = tp, ch_target_ref = tr,
                        ch_requester_protocol = rp, ch_requester_ref = rr, ch_display_name = name,
                        ch_created_at = now, ch_expires_at = expires\<rparr>],
                    st_next_challenge := st_next_challenge st1 + 1\<rparr>))"

definition find_active_challenge ::
  "string \<Rightarrow> string \<Rightarrow> string \<Rightarrow> datetime \<Rightarrow> store \<Rightarrow> sql_error + challenge option" where
  "find_active_challenge tp tr code now st =
     (if sql_fails st (FindChallenge tp tr) then Err SqlError
      else Ok (find (\<lambda>c. for_target tp tr c \<and> ch_code c = code \<and> ch_expires_at c > now) (st_challenges st)))"

definition delete_challenge :: "int \<Rightarrow> store \<Rightarrow> (sql_error + unit) \<times> store" where
  "delete_challenge i st =
     (if sql_fails st (DeleteChallenge i) then (Err SqlError, st)
      else (Ok (), st\<lparr>st_challenges := filter (\<lambda>c. ch_id c \<noteq> i) (st_challenges st)\<rparr>))"

definition list_challenges :: "datetime \<Rightarrow> store \<Rightarrow> sql_error + challenge list" where
  "list_challenges now st =
     (if sql_fails st ListChallenges then Err SqlError
      else Ok (filter (\<lambda>c. ch_expires_at c > now) (st_challenges st)))"

definition purge_expired_challenges :: "datetime \<Rightarrow> store \<Rightarrow> (sql_error + nat) \<times> store" where
  "purge_expired_challenges now st =
     (if sql_fails st PurgeChallenges then (Err SqlError, st)
      else (Ok (length (filter (\<lambda>c. ch_expires_at c < now) (st_challenges st))),
            st\<lparr>st_challenges := filter (\<lambda>c. \<not> ch_expires_at c < now) (st_challenges st)\<rparr>))"

subsection \<open>Identity links\<close>

definition same_pair :: "string \<Rightarrow> string \<Rightarrow> string \<Rightarrow> string \<Rightarrow> link \<Rightarrow> bool" where
  "same_pair ap ar bp br l \<longleftrightarrow> lk_a_protocol l = ap \<and> lk_a_ref l = ar \<and> lk_b_protocol l = bp \<and> lk_b_ref l = br"

definition insert_link ::
  "string \<Rightarrow> string \<Rightarrow> string \<Rightarrow> string \<Rightarrow> string \<Rightarrow> datetime \<Rightarrow> store \<Rightarrow> (sql_error + int) \<times> store" where
  "insert_link ap ar bp br name verified_at st =
     (if sql_fails st (InsertLink ap ar bp br) then (Err SqlError, st)
      else case find (same_pair ap ar bp br) (st_links st) of
             Some l \<Rightarrow>
               (Ok (lk_id l),
                st\<lparr>st_links := map (\<lambda>l. if same_pair ap ar bp br l then l\<lparr>lk_verified_at := verified_at\<rparr> else l) (st_links st)\<rparr>)
           | None \<Rightarrow>
               (Ok (st_next_link st),
                st\<lparr>st_links := st_links st @
                     [\<lparr>lk_id = st_next_link st, lk_a_protocol = ap, lk_a_ref = ar, lk_b_protocol = bp, lk_b_ref = br,
                       lk_display_name = name, lk_verified_at = verified_at\<rparr>],
                   st_next_link := st_next_link st + 1\<rparr>))"

definition delete_link :: "int \<Rightarrow> store \<Rightarrow> (sql_error + bool) \<times> store" where
  "delete_link i st =
     (if sql_fails st (DeleteLink i) then (Err SqlError, st)
      else (Ok (0 < length (filter (\<lambda>l. lk_id l = i) (st_links st))),
            st\<lparr>st_links := filter (\<lambda>l. lk_id l \<noteq> i) (st_links st)\<rparr>))"

definition link_side :: "string \<Rightarrow> string \<Rightarrow> link \<Rightarrow> bool" where
  "link_side p r l \<longleftrightarrow> lk_a_protocol l = p \<and> lk_a_ref l = r \<or> lk_b_protocol l = p \<and> lk_b_ref l = r"

definition link_for_identity :: "string \<Rightarrow> string \<Rightarrow> store \<Rightarrow> sql_error + link option" where
  "link_for_identity p r st =
     (if sql_fails st (LinkFor p r) then Err SqlError
      else Ok (find (link_side p r) (rev (st_links st))))"

definition list_links :: "store \<Rightarrow> sql_error + link list" where
  "list_links st = (if sql_fails st ListLinks then Err SqlError else Ok (st_links st))"

subsection \<open>Trust\<close>

definition trust_level :: "string \<Rightarrow> store \<Rightarrow> sql_error + string option" where
  "trust_level n st =
     (if sql_fails st (TrustLevel n) then Err SqlError
      else Ok (map_option tr_level (find (\<lambda>r. tr_node_id r = n) (st_trust st))))"

definition record_seen :: "string \<Rightarrow> datetime \<Rightarrow> store \<Rightarrow> (sql_error + unit) \<times> store" where
  "record_seen n now st =
     (if sql_fails st (RecordSeen n) then (Err SqlError, st)
      else if n \<in> tr_node_id ` set (st_trust st) then (Ok (), st)
      else (Ok (), st\<lparr>st_trust := st_trust st @
              [\<lparr>tr_node_id = n, tr_level = ''seen'', tr_first_seen = now, tr_updated_at = now\<rparr>]\<rparr>))"

definition seed_trust :: "string \<Rightarrow> string \<Rightarrow> datetime \<Rightarrow> store \<Rightarrow> (sql_error + unit) \<times> store" where
  "seed_trust n level now st =
     (if sql_fails st (SeedTrust n) then (Err SqlError, st)
      else if n \<in> tr_node_id ` set (st_trust st) then
        (Ok (), st\<lparr>st_trust := map (\<lambda>r. if tr_node_id r = n then r\<lparr>tr_level := level, tr_updated_at := now\<rparr> else r) (st_trust st)\<rparr>)
      else (Ok (), st\<lparr>st_trust := st_trust st @
              [\<lparr>tr_node_id = n, tr_level = level, tr_first_seen = now, tr_updated_at = now\<rparr>]\<rparr>))"

definition list_trust :: "store \<Rightarrow> sql_error + (string \<times> string \<times> datetime \<times> datetime) list" where
  "list_trust st =
     (if sql_fails st ListTrust then Err SqlError
      else Ok (map (\<lambda>r. (tr_node_id r, tr_level r, tr_first_seen r, tr_updated_at r)) (sort_key tr_node_id (st_trust st))))"

fun seed_list :: "(string \<times> string) list \<Rightarrow> datetime \<Rightarrow> store \<Rightarrow> (sql_error + unit) \<times> store" where
  "seed_list [] now st = (Ok (), st)"
| "seed_list ((n, level) # rest) now st =
     (case seed_trust n level now st of
        (Err e, st1) \<Rightarrow> (Err e, st1)
      | (Ok _, st1) \<Rightarrow> seed_list rest now st1)"

definition config_level :: "string \<Rightarrow> bool" where
  "config_level l \<longleftrightarrow> l = ''verified'' \<or> l = ''trusted''"

definition downgrade :: "string list \<Rightarrow> datetime \<Rightarrow> store \<Rightarrow> (sql_error + unit) \<times> store" where
  "downgrade authorized now st =
     (if sql_fails st Downgrade then (Err SqlError, st)
      else (Ok (), st\<lparr>st_trust := map (\<lambda>r. if config_level (tr_level r) \<and> tr_node_id r \<notin> set authorized
                                          then r\<lparr>tr_level := ''seen'', tr_updated_at := now\<rparr> else r) (st_trust st)\<rparr>))"

definition seeds :: "federation_config \<Rightarrow> (string \<times> string) list" where
  "seeds fed = map (\<lambda>p. (pe_node_id p, pe_trust p)) (fc_peers fed)
     @ map (\<lambda>n. (n, ''trusted'')) (fc_trusted fed) @ map (\<lambda>n. (n, ''blocked'')) (fc_blocked fed)"

definition seed_federation_trust :: "federation_config \<Rightarrow> datetime \<Rightarrow> store \<Rightarrow> (sql_error + unit) \<times> store" where
  "seed_federation_trust fed now st =
     (case downgrade (map pe_node_id (fc_peers fed) @ fc_trusted fed) now st of
        (Err e, st1) \<Rightarrow> (Err e, st1)
      | (Ok _, st1) \<Rightarrow> seed_list (seeds fed) now st1)"

definition seen_order :: "trust_row \<Rightarrow> int \<times> string" where
  "seen_order r = (- tr_first_seen r, tr_node_id r)"

definition prune_seen_trust :: "nat \<Rightarrow> store \<Rightarrow> (sql_error + nat) \<times> store" where
  "prune_seen_trust cap st =
     (let seen = filter (\<lambda>r. tr_level r = ''seen'') (st_trust st);
          victims = map tr_node_id (drop cap (sort_key seen_order seen));
          P = (\<lambda>r. tr_level r = ''seen'' \<and> tr_node_id r \<in> set victims)
      in if sql_fails st PruneSeen then (Err SqlError, st)
         else (Ok (length (filter P (st_trust st))), st\<lparr>st_trust := filter (\<lambda>r. \<not> P r) (st_trust st)\<rparr>))"

subsection \<open>Advertisements\<close>

definition upsert_peer_advert ::
  "string \<Rightarrow> bytes \<Rightarrow> string \<Rightarrow> datetime \<Rightarrow> datetime \<Rightarrow> store \<Rightarrow> (sql_error + unit) \<times> store" where
  "upsert_peer_advert n cbor name expires received_at st =
     (let row = \<lparr>ar_node_id = n, ar_advert_cbor = cbor, ar_name = name, ar_expires = expires, ar_received_at = received_at\<rparr>
      in if sql_fails st (UpsertAdvert n) then (Err SqlError, st)
         else if n \<in> ar_node_id ` set (st_adverts st) then
           (Ok (), st\<lparr>st_adverts := map (\<lambda>r. if ar_node_id r = n \<and> expires > ar_expires r then row else r) (st_adverts st)\<rparr>)
         else (Ok (), st\<lparr>st_adverts := st_adverts st @ [row]\<rparr>))"

definition list_peer_adverts :: "datetime \<Rightarrow> store \<Rightarrow> sql_error + (string \<times> bytes \<times> datetime) list" where
  "list_peer_adverts now st =
     (if sql_fails st ListAdverts then Err SqlError
      else Ok (map (\<lambda>r. (ar_node_id r, ar_advert_cbor r, ar_received_at r))
                 (sort_key ar_node_id (filter (\<lambda>r. ar_expires r > now) (st_adverts st)))))"

definition purge_expired_adverts :: "datetime \<Rightarrow> store \<Rightarrow> (sql_error + nat) \<times> store" where
  "purge_expired_adverts now st =
     (if sql_fails st PurgeAdverts then (Err SqlError, st)
      else (Ok (length (filter (\<lambda>r. ar_expires r < now) (st_adverts st))),
            st\<lparr>st_adverts := filter (\<lambda>r. \<not> ar_expires r < now) (st_adverts st)\<rparr>))"

definition prune_peer_adverts :: "nat \<Rightarrow> store \<Rightarrow> (sql_error + nat) \<times> store" where
  "prune_peer_adverts cap st =
     (let victims = map ar_node_id (drop cap (sort_key (\<lambda>r. (- ar_received_at r, ar_node_id r)) (st_adverts st)));
          P = (\<lambda>r. ar_node_id r \<in> set victims)
      in if sql_fails st PruneAdverts then (Err SqlError, st)
         else (Ok (length (filter P (st_adverts st))), st\<lparr>st_adverts := filter (\<lambda>r. \<not> P r) (st_adverts st)\<rparr>))"

subsection \<open>Rows with a unique key\<close>

lemma find_key_map:
  "(\<And>r. key (f r) = key r) \<Longrightarrow> find (\<lambda>r. key r = n) (map f rs) = map_option f (find (\<lambda>r. key r = n) rs)"
  by (induction rs) auto

lemma find_append: "find P (xs @ ys) = (case find P xs of None \<Rightarrow> find P ys | Some x \<Rightarrow> Some x)"
  by (induction xs) auto

lemma find_filter: "find P (filter Q xs) = find (\<lambda>x. Q x \<and> P x) xs"
  by (induction xs) auto

lemma find_SomeD: "find P xs = Some x \<Longrightarrow> P x \<and> x \<in> set xs"
  by (induction xs) (auto split: if_splits)

lemma find_key_None: "find (\<lambda>r. key r = n) rs = None \<longleftrightarrow> n \<notin> key ` set rs"
  by (auto simp: find_None_iff)

lemma find_key_conj:
  assumes "distinct (map key rs)"
  shows "find (\<lambda>r. Q r \<and> key r = n) rs =
    (case find (\<lambda>r. key r = n) rs of None \<Rightarrow> None | Some r \<Rightarrow> if Q r then Some r else None)"
  using assms
proof (induction rs)
  case (Cons a rs)
  show ?case
  proof (cases "key a = n")
    case True
    then have "find (\<lambda>r. Q r \<and> key r = n) rs = None" using Cons.prems by (auto simp: find_None_iff) (metis imageI)
    then show ?thesis using True by simp
  qed (use Cons in simp)
qed simp

text \<open>The cap on a table: the rows selected by \<open>sel\<close> beyond the first \<open>cap\<close> in \<open>order\<close> are deleted by key.\<close>

locale capped_table =
  fixes key :: "'r \<Rightarrow> 'k" and sel :: "'r \<Rightarrow> bool" and order :: "'r \<Rightarrow> 'o::linorder"
    and prune :: "nat \<Rightarrow> 'r list \<Rightarrow> 'r list"
  assumes prune_eq:
    "prune cap rs = filter (\<lambda>r. \<not> (sel r \<and> key r \<in> key ` set (drop cap (sort_key order (filter sel rs))))) rs"
begin

lemma victim_iff:
  assumes "distinct (map key rs)" "r \<in> set rs" "sel r"
  shows "key r \<in> key ` set (drop cap (sort_key order (filter sel rs))) \<longleftrightarrow> r \<in> set (drop cap (sort_key order (filter sel rs)))"
proof
  assume "key r \<in> key ` set (drop cap (sort_key order (filter sel rs)))"
  then obtain r' where r': "r' \<in> set (drop cap (sort_key order (filter sel rs)))" "key r' = key r" by auto
  then have "r' \<in> set rs" by (auto dest: in_set_dropD)
  then have "r' = r" using assms r'(2) by (auto simp: distinct_map inj_on_def)
  then show "r \<in> set (drop cap (sort_key order (filter sel rs)))" using r' by simp
qed auto

lemma prune_selected:
  assumes "distinct (map key rs)"
  shows "set (filter sel (prune cap rs)) = set (take cap (sort_key order (filter sel rs)))"
proof -
  let ?s = "sort_key order (filter sel rs)"
  have d: "distinct ?s" using assms by (simp add: distinct_map)
  have "set (filter sel (prune cap rs)) = set ?s - set (drop cap ?s)"
    using victim_iff[OF assms] by (auto simp: prune_eq)
  moreover have "set ?s = set (take cap ?s) \<union> set (drop cap ?s)" by (metis append_take_drop_id set_append)
  moreover have "set (take cap ?s) \<inter> set (drop cap ?s) = {}" by (rule set_take_disj_set_drop_if_distinct[OF d order_refl])
  ultimately show ?thesis by blast
qed

lemma prune_others: "\<not> sel r \<Longrightarrow> r \<in> set (prune cap rs) \<longleftrightarrow> r \<in> set rs"
  by (auto simp: prune_eq)

lemma prune_count:
  assumes "distinct (map key rs)"
  shows "length (filter sel (prune cap rs)) = min cap (length (filter sel rs))"
proof -
  have "distinct (filter sel (prune cap rs))" using assms by (simp add: prune_eq distinct_map)
  then have "length (filter sel (prune cap rs)) = card (set (take cap (sort_key order (filter sel rs))))"
    using prune_selected[OF assms] by (metis distinct_card)
  also have "\<dots> = min cap (length (filter sel rs))"
    using assms by (subst distinct_card) (auto simp: distinct_map min.commute)
  finally show ?thesis .
qed

lemma prune_keeps_first:
  assumes "distinct (map key rs)" "x \<in> set rs" "sel x" "x \<notin> set (prune cap rs)" "y \<in> set (prune cap rs)" "sel y"
  shows "order y \<le> order x"
proof -
  let ?s = "sort_key order (filter sel rs)"
  have "y \<in> set (take cap ?s)" using prune_selected[OF assms(1), of cap] assms(5,6) by auto
  moreover have "x \<notin> set (take cap ?s)" using prune_selected[OF assms(1), of cap] assms(4) by auto
  ultimately show ?thesis using take_sorted_le[of order ?s x cap y] assms(2,3) by simp
qed

end

definition prune_seen_rows :: "nat \<Rightarrow> trust_row list \<Rightarrow> trust_row list" where
  "prune_seen_rows cap rs = filter (\<lambda>r. \<not> (tr_level r = ''seen'' \<and>
      tr_node_id r \<in> tr_node_id ` set (drop cap (sort_key seen_order (filter (\<lambda>r. tr_level r = ''seen'') rs))))) rs"

definition prune_advert_rows :: "nat \<Rightarrow> advert_row list \<Rightarrow> advert_row list" where
  "prune_advert_rows cap rs = filter (\<lambda>r. \<not> (True \<and>
      ar_node_id r \<in> ar_node_id ` set (drop cap (sort_key (\<lambda>r. (- ar_received_at r, ar_node_id r)) (filter (\<lambda>r. True) rs))))) rs"

interpretation seen_cap: capped_table tr_node_id "\<lambda>r. tr_level r = ''seen''" seen_order prune_seen_rows
  by unfold_locales (simp add: prune_seen_rows_def)

interpretation advert_cap: capped_table ar_node_id "\<lambda>r. True" "\<lambda>r. (- ar_received_at r, ar_node_id r)" prune_advert_rows
  by unfold_locales (simp add: prune_advert_rows_def)

lemma prune_seen_trust_rows:
  "\<not> sql_fails st PruneSeen \<Longrightarrow> st_trust (snd (prune_seen_trust cap st)) = prune_seen_rows cap (st_trust st)"
  by (simp add: prune_seen_trust_def prune_seen_rows_def Let_def)

lemma prune_peer_adverts_rows:
  "\<not> sql_fails st PruneAdverts \<Longrightarrow> st_adverts (snd (prune_peer_adverts cap st)) = prune_advert_rows cap (st_adverts st)"
  by (simp add: prune_peer_adverts_def prune_advert_rows_def Let_def)

text \<open>
  Bounded growth. After the two prunes there are at most \<open>cap\<close> rows learned at run time and at
  most \<open>cap\<close> stored adverts (exactly as many as before where the cap is not exceeded), the rows that
  survive are the most recent ones, and a trust row that configuration set (verified, trusted or
  blocked) is never deleted.
\<close>

theorem prune_bounds:
  assumes "\<not> sql_fails st PruneSeen" "\<not> sql_fails st PruneAdverts"
    and "distinct (map tr_node_id (st_trust st))" "distinct (map ar_node_id (st_adverts st))"
    and "rs = st_trust (snd (prune_seen_trust cap st))" "as = st_adverts (snd (prune_peer_adverts cap st))"
  shows "length (filter (\<lambda>r. tr_level r = ''seen'') rs) = min cap (length (filter (\<lambda>r. tr_level r = ''seen'') (st_trust st))) \<and>
    (\<forall>r \<in> set (st_trust st). tr_level r \<noteq> ''seen'' \<longrightarrow> r \<in> set rs) \<and>
    (\<forall>x \<in> set (st_trust st) - set rs. \<forall>y \<in> set rs. tr_level y = ''seen'' \<longrightarrow> tr_first_seen y \<ge> tr_first_seen x) \<and>
    length as = min cap (length (st_adverts st)) \<and>
    (\<forall>x \<in> set (st_adverts st) - set as. \<forall>y \<in> set as. ar_received_at y \<ge> ar_received_at x)"
proof -
  have rs: "rs = prune_seen_rows cap (st_trust st)" and as: "as = prune_advert_rows cap (st_adverts st)"
    using assms(1,2,5,6) by (simp_all add: prune_seen_trust_rows prune_peer_adverts_rows)
  have seen: "tr_first_seen y \<ge> tr_first_seen x"
    if "x \<in> set (st_trust st) - set rs" "y \<in> set rs" "tr_level y = ''seen''" for x y
  proof -
    have "tr_level x = ''seen''" using that(1) seen_cap.prune_others unfolding rs by blast
    then have "seen_order y \<le> seen_order x"
      using seen_cap.prune_keeps_first[OF assms(3)] that unfolding rs by blast
    then show ?thesis by (auto simp: seen_order_def)
  qed
  have advert: "ar_received_at y \<ge> ar_received_at x" if "x \<in> set (st_adverts st) - set as" "y \<in> set as" for x y
    using advert_cap.prune_keeps_first[OF assms(4), of x cap y] that unfolding as by auto
  show ?thesis
    using seen advert seen_cap.prune_count[OF assms(3), of cap] advert_cap.prune_count[OF assms(4), of cap]
      seen_cap.prune_others unfolding rs as by (intro conjI ballI impI) simp_all
qed

definition store_seen :: store where
  "store_seen = snd (record_seen ''n2'' 20 (snd (record_seen ''n1'' 10 (snd (seed_trust ''n0'' ''blocked'' 5 (store_empty no_fails))))))"

lemma store_seen_rows:
  "st_trust store_seen =
     [\<lparr>tr_node_id = ''n0'', tr_level = ''blocked'', tr_first_seen = 5, tr_updated_at = 5\<rparr>,
      \<lparr>tr_node_id = ''n1'', tr_level = ''seen'', tr_first_seen = 10, tr_updated_at = 10\<rparr>,
      \<lparr>tr_node_id = ''n2'', tr_level = ''seen'', tr_first_seen = 20, tr_updated_at = 20\<rparr>]"
  "st_adverts store_seen = []" "sql_fails store_seen = no_fails"
  by (simp_all add: store_seen_def record_seen_def seed_trust_def store_empty_def no_fails_def)

theorem prune_bounds_witness:
  "length (filter (\<lambda>r. tr_level r = ''seen'') (st_trust (snd (prune_seen_trust 1 store_seen)))) = 1 \<and>
   map tr_node_id (st_trust (snd (prune_seen_trust 1 store_seen))) = [''n0'', ''n2'']"
  using prune_bounds[of store_seen _ 1, OF _ _ _ _ refl refl]
  by (simp add: store_seen_rows no_fails_def prune_seen_trust_def Let_def seen_order_def)

subsection \<open>Trust levels\<close>

definition level_of :: "store \<Rightarrow> string \<Rightarrow> string option" where
  "level_of st n = map_option tr_level (find (\<lambda>r. tr_node_id r = n) (st_trust st))"

definition trust_inv :: "store \<Rightarrow> bool" where
  "trust_inv st \<longleftrightarrow> distinct (map tr_node_id (st_trust st))"

lemma trust_level_eq: "trust_level n st = (if sql_fails st (TrustLevel n) then Err SqlError else Ok (level_of st n))"
  by (simp add: trust_level_def level_of_def)

lemma seed_trust_Ok:
  assumes "seed_trust n level now st = (Ok u, st')"
  shows "level_of st' = (level_of st)(n \<mapsto> level)" "trust_inv st \<Longrightarrow> trust_inv st'"
proof -
  let ?f = "\<lambda>r. if tr_node_id r = n then r\<lparr>tr_level := level, tr_updated_at := now\<rparr> else r"
  have k: "tr_node_id (?f r) = tr_node_id r" for r by simp
  have m: "map tr_node_id (map ?f rs) = map tr_node_id rs" for rs by simp
  show "level_of st' = (level_of st)(n \<mapsto> level)"
  proof (rule ext)
    fix x
    show "level_of st' x = ((level_of st)(n \<mapsto> level)) x"
    proof (cases "n \<in> tr_node_id ` set (st_trust st)")
      case True
      then have t: "st_trust st' = map ?f (st_trust st)" using assms by (auto simp: seed_trust_def split: if_splits)
      have "find (\<lambda>r. tr_node_id r = n) (st_trust st) \<noteq> None" using True by (simp add: find_key_None)
      then obtain r where r: "find (\<lambda>r. tr_node_id r = n) (st_trust st) = Some r" by blast
      have l: "level_of st' x = map_option (tr_level \<circ> ?f) (find (\<lambda>r. tr_node_id r = x) (st_trust st))"
        using find_key_map[of tr_node_id ?f x "st_trust st"] k by (simp add: level_of_def t option.map_comp)
      show ?thesis
      proof (cases "x = n")
        case True then show ?thesis using l r find_SomeD[OF r] by simp
      next
        case False
        then show ?thesis using l
          by (cases "find (\<lambda>r. tr_node_id r = x) (st_trust st)") (auto simp: level_of_def dest: find_SomeD)
      qed
    next
      case False
      then have "find (\<lambda>r. tr_node_id r = n) (st_trust st) = None" by (simp add: find_key_None)
      then show ?thesis using False assms
        by (auto simp: seed_trust_def level_of_def find_append split: if_splits option.splits)
    qed
  qed
  show "trust_inv st'" if "trust_inv st"
  proof (cases "n \<in> tr_node_id ` set (st_trust st)")
    case True
    then have "st_trust st' = map ?f (st_trust st)" using assms by (auto simp: seed_trust_def split: if_splits)
    then show ?thesis using that m[of "st_trust st"] unfolding trust_inv_def by metis
  qed (use assms that in \<open>auto simp: trust_inv_def seed_trust_def split: if_splits\<close>)
qed

lemma seed_list_Ok:
  "seed_list xs now st = (Ok u, st') \<Longrightarrow> level_of st' = level_of st ++ map_of (rev xs) \<and> (trust_inv st \<longrightarrow> trust_inv st')"
proof (induction xs now st rule: seed_list.induct)
  case (2 n level rest now st)
  obtain v st1 where s: "seed_trust n level now st = (Ok v, st1)"
    using 2(2) by (auto split: prod.splits sum.splits)
  then have "level_of st' = level_of st1 ++ map_of (rev rest) \<and> (trust_inv st1 \<longrightarrow> trust_inv st')" using 2 by simp
  then show ?case using seed_trust_Ok[OF s] by (auto simp: map_add_def fun_eq_iff split: option.splits)
qed (auto simp: map_add_def)

lemma downgrade_Ok:
  assumes "downgrade auth now st = (Ok u, st')"
  shows "level_of st' n = (case level_of st n of None \<Rightarrow> None
      | Some l \<Rightarrow> Some (if config_level l \<and> n \<notin> set auth then ''seen'' else l))"
    and "trust_inv st \<Longrightarrow> trust_inv st'"
proof -
  let ?f = "\<lambda>r. if config_level (tr_level r) \<and> tr_node_id r \<notin> set auth then r\<lparr>tr_level := ''seen'', tr_updated_at := now\<rparr> else r"
  have k: "tr_node_id (?f r) = tr_node_id r" for r by simp
  have t: "st_trust st' = map ?f (st_trust st)" using assms by (auto simp: downgrade_def split: if_splits)
  show "level_of st' n = (case level_of st n of None \<Rightarrow> None
      | Some l \<Rightarrow> Some (if config_level l \<and> n \<notin> set auth then ''seen'' else l))"
    using find_key_map[of tr_node_id ?f n "st_trust st"] k
    by (auto simp: level_of_def t dest: find_SomeD split: option.splits)
  show "trust_inv st'" if "trust_inv st"
  proof -
    have "map tr_node_id (map ?f (st_trust st)) = map tr_node_id (st_trust st)" by simp
    then show ?thesis using that unfolding trust_inv_def t by metis
  qed
qed

lemma map_of_rev_append: "map_of (rev (xs @ ys)) = map_of (rev xs) ++ map_of (rev ys)"
  by (auto simp: map_add_def fun_eq_iff map_of_append split: option.splits)

lemma map_of_const: "map_of (rev (map (\<lambda>n. (n, v)) ns)) n = (if n \<in> set ns then Some v else None)"
  by (induction ns rule: rev_induct) auto

text \<open>
  Seeding is authoritative. After a successful seeding from configuration the level of every node
  is determined: blocked where the configuration blocks it, else trusted where it is listed as
  trusted, else its peer entry's level; a node in none of the lists keeps its level, except that a
  verified or trusted one falls back to seen (a removed peer loses its trust), and a blocked one
  stays blocked.
\<close>

theorem seed_federation_trust_final:
  assumes "seed_federation_trust fed now st = (Ok u, st')"
  shows "level_of st' n =
    (if n \<in> set (fc_blocked fed) then Some ''blocked''
     else if n \<in> set (fc_trusted fed) then Some ''trusted''
     else case map_of (rev (map (\<lambda>p. (pe_node_id p, pe_trust p)) (fc_peers fed))) n of
            Some l \<Rightarrow> Some l
          | None \<Rightarrow> (case level_of st n of None \<Rightarrow> None | Some l \<Rightarrow> Some (if config_level l then ''seen'' else l)))"
proof -
  let ?auth = "map pe_node_id (fc_peers fed) @ fc_trusted fed"
  obtain v st1 where d: "downgrade ?auth now st = (Ok v, st1)" and s: "seed_list (seeds fed) now st1 = (Ok u, st')"
    using assms by (auto simp: seed_federation_trust_def split: prod.splits sum.splits)
  have l: "level_of st' = level_of st1 ++ map_of (rev (seeds fed))" using seed_list_Ok[OF s] by simp
  have none: "map_of (rev (map (\<lambda>p. (pe_node_id p, pe_trust p)) (fc_peers fed))) n = None \<longleftrightarrow> n \<notin> pe_node_id ` set (fc_peers fed)"
    by (auto simp: map_of_eq_None_iff image_image)
  show ?thesis
    unfolding l seeds_def map_of_rev_append
    using none downgrade_Ok(1)[OF d, of n] by (auto simp: map_add_def map_of_const split: option.splits)
qed

definition fed_sample :: federation_config where
  "fed_sample = \<lparr>fc_listen = None, fc_accept_from = ''verified'', fc_max_hops = 4, fc_max_ttl_secs = 60,
     fc_identity_exposure = ''pseudonymous'', fc_ingress_routes = [],
     fc_peers = [\<lparr>pe_name = ''phoenix'', pe_node_id = ''n1'', pe_addr = ''a'', pe_trust = ''verified'',
                   pe_messages_per_minute = 60, pe_sealed_key = None\<rparr>],
     fc_trusted = [''n2''], fc_blocked = [''n1'']\<rparr>"

theorem seed_federation_trust_final_witness:
  "\<exists>st'. seed_federation_trust fed_sample 30 (snd (seed_trust ''n9'' ''trusted'' 1 (store_empty no_fails))) = (Ok (), st') \<and>
     level_of st' ''n1'' = Some ''blocked'' \<and> level_of st' ''n2'' = Some ''trusted'' \<and> level_of st' ''n9'' = Some ''seen''"
proof -
  let ?st = "snd (seed_trust ''n9'' ''trusted'' 1 (store_empty no_fails))"
  let ?r = "seed_federation_trust fed_sample 30 ?st"
  have e: "?r = (Ok (), snd ?r)"
    by (simp add: seed_federation_trust_def downgrade_def seeds_def seed_trust_def store_empty_def no_fails_def
        fed_sample_def config_level_def)
  have "level_of ?st ''n9'' = Some ''trusted''"
    by (simp add: level_of_def seed_trust_def store_empty_def no_fails_def)
  then have "level_of (snd ?r) ''n1'' = Some ''blocked'' \<and> level_of (snd ?r) ''n2'' = Some ''trusted'' \<and>
     level_of (snd ?r) ''n9'' = Some ''seen''"
    using seed_federation_trust_final[OF e, of "''n1''"] seed_federation_trust_final[OF e, of "''n2''"]
      seed_federation_trust_final[OF e, of "''n9''"]
    by (simp add: fed_sample_def config_level_def)
  then show ?thesis using e by blast
qed

text \<open>What a network peer can cause: handshakes and the prune behind them.\<close>

inductive handshake_step :: "store \<Rightarrow> store \<Rightarrow> bool" where
  hs_seen: "handshake_step st (snd (record_seen n now st))"
| hs_prune: "handshake_step st (snd (prune_seen_trust cap st))"
| hs_advert: "handshake_step st (snd (upsert_peer_advert n cbor name expires received st))"
| hs_prune_adverts: "handshake_step st (snd (prune_peer_adverts cap st))"

lemma record_seen_level:
  "level_of (snd (record_seen n now st)) x = level_of st x \<or>
   level_of st x = None \<and> level_of (snd (record_seen n now st)) x = Some ''seen''"
  by (auto simp: record_seen_def level_of_def find_append split: option.splits)

lemma prune_seen_level:
  assumes "trust_inv st"
  shows "level_of (snd (prune_seen_trust cap st)) x = level_of st x \<or>
    level_of st x = Some ''seen'' \<and> level_of (snd (prune_seen_trust cap st)) x = None"
proof (cases "sql_fails st PruneSeen")
  case False
  then show ?thesis using assms
    by (auto simp: prune_seen_trust_rows prune_seen_rows_def level_of_def find_filter find_key_conj trust_inv_def split: option.splits)
qed (simp add: prune_seen_trust_def)

lemma handshake_trust_frame:
  "st_trust (snd (upsert_peer_advert n cbor name expires received st)) = st_trust st"
  "st_trust (snd (prune_peer_adverts cap st)) = st_trust st"
  by (simp_all add: upsert_peer_advert_def prune_peer_adverts_def Let_def)

lemma handshake_trust_inv: "handshake_step st st' \<Longrightarrow> trust_inv st \<Longrightarrow> trust_inv st'"
  by (induction rule: handshake_step.induct)
     (auto simp: trust_inv_def handshake_trust_frame record_seen_def prune_seen_trust_def Let_def
       intro: distinct_map_filter)

lemma handshake_level:
  "handshake_step st st' \<Longrightarrow> trust_inv st \<Longrightarrow>
   level_of st' x = level_of st x \<or> {level_of st x, level_of st' x} \<subseteq> {None, Some ''seen''}"
proof (induction rule: handshake_step.induct)
  case (hs_seen st n now) then show ?case using record_seen_level[of n now st x] by auto
next
  case (hs_prune st cap) then show ?case using prune_seen_level[of st cap x] by auto
qed (simp_all add: level_of_def handshake_trust_frame)

text \<open>
  Discovery never raises trust. Whatever handshakes and advertisements arrive, in any order and
  number and with any identities, no node becomes verified, trusted or blocked through them: a node's
  level is what it was, or it moved between unknown and seen.
\<close>

theorem discovery_never_raises_trust:
  assumes "handshake_step\<^sup>*\<^sup>* st st'" "distinct (map tr_node_id (st_trust st))"
  shows "level_of st' n = level_of st n \<or>
    level_of st n \<in> {None, Some ''seen''} \<and> level_of st' n \<in> {None, Some ''seen''}"
proof -
  have "trust_inv st' \<and> (level_of st' n = level_of st n \<or> {level_of st n, level_of st' n} \<subseteq> {None, Some ''seen''})"
    using assms(1)
  proof (induction rule: rtranclp_induct)
    case base then show ?case using assms(2) by (simp add: trust_inv_def)
  next
    case (step y z)
    then show ?case using handshake_trust_inv[OF step(2)] handshake_level[OF step(2), of n] by auto
  qed
  then show ?thesis by auto
qed

theorem discovery_never_raises_trust_witness:
  "handshake_step\<^sup>*\<^sup>* store_seen (snd (prune_seen_trust 1 (snd (record_seen ''n0'' 40 store_seen)))) \<and>
   level_of (snd (prune_seen_trust 1 (snd (record_seen ''n0'' 40 store_seen)))) ''n0'' = Some ''blocked''"
proof -
  have s: "handshake_step\<^sup>*\<^sup>* store_seen (snd (prune_seen_trust 1 (snd (record_seen ''n0'' 40 store_seen))))"
    by (meson rtranclp.rtrancl_into_rtrancl rtranclp.rtrancl_refl hs_seen hs_prune)
  have "level_of store_seen ''n0'' = Some ''blocked''" by (simp add: level_of_def store_seen_rows)
  then show ?thesis using s discovery_never_raises_trust[OF s, of "''n0''"] by (simp add: store_seen_rows)
qed

subsection \<open>Challenges and advertisements\<close>

lemma create_challenge_Ok:
  assumes "create_challenge code tp tr rp rr name now expires st = (Ok i, st')"
  shows "st_challenges st' = filter (\<lambda>c. \<not> for_target tp tr c) (st_challenges st) @
      [\<lparr>ch_id = i, ch_code = code, ch_target_protocol = tp, ch_target_ref = tr,
        ch_requester_protocol = rp, ch_requester_ref = rr, ch_display_name = name,
        ch_created_at = now, ch_expires_at = expires\<rparr>]"
    and "sql_fails st' = sql_fails st"
  using assms by (auto simp: create_challenge_def delete_challenges_for_target_def split: if_splits)

text \<open>
  One challenge per target. After a challenge is created it is the only one of its target, the
  earlier codes of that target are void, and the challenges of other targets are untouched; until it
  expires it is found by its own code and by no other.
\<close>

theorem create_challenge_single:
  assumes "create_challenge code tp tr rp rr name now expires st = (Ok i, st')"
    and "\<not> sql_fails st (FindChallenge tp tr)"
  shows "(\<exists>c. filter (for_target tp tr) (st_challenges st') = [c] \<and> ch_id c = i \<and>
      (\<forall>code' t. find_active_challenge tp tr code' t st' =
          Ok (if code' = code \<and> t < expires then Some c else None))) \<and>
    (\<forall>p r. (p, r) \<noteq> (tp, tr) \<longrightarrow>
       filter (for_target p r) (st_challenges st') = filter (for_target p r) (st_challenges st))"
proof -
  let ?c = "\<lparr>ch_id = i, ch_code = code, ch_target_protocol = tp, ch_target_ref = tr,
        ch_requester_protocol = rp, ch_requester_ref = rr, ch_display_name = name,
        ch_created_at = now, ch_expires_at = expires\<rparr>"
  note c = create_challenge_Ok[OF assms(1)]
  have t: "for_target tp tr ?c" by (simp add: for_target_def)
  have "find_active_challenge tp tr code' t st' = Ok (if code' = code \<and> t < expires then Some ?c else None)" for code' t
    using assms(2) t
    by (auto simp: find_active_challenge_def c find_append find_filter find_None_iff split: option.splits dest: find_SomeD)
  moreover have "filter (for_target tp tr) (st_challenges st') = [?c]"
    using t by (simp add: c)
  moreover have "filter (for_target p r) (st_challenges st') = filter (for_target p r) (st_challenges st)"
    if "(p, r) \<noteq> (tp, tr)" for p r
  proof -
    have "filter (for_target p r) (filter (\<lambda>c. \<not> for_target tp tr c) (st_challenges st)) = filter (for_target p r) (st_challenges st)"
      using that by (auto simp: for_target_def intro!: filter_cong)
    moreover have "\<not> for_target p r ?c" using that by (auto simp: for_target_def)
    ultimately show ?thesis by (simp add: c del: filter_filter)
  qed
  ultimately show ?thesis by (intro conjI exI[of _ ?c]) auto
qed

theorem create_challenge_single_witness:
  "\<exists>st'. create_challenge ''000111'' ''signal'' ''bob'' ''mqtt'' ''alice'' ''Alice'' 0 100
       (snd (create_challenge ''999999'' ''signal'' ''bob'' ''mqtt'' ''eve'' ''Eve'' 0 100 (store_empty no_fails))) = (Ok 2, st') \<and>
     find_active_challenge ''signal'' ''bob'' ''999999'' 10 st' = Ok None"
proof -
  let ?st = "snd (create_challenge ''999999'' ''signal'' ''bob'' ''mqtt'' ''eve'' ''Eve'' 0 100 (store_empty no_fails))"
  let ?r = "create_challenge ''000111'' ''signal'' ''bob'' ''mqtt'' ''alice'' ''Alice'' 0 100 ?st"
  have e: "?r = (Ok 2, snd ?r)" and f: "\<not> sql_fails ?st (FindChallenge ''signal'' ''bob'')"
    by (simp_all add: create_challenge_def delete_challenges_for_target_def store_empty_def no_fails_def)
  have "find_active_challenge ''signal'' ''bob'' ''999999'' 10 (snd ?r) = Ok None"
    using create_challenge_single[OF e f] by auto
  then show ?thesis using e by blast
qed

definition advert_of :: "store \<Rightarrow> string \<Rightarrow> advert_row option" where
  "advert_of st n = find (\<lambda>r. ar_node_id r = n) (st_adverts st)"

fun upsert_all :: "(string \<times> bytes \<times> string \<times> datetime \<times> datetime) list \<Rightarrow> store \<Rightarrow> store" where
  "upsert_all [] st = st"
| "upsert_all ((n, cbor, name, expires, received) # rest) st =
     upsert_all rest (snd (upsert_peer_advert n cbor name expires received st))"

lemma upsert_advert:
  assumes "\<not> sql_fails st (UpsertAdvert n)"
  shows "advert_of (snd (upsert_peer_advert n cbor name expires received st)) x =
    (if x \<noteq> n then advert_of st x
     else case advert_of st n of
       Some r \<Rightarrow> if expires > ar_expires r
         then Some \<lparr>ar_node_id = n, ar_advert_cbor = cbor, ar_name = name, ar_expires = expires, ar_received_at = received\<rparr>
         else Some r
     | None \<Rightarrow> Some \<lparr>ar_node_id = n, ar_advert_cbor = cbor, ar_name = name, ar_expires = expires, ar_received_at = received\<rparr>)"
proof -
  let ?row = "\<lparr>ar_node_id = n, ar_advert_cbor = cbor, ar_name = name, ar_expires = expires, ar_received_at = received\<rparr>"
  let ?f = "\<lambda>r. if ar_node_id r = n \<and> expires > ar_expires r then ?row else r"
  have k: "ar_node_id (?f r) = ar_node_id r" for r by simp
  show ?thesis
  proof (cases "n \<in> ar_node_id ` set (st_adverts st)")
    case True
    have t: "st_adverts (snd (upsert_peer_advert n cbor name expires received st)) = map ?f (st_adverts st)"
      using True assms by (simp add: upsert_peer_advert_def Let_def)
    have m: "advert_of (snd (upsert_peer_advert n cbor name expires received st)) x = map_option ?f (advert_of st x)"
      unfolding advert_of_def t by (rule find_key_map) (rule k)
    have "advert_of st n \<noteq> None" using True by (simp add: advert_of_def find_key_None)
    then show ?thesis unfolding m
      by (cases "advert_of st x") (auto simp: advert_of_def dest: find_SomeD)
  next
    case False
    then have n: "advert_of st n = None" by (simp add: advert_of_def find_key_None)
    have t: "st_adverts (snd (upsert_peer_advert n cbor name expires received st)) = st_adverts st @ [?row]"
      using False assms by (simp add: upsert_peer_advert_def Let_def)
    show ?thesis using n by (auto simp: advert_of_def t find_append split: option.splits)
  qed
qed

lemma upsert_fails [simp]: "sql_fails (snd (upsert_peer_advert n cbor name expires received st)) = sql_fails st"
  by (simp add: upsert_peer_advert_def Let_def)

definition max_opt :: "int option \<Rightarrow> int \<Rightarrow> int option" where
  "max_opt cur e = Some (case cur of None \<Rightarrow> e | Some v \<Rightarrow> max v e)"

text \<open>
  Newest advert wins. However the adverts of any number of nodes arrive, in any order and with
  replays among them, the expiry stored for a node is the latest one presented for it (or the one
  already held), so an old advert never displaces a newer one.
\<close>

theorem advert_newest_wins:
  assumes "\<forall>s. \<not> sql_fails st s"
  shows "map_option ar_expires (advert_of (upsert_all as st) x) =
    foldl max_opt (map_option ar_expires (advert_of st x))
      (map (\<lambda>(n, cbor, name, expires, received). expires) (filter (\<lambda>a. fst a = x) as))"
  using assms
proof (induction as arbitrary: st)
  case (Cons a as)
  obtain n cbor name expires received where a: "a = (n, cbor, name, expires, received)" by (cases a) auto
  have IH: "map_option ar_expires (advert_of (upsert_all (a # as) st) x) =
      foldl max_opt (map_option ar_expires (advert_of (snd (upsert_peer_advert n cbor name expires received st)) x))
        (map (\<lambda>(n, cbor, name, expires, received). expires) (filter (\<lambda>a. fst a = x) as))"
    unfolding a by (simp add: Cons.IH Cons.prems)
  have "map_option ar_expires (advert_of (snd (upsert_peer_advert n cbor name expires received st)) x) =
      (if x = n then max_opt (map_option ar_expires (advert_of st x)) expires else map_option ar_expires (advert_of st x))"
    using upsert_advert[of st n cbor name expires received x] Cons.prems
    by (auto simp: max_opt_def max_def split: option.splits)
  then show ?case unfolding IH by (auto simp: a)
qed simp

theorem advert_newest_wins_witness:
  "map_option ar_expires (advert_of (upsert_all [(''n1'', ''x'', ''a'', 50, 1), (''n1'', ''y'', ''b'', 90, 2), (''n1'', ''x'', ''a'', 50, 3)]
      (store_empty no_fails)) ''n1'') = Some 90"
  using advert_newest_wins[of "store_empty no_fails" "[(''n1'', ''x'', ''a'', 50, 1), (''n1'', ''y'', ''b'', 90, 2), (''n1'', ''x'', ''a'', 50, 3)]" "''n1''"]
  by (simp add: store_empty_def no_fails_def advert_of_def max_opt_def)

end
