(* ===== verification/Cas.thy ===== *)
theory Cas
  imports Fed_Crypto_Props
begin

text \<open>
  The content-addressed blob store (\<open>src/switchyardd/src/cas.rs\<close>). The directory is an association
  list from file name to content, the running total a natural number of bytes; a filesystem call fails
  where \<open>cs_fails\<close> says so. The staging file a crash may leave behind is not a blob and is not
  modelled.
\<close>

datatype fs_call = FsWrite string | FsRename string | FsRead string | FsRemove string

datatype cas_error = QuotaExceeded | InvalidSha | NotFound | InvalidData | CasIo

record cas =
  cs_blobs :: "(string \<times> bytes) list"
  cs_budget :: nat
  cs_total :: nat
  cs_fails :: "fs_call \<Rightarrow> bool"

definition is_budget_exceeded :: "cas_error \<Rightarrow> bool" where
  "is_budget_exceeded e \<longleftrightarrow> e = QuotaExceeded"

definition existing_bytes :: "(string \<times> bytes) list \<Rightarrow> nat" where
  "existing_bytes files = sum_list (map (\<lambda>(n, d). length d) files)"

definition sha_byte :: "char \<Rightarrow> bool" where
  "sha_byte b \<longleftrightarrow> is_digit_byte b \<or> 97 \<le> byte_val b \<and> byte_val b \<le> 102"

definition is_valid_sha :: "string \<Rightarrow> bool" where
  "is_valid_sha sha \<longleftrightarrow> length sha = 64 \<and> list_all sha_byte sha"

definition cas_new :: "(string \<times> bytes) list \<Rightarrow> nat \<Rightarrow> (fs_call \<Rightarrow> bool) \<Rightarrow> cas" where
  "cas_new files budget fails =
     \<lparr>cs_blobs = files, cs_budget = budget, cs_total = existing_bytes files, cs_fails = fails\<rparr>"

definition cas_put :: "ext \<Rightarrow> bytes \<Rightarrow> cas \<Rightarrow> (cas_error + string) \<times> cas" where
  "cas_put X data c =
     (let sha = hex_encode (x_sha256 X data); size = length data in
      if sha \<in> fst ` set (cs_blobs c) then (Ok sha, c)
      else if cs_budget c > 0 \<and> cs_total c + size > cs_budget c then (Err QuotaExceeded, c)
      else if cs_fails c (FsWrite sha) \<or> cs_fails c (FsRename sha) then (Err CasIo, c)
      else (Ok sha, c\<lparr>cs_blobs := (sha, data) # cs_blobs c, cs_total := cs_total c + size\<rparr>))"

definition path_for :: "string \<Rightarrow> cas_error + string" where
  "path_for sha = (if \<not> is_valid_sha sha then Err InvalidSha else Ok sha)"

definition cas_get :: "ext \<Rightarrow> string \<Rightarrow> cas \<Rightarrow> cas_error + bytes" where
  "cas_get X sha c =
     (case path_for sha of
        Err e \<Rightarrow> Err e
      | Ok path \<Rightarrow>
          if cs_fails c (FsRead path) then Err CasIo
          else case map_of (cs_blobs c) path of
                 None \<Rightarrow> Err NotFound
               | Some data \<Rightarrow> if hex_encode (x_sha256 X data) \<noteq> sha then Err InvalidData else Ok data)"

definition cas_remove :: "string \<Rightarrow> cas \<Rightarrow> (cas_error + unit) \<times> cas" where
  "cas_remove sha c =
     (case path_for sha of
        Err e \<Rightarrow> (Err e, c)
      | Ok path \<Rightarrow>
          (case map_of (cs_blobs c) path of
             None \<Rightarrow> (Ok (), c)
           | Some data \<Rightarrow>
               if cs_fails c (FsRemove path) then (Err CasIo, c)
               else (Ok (), c\<lparr>cs_blobs := alist_del path (cs_blobs c), cs_total := cs_total c - length data\<rparr>)))"

fun cas_remove_all :: "string list \<Rightarrow> cas \<Rightarrow> cas" where
  "cas_remove_all [] c = c"
| "cas_remove_all (sha # shas) c = cas_remove_all shas (snd (cas_remove sha c))"

subsection \<open>Facts\<close>

definition cas_inv :: "cas \<Rightarrow> bool" where
  "cas_inv c \<longleftrightarrow> distinct (map fst (cs_blobs c)) \<and> cs_total c = existing_bytes (cs_blobs c)"

lemma hex_digit_sha_byte: "n < 16 \<Longrightarrow> sha_byte (hex_digit 97 n)"
  by (auto simp: sha_byte_def hex_digit_def is_digit_byte_def)

lemma hex_encode_valid_sha: "length b = 32 \<Longrightarrow> is_valid_sha (hex_encode b)"
proof -
  assume "length b = 32"
  moreover have "length (hex_encode b) = 2 * length b" for b by (induction b) (auto simp: hex_encode_def)
  moreover have "list_all sha_byte (hex_encode b)" for b
  proof (induction b)
    case (Cons a b)
    have "byte_val a div 16 < 16" using byte_val_less[of a] by (intro less_mult_imp_div_less) simp
    then show ?case using Cons by (simp add: hex_encode_def hex_digit_sha_byte)
  qed (simp add: hex_encode_def)
  ultimately show ?thesis by (simp add: is_valid_sha_def)
qed

lemma existing_bytes_del:
  "distinct (map fst m) \<Longrightarrow> map_of m k = Some v \<Longrightarrow> existing_bytes m = existing_bytes (alist_del k m) + length v"
proof (induction m)
  case (Cons e m)
  obtain a b where e: "e = (a, b)" by (cases e)
  show ?case
  proof (cases "a = k")
    case True
    then have "filter (\<lambda>e. fst e \<noteq> k) m = m" using Cons.prems(1) by (auto simp: e filter_id_conv)
    then show ?thesis using True Cons.prems by (simp add: e existing_bytes_def alist_del_def)
  next
    case False then show ?thesis using Cons by (auto simp: e existing_bytes_def alist_del_def)
  qed
qed simp

lemma distinct_keys_del: "distinct (map fst m) \<Longrightarrow> distinct (map fst (alist_del k m))"
  by (simp add: alist_del_def distinct_map_filter)

lemma cas_put_inv: "cas_inv c \<Longrightarrow> cas_inv (snd (cas_put X data c))"
  by (auto simp: cas_inv_def cas_put_def Let_def existing_bytes_def image_iff)

lemma cas_remove_inv: "cas_inv c \<Longrightarrow> cas_inv (snd (cas_remove sha c))"
  using existing_bytes_del[of "cs_blobs c" sha]
  by (auto simp: cas_inv_def cas_remove_def path_for_def distinct_keys_del split: option.splits)

lemma cas_remove_other:
  "k \<noteq> sha \<Longrightarrow> map_of (cs_blobs (snd (cas_remove sha c))) k = map_of (cs_blobs c) k"
  by (auto simp: cas_remove_def path_for_def split: option.splits)

lemma cas_remove_all_other:
  "k \<notin> set shas \<Longrightarrow> map_of (cs_blobs (cas_remove_all shas c)) k = map_of (cs_blobs c) k"
  by (induction shas arbitrary: c) (auto simp: cas_remove_other)


definition no_fs_fails :: "fs_call \<Rightarrow> bool" where
  "no_fs_fails f = False"


end
