(* ===== verification/Metrics.thy ===== *)
theory Metrics
  imports Rust_Prelude "HOL-Library.List_Lexorder" "HOL-Library.Char_ord"
begin

text \<open>
  Metrics (\<open>src/switchyardd/src/metrics.rs\<close>): the counters, the gauges plugins report and the text in
  which the admin API exposes them. A floating point number is its 64-bit pattern; how Rust prints one
  is a parameter, as is the printing of the latency sum in seconds. The counters of the source are
  process-wide atomics; in the model they are a field of the daemon.
\<close>

datatype metric = INGRESS | EGRESS | DROPPED | DUPLICATES | POLICY_DENIALS | RATELIMITED | QUEUE_REJECTED
  | BUDGET_DEFERRED | LINKS_VERIFIED | FED_INGRESS | FED_EGRESS | FED_REJECTED | ADVERT_RX | ADVERT_TX
  | ADVERT_REJECTED | SEALED_EGRESS | SEALED_INGRESS | SEALED_REJECTED | TRANSPORT_DEMOTED
  | DELIVERY_LATENCY_MICROS_SUM | DELIVERY_LATENCY_COUNT

type_synonym f64 = "64 word"

text \<open>A double is finite unless all eleven bits of its exponent are set.\<close>

definition is_finite :: "f64 \<Rightarrow> bool" where
  "is_finite v \<longleftrightarrow> unat v div 2 ^ 52 mod 2 ^ 11 \<noteq> 2047"

subsection \<open>Gauges\<close>

definition MAX_GAUGES_PER_PLUGIN :: nat where "MAX_GAUGES_PER_PLUGIN = 32"
definition GAUGE_STALE_AFTER :: duration where "GAUGE_STALE_AFTER = secs 600"

type_synonym gauge_snapshot = "(string \<times> f64) list \<times> instant"
type_synonym plugin_gauges = "(string \<times> gauge_snapshot) list"

definition lower_byte :: "char \<Rightarrow> char" where
  "lower_byte b = (if is_upper_byte b then char_of (byte_val b + 32) else b)"

definition gauge_name_byte :: "char \<Rightarrow> bool" where
  "gauge_name_byte b \<longleftrightarrow> is_lower_byte b \<or> is_digit_byte b \<or> b = CHR ''_''"

definition sanitize_gauge_name :: "string \<Rightarrow> string" where
  "sanitize_gauge_name name =
     map (\<lambda>c. case map lower_byte c of [b] \<Rightarrow> if gauge_name_byte b then b else CHR ''_'' | _ \<Rightarrow> CHR ''_'') (rust_chars name)"

text \<open>\<open>gauges\<close> is the map of a frame in key order; the hash map built from it keeps the last of equal names.\<close>

definition gauges_record :: "instant \<Rightarrow> string \<Rightarrow> (string \<times> f64) list \<Rightarrow> plugin_gauges \<Rightarrow> plugin_gauges" where
  "gauges_record t plugin gauges store =
     (let kept = take MAX_GAUGES_PER_PLUGIN (filter (\<lambda>(_, v). is_finite v) gauges);
          sanitized = fold (\<lambda>(name, v) m. alist_put (sanitize_gauge_name name) v m) kept []
      in alist_put plugin (sanitized, t) store)"

definition gauges_fresh :: "instant \<Rightarrow> gauge_snapshot \<Rightarrow> bool" where
  "gauges_fresh now s \<longleftrightarrow> now - snd s \<le> GAUGE_STALE_AFTER"

definition for_plugin :: "string \<Rightarrow> instant \<Rightarrow> plugin_gauges \<Rightarrow> (string \<times> f64 \<times> nat) list" where
  "for_plugin plugin now store =
     (case map_of store plugin of
        None \<Rightarrow> []
      | Some s \<Rightarrow>
          if \<not> gauges_fresh now s then []
          else sort_key fst (map (\<lambda>(n, v). (n, v, (now - snd s) div ns_per_sec)) (fst s)))"

subsection \<open>Text exposition\<close>

text \<open>The three escaped characters are ASCII, so they occur in UTF-8 text only as the byte itself.\<close>

definition escape_byte :: "char \<Rightarrow> string" where
  "escape_byte b =
     (if b = CHR 0x5C then [CHR 0x5C, CHR 0x5C]
      else if b = CHR 0x22 then [CHR 0x5C, CHR 0x22]
      else if b = CHR 0x0A then [CHR 0x5C, CHR ''n'']
      else [b])"

definition escape_label :: "string \<Rightarrow> string" where
  "escape_label v = concat (map escape_byte v)"

definition quoted :: "string \<Rightarrow> string" where
  "quoted v = dquote @ v @ dquote"

definition gauge_line :: "(f64 \<Rightarrow> string) \<Rightarrow> string \<Rightarrow> string \<times> f64 \<Rightarrow> string" where
  "gauge_line fmt plugin g =
     ''relayfabric_plugin_gauge{plugin='' @ quoted (escape_label plugin) @ '',name='' @ quoted (fst g) @ ''} '' @ fmt (snd g) @ newline"

definition gauges_render :: "(f64 \<Rightarrow> string) \<Rightarrow> instant \<Rightarrow> plugin_gauges \<Rightarrow> string" where
  "gauges_render fmt now store =
     concat (map (\<lambda>(plugin, s). if gauges_fresh now s then concat (map (gauge_line fmt plugin) (sort_key fst (fst s))) else [])
       (sort_key fst store))"

definition type_line :: "string \<Rightarrow> string \<Rightarrow> string" where
  "type_line name kind = ''# TYPE '' @ name @ '' '' @ kind @ newline"

definition labelled :: "string \<Rightarrow> string \<Rightarrow> string \<Rightarrow> string \<Rightarrow> string" where
  "labelled name label v n = name @ ''{'' @ label @ ''='' @ quoted (escape_label v) @ ''} '' @ n @ newline"

definition render_latency :: "(u64 \<Rightarrow> string) \<Rightarrow> u64 \<Rightarrow> u64 \<Rightarrow> string" where
  "render_latency fmt_secs sum_micros count =
     type_line ''relayfabric_delivery_latency_seconds'' ''summary'' @
     ''relayfabric_delivery_latency_seconds_sum '' @ fmt_secs sum_micros @ newline @
     ''relayfabric_delivery_latency_seconds_count '' @ nat_str (unat count) @ newline"

definition render_routes :: "(string \<times> nat) list \<Rightarrow> string" where
  "render_routes routes =
     type_line ''relayfabric_route_messages_total'' ''counter'' @
     concat (map (\<lambda>(r, n). labelled ''relayfabric_route_messages_total'' ''route'' r (nat_str n)) (sort_key fst routes))"

definition counters :: "(string \<times> metric) list" where
  "counters =
     [(''relayfabric_messages_ingress_total'', INGRESS), (''relayfabric_messages_egress_total'', EGRESS),
      (''relayfabric_messages_dropped_total'', DROPPED), (''relayfabric_duplicate_messages_total'', DUPLICATES),
      (''relayfabric_policy_denials_total'', POLICY_DENIALS), (''relayfabric_ratelimited_total'', RATELIMITED),
      (''relayfabric_queue_rejected_total'', QUEUE_REJECTED), (''relayfabric_budget_deferred_total'', BUDGET_DEFERRED),
      (''relayfabric_links_verified_total'', LINKS_VERIFIED), (''relayfabric_federation_ingress_total'', FED_INGRESS),
      (''relayfabric_federation_egress_total'', FED_EGRESS), (''relayfabric_federation_rejected_total'', FED_REJECTED),
      (''relayfabric_advert_rx_total'', ADVERT_RX), (''relayfabric_advert_tx_total'', ADVERT_TX),
      (''relayfabric_advert_rejected_total'', ADVERT_REJECTED), (''relayfabric_sealed_egress_total'', SEALED_EGRESS),
      (''relayfabric_sealed_ingress_total'', SEALED_INGRESS), (''relayfabric_sealed_rejected_total'', SEALED_REJECTED),
      (''relayfabric_transport_demoted_total'', TRANSPORT_DEMOTED)]"

definition flag :: "bool \<Rightarrow> string" where
  "flag b = (if b then ''1'' else ''0'')"

definition metrics_render ::
  "(f64 \<Rightarrow> string) \<Rightarrow> (u64 \<Rightarrow> string) \<Rightarrow> instant \<Rightarrow> (metric \<Rightarrow> u64) \<Rightarrow> (string \<times> bool) list \<Rightarrow> (string \<times> nat) list \<Rightarrow>
   (string \<times> int) list \<Rightarrow> (string \<times> bool) list \<Rightarrow> plugin_gauges \<Rightarrow> string" where
  "metrics_render fmt fmt_secs now ctr peers_up routes queue_counts plugin_up gauges =
     concat (map (\<lambda>(name, m). type_line name ''counter'' @ name @ '' '' @ nat_str (unat (ctr m)) @ newline) counters) @
     type_line ''relayfabric_queue_depth'' ''gauge'' @
     concat (map (\<lambda>(s, n). labelled ''relayfabric_queue_depth'' ''state'' s (int_str n)) queue_counts) @
     type_line ''relayfabric_plugin_up'' ''gauge'' @
     concat (map (\<lambda>(p, up). labelled ''relayfabric_plugin_up'' ''plugin'' p (flag up)) plugin_up) @
     type_line ''relayfabric_federation_peer_up'' ''gauge'' @
     concat (map (\<lambda>(p, up). labelled ''relayfabric_federation_peer_up'' ''peer'' p (flag up)) (sort_key fst peers_up)) @
     render_latency fmt_secs (ctr DELIVERY_LATENCY_MICROS_SUM) (ctr DELIVERY_LATENCY_COUNT) @
     render_routes routes @
     type_line ''relayfabric_plugin_gauge'' ''gauge'' @
     gauges_render fmt now gauges"

subsection \<open>Facts\<close>

text \<open>What a plugin's snapshot may hold.\<close>

definition snapshot_ok :: "gauge_snapshot \<Rightarrow> bool" where
  "snapshot_ok s \<longleftrightarrow> length (fst s) \<le> MAX_GAUGES_PER_PLUGIN \<and> distinct (map fst (fst s)) \<and>
     list_all (\<lambda>(n, v). list_all gauge_name_byte n \<and> is_finite v) (fst s)"

definition gauges_ok :: "plugin_gauges \<Rightarrow> bool" where
  "gauges_ok g \<longleftrightarrow> distinct (map fst g) \<and> list_all (\<lambda>(_, s). snapshot_ok s) g"

lemma sanitize_bytes: "list_all gauge_name_byte (sanitize_gauge_name name)"
  by (auto simp: sanitize_gauge_name_def list_all_iff gauge_name_byte_def split: list.splits)

lemma alist_put_keys: "distinct (map fst m) \<Longrightarrow> distinct (map fst (alist_put k v m))" "length (alist_put k v m) \<le> Suc (length m)"
  by (auto simp: alist_put_def distinct_map_filter image_iff le_SucI)

lemma put_all_ok:
  fixes xs :: "(string \<times> f64) list"
  assumes "list_all (\<lambda>(_, v). is_finite v) xs" "distinct (map fst m)" "list_all (\<lambda>(n, v). list_all gauge_name_byte n \<and> is_finite v) m"
    and "m' = fold (\<lambda>(name, v) m. alist_put (sanitize_gauge_name name) v m) xs m"
  shows "length m' \<le> length xs + length m \<and> distinct (map fst m') \<and> list_all (\<lambda>(n, v). list_all gauge_name_byte n \<and> is_finite v) m'"
  using assms
proof (induction xs arbitrary: m)
  case (Cons a xs)
  obtain n v where a: "a = (n, v)" by (cases a)
  let ?m1 = "alist_put (sanitize_gauge_name n) v m"
  have "list_all (\<lambda>(n, v). list_all gauge_name_byte n \<and> is_finite v) ?m1"
    using Cons.prems(1,3) sanitize_bytes by (auto simp: alist_put_def list_all_iff a)
  from Cons.IH[OF _ alist_put_keys(1)[OF Cons.prems(2)] this] Cons.prems(1,4) show ?case
    using alist_put_keys(2)[of "sanitize_gauge_name n" v m] by (simp add: a)
qed simp

text \<open>
  C40: What plugins report stays well-typed. Whatever names and numbers a gauge frame carries, and whatever was
  recorded before, the snapshot stored for the plugin has at most 32 gauges with distinct names of the
  bytes \<open>a-z\<close>, \<open>0-9\<close> and \<open>_\<close> and finite values only, and the snapshots of other plugins are kept. A snapshot older
  than ten minutes is reported for no plugin.
\<close>

theorem gauges_well_typed:
  assumes "gauges_ok g"
  shows "gauges_ok (gauges_record t plugin frame g) \<and>
    (\<forall>p. p \<noteq> plugin \<longrightarrow> map_of (gauges_record t plugin frame g) p = map_of g p) \<and>
    (now - t > GAUGE_STALE_AFTER \<longrightarrow> for_plugin plugin now (gauges_record t plugin frame g) = [])"
proof -
  define kept where "kept = take MAX_GAUGES_PER_PLUGIN (filter (\<lambda>(_, v). is_finite v) frame)"
  define san where "san = fold (\<lambda>(name, v) m. alist_put (sanitize_gauge_name name) v m) kept []"
  have r: "gauges_record t plugin frame g = alist_put plugin (san, t) g" by (simp add: gauges_record_def kept_def san_def Let_def)
  have "list_all (\<lambda>(_, v). is_finite v) kept" by (auto simp: kept_def list_all_iff dest!: in_set_takeD)
  from put_all_ok[OF this _ _ san_def] have "snapshot_ok (san, t)" by (simp add: snapshot_ok_def kept_def)
  then have "gauges_ok (alist_put plugin (san, t) g)"
    using assms alist_put_keys(1)[of g plugin "(san, t)"] by (auto simp: gauges_ok_def alist_put_def list_all_iff)
  moreover have "map_of (alist_put plugin (san, t) g) p = map_of g p" if "p \<noteq> plugin" for p
  proof -
    have "map_of (filter (\<lambda>e. fst e \<noteq> plugin) m) p = map_of m p" for m :: plugin_gauges using that by (induction m) auto
    then show ?thesis using that by (simp add: alist_put_def)
  qed
  moreover have "for_plugin plugin now (alist_put plugin (san, t) g) = []" if "now - t > GAUGE_STALE_AFTER"
    using that by (simp add: for_plugin_def alist_put_def gauges_fresh_def)
  ultimately show ?thesis unfolding r by blast
qed

theorem gauges_well_typed_witness:
  "gauges_ok (gauges_record 5 ''mqtt'' [(''Queue depth'', 0x4000000000000000), (''nan'', 0x7FF8000000000000)] []) \<and>
   map_of (gauges_record 5 ''mqtt'' [(''Queue depth'', 0x4000000000000000), (''nan'', 0x7FF8000000000000)] []) ''mqtt'' =
     Some ([(''queue_depth'', 0x4000000000000000)], 5)"
proof -
  have q: "(char_of (113 :: nat) :: char) = CHR ''q''" by code_simp
  have "gauges_ok []" by (simp add: gauges_ok_def)
  moreover have "map_of (gauges_record 5 ''mqtt'' [(''Queue depth'', 0x4000000000000000), (''nan'', 0x7FF8000000000000)] []) ''mqtt'' =
     Some ([(''queue_depth'', 0x4000000000000000)], 5)"
    by (simp add: gauges_record_def is_finite_def MAX_GAUGES_PER_PLUGIN_def alist_put_def sanitize_gauge_name_def is_cont_def byte_val_def
        lower_byte_def is_upper_byte_def gauge_name_byte_def is_lower_byte_def is_digit_byte_def Let_def q)
  ultimately show ?thesis using gauges_well_typed by blast
qed

text \<open>The reader of a label value, up to the closing quote.\<close>

fun read_label :: "string \<Rightarrow> (string \<times> string) option" where
  "read_label [] = None"
| "read_label (b # bs) =
     (if b = CHR 0x22 then Some ([], bs)
      else if b = CHR 0x0A then None
      else if b = CHR 0x5C then
        (case bs of
           [] \<Rightarrow> None
         | e # rest \<Rightarrow> map_option (\<lambda>(v, r). ((if e = CHR ''n'' then CHR 0x0A else e) # v, r)) (read_label rest))
      else map_option (\<lambda>(v, r). (b # v, r)) (read_label bs))"

text \<open>
  Labels cannot be forged. Whatever bytes a plugin, route, peer or state name has, its escaped form holds no line break, and
  a reader that starts after the opening quote reads back exactly the name and stops at the quote the
  renderer wrote: no name ends a label, a line or a sample early.
\<close>

theorem escape_label_roundtrip:
  "read_label (escape_label v @ dquote @ rest) = Some (v, rest) \<and> CHR 0x0A \<notin> set (escape_label v)"
proof (induction v)
  case (Cons b v) then show ?case by (auto simp: escape_label_def escape_byte_def dquote_def)
qed (simp add: escape_label_def dquote_def)

end
