(* ===== verification/Engine_State.thy ===== *)
theory Engine_State
  imports Relay_Ipc Transform Dedup Limits Routing_Policy Storage_Peers Cas Metrics
begin

text \<open>
  The daemon's state (\<open>Daemon\<close> in \<open>src/switchyardd/src/engine.rs\<close>) and what its handlers share:
  events, counters, channels, the delivery fan-out and the hot swap of the configuration.

  A handler is a function from the state to the state; its clock readings (\<open>now\<close>, the wall clock,
  and \<open>t\<close>, the monotonic one) and the fresh identifiers it draws are arguments, one reading per call.
  The locks of the source protect single fields for the length of a statement and are not modelled;
  log lines are not modelled. The channel to a plugin or peer answers a \<open>try_send\<close> as the function in
  its handle says; the frames that were taken are logged in \<open>dm_sent\<close> and \<open>dm_fed_sent\<close>.
\<close>

datatype send_result = SendOk | SendFull | SendClosed

datatype fed_frame =
    FedEnvelope envelope string
  | FedAck string
  | FedPing
  | FedPong
  | FedAdvert advert
  | FedAdvertReq
  | FedSealed sealed_envelope string
  | FedUnknown

record peer_conn =
  cn_tx :: "fed_frame \<Rightarrow> send_result"
  cn_node_id :: string
  cn_connected_at :: datetime
  cn_instance :: u64

record plugin_handle =
  ph_tx :: "daemon_to_plugin \<Rightarrow> send_result"
  ph_capabilities :: capabilities
  ph_connected :: bool
  ph_conn_id :: nat
  ph_last_seen :: instant

datatype event =
    EvIngress uuid string string "string list" datetime
  | EvDelivery uuid string string datetime
  | EvPlugin string bool datetime
  | EvLinkVerified int datetime
  | EvConfigApplied "string list" datetime
  | EvFederation string bool datetime
  | EvAdvert string string datetime

record daemon =
  dm_cfg :: config
  dm_store :: store
  dm_dedup :: dedup
  dm_alias_key :: bytes
  dm_identity :: bytes
  dm_sealed_secret :: bytes
  dm_plugins :: "(string \<times> plugin_handle) list"
  dm_cas :: cas
  dm_sender_limiter :: sender_limiter
  dm_budget_limiter :: budget_limiter
  dm_receivers :: nat
  dm_events :: "event list"
  dm_fed :: "(string \<times> peer_conn) list option"
  dm_next_instance :: u64
  dm_peers_up :: "(string \<times> bool) list"
  dm_gauges :: plugin_gauges
  dm_metrics :: "metric \<Rightarrow> u64"
  dm_route_messages :: "(string \<times> nat) list"
  dm_guesses :: "(string \<times> (nat \<times> instant)) list"
  dm_pre_trust_warned :: "(string \<times> instant) list"
  dm_sealed_warned :: "(string \<times> instant) list"
  dm_advert_warned :: "(string \<times> instant) list"
  dm_inbound_warned :: "(string \<times> instant) list"
  dm_sent :: "(string \<times> daemon_to_plugin) list"
  dm_fed_sent :: "(string \<times> fed_frame) list"

subsection \<open>Counters, events and throttles\<close>

definition inc :: "metric \<Rightarrow> daemon \<Rightarrow> daemon" where
  "inc m d = d\<lparr>dm_metrics := (dm_metrics d)(m := dm_metrics d m + 1)\<rparr>"

definition inc_route :: "string \<Rightarrow> daemon \<Rightarrow> daemon" where
  "inc_route r d = d\<lparr>dm_route_messages :=
     alist_put r (Suc (case map_of (dm_route_messages d) r of None \<Rightarrow> 0 | Some n \<Rightarrow> n)) (dm_route_messages d)\<rparr>"

definition record_latency :: "int \<Rightarrow> daemon \<Rightarrow> daemon" where
  "record_latency latency d =
     (let micros = (if 0 \<le> latency \<and> latency div 1000 < 2 ^ 63 then latency div 1000 else 0)
      in inc DELIVERY_LATENCY_COUNT
           (d\<lparr>dm_metrics := (dm_metrics d)(DELIVERY_LATENCY_MICROS_SUM :=
               dm_metrics d DELIVERY_LATENCY_MICROS_SUM + of_int micros)\<rparr>))"

definition emit_event :: "event \<Rightarrow> daemon \<Rightarrow> daemon" where
  "emit_event e d = (if dm_receivers d > 0 then d\<lparr>dm_events := dm_events d @ [e]\<rparr> else d)"

definition emit_delivery :: "datetime \<Rightarrow> uuid \<Rightarrow> string \<Rightarrow> string \<Rightarrow> daemon \<Rightarrow> daemon" where
  "emit_delivery now i rname state d = emit_event (EvDelivery i rname state now) d"

definition warn_throttle_due ::
  "string \<Rightarrow> duration \<Rightarrow> instant \<Rightarrow> (string \<times> instant) list \<Rightarrow> bool \<times> (string \<times> instant) list" where
  "warn_throttle_due key interval t m =
     (let m1 = filter (\<lambda>(_, last_at). t - last_at < interval) m;
          due = (case map_of m1 key of Some last_at \<Rightarrow> t - last_at \<ge> interval | None \<Rightarrow> True)
      in (due, if due then alist_put key t m1 else m1))"

definition on_store :: "(store \<Rightarrow> 'r \<times> store) \<Rightarrow> daemon \<Rightarrow> 'r \<times> daemon" where
  "on_store f d = (case f (dm_store d) of (r, st) \<Rightarrow> (r, d\<lparr>dm_store := st\<rparr>))"

definition do_store :: "(store \<Rightarrow> 'r \<times> store) \<Rightarrow> daemon \<Rightarrow> daemon" where
  "do_store f d = snd (on_store f d)"

definition is_ok :: "('e + 'a) \<Rightarrow> bool" where
  "is_ok r = (case r of Inl _ \<Rightarrow> False | Inr _ \<Rightarrow> True)"

definition as_i64 :: "nat \<Rightarrow> int" where
  "as_i64 n = (let m = n mod 2 ^ 64 in if m < 2 ^ 63 then int m else int m - 2 ^ 64)"

text \<open>\<open>try_send\<close> on the channel of a plugin.\<close>

definition plugin_send :: "string \<Rightarrow> plugin_handle \<Rightarrow> daemon_to_plugin \<Rightarrow> daemon \<Rightarrow> send_result \<times> daemon" where
  "plugin_send name h msg d =
     (case ph_tx h msg of
        SendOk \<Rightarrow> (SendOk, d\<lparr>dm_sent := dm_sent d @ [(name, msg)]\<rparr>)
      | r \<Rightarrow> (r, d))"

definition fed_send :: "string \<Rightarrow> (fed_frame \<Rightarrow> send_result) \<Rightarrow> fed_frame \<Rightarrow> daemon \<Rightarrow> send_result \<times> daemon" where
  "fed_send peer tx msg d =
     (case tx msg of
        SendOk \<Rightarrow> (SendOk, d\<lparr>dm_fed_sent := dm_fed_sent d @ [(peer, msg)]\<rparr>)
      | r \<Rightarrow> (r, d))"

fun request_plugin_shutdown :: "(string \<times> plugin_handle) list \<Rightarrow> daemon \<Rightarrow> nat \<times> daemon" where
  "request_plugin_shutdown [] d = (0, d)"
| "request_plugin_shutdown ((name, h) # hs) d =
     (if ph_connected h then
        case plugin_send name h Shutdown d of
          (SendOk, d1) \<Rightarrow> (case request_plugin_shutdown hs d1 of (n, d2) \<Rightarrow> (Suc n, d2))
        | (_, d1) \<Rightarrow> request_plugin_shutdown hs d1
      else request_plugin_shutdown hs d)"

subsection \<open>Configuration swap\<close>

fun dedup_adjacent :: "string list \<Rightarrow> string list" where
  "dedup_adjacent (x # y # ys) = (if x = y then dedup_adjacent (y # ys) else x # dedup_adjacent (y # ys))"
| "dedup_adjacent xs = xs"

definition restart_entries :: "config \<Rightarrow> config \<Rightarrow> string list" where
  "restart_entries old new =
     (let old_names = map fst (cf_plugins old); new_names = map fst (cf_plugins new) in
      (if cf_node old \<noteq> cf_node new then [''daemon''] else []) @
      (if cf_federation old \<noteq> cf_federation new then [''daemon''] else []) @
      (if cf_discovery old \<noteq> cf_discovery new then [''daemon''] else []) @
      (if lim_global_cas_max_bytes (cf_limits old) \<noteq> lim_global_cas_max_bytes (cf_limits new) then [''daemon''] else []) @
      filter (\<lambda>n. n \<notin> set new_names) old_names @
      filter (\<lambda>n. n \<notin> set old_names) new_names @
      filter (\<lambda>n. n \<in> set new_names \<and> map_of (cf_plugins old) n \<noteq> map_of (cf_plugins new) n) old_names)"

definition apply_config :: "datetime \<Rightarrow> config \<Rightarrow> daemon \<Rightarrow> string list \<times> daemon" where
  "apply_config now new d =
     (let restart_required = dedup_adjacent (sort (restart_entries (dm_cfg d) new));
          d1 = d\<lparr>dm_cfg := new,
                 dm_sender_limiter := sender_limiter_new (lim_sender_messages_per_minute (cf_limits new))
                                        (lim_sender_bytes_per_hour (cf_limits new)),
                 dm_budget_limiter := budget_limiter_new,
                 dm_dedup := set_ttl (secs (cf_dedup_ttl_secs new)) (dm_dedup d)\<rparr>
      in (restart_required, emit_event (EvConfigApplied restart_required now) d1))"

subsection \<open>Fan-out\<close>

definition count_or_zero :: "string option \<Rightarrow> store \<Rightarrow> nat" where
  "count_or_zero rname st = (case pending_count rname st of Inl _ \<Rightarrow> 0 | Inr n \<Rightarrow> n)"

fun fan_out_deliveries ::
  "datetime \<Rightarrow> uuid \<Rightarrow> datetime \<Rightarrow> nat \<Rightarrow> (string \<times> endpoint) list \<Rightarrow> nat \<Rightarrow> nat \<Rightarrow> daemon \<Rightarrow> string list \<times> daemon" where
  "fan_out_deliveries now mid expires_at rank [] route_max global_max d = ([], d)"
| "fan_out_deliveries now mid expires_at rank ((rname, dest) # targets) route_max global_max d =
     (let over_route = route_max > 0 \<and> count_or_zero (Some rname) (dm_store d) \<ge> route_max;
          over_global = \<not> over_route \<and> global_max > 0 \<and> count_or_zero None (dm_store d) \<ge> global_max
      in if over_route \<or> over_global then
           case on_store (insert_dead_delivery now mid rname dest now expires_at ''QUEUE_FULL'') (inc QUEUE_REJECTED d) of
             (r, d1) \<Rightarrow>
               (case fan_out_deliveries now mid expires_at rank targets route_max global_max d1 of
                  (full, d2) \<Rightarrow> (if is_ok r then rname # full else full, d2))
         else
           fan_out_deliveries now mid expires_at rank targets route_max global_max
             (do_store (insert_delivery now mid rname dest now expires_at rank) d))"

fun emit_dead_letters :: "datetime \<Rightarrow> uuid \<Rightarrow> string list \<Rightarrow> daemon \<Rightarrow> daemon" where
  "emit_dead_letters now i [] d = d"
| "emit_dead_letters now i (rname # rnames) d =
     emit_dead_letters now i rnames (emit_delivery now i rname ''dead_letter'' d)"

end
