(* ===== verification/Engine_Ingress.thy ===== *)
theory Engine_Ingress
  imports Engine_State
begin

text \<open>
  Ingress from plugins (\<open>handle_inbound\<close> in \<open>src/switchyardd/src/engine.rs\<close>) and the identity-link
  challenges it intercepts (\<open>initiate_link\<close>, \<open>enqueue_identity_send\<close>, \<open>note_failed_link_guess\<close>,
  \<open>confirm_link\<close>). Identifiers drawn by \<open>Uuid::now_v7\<close> come from the argument \<open>fresh\<close>, the code of
  \<open>generate_code\<close> from the argument \<open>code_num\<close>.
\<close>

definition LINK_CODE_MAX_GUESSES :: nat where "LINK_CODE_MAX_GUESSES = 5"
definition LINK_CODE_WINDOW :: duration where "LINK_CODE_WINDOW = secs (15 * 60)"
definition LINK_CODE_MAP_MAX :: nat where "LINK_CODE_MAP_MAX = 10000"

definition masked :: "string \<Rightarrow> string \<Rightarrow> string" where
  "masked protocol ref = protocol @ '':'' @ mask_ref ref"

subsection \<open>Identity links\<close>

definition enqueue_identity_send ::
  "uuid \<Rightarrow> endpoint \<Rightarrow> string \<Rightarrow> datetime \<Rightarrow> datetime \<Rightarrow> daemon \<Rightarrow> (string + unit) \<times> daemon" where
  "enqueue_identity_send fresh dest body now expires d =
     (let env = envelope_new fresh now \<lparr>ep_protocol = ''identity'', ep_endpoint = ''system''\<rparr> IDENTITY_ROUTE
                  ''notice'' body now expires (cf_hop_limit (dm_cfg d));
          global_max = lim_global_queue_max (cf_limits (dm_cfg d))
      in case on_store (insert_message env) d of
           (Inl _, d1) \<Rightarrow> (Ok (), d1)
         | (Inr _, d1) \<Rightarrow>
             if global_max > 0 \<and> count_or_zero None (dm_store d1) \<ge> global_max then
               (case on_store (insert_dead_delivery now (env_id env) IDENTITY_ROUTE dest now expires ''QUEUE_FULL'')
                       (inc QUEUE_REJECTED d1) of
                  (r, d2) \<Rightarrow>
                    (Err ''queue full'',
                     if is_ok r then emit_delivery now (env_id env) IDENTITY_ROUTE ''dead_letter'' d2 else d2))
             else
               (Ok (), do_store (insert_delivery now (env_id env) IDENTITY_ROUTE dest now expires
                          (priority_rank (env_priority env))) d1))"

definition initiate_link ::
  "(nat \<Rightarrow> uuid) \<Rightarrow> nat \<Rightarrow> datetime \<Rightarrow> endpoint \<Rightarrow> endpoint \<Rightarrow> string \<Rightarrow> daemon \<Rightarrow> (string + int) \<times> daemon" where
  "initiate_link fresh code_num now requester target display_name d =
     (let d0 = d\<lparr>dm_guesses := alist_del (ep_protocol target @ ''|'' @ ep_endpoint target) (dm_guesses d)\<rparr>;
          direct_capable = map fst (filter (\<lambda>(_, h). ph_connected h \<and> cap_direct_messages (ph_capabilities h)) (dm_plugins d0))
      in if ep_protocol target \<notin> set direct_capable then
           (Err (if direct_capable = []
                 then ''target plugin is not connected or does not support direct messages; no currently-connected plugins support direct messages''
                 else ''target plugin '' @ [CHR 0x27] @ ep_protocol target @ [CHR 0x27] @
                      '' is not connected or does not support direct messages; currently direct-capable: '' @
                      join_with '', '' direct_capable), d0)
         else
           let code = format_code code_num;
               expires = now + csecs (15 * 60)
           in case on_store (create_challenge code (ep_protocol target) (ep_endpoint target)
                               (ep_protocol requester) (ep_endpoint requester) display_name now expires) d0 of
                (Inl _, d1) \<Rightarrow> (Err ''sqlite error'', d1)
              | (Inr challenge_id, d1) \<Rightarrow>
                  let body = ''RelayFabric verification code: '' @ code @ '' '' @ emdash @
                             '' reply with this code to link '' @ masked (ep_protocol requester) (ep_endpoint requester) @
                             ''. Ignore to refuse.''
                  in (case enqueue_identity_send (fresh 0) target body now expires d1 of
                        (Inl e, d2) \<Rightarrow> (Err e, d2)
                      | (Inr _, d2) \<Rightarrow> (Ok challenge_id, d2)))"

definition note_failed_link_guess :: "instant \<Rightarrow> string \<Rightarrow> string \<Rightarrow> daemon \<Rightarrow> daemon" where
  "note_failed_link_guess t plugin sender d =
     (let key = plugin @ ''|'' @ sender;
          m1 = filter (\<lambda>(_, _, first). t - first < LINK_CODE_WINDOW) (dm_guesses d);
          m2 = (if length m1 \<ge> LINK_CODE_MAP_MAX then [] else m1);
          entry = (case map_of m2 key of None \<Rightarrow> (0, t) | Some e \<Rightarrow> e);
          count = Suc (fst entry);
          m3 = alist_put key (count, snd entry) m2;
          m4 = (if count \<ge> LINK_CODE_MAX_GUESSES then alist_del key m3 else m3);
          d1 = d\<lparr>dm_guesses := m4\<rparr>
      in if count < LINK_CODE_MAX_GUESSES then d1
         else do_store (delete_challenges_for_target plugin sender) d1)"

definition delete_existing_link :: "string \<Rightarrow> string \<Rightarrow> store \<Rightarrow> store" where
  "delete_existing_link proto ref st =
     (case link_for_identity proto ref st of
        Inr (Some existing) \<Rightarrow> snd (delete_link (lk_id existing) st)
      | _ \<Rightarrow> st)"

definition confirm_link_store :: "challenge \<Rightarrow> datetime \<Rightarrow> store \<Rightarrow> (sql_error + int) \<times> store" where
  "confirm_link_store c now st =
     (let st1 = snd (delete_challenge (ch_id c) st);
          st2 = delete_existing_link (ch_target_protocol c) (ch_target_ref c) st1;
          st3 = delete_existing_link (ch_requester_protocol c) (ch_requester_ref c) st2
      in insert_link (ch_target_protocol c) (ch_target_ref c) (ch_requester_protocol c) (ch_requester_ref c)
           (ch_display_name c) now st3)"

definition confirm_link :: "(nat \<Rightarrow> uuid) \<Rightarrow> challenge \<Rightarrow> datetime \<Rightarrow> daemon \<Rightarrow> daemon" where
  "confirm_link fresh c now d =
     (case on_store (confirm_link_store c now) d of
        (Inl _, d1) \<Rightarrow> d1
      | (Inr link_id, d1) \<Rightarrow>
          let d2 = emit_event (EvLinkVerified link_id now) (inc LINKS_VERIFIED d1);
              masked_requester = masked (ch_requester_protocol c) (ch_requester_ref c);
              masked_target = masked (ch_target_protocol c) (ch_target_ref c);
              expires = now + csecs (as_i64 (cf_ttl_default_secs (dm_cfg d2)));
              d3 = snd (enqueue_identity_send (fresh 0)
                     \<lparr>ep_protocol = ch_target_protocol c, ep_endpoint = ch_target_ref c\<rparr>
                     (''RelayFabric: identity link confirmed with '' @ masked_requester @ '' as '' @ dquote @
                      ch_display_name c @ dquote @ ''.'') now expires d2)
          in snd (enqueue_identity_send (fresh 1)
                \<lparr>ep_protocol = ch_requester_protocol c, ep_endpoint = ch_requester_ref c\<rparr>
                (''RelayFabric: '' @ masked_target @ '' confirmed the identity link as '' @ dquote @
                 ch_display_name c @ dquote @ ''.'') now expires d3))"

subsection \<open>Inbound messages\<close>

record hashed =
  hs_att :: ipc_attachment
  hs_sha :: string
  hs_oversize :: bool

definition hash_attachments :: "ext \<Rightarrow> nat \<Rightarrow> ipc_attachment list \<Rightarrow> hashed list" where
  "hash_attachments X limit atts =
     map (\<lambda>a. \<lparr>hs_att = a, hs_sha = hex_encode (x_sha256 X (ia_data a)),
               hs_oversize = length (ia_data a) > limit\<rparr>) atts"

text \<open>The loop that writes the accepted attachments: metadata, hashes and notes accumulate.\<close>

fun store_attachments ::
  "ext \<Rightarrow> nat \<Rightarrow> hashed list \<Rightarrow> cas \<Rightarrow> (attachment_meta list \<times> string list \<times> string) \<times> cas" where
  "store_attachments X limit [] c = (([], [], []), c)"
| "store_attachments X limit (h # hs) c =
     (let size = length (ia_data (hs_att h)); name = ia_filename (hs_att h) in
      if hs_oversize h then
        (case store_attachments X limit hs c of
           ((metas, shas, notes), c1) \<Rightarrow>
             ((metas, shas, newline @ ''[dropped '' @ name @ '': '' @ nat_str size @ '' B over '' @ nat_str limit @ '' B limit]'' @ notes), c1))
      else
        case cas_put X (ia_data (hs_att h)) c of
          (Inr sha, c1) \<Rightarrow>
            (case store_attachments X limit hs c1 of
               ((metas, shas, notes), c2) \<Rightarrow>
                 ((\<lparr>am_filename = name, am_mime = ia_mime (hs_att h), am_size = of_nat size, am_sha256 = sha\<rparr> # metas,
                   sha # shas, notes), c2))
        | (Inl e, c1) \<Rightarrow>
            (case store_attachments X limit hs c1 of
               ((metas, shas, notes), c2) \<Rightarrow>
                 ((metas, shas,
                   (if is_budget_exceeded e then newline @ ''[dropped '' @ name @ '': cas budget exceeded]''
                    else newline @ ''[attachment '' @ name @ '' unavailable]'') @ notes), c2)))"

definition sender_bytes_of :: "string \<Rightarrow> u64 list \<Rightarrow> u64" where
  "sender_bytes_of body sizes = of_nat (length body) + sum_list sizes"

definition is_link_code :: "string \<Rightarrow> bool" where
  "is_link_code s \<longleftrightarrow> length s = 6 \<and> list_all is_digit_byte s"

definition bounded_created_at :: "datetime \<Rightarrow> datetime option \<Rightarrow> datetime" where
  "bounded_created_at now created_at =
     (case created_at of
        None \<Rightarrow> now
      | Some c \<Rightarrow> if \<bar>c - now\<bar> div csecs 86400 < 36525 then c else now)"

text \<open>
  The tail of \<open>handle_inbound\<close>, once the message has at least one target: the attachments are written
  to the blob store first, then the rows are written under the lock of the database.
\<close>

definition commit_inbound ::
  "(nat \<Rightarrow> uuid) \<Rightarrow> datetime \<Rightarrow> endpoint \<Rightarrow> string \<Rightarrow> string \<Rightarrow> string \<Rightarrow> datetime option \<Rightarrow> string option \<Rightarrow>
   attachment_meta list \<Rightarrow> string list \<Rightarrow> (string \<times> endpoint) list \<Rightarrow> config \<Rightarrow> daemon \<Rightarrow> daemon" where
  "commit_inbound fresh now source sender kind body created_at priority metas shas targets cfg d =
     (let env = (envelope_new (fresh 0) now source sender kind body (bounded_created_at now created_at)
                   (now + csecs (as_i64 (cf_ttl_default_secs cfg))) (cf_hop_limit cfg))
                \<lparr>env_attachments := metas,
                 env_priority := (case priority of None \<Rightarrow> ''normal'' | Some p \<Rightarrow> p)\<rparr>;
          rank = priority_rank (env_priority env)
      in case on_store (insert_message env) d of
           (Inl _, d2) \<Rightarrow> d2
         | (Inr _, d2) \<Rightarrow>
             (case fan_out_deliveries now (env_id env) (env_expires_at env) rank targets
                     (lim_route_queue_max (cf_limits cfg)) (lim_global_queue_max (cf_limits cfg))
                     (do_store (insert_attachment_refs (env_id env) shas) d2) of
                (full, d3) \<Rightarrow>
                  emit_event (EvIngress (env_id env) (ep_protocol source) (masked (ep_protocol source) sender)
                                (map fst targets) now)
                    (emit_dead_letters now (env_id env) full d3)))"

definition accept_inbound ::
  "ext \<Rightarrow> (nat \<Rightarrow> uuid) \<Rightarrow> datetime \<Rightarrow> endpoint \<Rightarrow> string \<Rightarrow> string \<Rightarrow> string \<Rightarrow> datetime option \<Rightarrow> hashed list \<Rightarrow>
   string option \<Rightarrow> (string \<times> endpoint) list \<Rightarrow> config \<Rightarrow> daemon \<Rightarrow> daemon" where
  "accept_inbound X fresh now source sender kind body created_at hashed priority targets cfg d =
     (case store_attachments X (cf_max_attachment_bytes cfg) hashed (dm_cas d) of
        ((metas, shas, notes), c) \<Rightarrow>
          commit_inbound fresh now source sender kind (body @ notes) created_at priority metas shas targets cfg
            (d\<lparr>dm_cas := c\<rparr>))"

definition route_inbound ::
  "ext \<Rightarrow> (nat \<Rightarrow> uuid) \<Rightarrow> datetime \<Rightarrow> string \<Rightarrow> string \<Rightarrow> string \<Rightarrow> string \<Rightarrow> string \<Rightarrow> datetime option \<Rightarrow> hashed list \<Rightarrow>
   string option \<Rightarrow> config \<Rightarrow> daemon \<Rightarrow> daemon" where
  "route_inbound X fresh now plugin ep sender kind body created_at hashed priority cfg d =
     (let source = \<lparr>ep_protocol = plugin, ep_endpoint = ep\<rparr>;
          targets = route (cf_routes cfg) source
      in if targets = [] then inc DROPPED d
         else accept_inbound X fresh now source sender kind body created_at hashed priority targets cfg d)"

definition handle_inbound ::
  "ext \<Rightarrow> (nat \<Rightarrow> uuid) \<Rightarrow> instant \<Rightarrow> datetime \<Rightarrow> string \<Rightarrow> string \<Rightarrow> string \<Rightarrow> string \<Rightarrow> string \<Rightarrow> datetime option \<Rightarrow>
   ipc_attachment list \<Rightarrow> string option \<Rightarrow> daemon \<Rightarrow> daemon" where
  "handle_inbound X fresh t now plugin ep sender kind body created_at attachments priority d0 =
     (let d = inc INGRESS d0;
          cfg = dm_cfg d;
          hashed = hash_attachments X (cf_max_attachment_bytes cfg) attachments;
          key = dedup_key (x_sha256 X) plugin sender ep body created_at (map hs_sha hashed)
      in case is_duplicate key t (dm_dedup d) of
           (True, dd) \<Rightarrow> inc DUPLICATES (d\<lparr>dm_dedup := dd\<rparr>)
         | (False, dd) \<Rightarrow>
             let sender_bytes = sender_bytes_of body (map (\<lambda>h. of_nat (length (ia_data (hs_att h)))) hashed)
             in (case sender_allow (plugin @ ''|'' @ sender) sender_bytes t (dm_sender_limiter d) of
                   (False, sl) \<Rightarrow> inc RATELIMITED (d\<lparr>dm_dedup := dd, dm_sender_limiter := sl\<rparr>)
                 | (True, sl) \<Rightarrow>
                     let d1 = d\<lparr>dm_dedup := dedup_record key t dd, dm_sender_limiter := sl\<rparr>;
                         trimmed = trim_chars body
                     in if is_link_code trimmed then
                          (case find_active_challenge plugin sender trimmed now (dm_store d1) of
                             Inr (Some challenge) \<Rightarrow> confirm_link fresh challenge now d1
                           | _ \<Rightarrow>
                               route_inbound X fresh now plugin ep sender kind body created_at hashed priority cfg
                                 (note_failed_link_guess t plugin sender d1))
                        else
                          route_inbound X fresh now plugin ep sender kind body created_at hashed priority cfg d1))"

end
