(* ===== verification/Engine_Fed.thy ===== *)
theory Engine_Fed
  imports Engine_Ingress
begin

text \<open>
  Ingress from federation peers (\<open>fed_ingress\<close> and \<open>fed_sealed_ingress\<close> in
  \<open>src/switchyardd/src/engine.rs\<close>) with the helpers they share.
\<close>

datatype fed_outcome = Accepted uuid | Rejected string

definition trust_rank :: "string \<Rightarrow> nat" where
  "trust_rank level =
     (if level = ''blocked'' then 0 else if level = ''seen'' then 2 else if level = ''verified'' then 3
      else if level = ''trusted'' then 4 else 1)"

datatype persistence = Persist | NoPersist

definition PRE_TRUST_REJECT_WARN_INTERVAL :: duration where
  "PRE_TRUST_REJECT_WARN_INTERVAL = secs 60"

definition warn_pre_trust_rejection :: "instant \<Rightarrow> string \<Rightarrow> daemon \<Rightarrow> daemon" where
  "warn_pre_trust_rejection t peer d =
     d\<lparr>dm_pre_trust_warned := snd (warn_throttle_due peer PRE_TRUST_REJECT_WARN_INTERVAL t (dm_pre_trust_warned d))\<rparr>"

definition reject ::
  "instant \<Rightarrow> datetime \<Rightarrow> envelope \<Rightarrow> string \<Rightarrow> string \<Rightarrow> string \<Rightarrow> persistence \<Rightarrow> daemon \<Rightarrow> fed_outcome \<times> daemon" where
  "reject t now env target_route peer reason persistence d0 =
     (let d = inc FED_REJECTED d0 in
      if persistence = NoPersist then (Rejected reason, warn_pre_trust_rejection t peer d)
      else
        let dest = \<lparr>ep_protocol = ''fed'', ep_endpoint = short_node_id peer\<rparr>
        in case on_store (insert_message env) d of
             (Inl _, d1) \<Rightarrow> (Rejected reason, d1)
           | (Inr _, d1) \<Rightarrow>
               (case on_store (insert_dead_delivery now (env_id env) target_route dest now (env_expires_at env) reason) d1 of
                  (Inl _, d2) \<Rightarrow> (Rejected reason, d2)
                | (Inr _, d2) \<Rightarrow> (Rejected reason, emit_delivery now (env_id env) target_route ''dead_letter'' d2)))"

definition fed_trust_denied :: "string \<Rightarrow> string \<Rightarrow> daemon \<Rightarrow> bool" where
  "fed_trust_denied peer accept_from d =
     (let level = (case trust_level peer (dm_store d) of Inr (Some l) \<Rightarrow> l | _ \<Rightarrow> ''unknown'')
      in trust_rank level < trust_rank accept_from)"

definition check_chain_shape :: "envelope \<Rightarrow> string \<Rightarrow> u32 \<Rightarrow> string + unit" where
  "check_chain_shape env peer max_hops =
     (if length (env_attestations env) > unat max_hops then Err ''HOP_LIMIT''
      else
        let last_link = (if env_attestations env \<noteq> [] then Some (at_node_id (last (env_attestations env)))
                         else map_option os_node_id (env_origin env))
        in case last_link of
             Some l \<Rightarrow> if l \<noteq> peer then Err ''CHAIN_PEER_MISMATCH'' else Ok ()
           | None \<Rightarrow> Ok ())"

definition message_exists :: "uuid \<Rightarrow> daemon \<Rightarrow> bool" where
  "message_exists i d = (case get_message i (dm_store d) of Inr (Some _) \<Rightarrow> True | _ \<Rightarrow> False)"

definition MAX_CREATED_AT_SKEW_SECS :: int where
  "MAX_CREATED_AT_SKEW_SECS = 300"

definition bound_replay_and_clamp_ttl :: "ext \<Rightarrow> datetime \<Rightarrow> nat \<Rightarrow> envelope \<Rightarrow> string + envelope" where
  "bound_replay_and_clamp_ttl X now max_ttl_secs env =
     (case x_try_seconds X (as_i64 max_ttl_secs) of
        None \<Rightarrow> Err ''EXPIRED''
      | Some max_ttl \<Rightarrow>
          (case x_checked_add X (env_created_at env) max_ttl of
             None \<Rightarrow> Err ''EXPIRED''
           | Some deadline \<Rightarrow>
               if deadline < now \<or> env_created_at env > now + csecs MAX_CREATED_AT_SKEW_SECS then Err ''EXPIRED''
               else Ok (if env_expires_at env > now + max_ttl then env\<lparr>env_expires_at := now + max_ttl\<rparr> else env)))"

definition persist_and_fan_out ::
  "datetime \<Rightarrow> envelope \<Rightarrow> string \<Rightarrow> route_config \<Rightarrow> metric \<Rightarrow> daemon \<Rightarrow> fed_outcome \<times> daemon" where
  "persist_and_fan_out now env target_route rc accept_metric d =
     (let rank = priority_rank (env_priority env);
          targets = map (\<lambda>dest. (target_route, dest)) (rc_destinations rc)
      in case on_store (insert_message env) d of
           (Inl _, d1) \<Rightarrow> (Rejected ''STORAGE_ERROR'', d1)
         | (Inr _, d1) \<Rightarrow>
             (case fan_out_deliveries now (env_id env) (env_expires_at env) rank targets
                     (lim_route_queue_max (cf_limits (dm_cfg d1))) (lim_global_queue_max (cf_limits (dm_cfg d1))) d1 of
                (full, d2) \<Rightarrow>
                  (Accepted (env_id env), inc accept_metric (emit_dead_letters now (env_id env) full d2))))"

subsection \<open>Clear-text envelopes\<close>

text \<open>
  The gates of \<open>fed_ingress\<close> up to the target route, in the order of the code: a failing gate gives
  the reason, whether the rejection is stored, and the envelope as it was at that point.
\<close>

definition fed_gates ::
  "ext \<Rightarrow> datetime \<Rightarrow> string \<Rightarrow> string \<Rightarrow> envelope \<Rightarrow> daemon \<Rightarrow> (string \<times> persistence \<times> envelope) + (envelope \<times> route_config)" where
  "fed_gates X now peer target_route env d =
     (case cf_federation (dm_cfg d) of
        None \<Rightarrow> Err (''FED_CONFIG_MISSING'', Persist, env)
      | Some fed_cfg \<Rightarrow>
          if fed_trust_denied peer (fc_accept_from fed_cfg) d then Err (''TRUST_DENIED'', NoPersist, env)
          else case check_chain_shape env peer (fc_max_hops fed_cfg) of
            Inl reason \<Rightarrow> Err (reason, NoPersist, env)
          | Inr _ \<Rightarrow>
              if \<not> is_ok (verify_chain X env) then Err (''BAD_SIGNATURE'', NoPersist, env)
              else case bound_replay_and_clamp_ttl X now (fc_max_ttl_secs fed_cfg) env of
                Inl reason \<Rightarrow> Err (reason, Persist, env)
              | Inr env1 \<Rightarrow>
                  if env_hops env1 \<ge> fc_max_hops fed_cfg then Err (''HOP_LIMIT'', Persist, env1)
                  else if target_route \<notin> set (fc_ingress_routes fed_cfg) then Err (''ROUTE_NOT_FEDERATED'', Persist, env1)
                  else case route_cfg (dm_cfg d) target_route of
                    None \<Rightarrow> Err (''FED_CONFIG_MISSING'', Persist, env1)
                  | Some rc \<Rightarrow> Ok (env1, rc))"

definition fed_ingress ::
  "ext \<Rightarrow> instant \<Rightarrow> datetime \<Rightarrow> string \<Rightarrow> envelope \<Rightarrow> string \<Rightarrow> daemon \<Rightarrow> fed_outcome \<times> daemon" where
  "fed_ingress X t now peer env0 target_route d =
     (case fed_gates X now peer target_route (env0\<lparr>env_priority := ''normal''\<rparr>) d of
        Inl (reason, persistence, env) \<Rightarrow> reject t now env target_route peer reason persistence d
      | Inr (env, rc) \<Rightarrow>
          (case is_duplicate (env_id env) t (dm_dedup d) of
             (dup, dd) \<Rightarrow>
               let d1 = d\<lparr>dm_dedup := dd\<rparr> in
               if dup \<or> message_exists (env_id env) d1 then (Rejected ''DUPLICATE'', inc DUPLICATES d1)
               else
                 let sender_key = ''fed|'' @ short_node_id peer @ '':'' @ env_native_ref env;
                     sender_bytes = sender_bytes_of (env_body env) (map am_size (env_attachments env))
                 in case sender_allow sender_key sender_bytes t (dm_sender_limiter d1) of
                      (False, sl) \<Rightarrow> (Rejected ''RATE_LIMITED'', inc RATELIMITED (d1\<lparr>dm_sender_limiter := sl\<rparr>))
                    | (True, sl) \<Rightarrow>
                        persist_and_fan_out now (env\<lparr>env_received_at := now\<rparr>) target_route rc FED_INGRESS
                          (d1\<lparr>dm_sender_limiter := sl, dm_dedup := dedup_record (env_id env) t (dm_dedup d1)\<rparr>)))"

subsection \<open>Sealed envelopes\<close>

definition sealed_reject :: "instant \<Rightarrow> string \<Rightarrow> string \<Rightarrow> daemon \<Rightarrow> fed_outcome \<times> daemon" where
  "sealed_reject t peer reason d0 =
     (let d = inc SEALED_REJECTED d0 in
      (Rejected reason,
       d\<lparr>dm_sealed_warned := snd (warn_throttle_due peer PRE_TRUST_REJECT_WARN_INTERVAL t (dm_sealed_warned d))\<rparr>))"

text \<open>Opening: the federation block, the trust gate, the seal, the decoded envelope and its chain.\<close>

definition sealed_open ::
  "ext \<Rightarrow> string \<Rightarrow> sealed_envelope \<Rightarrow> daemon \<Rightarrow> string + (federation_config \<times> envelope)" where
  "sealed_open X peer sealed d =
     (case cf_federation (dm_cfg d) of
        None \<Rightarrow> Err ''FED_CONFIG_MISSING''
      | Some fed_cfg \<Rightarrow>
          if fed_trust_denied peer (fc_accept_from fed_cfg) d then Err ''TRUST_DENIED''
          else case unseal X sealed (dm_sealed_secret d) of
            Inl UnsupportedAlg \<Rightarrow> Err ''UNSUPPORTED_SEAL_ALG''
          | Inl BadSeal \<Rightarrow> Err ''BAD_SEAL''
          | Inl BadBinding \<Rightarrow> Err ''BAD_BINDING''
          | Inr canonical_env_cbor \<Rightarrow>
              (case x_uncbor_envelope X canonical_env_cbor of
                 None \<Rightarrow> Err ''BAD_SEAL''
               | Some env0 \<Rightarrow>
                   let env = env0\<lparr>env_priority := ''normal''\<rparr> in
                   (case check_chain_shape env peer (fc_max_hops fed_cfg) of
                      Inl reason \<Rightarrow> Err reason
                    | Inr _ \<Rightarrow>
                        if \<not> is_ok (verify_chain X env) then Err ''BAD_SIGNATURE'' else Ok (fed_cfg, env))))"

text \<open>The policy gates behind the duplicate check.\<close>

definition sealed_policy ::
  "ext \<Rightarrow> datetime \<Rightarrow> string \<Rightarrow> federation_config \<Rightarrow> envelope \<Rightarrow> daemon \<Rightarrow> string + (envelope \<times> route_config)" where
  "sealed_policy X now target_route fed_cfg env d =
     (case bound_replay_and_clamp_ttl X now (fc_max_ttl_secs fed_cfg) env of
        Inl reason \<Rightarrow> Err reason
      | Inr env1 \<Rightarrow>
          if target_route \<notin> set (fc_ingress_routes fed_cfg) then Err ''ROUTE_NOT_FEDERATED''
          else case route_cfg (dm_cfg d) target_route of
            None \<Rightarrow> Err ''FED_CONFIG_MISSING''
          | Some rc \<Rightarrow>
              if \<not> effective_allow_gateway_decryption (dm_cfg d) rc then Err ''SECURITY_DOWNGRADE_REFUSED''
              else Ok (env1, rc))"

definition sealed_accept ::
  "instant \<Rightarrow> datetime \<Rightarrow> string \<Rightarrow> string \<Rightarrow> string \<Rightarrow> envelope \<Rightarrow> route_config \<Rightarrow> daemon \<Rightarrow> fed_outcome \<times> daemon" where
  "sealed_accept t now peer header_key target_route env rc d =
     (let sender_key = ''fed-sealed|'' @ short_node_id peer;
          sender_bytes = sender_bytes_of (env_body env) (map am_size (env_attachments env))
      in case sender_allow sender_key sender_bytes t (dm_sender_limiter d) of
           (False, sl) \<Rightarrow> (Rejected ''RATE_LIMITED'', inc RATELIMITED (d\<lparr>dm_sender_limiter := sl\<rparr>))
         | (True, sl) \<Rightarrow>
             persist_and_fan_out now (env\<lparr>env_received_at := now\<rparr>) target_route rc SEALED_INGRESS
               (d\<lparr>dm_sender_limiter := sl,
                  dm_dedup := dedup_record (env_id env) t (dedup_record header_key t (dm_dedup d))\<rparr>))"

definition fed_sealed_ingress ::
  "ext \<Rightarrow> instant \<Rightarrow> datetime \<Rightarrow> string \<Rightarrow> sealed_envelope \<Rightarrow> string \<Rightarrow> daemon \<Rightarrow> fed_outcome \<times> daemon" where
  "fed_sealed_ingress X t now peer sealed target_route d =
     (if se_alg sealed \<noteq> SEAL_ALG_V1 then sealed_reject t peer ''UNSUPPORTED_SEAL_ALG'' d
      else if se_expires_at sealed \<le> now div 1000000000 then sealed_reject t peer ''EXPIRED'' d
      else
        let header_key = ''sealed:'' @ se_id sealed @ '':'' @ int_str (se_expires_at sealed) in
        case is_duplicate header_key t (dm_dedup d) of
          (dup, dd) \<Rightarrow>
            let d1 = d\<lparr>dm_dedup := dd\<rparr> in
            if dup then (Rejected ''DUPLICATE'', inc DUPLICATES d1)
            else case sealed_open X peer sealed d1 of
              Inl reason \<Rightarrow> sealed_reject t peer reason d1
            | Inr (fed_cfg, env) \<Rightarrow>
                (case is_duplicate (env_id env) t (dm_dedup d1) of
                   (dup2, dd2) \<Rightarrow>
                     let d2 = d1\<lparr>dm_dedup := dd2\<rparr> in
                     if dup2 \<or> message_exists (env_id env) d2 then (Rejected ''DUPLICATE'', inc DUPLICATES d2)
                     else case sealed_policy X now target_route fed_cfg env d2 of
                       Inl reason \<Rightarrow> sealed_reject t peer reason d2
                     | Inr (env1, rc) \<Rightarrow> sealed_accept t now peer header_key target_route env1 rc d2))"

end
