(* ===== verification/Engine_Egress.thy ===== *)
theory Engine_Egress
  imports Engine_Fed
begin

text \<open>
  Egress (\<open>src/switchyardd/src/engine.rs\<close>): results reported by plugins (\<open>handle_result\<close>), the
  scheduler's pass (\<open>pump\<close>) and the delivery of one due row to a plugin, to an identity or to a
  federation peer, in clear text or sealed.
\<close>

definition mark :: "(datetime \<Rightarrow> int \<Rightarrow> store \<Rightarrow> (sql_error + unit) \<times> store) \<Rightarrow> datetime \<Rightarrow> int \<Rightarrow> daemon \<Rightarrow> daemon" where
  "mark f now i d = do_store (f now i) d"

definition retry_at :: "datetime \<Rightarrow> int \<Rightarrow> datetime \<Rightarrow> daemon \<Rightarrow> daemon" where
  "retry_at now i next d = do_store (mark_retry now i next) d"

definition finish :: "datetime \<Rightarrow> delivery \<Rightarrow> dstate \<Rightarrow> string \<Rightarrow> daemon \<Rightarrow> daemon" where
  "finish now del state reason d =
     emit_delivery now (dl_message_id del) (dl_route del) (state_name state)
       (do_store (mark_terminal now (dl_id del) state reason) d)"

definition policy_denied :: "datetime \<Rightarrow> delivery \<Rightarrow> daemon \<Rightarrow> daemon" where
  "policy_denied now del d = finish now del DeadLetter ''POLICY_DENIED'' (inc POLICY_DENIALS d)"

subsection \<open>Results from plugins\<close>

definition emit_delivery_event :: "datetime \<Rightarrow> delivery \<Rightarrow> string \<Rightarrow> daemon \<Rightarrow> daemon" where
  "emit_delivery_event now del state d = emit_delivery now (dl_message_id del) (dl_route del) state d"

definition handle_result :: "datetime \<Rightarrow> string \<Rightarrow> int \<Rightarrow> bool \<Rightarrow> daemon \<Rightarrow> daemon" where
  "handle_result now plugin corr delivered d =
     (case deliveries_for_id corr (dm_store d) of
        None \<Rightarrow> d
      | Some del \<Rightarrow>
          if ep_protocol (dl_destination del) \<noteq> plugin then d
          else if delivered then
            let d1 = inc_route (dl_route del) (inc EGRESS d);
                d2 = (case get_message (dl_message_id del) (dm_store d1) of
                        Inr (Some env) \<Rightarrow> record_latency (now - env_received_at env) d1
                      | _ \<Rightarrow> d1)
            in emit_delivery_event now del ''delivered'' (do_store (mark_delivered now corr) d2)
          else if dl_attempt_count del \<ge> MAX_ATTEMPTS then
            emit_delivery_event now del ''dead_letter'' (do_store (mark_terminal now corr DeadLetter ''RETRY_EXHAUSTED'') d)
          else
            emit_delivery_event now del ''retry''
              (retry_at now corr (now + int (backoff (dl_attempt_count del))) d))"

subsection \<open>Attachments of an outgoing message\<close>

definition FRAME_HEADROOM_BYTES :: nat where
  "FRAME_HEADROOM_BYTES = 64 * 1024"

definition demoted_kind :: "attachment_meta \<Rightarrow> transport_policy \<Rightarrow> string option" where
  "demoted_kind meta tp =
     (if starts_with (am_mime meta) ''image/'' \<and> \<not> tp_allow_images tp then Some ''image''
      else if starts_with (am_mime meta) ''video/'' \<and> \<not> tp_allow_video tp then Some ''video''
      else None)"

text \<open>What the loop of \<open>load_attachments\<close> does with one attachment: demote, note or ship it.\<close>

datatype verdict = Demote string | Note string | Ship bytes

definition attachment_verdict ::
  "ext \<Rightarrow> uuid \<Rightarrow> attachment_meta \<Rightarrow> nat option \<Rightarrow> nat \<Rightarrow> transport_policy \<Rightarrow> nat \<Rightarrow> daemon \<Rightarrow> verdict" where
  "attachment_verdict X mid meta cap frame_budget tp cumulative d =
     (case demoted_kind meta tp of
        Some kind \<Rightarrow>
          Demote (newline @ ''['' @ kind @ '' '' @ [CHR 0x27] @ am_filename meta @ [CHR 0x27] @ '' omitted '' @ emdash @
                  '' constrained transport]'')
      | None \<Rightarrow>
          let owned = (case has_attachment_ref mid (am_sha256 meta) (dm_store d) of Inr b \<Rightarrow> b | Inl _ \<Rightarrow> False);
              data = (if owned then cas_get X (am_sha256 meta) (dm_cas d) else Err NotFound)
          in case data of
               Inl _ \<Rightarrow> Note (newline @ ''[attachment '' @ am_filename meta @ '' unavailable]'')
             | Inr bytes \<Rightarrow>
                 let size = length bytes in
                 if (case cap of Some c \<Rightarrow> size > c | None \<Rightarrow> False) then
                   Note (attachment_notes [(am_filename meta, size)] (nat_str (the cap) @ '' B limit''))
                 else if cumulative + size > frame_budget then
                   Note (attachment_notes [(am_filename meta, size)] (nat_str frame_budget @ '' B limit''))
                 else Ship bytes)"

fun load_attachments ::
  "ext \<Rightarrow> uuid \<Rightarrow> attachment_meta list \<Rightarrow> nat option \<Rightarrow> nat \<Rightarrow> transport_policy \<Rightarrow> nat \<Rightarrow> daemon \<Rightarrow>
   (ipc_attachment list \<times> string) \<times> daemon" where
  "load_attachments X mid [] cap frame_budget tp cumulative d = (([], []), d)"
| "load_attachments X mid (meta # metas) cap frame_budget tp cumulative d =
     (case attachment_verdict X mid meta cap frame_budget tp cumulative d of
        Demote n \<Rightarrow>
          (case load_attachments X mid metas cap frame_budget tp cumulative (inc TRANSPORT_DEMOTED d) of
             ((atts, notes), d1) \<Rightarrow> ((atts, n @ notes), d1))
      | Note n \<Rightarrow>
          (case load_attachments X mid metas cap frame_budget tp cumulative d of
             ((atts, notes), d1) \<Rightarrow> ((atts, n @ notes), d1))
      | Ship bytes \<Rightarrow>
          (case load_attachments X mid metas cap frame_budget tp (cumulative + length bytes) d of
             ((atts, notes), d1) \<Rightarrow>
               ((\<lparr>ia_filename = am_filename meta, ia_mime = am_mime meta, ia_data = bytes\<rparr> # atts, notes), d1)))"

subsection \<open>Delivery to a plugin\<close>

definition u64_max :: nat where
  "u64_max = 2 ^ 64 - 1"

definition effective_limit :: "nat option \<Rightarrow> nat option \<Rightarrow> transport_policy \<Rightarrow> nat option" where
  "effective_limit policy_max cap_max tp =
     (let cap = Some (min (case cap_max of None \<Rightarrow> u64_max | Some v \<Rightarrow> v) (tp_max_payload_bytes tp)) in
      case (policy_max, cap) of
        (Some a, Some b) \<Rightarrow> Some (min a b)
      | (Some a, None) \<Rightarrow> Some a
      | (None, b) \<Rightarrow> b)"

definition budget_gate :: "instant \<Rightarrow> delivery \<Rightarrow> daemon \<Rightarrow> bool \<times> daemon" where
  "budget_gate t del d =
     (if dl_priority del > 0 then
        let per_minute = (case map_of (cf_transport_budgets (dm_cfg d)) (ep_protocol (dl_destination del)) of
                            None \<Rightarrow> 0 | Some b \<Rightarrow> b)
        in case budget_allow (ep_protocol (dl_destination del)) per_minute t (dm_budget_limiter d) of
             (allowed, b) \<Rightarrow> (allowed, d\<lparr>dm_budget_limiter := b\<rparr>)
      else (True, d))"

definition sender_alias :: "ext \<Rightarrow> daemon \<Rightarrow> envelope \<Rightarrow> string \<Rightarrow> string" where
  "sender_alias X d env scope =
     alias_for (x_hmac X) (x_upper X) (dm_alias_key d) (ep_protocol (env_source env)) (env_native_ref env) scope"

definition render_tag :: "ext \<Rightarrow> daemon \<Rightarrow> envelope \<Rightarrow> delivery \<Rightarrow> string option" where
  "render_tag X d env del =
     (let rc = route_cfg (dm_cfg d) (dl_route del);
          alias' = sender_alias X d env (dl_route del);
          linked_mode = (case rc of None \<Rightarrow> False | Some r \<Rightarrow> rc_identity_mode r = ''linked'');
          tag = (if linked_mode then
                   (case link_for_identity (ep_protocol (env_source env)) (env_native_ref env) (dm_store d) of
                      Inr (Some l) \<Rightarrow> lk_display_name l
                    | _ \<Rightarrow> alias')
                 else alias')
      in case rc of
           Some r \<Rightarrow> if rn_tag (rc_render r) = ''none'' then None else Some tag
         | None \<Rightarrow> Some tag)"

definition outgoing_attachments ::
  "ext \<Rightarrow> envelope \<Rightarrow> bool \<Rightarrow> nat option \<Rightarrow> transport_policy \<Rightarrow> daemon \<Rightarrow> (ipc_attachment list \<times> string) \<times> daemon" where
  "outgoing_attachments X env allowed cap tp d =
     (if env_attachments env = [] then (([], []), d)
      else if allowed then
        load_attachments X (env_id env) (env_attachments env) cap (MAX_FRAME - FRAME_HEADROOM_BYTES) tp 0 d
      else (([], attachment_notes (map (\<lambda>a. (am_filename a, unat (am_size a))) (env_attachments env)) ''omitted''), d))"

definition frame_estimate :: "string \<Rightarrow> endpoint \<Rightarrow> envelope \<Rightarrow> ipc_attachment list \<Rightarrow> nat" where
  "frame_estimate body dest env atts =
     length body + length (ep_endpoint dest) + length (env_kind env) +
     sum_list (map (\<lambda>a. length (ia_data a) + length (ia_filename a) + length (ia_mime a) + 64) atts) + 256"

text \<open>Rendering and sending, once the policy, the plugin and the budget allow it.\<close>

definition send_to_plugin ::
  "ext \<Rightarrow> datetime \<Rightarrow> delivery \<Rightarrow> envelope \<Rightarrow> plugin_handle \<Rightarrow> nat option \<Rightarrow> bool \<Rightarrow> nat option \<Rightarrow> daemon \<Rightarrow> daemon" where
  "send_to_plugin X now del env h policy_max attachments_ok att_cap d =
     (let tp = transport_policy_for (dm_cfg d) (ep_protocol (dl_destination del));
          limit = effective_limit policy_max (cap_max_payload (ph_capabilities h)) tp;
          tag = render_tag X d env del;
          max_chars = (case route_cfg (dm_cfg d) (dl_route del) of
                         Some r \<Rightarrow> if rn_max_chars (rc_render r) > 0 then Some (rn_max_chars (rc_render r)) else None
                       | None \<Rightarrow> None)
      in case outgoing_attachments X env (attachments_ok \<and> cap_attachments (ph_capabilities h)) att_cap tp d of
           ((atts, notes), d1) \<Rightarrow>
             let truncated = (case max_chars of Some mc \<Rightarrow> truncate_body (env_body env) mc | None \<Rightarrow> env_body env);
                 body = render tag (truncated @ notes) limit
             in if frame_estimate body (dl_destination del) env atts > MAX_FRAME then
                  finish now del DeadLetter ''FRAME_OVERSIZE'' d1
                else
                  let d2 = mark mark_attempting now (dl_id del) d1 in
                  (case plugin_send (ep_protocol (dl_destination del)) h
                          (Send (dl_id del) (ep_endpoint (dl_destination del)) (env_kind env) body atts) d2 of
                     (SendOk, d3) \<Rightarrow> d3
                   | (_, d3) \<Rightarrow> retry_at now (dl_id del) (now + csecs 5) d3))"

definition connected_plugin :: "string \<Rightarrow> daemon \<Rightarrow> plugin_handle option" where
  "connected_plugin name d =
     (case map_of (dm_plugins d) name of
        Some h \<Rightarrow> if ph_connected h then Some h else None
      | None \<Rightarrow> None)"

definition process_due_plugin :: "ext \<Rightarrow> instant \<Rightarrow> datetime \<Rightarrow> delivery \<Rightarrow> envelope \<Rightarrow> daemon \<Rightarrow> daemon" where
  "process_due_plugin X t now del env d =
     (case evaluate (cf_policies (dm_cfg d)) env (dl_destination del) of
        Deny _ \<Rightarrow> policy_denied now del d
      | Allow policy_max attachments_ok att_cap \<Rightarrow>
          (case connected_plugin (ep_protocol (dl_destination del)) d of
             None \<Rightarrow> retry_at now (dl_id del) (now + csecs 5) d
           | Some h \<Rightarrow>
               (case budget_gate t del d of
                  (False, d1) \<Rightarrow> retry_at now (dl_id del) (now + csecs 10) (inc BUDGET_DEFERRED d1)
                | (True, d1) \<Rightarrow> send_to_plugin X now del env h policy_max attachments_ok att_cap d1)))"

definition process_due_identity :: "instant \<Rightarrow> datetime \<Rightarrow> delivery \<Rightarrow> envelope \<Rightarrow> daemon \<Rightarrow> daemon" where
  "process_due_identity t now del env d =
     (case connected_plugin (ep_protocol (dl_destination del)) d of
        None \<Rightarrow> retry_at now (dl_id del) (now + csecs 5) d
      | Some h \<Rightarrow>
          if \<not> cap_direct_messages (ph_capabilities h) then finish now del DeadLetter ''NOT_DIRECT_CAPABLE'' d
          else
            (case budget_gate t del d of
               (False, d1) \<Rightarrow> retry_at now (dl_id del) (now + csecs 10) (inc BUDGET_DEFERRED d1)
             | (True, d1) \<Rightarrow>
                 let d2 = mark mark_attempting now (dl_id del) d1 in
                 (case plugin_send (ep_protocol (dl_destination del)) h
                         (SendDirect (dl_id del) (ep_endpoint (dl_destination del)) (env_body env)) d2 of
                    (SendOk, d3) \<Rightarrow> d3
                  | (_, d3) \<Rightarrow> retry_at now (dl_id del) (now + csecs 5) d3)))"

subsection \<open>Delivery to a federation peer\<close>

definition SEALED_OVERHEAD_MARGIN :: nat where "SEALED_OVERHEAD_MARGIN = 512"
definition NOISE_MAX_FRAME :: nat where "NOISE_MAX_FRAME = 16 * 1024 * 1024"
definition SEALED_MAX_BYTES :: nat where "SEALED_MAX_BYTES = NOISE_MAX_FRAME - SEALED_OVERHEAD_MARGIN"

definition peer_of :: "daemon \<Rightarrow> string \<Rightarrow> peer_config option" where
  "peer_of d peer = (case cf_federation (dm_cfg d) of None \<Rightarrow> None | Some f \<Rightarrow> find_peer f peer)"

definition advert_key :: "ext \<Rightarrow> datetime \<Rightarrow> string \<Rightarrow> daemon \<Rightarrow> string option" where
  "advert_key X now node_id d =
     (let rows = (case list_peer_adverts now (dm_store d) of Inr rs \<Rightarrow> rs | Inl _ \<Rightarrow> [])
      in case find (\<lambda>(nid, _, _). nid = node_id) rows of
           None \<Rightarrow> None
         | Some (nid, cbor, _) \<Rightarrow>
             (case x_uncbor_advert X cbor of
                None \<Rightarrow> None
              | Some decoded \<Rightarrow>
                  if is_ok (advert_verify X decoded) \<and> ad_node_id decoded = nid then sc_sealed_key (ad_security decoded)
                  else None))"

definition resolve_sealed_key :: "ext \<Rightarrow> datetime \<Rightarrow> string \<Rightarrow> daemon \<Rightarrow> bytes option" where
  "resolve_sealed_key X now peer d =
     (case peer_of d peer of
        None \<Rightarrow> None
      | Some p \<Rightarrow>
          (case (case pe_sealed_key p of Some cfg \<Rightarrow> Some cfg | None \<Rightarrow> advert_key X now (pe_node_id p) d) of
             None \<Rightarrow> None
           | Some chosen_hex \<Rightarrow>
               (case hex_decode chosen_hex of
                  None \<Rightarrow> None
                | Some b \<Rightarrow> if length b = 32 then Some b else None)))"

definition process_due_fed_sealed ::
  "ext \<Rightarrow> bytes \<Rightarrow> bytes \<Rightarrow> datetime \<Rightarrow> delivery \<Rightarrow> envelope \<Rightarrow> string \<Rightarrow> string \<Rightarrow> (fed_frame \<Rightarrow> send_result) \<Rightarrow> daemon \<Rightarrow> daemon" where
  "process_due_fed_sealed X eph nonce now del out_env peer remote_route tx d =
     (case resolve_sealed_key X now peer d of
        None \<Rightarrow> finish now del DeadLetter ''NO_SEALED_KEY'' d
      | Some recipient_pub \<Rightarrow>
          let cbor = x_cbor_envelope X out_env in
          if length cbor > SEALED_MAX_BYTES then finish now del DeadLetter ''SEALED_OVERSIZE'' d
          else
            let max_ttl_secs = (case cf_federation (dm_cfg d) of Some f \<Rightarrow> fc_max_ttl_secs f | None \<Rightarrow> 86400) in
            case Option.bind (x_try_seconds X (as_i64 max_ttl_secs)) (x_checked_add X (env_created_at out_env)) of
              None \<Rightarrow> finish now del DeadLetter ''EXPIRED'' d
            | Some expires \<Rightarrow>
                let sealed = seal_fixed X cbor (env_id out_env) (expires div 1000000000) recipient_pub eph nonce;
                    d1 = mark mark_attempting now (dl_id del) d
                in (case fed_send peer tx (FedSealed sealed remote_route) d1 of
                      (SendOk, d2) \<Rightarrow> inc SEALED_EGRESS d2
                    | (_, d2) \<Rightarrow> retry_at now (dl_id del) (now + csecs 5) d2))"

text \<open>Pseudonym, origin signature, attestation and hop count of an outgoing envelope.\<close>

definition prepare_fed ::
  "ext \<Rightarrow> datetime \<Rightarrow> envelope \<Rightarrow> string \<Rightarrow> string \<Rightarrow> daemon \<Rightarrow> sig_error + envelope" where
  "prepare_fed X now env peer remote_route d =
     (let exposure = (case cf_federation (dm_cfg d) of Some f \<Rightarrow> fc_identity_exposure f | None \<Rightarrow> ''pseudonymous'');
          out_env = (if env_origin env = None then
                       let e = (if exposure = ''pseudonymous''
                                then env\<lparr>env_native_ref := sender_alias X d env (''fed:'' @ peer @ ''/'' @ remote_route)\<rparr>
                                else env)
                       in e\<lparr>env_origin := Some (sign_origin X e (dm_identity d))\<rparr>
                     else env)
      in case append_attestation X out_env (dm_identity d) now of
           Inl e \<Rightarrow> Err e
         | Inr out1 \<Rightarrow> Ok (out1\<lparr>env_hops := env_hops out1 + 1\<rparr>))"

definition fed_tx :: "daemon \<Rightarrow> string \<Rightarrow> (fed_frame \<Rightarrow> send_result) option" where
  "fed_tx d peer = map_option cn_tx (Option.bind (dm_fed d) (\<lambda>conns. map_of conns peer))"

definition process_due_fed ::
  "ext \<Rightarrow> bytes \<Rightarrow> bytes \<Rightarrow> instant \<Rightarrow> datetime \<Rightarrow> delivery \<Rightarrow> envelope \<Rightarrow> daemon \<Rightarrow> daemon" where
  "process_due_fed X eph nonce t now del env d =
     (case split_once (CHR ''/'') (ep_endpoint (dl_destination del)) of
        None \<Rightarrow> finish now del Failed ''FED_DEST_MALFORMED'' d
      | Some (peer, remote_route) \<Rightarrow>
          (case fed_tx d peer of
             None \<Rightarrow> retry_at now (dl_id del) (now + csecs 5) d
           | Some tx \<Rightarrow>
               let per_minute = (case peer_of d peer of Some p \<Rightarrow> pe_messages_per_minute p | None \<Rightarrow> 0) in
               (case budget_allow (''fed/'' @ peer) per_minute t (dm_budget_limiter d) of
                  (False, b) \<Rightarrow>
                    retry_at now (dl_id del) (now + csecs 5) (inc BUDGET_DEFERRED (d\<lparr>dm_budget_limiter := b\<rparr>))
                | (True, b) \<Rightarrow>
                    let d1 = d\<lparr>dm_budget_limiter := b\<rparr> in
                    (case prepare_fed X now env peer remote_route d1 of
                       Inl _ \<Rightarrow> retry_at now (dl_id del) (now + csecs 5) d1
                     | Inr out_env \<Rightarrow>
                         (case route_cfg (dm_cfg d1) (dl_route del) of
                            None \<Rightarrow> finish now del DeadLetter ''ROUTE_CONFIG_MISSING'' d1
                          | Some rc \<Rightarrow>
                              if rc_security_mode rc = ''sealed'' then
                                process_due_fed_sealed X eph nonce now del out_env peer remote_route tx d1
                              else
                                let d2 = mark mark_attempting now (dl_id del) d1 in
                                (case fed_send peer tx (FedEnvelope out_env remote_route) d2 of
                                   (SendOk, d3) \<Rightarrow> inc FED_EGRESS d3
                                 | (_, d3) \<Rightarrow> retry_at now (dl_id del) (now + csecs 5) d3))))))"

subsection \<open>One due row, and the pump\<close>

definition process_due ::
  "ext \<Rightarrow> bytes \<Rightarrow> bytes \<Rightarrow> instant \<Rightarrow> datetime \<Rightarrow> delivery \<Rightarrow> daemon \<Rightarrow> daemon" where
  "process_due X eph nonce t now del d =
     (case get_message (dl_message_id del) (dm_store d) of
        Inr (Some env) \<Rightarrow>
          if is_expired env now then finish now del Expired ''TTL_EXPIRED'' d
          else if dl_attempt_count del \<ge> MAX_ATTEMPTS then finish now del DeadLetter ''RETRY_EXHAUSTED'' d
          else if dl_route del = IDENTITY_ROUTE then process_due_identity t now del env d
          else if ep_protocol (dl_destination del) = FED_PROTOCOL then
            (case evaluate (cf_policies (dm_cfg d)) env (dl_destination del) of
               Deny _ \<Rightarrow> policy_denied now del d
             | Allow _ _ _ \<Rightarrow> process_due_fed X eph nonce t now del env d)
          else process_due_plugin X t now del env d
      | _ \<Rightarrow> finish now del Failed ''DESTINATION_UNKNOWN'' d)"

fun process_all ::
  "ext \<Rightarrow> (nat \<Rightarrow> bytes \<times> bytes) \<Rightarrow> instant \<Rightarrow> datetime \<Rightarrow> nat \<Rightarrow> delivery list \<Rightarrow> daemon \<Rightarrow> daemon" where
  "process_all X rand t now k [] d = d"
| "process_all X rand t now k (del # dels) d =
     process_all X rand t now (Suc k) dels (process_due X (fst (rand k)) (snd (rand k)) t now del d)"

definition PURGE_INTERVAL :: duration where
  "PURGE_INTERVAL = secs 3600"

definition pump_purge :: "datetime \<Rightarrow> daemon \<Rightarrow> daemon" where
  "pump_purge now d =
     (let cutoff = now - csecs (as_i64 (cf_retention_secs (dm_cfg d)));
          d1 = (case on_store (purge_terminal cutoff) d of
                  (Inr (n, orphans), d1) \<Rightarrow> d1\<lparr>dm_cas := cas_remove_all orphans (dm_cas d1)\<rparr>
                | (Inl _, d1) \<Rightarrow> d1)
      in do_store (purge_expired_adverts now) (do_store (purge_expired_challenges now) d1))"

definition pump_pass ::
  "ext \<Rightarrow> (nat \<Rightarrow> bytes \<times> bytes) \<Rightarrow> instant \<Rightarrow> datetime \<Rightarrow> instant \<Rightarrow> daemon \<Rightarrow> instant \<times> daemon" where
  "pump_pass X rand t now last_purge d =
     (let d1 = do_store (reclaim_stale (now - csecs 60)) d;
          due = (case due_deliveries now 32 (dm_store d1) of Inr ds \<Rightarrow> ds | Inl _ \<Rightarrow> []);
          d2 = process_all X rand t now 0 due d1
      in if t - last_purge \<ge> PURGE_INTERVAL then (t, pump_purge now d2) else (last_purge, d2))"

end
