(* ===== verification/Engine_Frame.thy ===== *)
theory Engine_Frame
  imports Engine_Egress
begin

text \<open>
  What the small operations of the engine leave unchanged, and the effect of the fan-out on the
  store: one row per target, in order, within the queue caps.
\<close>

subsection \<open>Frame facts\<close>

lemma inc_frame [simp]:
  "dm_store (inc m d) = dm_store d" "dm_cfg (inc m d) = dm_cfg d" "dm_dedup (inc m d) = dm_dedup d"
  "dm_cas (inc m d) = dm_cas d" "dm_sent (inc m d) = dm_sent d" "dm_fed_sent (inc m d) = dm_fed_sent d"
  "dm_sender_limiter (inc m d) = dm_sender_limiter d" "dm_budget_limiter (inc m d) = dm_budget_limiter d"
  "dm_plugins (inc m d) = dm_plugins d" "dm_fed (inc m d) = dm_fed d" "dm_events (inc m d) = dm_events d"
  "dm_receivers (inc m d) = dm_receivers d" "dm_identity (inc m d) = dm_identity d"
  "dm_alias_key (inc m d) = dm_alias_key d" "dm_sealed_secret (inc m d) = dm_sealed_secret d"
  "dm_guesses (inc m d) = dm_guesses d"
  by (simp_all add: inc_def)

lemma inc_route_frame [simp]:
  "dm_store (inc_route r d) = dm_store d" "dm_sent (inc_route r d) = dm_sent d"
  "dm_fed_sent (inc_route r d) = dm_fed_sent d" "dm_cfg (inc_route r d) = dm_cfg d"
  by (simp_all add: inc_route_def)

lemma record_latency_frame [simp]:
  "dm_store (record_latency l d) = dm_store d" "dm_sent (record_latency l d) = dm_sent d"
  "dm_fed_sent (record_latency l d) = dm_fed_sent d" "dm_cfg (record_latency l d) = dm_cfg d"
  by (simp_all add: record_latency_def Let_def)

lemma emit_event_frame [simp]:
  "dm_store (emit_event e d) = dm_store d" "dm_cfg (emit_event e d) = dm_cfg d" "dm_dedup (emit_event e d) = dm_dedup d"
  "dm_cas (emit_event e d) = dm_cas d" "dm_sent (emit_event e d) = dm_sent d" "dm_fed_sent (emit_event e d) = dm_fed_sent d"
  "dm_sender_limiter (emit_event e d) = dm_sender_limiter d" "dm_budget_limiter (emit_event e d) = dm_budget_limiter d"
  "dm_metrics (emit_event e d) = dm_metrics d" "dm_guesses (emit_event e d) = dm_guesses d"
  "dm_plugins (emit_event e d) = dm_plugins d" "dm_fed (emit_event e d) = dm_fed d"
  "dm_identity (emit_event e d) = dm_identity d" "dm_alias_key (emit_event e d) = dm_alias_key d"
  by (simp_all add: emit_event_def)

lemma emit_delivery_frame [simp]:
  "dm_store (emit_delivery now i r s d) = dm_store d" "dm_cfg (emit_delivery now i r s d) = dm_cfg d"
  "dm_cas (emit_delivery now i r s d) = dm_cas d" "dm_sent (emit_delivery now i r s d) = dm_sent d"
  "dm_fed_sent (emit_delivery now i r s d) = dm_fed_sent d" "dm_metrics (emit_delivery now i r s d) = dm_metrics d"
  "dm_dedup (emit_delivery now i r s d) = dm_dedup d" "dm_sender_limiter (emit_delivery now i r s d) = dm_sender_limiter d"
  "dm_guesses (emit_delivery now i r s d) = dm_guesses d"
  by (simp_all add: emit_delivery_def)

lemma emit_delivery_event_frame [simp]:
  "dm_store (emit_delivery_event now del s d) = dm_store d" "dm_sent (emit_delivery_event now del s d) = dm_sent d"
  "dm_fed_sent (emit_delivery_event now del s d) = dm_fed_sent d" "dm_cfg (emit_delivery_event now del s d) = dm_cfg d"
  by (simp_all add: emit_delivery_event_def)

lemma emit_dead_letters_frame [simp]:
  "dm_store (emit_dead_letters now i rs d) = dm_store d" "dm_cas (emit_dead_letters now i rs d) = dm_cas d"
  "dm_sent (emit_dead_letters now i rs d) = dm_sent d" "dm_fed_sent (emit_dead_letters now i rs d) = dm_fed_sent d"
  "dm_cfg (emit_dead_letters now i rs d) = dm_cfg d" "dm_dedup (emit_dead_letters now i rs d) = dm_dedup d"
  "dm_sender_limiter (emit_dead_letters now i rs d) = dm_sender_limiter d"
  by (induction rs arbitrary: d) simp_all

lemma on_store_eq: "on_store f d = (fst (f (dm_store d)), d\<lparr>dm_store := snd (f (dm_store d))\<rparr>)"
  by (simp add: on_store_def split: prod.splits)

lemma do_store_frame [simp]:
  "dm_store (do_store f d) = snd (f (dm_store d))" "dm_cfg (do_store f d) = dm_cfg d"
  "dm_cas (do_store f d) = dm_cas d" "dm_sent (do_store f d) = dm_sent d" "dm_fed_sent (do_store f d) = dm_fed_sent d"
  "dm_dedup (do_store f d) = dm_dedup d" "dm_sender_limiter (do_store f d) = dm_sender_limiter d"
  "dm_budget_limiter (do_store f d) = dm_budget_limiter d" "dm_metrics (do_store f d) = dm_metrics d"
  "dm_plugins (do_store f d) = dm_plugins d" "dm_fed (do_store f d) = dm_fed d" "dm_guesses (do_store f d) = dm_guesses d"
  "dm_identity (do_store f d) = dm_identity d" "dm_alias_key (do_store f d) = dm_alias_key d"
  by (simp_all add: do_store_def on_store_eq)

lemma retry_at_frame [simp]:
  "dm_store (retry_at now i n d) = snd (mark_retry now i n (dm_store d))" "dm_cfg (retry_at now i n d) = dm_cfg d"
  "dm_sent (retry_at now i n d) = dm_sent d" "dm_fed_sent (retry_at now i n d) = dm_fed_sent d"
  by (simp_all add: retry_at_def)

lemma mark_frame [simp]:
  "dm_store (mark f now i d) = snd (f now i (dm_store d))" "dm_cfg (mark f now i d) = dm_cfg d"
  "dm_sent (mark f now i d) = dm_sent d" "dm_fed_sent (mark f now i d) = dm_fed_sent d"
  by (simp_all add: mark_def)

lemma finish_frame [simp]:
  "dm_store (finish now del s r d) = snd (mark_terminal now (dl_id del) s r (dm_store d))"
  "dm_cfg (finish now del s r d) = dm_cfg d" "dm_sent (finish now del s r d) = dm_sent d"
  "dm_fed_sent (finish now del s r d) = dm_fed_sent d"
  by (simp_all add: finish_def)

lemma policy_denied_frame [simp]:
  "dm_store (policy_denied now del d) = snd (mark_terminal now (dl_id del) DeadLetter ''POLICY_DENIED'' (dm_store d))"
  "dm_cfg (policy_denied now del d) = dm_cfg d" "dm_sent (policy_denied now del d) = dm_sent d"
  "dm_fed_sent (policy_denied now del d) = dm_fed_sent d"
  by (simp_all add: policy_denied_def)

lemma plugin_send_frame [simp]:
  "dm_store (snd (plugin_send n h m d)) = dm_store d" "dm_fed_sent (snd (plugin_send n h m d)) = dm_fed_sent d"
  "dm_cfg (snd (plugin_send n h m d)) = dm_cfg d"
  by (simp_all add: plugin_send_def split: send_result.splits)

lemma fed_send_frame [simp]:
  "dm_store (snd (fed_send n h m d)) = dm_store d" "dm_sent (snd (fed_send n h m d)) = dm_sent d"
  "dm_cfg (snd (fed_send n h m d)) = dm_cfg d"
  by (simp_all add: fed_send_def split: send_result.splits)

lemma budget_gate_frame [simp]:
  "dm_store (snd (budget_gate t del d)) = dm_store d" "dm_sent (snd (budget_gate t del d)) = dm_sent d"
  "dm_fed_sent (snd (budget_gate t del d)) = dm_fed_sent d" "dm_cfg (snd (budget_gate t del d)) = dm_cfg d"
  "dm_cas (snd (budget_gate t del d)) = dm_cas d"
  by (simp_all add: budget_gate_def Let_def split: prod.splits)

lemma load_attachments_frame [simp]:
  "dm_store (snd (load_attachments X mid ms cap fb tp cum d)) = dm_store d"
  "dm_sent (snd (load_attachments X mid ms cap fb tp cum d)) = dm_sent d"
  "dm_fed_sent (snd (load_attachments X mid ms cap fb tp cum d)) = dm_fed_sent d"
  "dm_cas (snd (load_attachments X mid ms cap fb tp cum d)) = dm_cas d"
  "dm_cfg (snd (load_attachments X mid ms cap fb tp cum d)) = dm_cfg d"
  by (induction ms arbitrary: cum d; simp split: verdict.split prod.split; metis fst_conv snd_conv inc_frame)+

lemma outgoing_attachments_frame [simp]:
  "dm_store (snd (outgoing_attachments X env ok cap tp d)) = dm_store d"
  "dm_sent (snd (outgoing_attachments X env ok cap tp d)) = dm_sent d"
  "dm_fed_sent (snd (outgoing_attachments X env ok cap tp d)) = dm_fed_sent d"
  by (simp_all add: outgoing_attachments_def)

subsection \<open>Ingress only adds rows\<close>

inductive ingress_step :: "store \<Rightarrow> store \<Rightarrow> bool" where
  i_message: "ingress_step st (snd (insert_message env st))"
| i_refs: "ingress_step st (snd (insert_attachment_refs mid shas st))"
| i_delivery: "ingress_step st (snd (insert_delivery now mid r dest nxt ex prio st))"
| i_dead: "ingress_step st (snd (insert_dead_delivery now mid r dest nxt ex reason st))"
| i_other: "st_messages st' = st_messages st \<Longrightarrow> st_deliveries st' = st_deliveries st \<Longrightarrow>
    st_next_delivery st' = st_next_delivery st \<Longrightarrow> ingress_step st st'"

abbreviation ingress_steps :: "store \<Rightarrow> store \<Rightarrow> bool" where
  "ingress_steps \<equiv> ingress_step\<^sup>*\<^sup>*"

definition fresh_row :: "store \<Rightarrow> delivery \<Rightarrow> bool" where
  "fresh_row st r \<longleftrightarrow> dl_id r \<ge> st_next_delivery st \<and> dl_attempt_count r = 0 \<and> dl_state r \<in> {Pending, DeadLetter} \<and> row_ok r"

definition grows :: "store \<Rightarrow> store \<Rightarrow> bool" where
  "grows st st' \<longleftrightarrow> (\<exists>rows. st_deliveries st' = st_deliveries st @ rows \<and> list_all (fresh_row st) rows) \<and>
     st_next_delivery st \<le> st_next_delivery st'"

lemma grows_refl [simp]: "grows st st"
  by (simp add: grows_def)

lemma grows_trans: "grows a b \<Longrightarrow> grows b c \<Longrightarrow> grows a c"
  by (force simp: grows_def list_all_iff fresh_row_def)

lemma ingress_step_grows: "ingress_step st st' \<Longrightarrow> grows st st'"
  by (induction rule: ingress_step.induct)
     (auto simp: grows_def insert_message_def insert_refs_frame insert_delivery_def insert_dead_delivery_def
       fresh_row_def row_ok_def)

lemma ingress_steps_grow: "ingress_steps st st' \<Longrightarrow> grows st st'"
  by (induction rule: rtranclp_induct) (auto intro: grows_trans ingress_step_grows)

lemma ingress_step_inv: "ingress_step st st' \<Longrightarrow> store_inv st \<Longrightarrow> store_inv st'"
proof (induction rule: ingress_step.induct)
  case (i_other st' st) then show ?case using store_inv_same_keys by metis
qed (auto intro: store_step_inv store_step.intros)

interpretation ingress_sys: invariant_system ingress_step store_inv
  by unfold_locales (rule ingress_step_inv)

lemmas ingress_steps_inv = ingress_sys.reach_inv

lemma ingress_steps_trans: "ingress_steps a b \<Longrightarrow> ingress_steps b c \<Longrightarrow> ingress_steps a c"
  by (rule rtranclp_trans)

lemma ingress_stepI: "ingress_step a b \<Longrightarrow> ingress_steps a b"
  by (rule r_into_rtranclp)

lemmas ingress_intros = ingress_stepI[OF i_message] ingress_stepI[OF i_refs] ingress_stepI[OF i_delivery] ingress_stepI[OF i_dead]

text \<open>One target of the fan-out, and the fan-out as the iteration of it.\<close>

definition over_quota :: "string \<Rightarrow> nat \<Rightarrow> nat \<Rightarrow> store \<Rightarrow> bool" where
  "over_quota rname rm gm st \<longleftrightarrow>
     rm > 0 \<and> count_or_zero (Some rname) st \<ge> rm \<or> gm > 0 \<and> count_or_zero None st \<ge> gm"

definition fan_one :: "datetime \<Rightarrow> uuid \<Rightarrow> datetime \<Rightarrow> nat \<Rightarrow> string \<times> endpoint \<Rightarrow> nat \<Rightarrow> nat \<Rightarrow> daemon \<Rightarrow> daemon" where
  "fan_one now mid ex rank tgt rm gm d =
     (if over_quota (fst tgt) rm gm (dm_store d)
      then do_store (insert_dead_delivery now mid (fst tgt) (snd tgt) now ex ''QUEUE_FULL'') (inc QUEUE_REJECTED d)
      else do_store (insert_delivery now mid (fst tgt) (snd tgt) now ex rank) d)"

lemma fan_out_Nil: "snd (fan_out_deliveries now mid ex rank [] rm gm d) = d"
  by simp

lemma fan_out_Cons:
  "snd (fan_out_deliveries now mid ex rank (tgt # targets) rm gm d) =
   snd (fan_out_deliveries now mid ex rank targets rm gm (fan_one now mid ex rank tgt rm gm d))"
  by (cases tgt) (auto simp: fan_one_def over_quota_def do_store_def Let_def split: prod.splits)

lemmas fan_out_rec = fan_out_Nil fan_out_Cons

lemma fan_one_frame [simp]:
  "dm_cfg (fan_one now mid ex rank tgt rm gm d) = dm_cfg d"
  "dm_cas (fan_one now mid ex rank tgt rm gm d) = dm_cas d"
  "dm_sent (fan_one now mid ex rank tgt rm gm d) = dm_sent d"
  "dm_fed_sent (fan_one now mid ex rank tgt rm gm d) = dm_fed_sent d"
  by (simp_all add: fan_one_def)

lemma fan_one_store:
  "dm_store (fan_one now mid ex rank tgt rm gm d) =
     (if over_quota (fst tgt) rm gm (dm_store d)
      then snd (insert_dead_delivery now mid (fst tgt) (snd tgt) now ex ''QUEUE_FULL'' (dm_store d))
      else snd (insert_delivery now mid (fst tgt) (snd tgt) now ex rank (dm_store d)))"
  by (simp add: fan_one_def)

lemma fan_out_steps:
  "ingress_steps (dm_store d) (dm_store (snd (fan_out_deliveries now mid ex rank targets rm gm d)))"
proof (induction targets arbitrary: d)
  case (Cons tgt targets)
  have "ingress_steps (dm_store d) (dm_store (fan_one now mid ex rank tgt rm gm d))"
    by (simp add: fan_one_store ingress_intros)
  then show ?case unfolding fan_out_Cons using Cons.IH by (rule ingress_steps_trans)
qed simp

lemma fan_out_frame [simp]:
  "dm_cfg (snd (fan_out_deliveries now mid ex rank targets rm gm d)) = dm_cfg d"
  "dm_cas (snd (fan_out_deliveries now mid ex rank targets rm gm d)) = dm_cas d"
  "dm_sent (snd (fan_out_deliveries now mid ex rank targets rm gm d)) = dm_sent d"
  "dm_fed_sent (snd (fan_out_deliveries now mid ex rank targets rm gm d)) = dm_fed_sent d"
  by (induction targets arbitrary: d) (simp_all add: fan_out_rec del: fan_out_deliveries.simps)

subsection \<open>The rows a fan-out adds\<close>

definition target_row :: "datetime \<Rightarrow> uuid \<Rightarrow> datetime \<Rightarrow> nat \<Rightarrow> string \<times> endpoint \<Rightarrow> delivery \<Rightarrow> bool" where
  "target_row now mid ex rank tgt r \<longleftrightarrow>
     dl_route r = fst tgt \<and> dl_destination r = snd tgt \<and> dl_message_id r = mid \<and> dl_expires_at r = ex \<and>
     dl_attempt_count r = 0 \<and> dl_next_attempt r = now \<and>
     (dl_state r = Pending \<and> dl_priority r = rank \<and> dl_reason r = None \<or>
      dl_state r = DeadLetter \<and> dl_priority r = 2 \<and> dl_reason r = Some ''QUEUE_FULL'')"

definition sql_ok :: "store \<Rightarrow> bool" where
  "sql_ok st \<longleftrightarrow> (\<forall>s. \<not> sql_fails st s)"

lemma fan_one_rows:
  assumes "sql_ok (dm_store d)" "mid \<in> live_ids (dm_store d)"
  shows "\<exists>r. st_deliveries (dm_store (fan_one now mid ex rank tgt rm gm d)) = st_deliveries (dm_store d) @ [r] \<and>
      target_row now mid ex rank tgt r"
    and "st_messages (dm_store (fan_one now mid ex rank tgt rm gm d)) = st_messages (dm_store d)"
    and "sql_fails (dm_store (fan_one now mid ex rank tgt rm gm d)) = sql_fails (dm_store d)"
  using assms by (simp_all add: fan_one_store insert_delivery_def insert_dead_delivery_def sql_ok_def target_row_def)

lemma fan_out_rows:
  assumes "sql_ok (dm_store d)" "mid \<in> live_ids (dm_store d)"
  shows "\<exists>rows. st_deliveries (dm_store (snd (fan_out_deliveries now mid ex rank targets rm gm d))) = st_deliveries (dm_store d) @ rows \<and>
      list_all2 (target_row now mid ex rank) targets rows \<and>
      st_messages (dm_store (snd (fan_out_deliveries now mid ex rank targets rm gm d))) = st_messages (dm_store d)"
  using assms
proof (induction targets arbitrary: d)
  case (Cons tgt targets)
  let ?d1 = "fan_one now mid ex rank tgt rm gm d"
  obtain r where r: "st_deliveries (dm_store ?d1) = st_deliveries (dm_store d) @ [r]" "target_row now mid ex rank tgt r"
    using fan_one_rows(1)[OF Cons.prems] by blast
  have "sql_ok (dm_store ?d1)" "mid \<in> live_ids (dm_store ?d1)"
    using Cons.prems fan_one_rows(2,3)[OF Cons.prems] by (simp_all add: sql_ok_def live_ids_def)
  from Cons.IH[OF this] obtain rows where
    "st_deliveries (dm_store (snd (fan_out_deliveries now mid ex rank targets rm gm ?d1))) = st_deliveries (dm_store ?d1) @ rows"
    "list_all2 (target_row now mid ex rank) targets rows"
    "st_messages (dm_store (snd (fan_out_deliveries now mid ex rank targets rm gm ?d1))) = st_messages (dm_store ?d1)"
    by blast
  then show ?case unfolding fan_out_Cons using r fan_one_rows(2)[OF Cons.prems]
    by (intro exI[of _ "r # rows"]) simp
qed simp

definition in_flight_count :: "string option \<Rightarrow> store \<Rightarrow> nat" where
  "in_flight_count rname st = length (filter (counts_pending rname) (st_deliveries st))"

lemma fan_one_caps:
  assumes "sql_ok (dm_store d)" "mid \<in> live_ids (dm_store d)"
  shows "rm > 0 \<Longrightarrow> in_flight_count (Some r) (dm_store (fan_one now mid ex rank tgt rm gm d)) \<le> max rm (in_flight_count (Some r) (dm_store d))"
    and "gm > 0 \<Longrightarrow> in_flight_count None (dm_store (fan_one now mid ex rank tgt rm gm d)) \<le> max gm (in_flight_count None (dm_store d))"
  using assms
  by (auto simp: fan_one_store over_quota_def count_or_zero_def pending_count_def in_flight_count_def sql_ok_def
      insert_delivery_def insert_dead_delivery_def counts_pending_def in_flight_def split: if_splits)

lemma fan_out_caps:
  assumes "sql_ok (dm_store d)" "mid \<in> live_ids (dm_store d)"
  shows "(rm > 0 \<longrightarrow> in_flight_count (Some r) (dm_store (snd (fan_out_deliveries now mid ex rank targets rm gm d))) \<le> max rm (in_flight_count (Some r) (dm_store d))) \<and>
    (gm > 0 \<longrightarrow> in_flight_count None (dm_store (snd (fan_out_deliveries now mid ex rank targets rm gm d))) \<le> max gm (in_flight_count None (dm_store d)))"
  using assms
proof (induction targets arbitrary: d)
  case (Cons tgt targets)
  let ?d1 = "fan_one now mid ex rank tgt rm gm d"
  have "sql_ok (dm_store ?d1)" "mid \<in> live_ids (dm_store ?d1)"
    using Cons.prems fan_one_rows(2,3)[OF Cons.prems] by (simp_all add: sql_ok_def live_ids_def)
  from Cons.IH[OF this] show ?case unfolding fan_out_Cons
    using fan_one_caps(1)[OF Cons.prems, of rm r now ex rank tgt gm] fan_one_caps(2)[OF Cons.prems, of gm now ex rank tgt rm]
    by (meson max.bounded_iff max.cobounded1 order_trans)
qed simp

end
