(* ===== verification/Ingress_Props.thy ===== *)
theory Ingress_Props
  imports Engine_Frame
begin

text \<open>
  Properties of plugin ingress: what a refused message leaves behind, what an accepted one adds, the
  queue caps, and the identity-link lifecycle.
\<close>

subsection \<open>Ingress handlers only add rows\<close>

lemma insert_link_core:
  "st_messages (snd (insert_link a b c e n v st)) = st_messages st"
  "st_deliveries (snd (insert_link a b c e n v st)) = st_deliveries st"
  "st_next_delivery (snd (insert_link a b c e n v st)) = st_next_delivery st"
  by (simp_all add: insert_link_def split: option.splits)

lemma delete_existing_link_core:
  "st_messages (delete_existing_link p r st) = st_messages st"
  "st_deliveries (delete_existing_link p r st) = st_deliveries st"
  "st_next_delivery (delete_existing_link p r st) = st_next_delivery st"
  by (auto simp: delete_existing_link_def delete_link_def split: sum.splits option.splits)

lemma delete_challenge_core:
  "st_messages (snd (delete_challenge i st)) = st_messages st"
  "st_deliveries (snd (delete_challenge i st)) = st_deliveries st"
  "st_next_delivery (snd (delete_challenge i st)) = st_next_delivery st"
  by (simp_all add: delete_challenge_def)

lemma delete_challenges_core:
  "st_messages (snd (delete_challenges_for_target p r st)) = st_messages st"
  "st_deliveries (snd (delete_challenges_for_target p r st)) = st_deliveries st"
  "st_next_delivery (snd (delete_challenges_for_target p r st)) = st_next_delivery st"
  by (simp_all add: delete_challenges_for_target_def)

lemma create_challenge_core:
  "st_messages (snd (create_challenge c tp tr rp rr n now ex st)) = st_messages st"
  "st_deliveries (snd (create_challenge c tp tr rp rr n now ex st)) = st_deliveries st"
  "st_next_delivery (snd (create_challenge c tp tr rp rr n now ex st)) = st_next_delivery st"
  by (simp_all add: create_challenge_def delete_challenges_for_target_def)

lemma enqueue_identity_steps:
  "ingress_steps (dm_store d) (dm_store (snd (enqueue_identity_send fresh dest body now ex d)))"
proof -
  let ?env = "envelope_new fresh now \<lparr>ep_protocol = ''identity'', ep_endpoint = ''system''\<rparr> IDENTITY_ROUTE
                  ''notice'' body now ex (cf_hop_limit (dm_cfg d))"
  have m: "ingress_steps (dm_store d) (snd (insert_message ?env (dm_store d)))" by (rule ingress_intros)
  show ?thesis
    by (auto simp: enqueue_identity_send_def Let_def on_store_eq split: sum.splits
        intro: m ingress_steps_trans[OF m] ingress_intros)
qed

lemma confirm_link_steps: "ingress_steps (dm_store d) (dm_store (confirm_link fresh c now d))"
proof -
  have s: "ingress_steps (dm_store d) (snd (confirm_link_store c now (dm_store d)))"
    by (intro ingress_stepI i_other)
       (simp_all add: confirm_link_store_def Let_def insert_link_core delete_existing_link_core delete_challenge_core)
  let ?st = "confirm_link_store c now (dm_store d)"
  show ?thesis
  proof (cases "fst ?st")
    case (Inl e) then show ?thesis using s by (simp add: confirm_link_def on_store_eq)
  next
    case (Inr i)
    show ?thesis
      using Inr
      by (simp add: confirm_link_def on_store_eq Let_def)
         (rule ingress_steps_trans[OF s], rule ingress_steps_trans[OF _ enqueue_identity_steps],
          rule ingress_steps_trans[OF _ enqueue_identity_steps], simp)
  qed
qed

lemma note_guess_steps: "ingress_steps (dm_store d) (dm_store (note_failed_link_guess t p s d))"
  by (auto simp: note_failed_link_guess_def Let_def delete_challenges_core intro!: ingress_stepI i_other)

text \<open>The envelope and the store of an accepted message.\<close>

definition inbound_env ::
  "(nat \<Rightarrow> uuid) \<Rightarrow> datetime \<Rightarrow> endpoint \<Rightarrow> string \<Rightarrow> string \<Rightarrow> string \<Rightarrow> datetime option \<Rightarrow> string option \<Rightarrow> config \<Rightarrow>
   attachment_meta list \<Rightarrow> envelope" where
  "inbound_env fresh now src sender kind body ca prio cfg metas =
     (envelope_new (fresh 0) now src sender kind body (bounded_created_at now ca)
        (now + csecs (as_i64 (cf_ttl_default_secs cfg))) (cf_hop_limit cfg))
     \<lparr>env_attachments := metas, env_priority := (case prio of None \<Rightarrow> ''normal'' | Some p \<Rightarrow> p)\<rparr>"

lemma accept_inbound_store:
  assumes "store_attachments X (cf_max_attachment_bytes cfg) hs (dm_cas d) = ((metas, shas, nts), c)"
    and "env = inbound_env fresh now src sender kind (body @ nts) ca prio cfg metas"
    and "d2 = d\<lparr>dm_cas := c, dm_store := snd (insert_message env (dm_store d))\<rparr>"
  shows "dm_store (accept_inbound X fresh now src sender kind body ca hs prio targets cfg d) =
    (if is_ok (fst (insert_message env (dm_store d)))
     then dm_store (snd (fan_out_deliveries now (env_id env) (env_expires_at env) (priority_rank (env_priority env)) targets
            (lim_route_queue_max (cf_limits cfg)) (lim_global_queue_max (cf_limits cfg))
            (do_store (insert_attachment_refs (env_id env) shas) d2)))
     else dm_store d2)"
  using assms(1)
  by (auto simp: accept_inbound_def commit_inbound_def assms(2,3) inbound_env_def Let_def on_store_eq is_ok_def split: sum.splits prod.splits)

lemma accept_inbound_steps:
  "ingress_steps (dm_store d) (dm_store (accept_inbound X fresh now src sender kind body ca hs prio targets cfg d))"
proof -
  obtain metas shas nts c where sa: "store_attachments X (cf_max_attachment_bytes cfg) hs (dm_cas d) = ((metas, shas, nts), c)"
    by (metis surj_pair)
  let ?env = "inbound_env fresh now src sender kind (body @ nts) ca prio cfg metas"
  let ?d2 = "d\<lparr>dm_cas := c, dm_store := snd (insert_message ?env (dm_store d))\<rparr>"
  have m: "ingress_steps (dm_store d) (dm_store ?d2)" by (simp add: ingress_intros)
  have r: "ingress_steps (dm_store ?d2) (dm_store (do_store (insert_attachment_refs (env_id ?env) shas) ?d2))"
    by (simp add: ingress_intros)
  show ?thesis
    unfolding accept_inbound_store[OF sa refl refl]
    using ingress_steps_trans[OF m ingress_steps_trans[OF r fan_out_steps]] m by presburger
qed

lemma route_inbound_steps:
  "ingress_steps (dm_store d) (dm_store (route_inbound X fresh now p ep s k b ca hs prio cfg d))"
  by (simp add: route_inbound_def Let_def accept_inbound_steps)

lemma handle_inbound_steps:
  "ingress_steps (dm_store d) (dm_store (handle_inbound X fresh t now p ep s k b ca atts prio d))"
proof -
  have n: "ingress_steps (dm_store e) (dm_store (route_inbound X fresh now p ep s k b ca hs prio cfg (note_failed_link_guess t p s e)))" for hs cfg e
    using note_guess_steps route_inbound_steps by (rule ingress_steps_trans)
  have c: "ingress_steps st (dm_store (confirm_link fresh ch now e))" if "dm_store e = st" for ch e st
    using confirm_link_steps[of e fresh ch now] that by simp
  have r: "ingress_steps st (dm_store (route_inbound X fresh now p ep s k b ca hs prio cfg e))" if "dm_store e = st" for hs cfg e st
    using route_inbound_steps that by metis
  have n': "ingress_steps st (dm_store (route_inbound X fresh now p ep s k b ca hs prio cfg (note_failed_link_guess t p s e)))"
    if "dm_store e = st" for hs cfg e st
    using n that by metis
  show ?thesis
    by (auto simp: handle_inbound_def Let_def split: prod.splits bool.splits sum.splits option.splits intro!: c r n')
qed

lemma initiate_link_steps:
  "ingress_steps (dm_store d) (dm_store (snd (initiate_link fresh code now rq tg name d)))"
proof -
  let ?st = "create_challenge (format_code code) (ep_protocol tg) (ep_endpoint tg) (ep_protocol rq) (ep_endpoint rq) name now (now + csecs 900) (dm_store d)"
  have s: "ingress_steps (dm_store d) (snd ?st)"
    by (intro ingress_stepI i_other) (simp_all add: create_challenge_core)
  have e: "ingress_steps (dm_store d) (dm_store (snd (enqueue_identity_send fr ds bd nw ex e)))" if "dm_store e = snd ?st" for fr ds bd nw ex e
    using ingress_steps_trans[OF s] enqueue_identity_steps[of e] that by metis
  have e': "ingress_steps (dm_store d) (dm_store g)" if "enqueue_identity_send fr ds bd nw ex e = (r, g)" "dm_store e = snd ?st" for fr ds bd nw ex e r g
    using e[of e] that by (metis snd_conv)
  show ?thesis
    by (auto simp: initiate_link_def Let_def on_store_eq s split: sum.splits prod.splits intro: e')
qed

subsection \<open>Refused and accepted messages\<close>

definition inbound_key :: "ext \<Rightarrow> config \<Rightarrow> string \<Rightarrow> string \<Rightarrow> string \<Rightarrow> string \<Rightarrow> datetime option \<Rightarrow> ipc_attachment list \<Rightarrow> string" where
  "inbound_key X cfg plugin ep sender body ca atts =
     dedup_key (x_sha256 X) plugin sender ep body ca (map hs_sha (hash_attachments X (cf_max_attachment_bytes cfg) atts))"

definition inbound_bytes :: "string \<Rightarrow> ipc_attachment list \<Rightarrow> u64" where
  "inbound_bytes body atts = sender_bytes_of body (map (\<lambda>a. of_nat (length (ia_data a))) atts)"

definition inbound_duplicate :: "ext \<Rightarrow> instant \<Rightarrow> string \<Rightarrow> string \<Rightarrow> string \<Rightarrow> string \<Rightarrow> datetime option \<Rightarrow> ipc_attachment list \<Rightarrow> daemon \<Rightarrow> bool" where
  "inbound_duplicate X t plugin ep sender body ca atts d =
     fst (is_duplicate (inbound_key X (dm_cfg d) plugin ep sender body ca atts) t (dm_dedup d))"

definition inbound_limited :: "instant \<Rightarrow> string \<Rightarrow> string \<Rightarrow> string \<Rightarrow> ipc_attachment list \<Rightarrow> daemon \<Rightarrow> bool" where
  "inbound_limited t plugin sender body atts d \<longleftrightarrow>
     \<not> fst (sender_allow (plugin @ ''|'' @ sender) (inbound_bytes body atts) t (dm_sender_limiter d))"

definition unrouted :: "string \<Rightarrow> string \<Rightarrow> daemon \<Rightarrow> bool" where
  "unrouted plugin ep d \<longleftrightarrow> route (cf_routes (dm_cfg d)) \<lparr>ep_protocol = plugin, ep_endpoint = ep\<rparr> = []"

lemma map_hash: "map (\<lambda>h. of_nat (length (ia_data (hs_att h)))) (hash_attachments X l atts) = map (\<lambda>a. of_nat (length (ia_data a))) atts"
  by (simp add: hash_attachments_def comp_def)

lemma handle_inbound_cases:
  assumes "d1 = (inc INGRESS d)\<lparr>dm_dedup := dedup_record (inbound_key X (dm_cfg d) p ep s b ca atts) t
             (snd (is_duplicate (inbound_key X (dm_cfg d) p ep s b ca atts) t (dm_dedup d))),
             dm_sender_limiter := snd (sender_allow (p @ ''|'' @ s) (inbound_bytes b atts) t (dm_sender_limiter d))\<rparr>"
    and "hs = hash_attachments X (cf_max_attachment_bytes (dm_cfg d)) atts"
  shows "inbound_duplicate X t p ep s b ca atts d \<Longrightarrow>
      handle_inbound X fresh t now p ep s k b ca atts prio d =
        inc DUPLICATES ((inc INGRESS d)\<lparr>dm_dedup := snd (is_duplicate (inbound_key X (dm_cfg d) p ep s b ca atts) t (dm_dedup d))\<rparr>)"
    and "\<not> inbound_duplicate X t p ep s b ca atts d \<Longrightarrow> inbound_limited t p s b atts d \<Longrightarrow>
      handle_inbound X fresh t now p ep s k b ca atts prio d =
        inc RATELIMITED ((inc INGRESS d)\<lparr>dm_dedup := snd (is_duplicate (inbound_key X (dm_cfg d) p ep s b ca atts) t (dm_dedup d)),
          dm_sender_limiter := snd (sender_allow (p @ ''|'' @ s) (inbound_bytes b atts) t (dm_sender_limiter d))\<rparr>)"
    and "\<not> inbound_duplicate X t p ep s b ca atts d \<Longrightarrow> \<not> inbound_limited t p s b atts d \<Longrightarrow>
      handle_inbound X fresh t now p ep s k b ca atts prio d =
        (if is_link_code (trim_chars b) then
           (case find_active_challenge p s (trim_chars b) now (dm_store d) of
              Inr (Some ch) \<Rightarrow> confirm_link fresh ch now d1
            | _ \<Rightarrow> route_inbound X fresh now p ep s k b ca hs prio (dm_cfg d) (note_failed_link_guess t p s d1))
         else route_inbound X fresh now p ep s k b ca hs prio (dm_cfg d) d1)"
proof -
  let ?key = "inbound_key X (dm_cfg d) p ep s b ca atts"
  obtain dup dd where D: "is_duplicate ?key t (dm_dedup d) = (dup, dd)" by fastforce
  obtain al sl where A: "sender_allow (p @ ''|'' @ s) (inbound_bytes b atts) t (dm_sender_limiter d) = (al, sl)" by fastforce
  have e: "handle_inbound X fresh t now p ep s k b ca atts prio d =
     (if dup then inc DUPLICATES ((inc INGRESS d)\<lparr>dm_dedup := dd\<rparr>)
      else if \<not> al then inc RATELIMITED ((inc INGRESS d)\<lparr>dm_dedup := dd, dm_sender_limiter := sl\<rparr>)
      else let d1 = (inc INGRESS d)\<lparr>dm_dedup := dedup_record ?key t dd, dm_sender_limiter := sl\<rparr>;
               hs = hash_attachments X (cf_max_attachment_bytes (dm_cfg d)) atts
           in if is_link_code (trim_chars b) then
                (case find_active_challenge p s (trim_chars b) now (dm_store d) of
                   Inr (Some ch) \<Rightarrow> confirm_link fresh ch now d1
                 | _ \<Rightarrow> route_inbound X fresh now p ep s k b ca hs prio (dm_cfg d) (note_failed_link_guess t p s d1))
              else route_inbound X fresh now p ep s k b ca hs prio (dm_cfg d) d1)"
    using D A unfolding inbound_key_def inbound_bytes_def map_hash[symmetric, of atts X "cf_max_attachment_bytes (dm_cfg d)"]
    by (cases dup; cases al) (simp_all add: handle_inbound_def Let_def cong: sum.case_cong option.case_cong)
  show "inbound_duplicate X t p ep s b ca atts d \<Longrightarrow>
      handle_inbound X fresh t now p ep s k b ca atts prio d =
        inc DUPLICATES ((inc INGRESS d)\<lparr>dm_dedup := snd (is_duplicate ?key t (dm_dedup d))\<rparr>)"
    by (simp add: e inbound_duplicate_def D)
  show "\<not> inbound_duplicate X t p ep s b ca atts d \<Longrightarrow> inbound_limited t p s b atts d \<Longrightarrow>
      handle_inbound X fresh t now p ep s k b ca atts prio d =
        inc RATELIMITED ((inc INGRESS d)\<lparr>dm_dedup := snd (is_duplicate ?key t (dm_dedup d)),
          dm_sender_limiter := snd (sender_allow (p @ ''|'' @ s) (inbound_bytes b atts) t (dm_sender_limiter d))\<rparr>)"
    using A by (simp add: e inbound_duplicate_def inbound_limited_def D)
  show "\<not> inbound_duplicate X t p ep s b ca atts d \<Longrightarrow> \<not> inbound_limited t p s b atts d \<Longrightarrow>
      handle_inbound X fresh t now p ep s k b ca atts prio d =
        (if is_link_code (trim_chars b) then
           (case find_active_challenge p s (trim_chars b) now (dm_store d) of
              Inr (Some ch) \<Rightarrow> confirm_link fresh ch now d1
            | _ \<Rightarrow> route_inbound X fresh now p ep s k b ca hs prio (dm_cfg d) (note_failed_link_guess t p s d1))
         else route_inbound X fresh now p ep s k b ca hs prio (dm_cfg d) d1)"
    using A by (simp add: e inbound_duplicate_def inbound_limited_def D assms Let_def cong: sum.case_cong option.case_cong)
qed


text \<open>A small daemon on which the properties are evaluated.\<close>

definition cfg_demo :: config where
  "cfg_demo =
     \<lparr>cf_node = \<lparr>nc_name = ''n'', nc_data_dir = ''/d'', nc_public = False\<rparr>, cf_plugins = [],
      cf_routes = [mk_route ''demo'' [mk_ep ''mqtt'' ''a''] [mk_ep ''lora'' ''x'', mk_ep ''lora'' ''y'']],
      cf_policies = [], cf_ttl_default_secs = 3600, cf_dedup_ttl_secs = 600, cf_retention_secs = 86400,
      cf_hop_limit = 8, cf_max_attachment_bytes = 1000, cf_public_services = [],
      cf_limits = \<lparr>lim_sender_messages_per_minute = 0, lim_sender_bytes_per_hour = 0, lim_route_queue_max = 1,
                    lim_global_queue_max = 0, lim_global_cas_max_bytes = 0\<rparr>,
      cf_transport_budgets = [], cf_federation = None,
      cf_discovery = \<lparr>dc_mode = ''disabled'', dc_advert_ttl_secs = 60\<rparr>,
      cf_privacy = \<lparr>pv_minimum_security = ''gateway'', pv_allow_gateway_decryption = True, pv_allow_protocol_downgrade = True\<rparr>,
      cf_transports = [], cf_alerts = None, cf_raw_plugin_configs = [], cf_raw_yaml = []\<rparr>"

definition daemon_demo :: "config \<Rightarrow> store \<Rightarrow> daemon" where
  "daemon_demo cfg st =
     \<lparr>dm_cfg = cfg, dm_store = st, dm_dedup = dedup_new (secs (cf_dedup_ttl_secs cfg)), dm_alias_key = ''k'',
      dm_identity = ''seed'', dm_sealed_secret = ''own'', dm_plugins = [], dm_cas = cas_new [] 0 no_fs_fails,
      dm_sender_limiter = sender_limiter_new (lim_sender_messages_per_minute (cf_limits cfg)) (lim_sender_bytes_per_hour (cf_limits cfg)),
      dm_budget_limiter = budget_limiter_new, dm_receivers = 0, dm_events = [], dm_fed = None, dm_next_instance = 0, dm_peers_up = [], dm_gauges = [], dm_metrics = (\<lambda>_. 0),
      dm_route_messages = [], dm_guesses = [], dm_pre_trust_warned = [], dm_sealed_warned = [],
      dm_advert_warned = [], dm_inbound_warned = [], dm_sent = [], dm_fed_sent = []\<rparr>"


subsection \<open>What an accepted message adds\<close>

lemma insert_refs_ok:
  "sql_ok st \<Longrightarrow> snd (insert_attachment_refs mid shas st) = st\<lparr>st_attachments := st_attachments st @ map (Pair mid) shas\<rparr>"
proof (induction shas arbitrary: st)
  case (Cons s shas)
  have "sql_ok (st\<lparr>st_attachments := st_attachments st @ [(mid, s)]\<rparr>)" using Cons.prems by (simp add: sql_ok_def)
  from Cons.IH[OF this] show ?case using Cons.prems by (simp add: sql_ok_def)
qed simp

lemma cas_put_keys: "fst ` set (cs_blobs c) \<subseteq> fst ` set (cs_blobs (snd (cas_put X data c)))"
  by (auto simp: cas_put_def Let_def)

lemma cas_put_stored: "cas_put X data c = (Ok sha, c') \<Longrightarrow> sha \<in> fst ` set (cs_blobs c')"
  by (auto simp: cas_put_def Let_def split: if_splits)

lemma store_attachments_spec:
  "store_attachments X l hs c = ((metas, shas, nts), c') \<Longrightarrow>
   shas = map am_sha256 metas \<and> fst ` set (cs_blobs c) \<subseteq> fst ` set (cs_blobs c') \<and> set shas \<subseteq> fst ` set (cs_blobs c')"
proof (induction hs arbitrary: c metas shas nts c')
  case (Cons h hs)
  let ?put = "cas_put X (ia_data (hs_att h)) c"
  let ?c1 = "if hs_oversize h then c else snd ?put"
  obtain ms1 sh1 nt1 c2 where r: "store_attachments X l hs ?c1 = ((ms1, sh1, nt1), c2)" by (metis surj_pair)
  note IH = Cons.IH[OF r]
  have k: "fst ` set (cs_blobs c) \<subseteq> fst ` set (cs_blobs ?c1)" using cas_put_keys by auto
  show ?case
  proof (cases "\<not> hs_oversize h \<and> is_ok (fst ?put)")
    case True
    then obtain sha c1 where p: "?put = (Ok sha, c1)" by (cases ?put) (auto simp: is_ok_def split: sum.splits)
    have "c' = c2 \<and> shas = sha # sh1 \<and> (\<exists>m. am_sha256 m = sha \<and> metas = m # ms1)"
      using Cons.prems True p r by (auto simp: Let_def split: if_splits)
    moreover have "?c1 = c1" using p True by simp
    ultimately show ?thesis using IH k cas_put_stored[OF p] by auto
  next
    case False
    then have "c' = c2 \<and> shas = sh1 \<and> metas = ms1"
      using Cons.prems r by (auto simp: Let_def is_ok_def split: if_splits prod.splits sum.splits)
    then show ?thesis using IH k by blast
  qed
qed simp

lemma accept_inbound_cas:
  assumes "store_attachments X (cf_max_attachment_bytes cfg) hs (dm_cas d) = ((metas, shas, nts), c)"
  shows "dm_cas (accept_inbound X fresh now src sender kind body ca hs prio targets cfg d) = c"
  using assms by (auto simp: accept_inbound_def commit_inbound_def Let_def on_store_eq case_prod_unfold split: sum.splits)

lemma accept_inbound_rows:
  assumes ok: "sql_ok (dm_store d)" and fr: "fresh 0 \<notin> live_ids (dm_store d)"
    and d': "d' = accept_inbound X fresh now src sender kind body ca hs prio targets cfg d"
  shows "\<exists>env rows. env_id env = fresh 0 \<and> env_source env = src \<and> env_native_ref env = sender \<and>
     env_kind env = kind \<and> (\<exists>nts. env_body env = body @ nts) \<and>
     env_priority env = (case prio of None \<Rightarrow> ''normal'' | Some p \<Rightarrow> p) \<and>
     st_messages (dm_store d') = st_messages (dm_store d) @ [\<lparr>mr_id = fresh 0, mr_envelope = Some env, mr_created_at = env_created_at env\<rparr>] \<and>
     st_deliveries (dm_store d') = st_deliveries (dm_store d) @ rows \<and>
     list_all2 (target_row now (fresh 0) (now + csecs (as_i64 (cf_ttl_default_secs cfg))) (priority_rank (env_priority env))) targets rows \<and>
     (\<forall>a \<in> set (env_attachments env). am_sha256 a \<in> fst ` set (cs_blobs (dm_cas d'))) \<and>
     (lim_route_queue_max (cf_limits cfg) > 0 \<longrightarrow> (\<forall>r. in_flight_count (Some r) (dm_store d') \<le>
        max (lim_route_queue_max (cf_limits cfg)) (in_flight_count (Some r) (dm_store d))))"
proof -
  obtain metas shas nts c where sa: "store_attachments X (cf_max_attachment_bytes cfg) hs (dm_cas d) = ((metas, shas, nts), c)"
    by (metis surj_pair)
  define env where "env = inbound_env fresh now src sender kind (body @ nts) ca prio cfg metas"
  define d2 where "d2 = d\<lparr>dm_cas := c, dm_store := snd (insert_message env (dm_store d))\<rparr>"
  define d3 where "d3 = do_store (insert_attachment_refs (env_id env) shas) d2"
  have e: "env_id env = fresh 0" "env_source env = src" "env_native_ref env = sender" "env_kind env = kind"
    "env_body env = body @ nts" "env_priority env = (case prio of None \<Rightarrow> ''normal'' | Some p \<Rightarrow> p)"
    "env_expires_at env = now + csecs (as_i64 (cf_ttl_default_secs cfg))" "env_attachments env = metas"
    by (simp_all add: env_def inbound_env_def envelope_new_def)
  have im: "insert_message env (dm_store d) = (Ok (), (dm_store d)\<lparr>st_messages := st_messages (dm_store d) @
      [\<lparr>mr_id = fresh 0, mr_envelope = Some env, mr_created_at = env_created_at env\<rparr>]\<rparr>)"
    using ok fr by (simp add: insert_message_def sql_ok_def live_ids_def e)
  have s3: "st_deliveries (dm_store d3) = st_deliveries (dm_store d)"
    "st_messages (dm_store d3) = st_messages (dm_store d) @ [\<lparr>mr_id = fresh 0, mr_envelope = Some env, mr_created_at = env_created_at env\<rparr>]"
    by (simp_all add: d3_def d2_def im insert_refs_frame)
  have "sql_ok (dm_store d2)" using ok by (simp add: d2_def im sql_ok_def)
  then have ok3: "sql_ok (dm_store d3)" "fresh 0 \<in> live_ids (dm_store d3)"
    using s3(2) by (simp_all add: d3_def insert_refs_ok sql_ok_def live_ids_def)
  let ?fo = "fan_out_deliveries now (fresh 0) (env_expires_at env) (priority_rank (env_priority env)) targets
            (lim_route_queue_max (cf_limits cfg)) (lim_global_queue_max (cf_limits cfg)) d3"
  have st: "dm_store d' = dm_store (snd ?fo)"
    unfolding d' accept_inbound_store[OF sa env_def d2_def] by (simp add: im is_ok_def d3_def e)
  have cs: "dm_cas d' = c"
    unfolding d' by (rule accept_inbound_cas[OF sa])
  obtain rows where rows: "st_deliveries (dm_store d') = st_deliveries (dm_store d) @ rows"
    "list_all2 (target_row now (fresh 0) (env_expires_at env) (priority_rank (env_priority env))) targets rows"
    "st_messages (dm_store d') = st_messages (dm_store d3)"
    using fan_out_rows[OF ok3] s3(1) unfolding st by metis
  have caps: "in_flight_count (Some r) (dm_store d') \<le> max (lim_route_queue_max (cf_limits cfg)) (in_flight_count (Some r) (dm_store d))"
    if "lim_route_queue_max (cf_limits cfg) > 0" for r
    using fan_out_caps[OF ok3] that s3(1) unfolding st in_flight_count_def by metis
  show ?thesis
    using rows e s3(2) store_attachments_spec[OF sa] cs caps by (intro exI[of _ env] exI[of _ rows]) auto
qed



subsection \<open>Identity links\<close>

definition link_inv :: "store \<Rightarrow> bool" where
  "link_inv st \<longleftrightarrow> distinct (map lk_id (st_links st)) \<and> (\<forall>l \<in> set (st_links st). lk_id l < st_next_link st) \<and>
     (\<forall>p r. length (filter (link_side p r) (st_links st)) \<le> 1)"

lemma filter_le1_unique:
  "length (filter P xs) \<le> 1 \<Longrightarrow> x \<in> set xs \<Longrightarrow> y \<in> set xs \<Longrightarrow> P x \<Longrightarrow> P y \<Longrightarrow> x = y"
  by (induction xs) (auto simp: filter_empty_conv split: if_splits)

lemma delete_existing_link_eq:
  assumes "link_inv st" "sql_ok st"
  shows "delete_existing_link p r st = st\<lparr>st_links := filter (\<lambda>l. \<not> link_side p r l) (st_links st)\<rparr>"
proof (cases "find (link_side p r) (rev (st_links st))")
  case None
  then have "filter (\<lambda>l. \<not> link_side p r l) (st_links st) = st_links st" by (auto simp: find_None_iff filter_id_conv)
  then show ?thesis using None assms(2) by (simp add: delete_existing_link_def link_for_identity_def sql_ok_def)
next
  case (Some l)
  then have l: "l \<in> set (st_links st)" "link_side p r l" using find_SomeD by fastforce+
  have one: "length (filter (link_side p r) (st_links st)) \<le> 1" using assms(1) by (simp add: link_inv_def)
  have "(lk_id x \<noteq> lk_id l) = (\<not> link_side p r x)" if "x \<in> set (st_links st)" for x
  proof
    assume "lk_id x \<noteq> lk_id l"
    then show "\<not> link_side p r x" using filter_le1_unique[OF one that l(1)] l(2) by auto
  next
    assume "\<not> link_side p r x"
    then show "lk_id x \<noteq> lk_id l" using assms(1) that l by (auto simp: link_inv_def distinct_map inj_on_def)
  qed
  then have "filter (\<lambda>x. lk_id x \<noteq> lk_id l) (st_links st) = filter (\<lambda>x. \<not> link_side p r x) (st_links st)"
    by (rule filter_cong[OF refl])
  then show ?thesis using Some assms(2)
    by (simp add: delete_existing_link_def link_for_identity_def delete_link_def sql_ok_def)
qed

lemma link_inv_filter: "link_inv st \<Longrightarrow> link_inv (st\<lparr>st_links := filter P (st_links st)\<rparr>)"
proof -
  assume i: "link_inv st"
  have "length (filter (link_side p r) (filter P (st_links st))) \<le> length (filter (link_side p r) (st_links st))" for p r
  proof -
    have "filter (link_side p r) (filter P (st_links st)) = filter P (filter (link_side p r) (st_links st))"
      by (simp add: conj_commute)
    then show ?thesis by (metis length_filter_le)
  qed
  then have "length (filter (link_side p r) (filter P (st_links st))) \<le> 1" for p r
    using i unfolding link_inv_def by (meson order_trans)
  then show ?thesis using i by (auto simp: link_inv_def distinct_map_filter simp del: filter_filter)
qed

lemma delete_challenge_links [simp]:
  "st_links (snd (delete_challenge i st)) = st_links st" "st_next_link (snd (delete_challenge i st)) = st_next_link st"
  "sql_fails (snd (delete_challenge i st)) = sql_fails st"
  by (simp_all add: delete_challenge_def)

text \<open>
  One link per identity. When every identity takes part in at most one link, confirming a
  challenge consumes it, replaces whatever links either party had and leaves exactly one link for the
  target and one for the requester, the new one, with the challenge's display name; all other links
  are kept and every identity is again in at most one link.
\<close>

theorem confirm_link_replaces:
  assumes "link_inv st" "sql_ok st"
    and "T = link_side (ch_target_protocol c) (ch_target_ref c)" "R = link_side (ch_requester_protocol c) (ch_requester_ref c)"
  shows "\<exists>i st' l. confirm_link_store c now st = (Ok i, st') \<and> lk_id l = i \<and> lk_display_name l = ch_display_name c \<and>
    st_links st' = filter (\<lambda>l. \<not> T l \<and> \<not> R l) (st_links st) @ [l] \<and>
    filter T (st_links st') = [l] \<and> filter R (st_links st') = [l] \<and>
    (\<forall>x \<in> set (st_challenges st'). ch_id x \<noteq> ch_id c) \<and> link_inv st'"
proof -
  define st1 where "st1 = snd (delete_challenge (ch_id c) st)"
  have l1: "st_links st1 = st_links st" "st_next_link st1 = st_next_link st" by (simp_all add: st1_def)
  have i1: "link_inv st1" "sql_ok st1" using assms(1,2) by (simp_all add: link_inv_def l1 sql_ok_def st1_def)
  define st2 where "st2 = st1\<lparr>st_links := filter (\<lambda>l. \<not> T l) (st_links st1)\<rparr>"
  have i2: "link_inv st2" "sql_ok st2" using link_inv_filter[OF i1(1)] i1(2) by (simp_all add: st2_def sql_ok_def)
  define st3 where "st3 = st2\<lparr>st_links := filter (\<lambda>l. \<not> R l) (st_links st2)\<rparr>"
  have i3: "link_inv st3" "sql_ok st3" using link_inv_filter[OF i2(1)] i2(2) by (simp_all add: st3_def sql_ok_def)
  have l3: "st_links st3 = filter (\<lambda>l. \<not> T l \<and> \<not> R l) (st_links st)"
    by (simp add: st3_def st2_def l1 conj_commute)
  define l where "l = \<lparr>lk_id = st_next_link st3, lk_a_protocol = ch_target_protocol c, lk_a_ref = ch_target_ref c,
      lk_b_protocol = ch_requester_protocol c, lk_b_ref = ch_requester_ref c, lk_display_name = ch_display_name c, lk_verified_at = now\<rparr>"
  have tl: "T l" "R l" by (simp_all add: assms(3,4) l_def link_side_def)
  have none: "find (same_pair (ch_target_protocol c) (ch_target_ref c) (ch_requester_protocol c) (ch_requester_ref c)) (st_links st3) = None"
    by (auto simp: find_None_iff l3 assms(3) link_side_def same_pair_def)
  let ?st' = "st3\<lparr>st_links := st_links st3 @ [l], st_next_link := st_next_link st3 + 1\<rparr>"
  have e: "confirm_link_store c now st = (Ok (st_next_link st3), ?st')"
    using none i3(2) delete_existing_link_eq[OF i1] delete_existing_link_eq[OF i2]
    by (simp add: confirm_link_store_def Let_def insert_link_def sql_ok_def l_def st1_def[symmetric] st2_def[symmetric]
        st3_def[symmetric] assms(3,4)[symmetric])
  have "length (filter (link_side p r) (st_links ?st')) \<le> 1" for p r
  proof (cases "link_side p r l")
    case True
    then have "link_side p r = T \<or> link_side p r = R"
      by (auto simp: assms(3,4) l_def link_side_def fun_eq_iff)
    then have "filter (link_side p r) (st_links st3) = []" by (auto simp: l3 filter_empty_conv)
    then show ?thesis by simp
  next
    case False then show ?thesis using i3(1) by (simp add: link_inv_def)
  qed
  moreover have "distinct (map lk_id (st_links ?st'))" "\<forall>x \<in> set (st_links ?st'). lk_id x < st_next_link ?st'"
    using i3(1) by (auto simp: link_inv_def l_def)
  ultimately have "link_inv ?st'" by (simp add: link_inv_def)
  moreover have "\<forall>x \<in> set (st_challenges ?st'). ch_id x \<noteq> ch_id c"
    using assms(2) by (simp add: st3_def st2_def st1_def delete_challenge_def sql_ok_def)
  moreover have "filter T (st_links ?st') = [l]" "filter R (st_links ?st') = [l]"
    using tl by (auto simp: l3 filter_empty_conv)
  ultimately show ?thesis using e l3 by (intro exI[of _ "st_next_link st3"] exI[of _ ?st'] exI[of _ l]) (simp add: l_def)
qed

definition challenge_demo :: challenge where
  "challenge_demo = \<lparr>ch_id = 1, ch_code = ''000111'', ch_target_protocol = ''signal'', ch_target_ref = ''bob'',
     ch_requester_protocol = ''mqtt'', ch_requester_ref = ''al'', ch_display_name = ''Al'', ch_created_at = 0, ch_expires_at = 100\<rparr>"

theorem confirm_link_replaces_witness:
  "\<exists>i st' l. confirm_link_store challenge_demo 9
     (snd (insert_link ''signal'' ''bob'' ''mqtt'' ''eve'' ''Eve'' 1 (store_empty no_fails))) = (Ok i, st') \<and> st_links st' = [l] \<and>
     lk_display_name l = ''Al''"
proof -
  let ?st = "snd (insert_link ''signal'' ''bob'' ''mqtt'' ''eve'' ''Eve'' 1 (store_empty no_fails))"
  have i: "link_inv ?st" "sql_ok ?st"
    by (simp_all add: insert_link_def store_empty_def no_fails_def link_inv_def sql_ok_def)
  have "filter (\<lambda>l. \<not> link_side ''signal'' ''bob'' l \<and> \<not> link_side ''mqtt'' ''al'' l) (st_links ?st) = []"
    by (simp add: insert_link_def store_empty_def no_fails_def link_side_def)
  then show ?thesis
    using confirm_link_replaces[OF i refl refl, of challenge_demo 9] by (auto simp: challenge_demo_def)
qed

subsection \<open>Guessing codes\<close>

fun wrong_guesses :: "string \<Rightarrow> string \<Rightarrow> instant list \<Rightarrow> daemon \<Rightarrow> daemon" where
  "wrong_guesses plugin sender [] d = d"
| "wrong_guesses plugin sender (t # ts) d = wrong_guesses plugin sender ts (note_failed_link_guess t plugin sender d)"

definition guess_state :: "string \<Rightarrow> nat \<Rightarrow> instant \<Rightarrow> daemon \<Rightarrow> bool" where
  "guess_state key n first d \<longleftrightarrow> distinct (map fst (dm_guesses d)) \<and> length (dm_guesses d) < LINK_CODE_MAP_MAX \<and>
     (if n = 0 then map_of (dm_guesses d) key = None \<and> length (dm_guesses d) + 1 < LINK_CODE_MAP_MAX
      else map_of (dm_guesses d) key = Some (n, first))"

lemma map_of_retain:
  "distinct (map fst m) \<Longrightarrow> map_of (filter (\<lambda>(_, _, f). P f) m) k =
     (case map_of m k of None \<Rightarrow> None | Some (n, f) \<Rightarrow> if P f then Some (n, f) else None)"
proof (induction m)
  case (Cons e m)
  obtain a n f where e: "e = (a, n, f)" by (cases e)
  have "a = k \<Longrightarrow> map_of m k = None" using Cons.prems by (auto simp: e map_of_eq_None_iff)
  then show ?case using Cons by (auto simp: e)
qed simp

lemma length_alist_put_present:
  "distinct (map fst m) \<Longrightarrow> map_of m k = Some w \<Longrightarrow> length (alist_put k v m) = length m"
proof (induction m)
  case (Cons e m)
  obtain a b where e: "e = (a, b)" by (cases e)
  show ?case
  proof (cases "a = k")
    case True
    then have "filter (\<lambda>e. fst e \<noteq> k) m = m" using Cons.prems(1) by (auto simp: e filter_id_conv)
    then show ?thesis using True by (simp add: alist_put_def e)
  qed (use Cons in \<open>simp add: alist_put_def e\<close>)
qed simp

lemma length_alist_put_le: "length (alist_put k v m) \<le> Suc (length m)"
  by (simp add: alist_put_def)

lemma note_guess_below:
  assumes "guess_state (p @ ''|'' @ s) n first d" "Suc n < LINK_CODE_MAX_GUESSES" "n > 0 \<longrightarrow> t - first < LINK_CODE_WINDOW"
  shows "guess_state (p @ ''|'' @ s) (Suc n) (if n = 0 then t else first) (note_failed_link_guess t p s d)"
    and "dm_store (note_failed_link_guess t p s d) = dm_store d"
proof -
  let ?k = "p @ ''|'' @ s"
  let ?m1 = "filter (\<lambda>(_, _, f). t - f < LINK_CODE_WINDOW) (dm_guesses d)"
  have dist: "distinct (map fst ?m1)" using assms(1) by (simp add: guess_state_def distinct_map_filter)
  have le: "length ?m1 \<le> length (dm_guesses d)" by (rule length_filter_le)
  have len: "length ?m1 < LINK_CODE_MAP_MAX" using le assms(1) unfolding guess_state_def by linarith
  have len0: "Suc (length ?m1) < LINK_CODE_MAP_MAX" if n0: "n = 0"
  proof -
    have "length (dm_guesses d) + 1 < LINK_CODE_MAP_MAX" using assms(1) n0 by (simp add: guess_state_def)
    then show ?thesis using le by linarith
  qed
  have look: "map_of ?m1 ?k = (if n = 0 then None else Some (n, first))"
    using assms(1,3) map_of_retain[of "dm_guesses d" "\<lambda>f. t - f < LINK_CODE_WINDOW" ?k] by (auto simp: guess_state_def split: if_splits)
  let ?v = "(Suc n, if n = 0 then t else first)"
  have g: "dm_guesses (note_failed_link_guess t p s d) = alist_put ?k ?v ?m1"
    and st: "dm_store (note_failed_link_guess t p s d) = dm_store d"
    using look len assms(2) by (auto simp: note_failed_link_guess_def Let_def)
  have "length (alist_put ?k ?v ?m1) < LINK_CODE_MAP_MAX"
  proof (cases "n = 0")
    case True then show ?thesis using len0 length_alist_put_le[of ?k ?v ?m1] by simp
  next
    case False then show ?thesis using len length_alist_put_present[OF dist, of ?k "(n, first)" ?v] look by simp
  qed
  then show "guess_state ?k (Suc n) (if n = 0 then t else first) (note_failed_link_guess t p s d)"
    using dist by (simp add: guess_state_def g)
  show "dm_store (note_failed_link_guess t p s d) = dm_store d" by (rule st)
qed

lemma note_guess_last:
  assumes "guess_state (p @ ''|'' @ s) n first d" "Suc n = LINK_CODE_MAX_GUESSES" "n > 0" "t - first < LINK_CODE_WINDOW"
  shows "dm_store (note_failed_link_guess t p s d) = snd (delete_challenges_for_target p s (dm_store d))"
proof -
  have "map_of (filter (\<lambda>(_, _, f). t - f < LINK_CODE_WINDOW) (dm_guesses d)) (p @ ''|'' @ s) = Some (n, first)"
    using assms map_of_retain[of "dm_guesses d" "\<lambda>f. t - f < LINK_CODE_WINDOW" "p @ ''|'' @ s"] by (simp add: guess_state_def)
  moreover have "length (filter (\<lambda>(_, _, f). t - f < LINK_CODE_WINDOW) (dm_guesses d)) < LINK_CODE_MAP_MAX"
    using assms(1) le_less_trans[OF length_filter_le] unfolding guess_state_def by blast
  ultimately show ?thesis using assms(2) by (simp add: note_failed_link_guess_def Let_def)
qed

text \<open>
  Guessing is bounded. Up to four wrong codes from a sender within the challenge window leave the
  database as it is; the fifth revokes every challenge of that sender, so no more than five guesses
  are ever made against one challenge within the window, whatever the other senders do to the counter below
  its size bound.
\<close>

theorem wrong_codes_revoke:
  assumes "distinct (map fst (dm_guesses d))" "length (dm_guesses d) + 1 < LINK_CODE_MAP_MAX"
    and "map_of (dm_guesses d) (p @ ''|'' @ s) = None" "sql_ok (dm_store d)"
    and "t2 - t1 < LINK_CODE_WINDOW" "t3 - t1 < LINK_CODE_WINDOW" "t4 - t1 < LINK_CODE_WINDOW" "t5 - t1 < LINK_CODE_WINDOW"
  shows "dm_store (wrong_guesses p s [t1, t2, t3, t4] d) = dm_store d \<and>
    filter (for_target p s) (st_challenges (dm_store (wrong_guesses p s [t1, t2, t3, t4, t5] d))) = []"
proof -
  let ?k = "p @ ''|'' @ s"
  have g0: "guess_state ?k 0 t1 d" using assms(1-3) by (simp add: guess_state_def)
  note step = note_guess_below[of p s]
  let ?d1 = "note_failed_link_guess t1 p s d" let ?d2 = "note_failed_link_guess t2 p s ?d1"
  let ?d3 = "note_failed_link_guess t3 p s ?d2" let ?d4 = "note_failed_link_guess t4 p s ?d3"
  have g1: "guess_state ?k 1 t1 ?d1" "dm_store ?d1 = dm_store d"
    using step[OF g0, of t1] by (simp_all add: LINK_CODE_MAX_GUESSES_def)
  have g2: "guess_state ?k 2 t1 ?d2" "dm_store ?d2 = dm_store d"
    using step[OF g1(1), of t2] assms(5) g1(2) by (simp_all add: LINK_CODE_MAX_GUESSES_def numeral_2_eq_2)
  have g3: "guess_state ?k 3 t1 ?d3" "dm_store ?d3 = dm_store d"
    using step[OF g2(1), of t3] assms(6) g2(2) by (simp_all add: LINK_CODE_MAX_GUESSES_def numeral_3_eq_3 numeral_2_eq_2)
  have g4: "guess_state ?k 4 t1 ?d4" "dm_store ?d4 = dm_store d"
    using step[OF g3(1), of t4] assms(7) g3(2) by (simp_all add: LINK_CODE_MAX_GUESSES_def eval_nat_numeral)
  have "dm_store (note_failed_link_guess t5 p s ?d4) = snd (delete_challenges_for_target p s (dm_store d))"
    using note_guess_last[OF g4(1) _ _ assms(8)] g4(2) by (simp add: LINK_CODE_MAX_GUESSES_def)
  then show ?thesis using g4(2) assms(4)
    by (simp add: delete_challenges_for_target_def sql_ok_def)
qed

theorem wrong_codes_revoke_witness:
  "filter (for_target ''signal'' ''bob'') (st_challenges (dm_store (wrong_guesses ''signal'' ''bob'' [1, 2, 3, 4, 5]
     (daemon_demo cfg_demo ((store_empty no_fails)\<lparr>st_challenges := [challenge_demo]\<rparr>))))) = []"
proof -
  let ?d = "daemon_demo cfg_demo ((store_empty no_fails)\<lparr>st_challenges := [challenge_demo]\<rparr>)"
  have "dm_guesses ?d = []" "sql_ok (dm_store ?d)"
    by (simp_all add: daemon_demo_def sql_ok_def store_empty_def no_fails_def)
  then show ?thesis
    using wrong_codes_revoke[of ?d "''signal''" "''bob''" 2 1 3 4 5]
    by (simp add: LINK_CODE_WINDOW_def LINK_CODE_MAP_MAX_def secs_def ns_per_sec_def)
qed

end
