(* ===== verification/Fed_Props.thy ===== *)
theory Fed_Props
  imports Ingress_Props
begin

text \<open>
  Properties of federation ingress: what an accepted envelope has passed and adds, what a rejected one
  may leave behind, and that an envelope is accepted at most once over both paths.
\<close>

subsection \<open>Federation ingress only adds rows\<close>

lemma warn_pre_trust_frame [simp]:
  "dm_store (warn_pre_trust_rejection t p d) = dm_store d" "dm_cas (warn_pre_trust_rejection t p d) = dm_cas d"
  "dm_sent (warn_pre_trust_rejection t p d) = dm_sent d" "dm_fed_sent (warn_pre_trust_rejection t p d) = dm_fed_sent d"
  "dm_dedup (warn_pre_trust_rejection t p d) = dm_dedup d"
  "dm_sender_limiter (warn_pre_trust_rejection t p d) = dm_sender_limiter d"
  "dm_cfg (warn_pre_trust_rejection t p d) = dm_cfg d"
  by (simp_all add: warn_pre_trust_rejection_def)

lemma reject_outcome [simp]: "fst (reject t now env rt peer r pe d) = Rejected r"
  by (auto simp: reject_def Let_def on_store_eq split: sum.splits)

lemma reject_leaves [simp]:
  "dm_cas (snd (reject t now env rt peer r pe d)) = dm_cas d" "dm_sent (snd (reject t now env rt peer r pe d)) = dm_sent d"
  "dm_fed_sent (snd (reject t now env rt peer r pe d)) = dm_fed_sent d" "dm_cfg (snd (reject t now env rt peer r pe d)) = dm_cfg d"
  "dm_dedup (snd (reject t now env rt peer r pe d)) = dm_dedup d"
  "dm_sender_limiter (snd (reject t now env rt peer r pe d)) = dm_sender_limiter d"
  by (auto simp: reject_def Let_def on_store_eq split: sum.splits)

lemma reject_store:
  "dm_store (snd (reject t now env rt peer r pe d)) =
    (if pe = NoPersist \<or> \<not> is_ok (fst (insert_message env (dm_store d))) then dm_store d
     else snd (insert_dead_delivery now (env_id env) rt \<lparr>ep_protocol = ''fed'', ep_endpoint = short_node_id peer\<rparr>
            now (env_expires_at env) r (snd (insert_message env (dm_store d)))))"
  by (auto simp: reject_def Let_def on_store_eq is_ok_def insert_message_def split: sum.splits)

lemma reject_steps: "ingress_steps (dm_store d) (dm_store (snd (reject t now env rt peer r pe d)))"
  by (auto simp: reject_store intro: ingress_intros ingress_steps_trans[OF ingress_intros(1)])

lemma persist_steps: "ingress_steps (dm_store d) (dm_store (snd (persist_and_fan_out now env rt rc m d)))"
proof -
  have m: "ingress_steps (dm_store d) (snd (insert_message env (dm_store d)))" by (rule ingress_intros)
  let ?d1 = "d\<lparr>dm_store := snd (insert_message env (dm_store d))\<rparr>"
  have "ingress_steps (dm_store d) (dm_store (snd (fan_out_deliveries now i ex rk tg rm gm ?d1)))" for i ex rk tg rm gm
    using ingress_steps_trans[OF m] fan_out_steps[of ?d1] by simp
  then show ?thesis
    using m by (auto simp: persist_and_fan_out_def Let_def on_store_eq case_prod_unfold split: sum.splits)
qed

lemma persist_frame [simp]:
  "dm_cas (snd (persist_and_fan_out now env rt rc m d)) = dm_cas d"
  "dm_sent (snd (persist_and_fan_out now env rt rc m d)) = dm_sent d"
  "dm_fed_sent (snd (persist_and_fan_out now env rt rc m d)) = dm_fed_sent d"
  "dm_cfg (snd (persist_and_fan_out now env rt rc m d)) = dm_cfg d"
  by (auto simp: persist_and_fan_out_def Let_def on_store_eq case_prod_unfold split: sum.splits)

lemma persist_rejected:
  "persist_and_fan_out now env rt rc m d = (Rejected r, d') \<Longrightarrow> r = ''STORAGE_ERROR'' \<and> dm_store d' = dm_store d \<and>
     dm_sent d' = dm_sent d \<and> dm_fed_sent d' = dm_fed_sent d \<and> dm_cas d' = dm_cas d"
  by (auto simp: persist_and_fan_out_def Let_def on_store_eq case_prod_unfold insert_message_def split: sum.splits if_splits)

lemma sealed_reject_frame [simp]:
  "dm_store (snd (sealed_reject t p r d)) = dm_store d" "dm_cas (snd (sealed_reject t p r d)) = dm_cas d"
  "dm_sent (snd (sealed_reject t p r d)) = dm_sent d" "dm_fed_sent (snd (sealed_reject t p r d)) = dm_fed_sent d"
  "fst (sealed_reject t p r d) = Rejected r" "dm_cfg (snd (sealed_reject t p r d)) = dm_cfg d"
  by (simp_all add: sealed_reject_def Let_def)

text \<open>The three exits of \<open>fed_ingress\<close> behind its gates.\<close>

definition fed_sender_key :: "string \<Rightarrow> envelope \<Rightarrow> string" where
  "fed_sender_key peer env = ''fed|'' @ short_node_id peer @ '':'' @ env_native_ref env"

definition fed_bytes :: "envelope \<Rightarrow> u64" where
  "fed_bytes env = sender_bytes_of (env_body env) (map am_size (env_attachments env))"

lemma fed_ingress_cases:
  assumes "g = fed_gates X now peer rt (env0\<lparr>env_priority := ''normal''\<rparr>) d"
  shows "g = Inl (r, pe, env) \<Longrightarrow> fed_ingress X t now peer env0 rt d = reject t now env rt peer r pe d"
    and "g = Inr (env, rc) \<Longrightarrow> fst (is_duplicate (env_id env) t (dm_dedup d)) \<or> message_exists (env_id env) d \<Longrightarrow>
      fed_ingress X t now peer env0 rt d =
        (Rejected ''DUPLICATE'', inc DUPLICATES (d\<lparr>dm_dedup := snd (is_duplicate (env_id env) t (dm_dedup d))\<rparr>))"
    and "g = Inr (env, rc) \<Longrightarrow> \<not> (fst (is_duplicate (env_id env) t (dm_dedup d)) \<or> message_exists (env_id env) d) \<Longrightarrow>
      \<exists>sl dd. fed_ingress X t now peer env0 rt d =
        (if fst (sender_allow (fed_sender_key peer env) (fed_bytes env) t (dm_sender_limiter d))
         then persist_and_fan_out now (env\<lparr>env_received_at := now\<rparr>) rt rc FED_INGRESS (d\<lparr>dm_sender_limiter := sl, dm_dedup := dd\<rparr>)
         else (Rejected ''RATE_LIMITED'', inc RATELIMITED (d\<lparr>dm_dedup := dd, dm_sender_limiter := sl\<rparr>)))"
proof -
  obtain dup dd where D: "is_duplicate (env_id env) t (dm_dedup d) = (dup, dd)" by fastforce
  obtain al sl where A: "sender_allow (fed_sender_key peer env) (fed_bytes env) t (dm_sender_limiter d) = (al, sl)" by fastforce
  note A' = A[unfolded fed_sender_key_def fed_bytes_def]
  show "g = Inl (r, pe, env) \<Longrightarrow> fed_ingress X t now peer env0 rt d = reject t now env rt peer r pe d"
    using assms by (simp add: fed_ingress_def)
  show "g = Inr (env, rc) \<Longrightarrow> fst (is_duplicate (env_id env) t (dm_dedup d)) \<or> message_exists (env_id env) d \<Longrightarrow>
      fed_ingress X t now peer env0 rt d =
        (Rejected ''DUPLICATE'', inc DUPLICATES (d\<lparr>dm_dedup := snd (is_duplicate (env_id env) t (dm_dedup d))\<rparr>))"
    using assms D by (auto simp: fed_ingress_def Let_def message_exists_def)
  assume g: "g = Inr (env, rc)" and n: "\<not> (fst (is_duplicate (env_id env) t (dm_dedup d)) \<or> message_exists (env_id env) d)"
  show "\<exists>sl dd. fed_ingress X t now peer env0 rt d =
        (if fst (sender_allow (fed_sender_key peer env) (fed_bytes env) t (dm_sender_limiter d))
         then persist_and_fan_out now (env\<lparr>env_received_at := now\<rparr>) rt rc FED_INGRESS (d\<lparr>dm_sender_limiter := sl, dm_dedup := dd\<rparr>)
         else (Rejected ''RATE_LIMITED'', inc RATELIMITED (d\<lparr>dm_dedup := dd, dm_sender_limiter := sl\<rparr>)))"
    using g n assms D A A'
    by (intro exI[of _ sl] exI[of _ "if al then dedup_record (env_id env) t dd else dd"], cases al)
       (simp_all add: fed_ingress_def Let_def message_exists_def)
qed

lemma fed_ingress_steps: "ingress_steps (dm_store d) (dm_store (snd (fed_ingress X t now peer env0 rt d)))"
proof (cases "fed_gates X now peer rt (env0\<lparr>env_priority := ''normal''\<rparr>) d")
  case (Inl e)
  obtain r pe env where e: "e = (r, pe, env)" by (cases e)
  show ?thesis unfolding fed_ingress_cases(1)[OF refl Inl[unfolded e]] by (rule reject_steps)
next
  case (Inr p)
  obtain env rc where p: "p = (env, rc)" by (cases p)
  note c = fed_ingress_cases(2,3)[OF refl Inr[unfolded p]]
  have s: "ingress_steps (dm_store d) (dm_store (snd (persist_and_fan_out now e rt rc m (d\<lparr>dm_sender_limiter := sl, dm_dedup := dd\<rparr>))))" for e m sl dd
    using persist_steps[of "d\<lparr>dm_sender_limiter := sl, dm_dedup := dd\<rparr>"] by simp
  show ?thesis
  proof (cases "fst (is_duplicate (env_id env) t (dm_dedup d)) \<or> message_exists (env_id env) d")
    case True then show ?thesis using c(1) by simp
  next
    case False
    from c(2)[OF this] obtain sl dd where e: "fed_ingress X t now peer env0 rt d =
        (if fst (sender_allow (fed_sender_key peer env) (fed_bytes env) t (dm_sender_limiter d))
         then persist_and_fan_out now (env\<lparr>env_received_at := now\<rparr>) rt rc FED_INGRESS (d\<lparr>dm_sender_limiter := sl, dm_dedup := dd\<rparr>)
         else (Rejected ''RATE_LIMITED'', inc RATELIMITED (d\<lparr>dm_dedup := dd, dm_sender_limiter := sl\<rparr>)))" by blast
    show ?thesis unfolding e using s by simp
  qed
qed


subsection \<open>What an accepted envelope has passed\<close>

definition last_signer :: "envelope \<Rightarrow> string option" where
  "last_signer env = (if env_attestations env \<noteq> [] then Some (at_node_id (last (env_attestations env)))
                      else map_option os_node_id (env_origin env))"

definition peer_level :: "string \<Rightarrow> store \<Rightarrow> string" where
  "peer_level peer st = (case trust_level peer st of Inr (Some l) \<Rightarrow> l | _ \<Rightarrow> ''unknown'')"

text \<open>The chain of an envelope as the policy of a federation block wants it.\<close>

definition chain_admitted :: "ext \<Rightarrow> string \<Rightarrow> federation_config \<Rightarrow> store \<Rightarrow> envelope \<Rightarrow> bool" where
  "chain_admitted X peer fc st env \<longleftrightarrow>
     trust_rank (fc_accept_from fc) \<le> trust_rank (peer_level peer st) \<and>
     verify_chain X env = Ok () \<and> last_signer env = Some peer \<and> length (env_attestations env) \<le> unat (fc_max_hops fc)"

text \<open>The creation time within the replay bound, and the clamped expiry.\<close>

definition within_replay_bound :: "ext \<Rightarrow> datetime \<Rightarrow> federation_config \<Rightarrow> datetime \<Rightarrow> int \<Rightarrow> bool" where
  "within_replay_bound X now fc created ttl \<longleftrightarrow>
     x_try_seconds X (as_i64 (fc_max_ttl_secs fc)) = Some ttl \<and>
     (\<exists>dl. x_checked_add X created ttl = Some dl \<and> now \<le> dl) \<and> created \<le> now + csecs MAX_CREATED_AT_SKEW_SECS"

lemma chain_shape_signed:
  "check_chain_shape env peer mh = Inr u \<Longrightarrow> verify_chain X env = Ok v \<Longrightarrow>
   last_signer env = Some peer \<and> length (env_attestations env) \<le> unat mh"
  by (auto simp: check_chain_shape_def last_signer_def verify_chain_def verify_origin_def Let_def
      split: if_splits option.splits)

lemma is_ok_unit: "is_ok (r :: 'e + unit) \<longleftrightarrow> r = Ok ()"
  by (simp add: is_ok_def split: sum.splits)

lemma bound_replay_ok:
  "bound_replay_and_clamp_ttl X now (fc_max_ttl_secs fc) env = Inr env1 \<Longrightarrow>
   \<exists>ttl. within_replay_bound X now fc (env_created_at env) ttl \<and> env1 = env\<lparr>env_expires_at := min (env_expires_at env) (now + ttl)\<rparr>"
  by (auto simp: bound_replay_and_clamp_ttl_def within_replay_bound_def not_less min_absorb1 min_absorb2 split: option.splits if_splits)

lemma fed_gates_ok:
  assumes "fed_gates X now peer rt env d = Inr (env1, rc)"
  shows "\<exists>fc ttl. cf_federation (dm_cfg d) = Some fc \<and> chain_admitted X peer fc (dm_store d) env \<and>
    within_replay_bound X now fc (env_created_at env) ttl \<and> env1 = env\<lparr>env_expires_at := min (env_expires_at env) (now + ttl)\<rparr> \<and>
    env_hops env < fc_max_hops fc \<and> rt \<in> set (fc_ingress_routes fc) \<and> route_cfg (dm_cfg d) rt = Some rc"
proof -
  from assms obtain fc where fc: "cf_federation (dm_cfg d) = Some fc" by (auto simp: fed_gates_def split: option.splits)
  from assms have a: "\<not> fed_trust_denied peer (fc_accept_from fc) d"
    and b: "check_chain_shape env peer (fc_max_hops fc) = Inr ()" and c: "verify_chain X env = Ok ()"
    and e: "bound_replay_and_clamp_ttl X now (fc_max_ttl_secs fc) env = Inr env1"
    and f: "env_hops env1 < fc_max_hops fc" "rt \<in> set (fc_ingress_routes fc)" "route_cfg (dm_cfg d) rt = Some rc"
    by (auto simp: fed_gates_def fc is_ok_unit not_le split: if_splits sum.splits option.splits)
  from bound_replay_ok[OF e] obtain ttl where ttl: "within_replay_bound X now fc (env_created_at env) ttl"
    "env1 = env\<lparr>env_expires_at := min (env_expires_at env) (now + ttl)\<rparr>" by blast
  have "chain_admitted X peer fc (dm_store d) env"
    using a c chain_shape_signed[OF b c] by (simp add: chain_admitted_def peer_level_def fed_trust_denied_def)
  then show ?thesis using fc ttl f by auto
qed

definition readable :: "store \<Rightarrow> bool" where
  "readable st \<longleftrightarrow> (\<forall>r \<in> set (st_messages st). mr_envelope r \<noteq> None)"

lemma message_exists_iff:
  "sql_ok (dm_store d) \<Longrightarrow> readable (dm_store d) \<Longrightarrow> message_exists i d \<longleftrightarrow> i \<in> live_ids (dm_store d)"
  by (force simp: message_exists_def get_message_def sql_ok_def readable_def live_ids_def find_None_iff
      split: option.splits dest: find_SomeD)

text \<open>What storing and fanning out an accepted envelope leaves in the database.\<close>

lemma persist_accepted:
  assumes "persist_and_fan_out now env rt rc m d = (Accepted i, d')" and ok: "sql_ok (dm_store d)"
    and fr: "env_id env \<notin> live_ids (dm_store d)"
  shows "i = env_id env \<and>
    st_messages (dm_store d') = st_messages (dm_store d) @ [\<lparr>mr_id = i, mr_envelope = Some env, mr_created_at = env_created_at env\<rparr>] \<and>
    (\<exists>rows. st_deliveries (dm_store d') = st_deliveries (dm_store d) @ rows \<and>
      list_all2 (target_row now i (env_expires_at env) (priority_rank (env_priority env))) (map (Pair rt) (rc_destinations rc)) rows)"
proof -
  let ?row = "\<lparr>mr_id = env_id env, mr_envelope = Some env, mr_created_at = env_created_at env\<rparr>"
  let ?d1 = "d\<lparr>dm_store := (dm_store d)\<lparr>st_messages := st_messages (dm_store d) @ [?row]\<rparr>\<rparr>"
  have im: "insert_message env (dm_store d) = (Ok (), (dm_store d)\<lparr>st_messages := st_messages (dm_store d) @ [?row]\<rparr>)"
    using ok fr by (simp add: insert_message_def sql_ok_def live_ids_def)
  let ?fo = "fan_out_deliveries now (env_id env) (env_expires_at env) (priority_rank (env_priority env)) (map (Pair rt) (rc_destinations rc))
            (lim_route_queue_max (cf_limits (dm_cfg d))) (lim_global_queue_max (cf_limits (dm_cfg d))) ?d1"
  have e: "i = env_id env" "dm_store d' = dm_store (snd ?fo)"
    using assms(1) by (auto simp: persist_and_fan_out_def im on_store_eq Let_def case_prod_unfold)
  have "sql_ok (dm_store ?d1)" "env_id env \<in> live_ids (dm_store ?d1)" using ok by (simp_all add: sql_ok_def live_ids_def)
  note fan_out_rows[OF this, of now "env_expires_at env" "priority_rank (env_priority env)" "map (Pair rt) (rc_destinations rc)"
      "lim_route_queue_max (cf_limits (dm_cfg d))" "lim_global_queue_max (cf_limits (dm_cfg d))"]
  then show ?thesis unfolding e by force
qed


lemma chain_admitted_priority [simp]:
  "chain_admitted X peer fc st (env\<lparr>env_priority := p\<rparr>) = chain_admitted X peer fc st env"
  by (simp add: chain_admitted_def last_signer_def)

lemma fed_accept_inv:
  assumes "fed_ingress X t now peer env0 rt d = (Accepted i, d')"
  shows "\<exists>env rc sl dd. fed_gates X now peer rt (env0\<lparr>env_priority := ''normal''\<rparr>) d = Inr (env, rc) \<and> \<not> message_exists (env_id env) d \<and>
    \<not> fst (is_duplicate (env_id env) t (dm_dedup d)) \<and>
    persist_and_fan_out now (env\<lparr>env_received_at := now\<rparr>) rt rc FED_INGRESS (d\<lparr>dm_sender_limiter := sl, dm_dedup := dd\<rparr>) = (Accepted i, d')"
proof (cases "fed_gates X now peer rt (env0\<lparr>env_priority := ''normal''\<rparr>) d")
  case (Inl e)
  obtain r pe env where e: "e = (r, pe, env)" by (cases e)
  have "fst (fed_ingress X t now peer env0 rt d) = Rejected r"
    unfolding fed_ingress_cases(1)[OF refl Inl[unfolded e]] by simp
  then show ?thesis using assms by simp
next
  case (Inr p)
  obtain env rc where p: "p = (env, rc)" by (cases p)
  note c = fed_ingress_cases(2,3)[OF refl Inr[unfolded p], of t]
  have n: "\<not> (fst (is_duplicate (env_id env) t (dm_dedup d)) \<or> message_exists (env_id env) d)"
    using c(1) assms by auto
  from c(2)[OF n] obtain sl dd where "fed_ingress X t now peer env0 rt d =
        (if fst (sender_allow (fed_sender_key peer env) (fed_bytes env) t (dm_sender_limiter d))
         then persist_and_fan_out now (env\<lparr>env_received_at := now\<rparr>) rt rc FED_INGRESS (d\<lparr>dm_sender_limiter := sl, dm_dedup := dd\<rparr>)
         else (Rejected ''RATE_LIMITED'', inc RATELIMITED (d\<lparr>dm_dedup := dd, dm_sender_limiter := sl\<rparr>)))" by blast
  then show ?thesis using n assms Inr p by (cases "fst (sender_allow (fed_sender_key peer env) (fed_bytes env) t (dm_sender_limiter d))") auto
qed

text \<open>
  C6: A federated envelope is accepted only through every gate. When \<open>fed_ingress\<close> accepts an envelope
  from a peer, federation is configured, the peer's trust level reaches \<open>accept_from\<close>, the origin
  signature and every attestation verify, the last signer is the peer itself, the chain and the hop count
  are within \<open>max_hops\<close>, the creation time is within the replay bound, the route is listed for ingress
  and the identifier is new. The envelope is then stored with normal priority whatever it claimed, its
  expiry clamped to the local maximum, and exactly one row per destination of that route is added at
  normal rank.
\<close>

theorem fed_accept_safe:
  assumes "fed_ingress X t now peer env0 rt d = (Accepted i, d')" "sql_ok (dm_store d)" "readable (dm_store d)"
  shows "\<exists>fc rc ttl env rows. i = env_id env0 \<and> i \<notin> live_ids (dm_store d) \<and> cf_federation (dm_cfg d) = Some fc \<and>
    chain_admitted X peer fc (dm_store d) env0 \<and> within_replay_bound X now fc (env_created_at env0) ttl \<and>
    env_hops env0 < fc_max_hops fc \<and> rt \<in> set (fc_ingress_routes fc) \<and> route_cfg (dm_cfg d) rt = Some rc \<and>
    env = env0\<lparr>env_priority := ''normal'', env_expires_at := min (env_expires_at env0) (now + ttl), env_received_at := now\<rparr> \<and>
    st_messages (dm_store d') = st_messages (dm_store d) @ [\<lparr>mr_id = i, mr_envelope = Some env, mr_created_at = env_created_at env0\<rparr>] \<and>
    st_deliveries (dm_store d') = st_deliveries (dm_store d) @ rows \<and>
    list_all2 (target_row now i (env_expires_at env) 2) (map (Pair rt) (rc_destinations rc)) rows"
proof -
  from fed_accept_inv[OF assms(1)] obtain env rc sl dd where
    g: "fed_gates X now peer rt (env0\<lparr>env_priority := ''normal''\<rparr>) d = Inr (env, rc)" and n: "\<not> message_exists (env_id env) d"
    and p: "persist_and_fan_out now (env\<lparr>env_received_at := now\<rparr>) rt rc FED_INGRESS (d\<lparr>dm_sender_limiter := sl, dm_dedup := dd\<rparr>) = (Accepted i, d')"
    by blast
  from fed_gates_ok[OF g] obtain fc ttl where fc: "cf_federation (dm_cfg d) = Some fc" "chain_admitted X peer fc (dm_store d) env0"
    "within_replay_bound X now fc (env_created_at env0) ttl" "env_hops env0 < fc_max_hops fc" "rt \<in> set (fc_ingress_routes fc)"
    "route_cfg (dm_cfg d) rt = Some rc"
    and env: "env = env0\<lparr>env_priority := ''normal'', env_expires_at := min (env_expires_at env0) (now + ttl)\<rparr>" by auto
  have fr: "env_id env0 \<notin> live_ids (dm_store d)" using n assms(2,3) by (simp add: message_exists_iff env)
  have rank: "priority_rank ''normal'' = 2" by (simp add: priority_rank_def PRIORITY_CLASSES_def)
  have acc: "i = env_id env0 \<and>
    st_messages (dm_store d') = st_messages (dm_store d) @ [\<lparr>mr_id = i, mr_envelope = Some (env\<lparr>env_received_at := now\<rparr>), mr_created_at = env_created_at env0\<rparr>] \<and>
    (\<exists>rows. st_deliveries (dm_store d') = st_deliveries (dm_store d) @ rows \<and>
      list_all2 (target_row now i (env_expires_at env) 2) (map (Pair rt) (rc_destinations rc)) rows)"
    using persist_accepted[OF p] assms(2) fr rank by (auto simp: env)
  then show ?thesis using fc fr by (auto simp: env)
qed

definition fed_demo :: "string \<Rightarrow> federation_config" where
  "fed_demo peer = \<lparr>fc_listen = None, fc_accept_from = ''verified'', fc_max_hops = 4, fc_max_ttl_secs = 3600,
     fc_identity_exposure = ''pseudonymous'', fc_ingress_routes = [''demo''], fc_peers = [], fc_trusted = [peer], fc_blocked = []\<rparr>"

definition peer_demo :: string where
  "peer_demo = identity_node_id ext_demo ''k0''"

definition env_demo :: envelope where
  "env_demo = (sample_env ''text'' ''hi'')\<lparr>env_origin := Some (sign_origin ext_demo (sample_env ''text'' ''hi'') ''k0''), env_priority := ''emergency''\<rparr>"

definition daemon_fed :: daemon where
  "daemon_fed = daemon_demo (cfg_demo\<lparr>cf_federation := Some (fed_demo peer_demo)\<rparr>)
     ((store_empty no_fails)\<lparr>st_trust := [\<lparr>tr_node_id = peer_demo, tr_level = ''trusted'', tr_first_seen = 0, tr_updated_at = 0\<rparr>]\<rparr>)"


lemma env_demo_signed: "verify_chain ext_demo env_demo = Ok ()" "env_attestations env_demo = []"
proof -
  show a: "env_attestations env_demo = []" by (simp add: env_demo_def sample_env_def envelope_new_def)
  let ?s = "sample_env ''text'' ''hi''"
  have "verify_chain ext_demo (?s\<lparr>env_origin := Some (sign_origin ext_demo ?s ''k0'')\<rparr>) = Ok ()"
    using verify_origin_sign[OF ed25519_demo, of ?s "''k0''"]
    by (simp add: verify_chain_def) (simp add: sample_env_def envelope_new_def)
  then show "verify_chain ext_demo env_demo = Ok ()" by (simp add: env_demo_def)
qed

lemma fed_demo_gates:
  "fed_gates ext_demo 5 peer_demo ''demo'' (env_demo\<lparr>env_priority := ''normal''\<rparr>) daemon_fed =
     Inr (env_demo\<lparr>env_priority := ''normal''\<rparr>, hd (cf_routes cfg_demo))"
proof -
  let ?e = "env_demo\<lparr>env_priority := ''normal''\<rparr>"
  have "\<not> fed_trust_denied peer_demo ''verified'' daemon_fed"
    by (simp add: fed_trust_denied_def daemon_fed_def daemon_demo_def trust_level_def store_empty_def no_fails_def trust_rank_def)
  moreover have "check_chain_shape ?e peer_demo 4 = Ok ()"
    using env_demo_signed(2) by (simp add: check_chain_shape_def env_demo_def sign_origin_def peer_demo_def)
  moreover have "bound_replay_and_clamp_ttl ext_demo 5 3600 ?e = Ok ?e"
    by (simp add: bound_replay_and_clamp_ttl_def ext_demo_def as_i64_def env_demo_def sample_env_def envelope_new_def csecs_def
        MAX_CREATED_AT_SKEW_SECS_def ns_per_sec_def)
  moreover have "env_hops ?e < 4" by (simp add: env_demo_def sample_env_def envelope_new_def)
  moreover have "cf_federation (dm_cfg daemon_fed) = Some (fed_demo peer_demo)" "route_cfg (dm_cfg daemon_fed) ''demo'' = Some (hd (cf_routes cfg_demo))"
    by (simp_all add: daemon_fed_def daemon_demo_def route_cfg_def cfg_demo_def mk_route_def)
  ultimately show ?thesis
    using env_demo_signed(1) by (simp add: fed_gates_def fed_demo_def is_ok_def not_le)
qed

lemma fed_demo_accepts: "fst (fed_ingress ext_demo 5 5 peer_demo env_demo ''demo'' daemon_fed) = Accepted ''id-1''"
proof -
  have "env_id env_demo = ''id-1''" "dm_dedup daemon_fed = dedup_new (secs 600)" "\<not> message_exists i daemon_fed"
      "sender_allow k b 5 (dm_sender_limiter daemon_fed) = (True, dm_sender_limiter daemon_fed)" for i k b
    by (simp_all add: env_demo_def sample_env_def envelope_new_def daemon_fed_def daemon_demo_def cfg_demo_def message_exists_def
        get_message_def store_empty_def no_fails_def sender_allow_def sender_limiter_new_def)
  then show ?thesis
    by (simp add: fed_ingress_def fed_demo_gates Let_def is_duplicate_def dedup_new_def dedup_prune_def message_exists_def
        persist_and_fan_out_def on_store_eq insert_message_def case_prod_unfold)
       (simp add: daemon_fed_def daemon_demo_def store_empty_def no_fails_def)
qed

theorem fed_accept_safe_witness:
  "\<exists>d' env rows. fed_ingress ext_demo 5 5 peer_demo env_demo ''demo'' daemon_fed = (Accepted ''id-1'', d') \<and>
     map mr_envelope (st_messages (dm_store d')) = [Some env] \<and> env_priority env = ''normal'' \<and>
     st_deliveries (dm_store d') = rows \<and> length rows = 2"
proof -
  obtain d' where d': "fed_ingress ext_demo 5 5 peer_demo env_demo ''demo'' daemon_fed = (Accepted ''id-1'', d')"
    using fed_demo_accepts by (metis prod.collapse)
  have s: "sql_ok (dm_store daemon_fed)" "readable (dm_store daemon_fed)" "st_messages (dm_store daemon_fed) = []"
    "st_deliveries (dm_store daemon_fed) = []"
    by (simp_all add: daemon_fed_def daemon_demo_def store_empty_def sql_ok_def no_fails_def readable_def)
  have r: "route_cfg (dm_cfg daemon_fed) ''demo'' = Some (hd (cf_routes cfg_demo))" "length (rc_destinations (hd (cf_routes cfg_demo))) = 2"
    by (simp_all add: daemon_fed_def daemon_demo_def route_cfg_def cfg_demo_def mk_route_def)
  from fed_accept_safe[OF d' s(1,2)] obtain env rows rc where
    "st_messages (dm_store d') = [\<lparr>mr_id = ''id-1'', mr_envelope = Some env, mr_created_at = env_created_at env_demo\<rparr>]"
    "env_priority env = ''normal''" "st_deliveries (dm_store d') = rows" "route_cfg (dm_cfg daemon_fed) ''demo'' = Some rc"
    "length rows = length (map (Pair ''demo'') (rc_destinations rc))"
    using s(3,4) by (auto dest: list_all2_lengthD)
  then show ?thesis using d' r by auto
qed

subsection \<open>What a rejection leaves behind\<close>

definition dead_row :: "string \<Rightarrow> delivery \<Rightarrow> bool" where
  "dead_row reason r \<longleftrightarrow> dl_state r = DeadLetter \<and> dl_reason r = Some reason \<and> dl_attempt_count r = 0 \<and>
     ep_protocol (dl_destination r) = ''fed''"

lemma reject_rows:
  "\<exists>rows. st_deliveries (dm_store (snd (reject t now env rt peer r pe d))) = st_deliveries (dm_store d) @ rows \<and>
     length rows \<le> 1 \<and> list_all (dead_row r) rows"
  by (auto simp: reject_store insert_message_def insert_dead_delivery_def dead_row_def)

text \<open>The reasons with which \<open>fed_gates\<close> refuses without storing anything.\<close>

lemma fed_gates_no_persist:
  "fed_gates X now peer rt env d = Inl (r, pe, env1) \<Longrightarrow>
   r \<in> {''TRUST_DENIED'', ''CHAIN_PEER_MISMATCH'', ''BAD_SIGNATURE''} \<Longrightarrow> pe = NoPersist"
  by (auto simp: fed_gates_def check_chain_shape_def bound_replay_and_clamp_ttl_def Let_def split: option.splits sum.splits if_splits)


text \<open>The reasons after which the database is as it was.\<close>

definition traceless :: "string \<Rightarrow> bool" where
  "traceless r \<longleftrightarrow> r \<in> {''TRUST_DENIED'', ''CHAIN_PEER_MISMATCH'', ''BAD_SIGNATURE'', ''DUPLICATE'', ''RATE_LIMITED'', ''STORAGE_ERROR''}"

lemma gate_reasons:
  "fed_gates X now peer rt env d = Inl (r, pe, env1) \<Longrightarrow> r \<notin> {''DUPLICATE'', ''RATE_LIMITED'', ''STORAGE_ERROR''}"
  by (auto simp: fed_gates_def check_chain_shape_def bound_replay_and_clamp_ttl_def Let_def split: option.splits sum.splits if_splits)




subsection \<open>Sealed envelopes\<close>

text \<open>A sealed envelope behind the header checks: opened, new, within policy, and within the rate limit.\<close>

definition sealed_key :: "sealed_envelope \<Rightarrow> string" where
  "sealed_key sealed = ''sealed:'' @ se_id sealed @ '':'' @ int_str (se_expires_at sealed)"

lemma sealed_accept_cases:
  obtains (limited) sl where "sealed_accept t now peer hk rt env rc d = (Rejected ''RATE_LIMITED'', inc RATELIMITED (d\<lparr>dm_sender_limiter := sl\<rparr>))"
  | (stored) sl dd where "sealed_accept t now peer hk rt env rc d =
      persist_and_fan_out now (env\<lparr>env_received_at := now\<rparr>) rt rc SEALED_INGRESS (d\<lparr>dm_sender_limiter := sl, dm_dedup := dd\<rparr>)"
proof -
  let ?s = "sender_allow (''fed-sealed|'' @ short_node_id peer) (fed_bytes env) t (dm_sender_limiter d)"
  obtain al sl where A: "?s = (al, sl)" by fastforce
  show thesis
    by (cases al, rule stored, insert A, simp add: sealed_accept_def Let_def fed_bytes_def, rule limited)
       (simp add: sealed_accept_def Let_def fed_bytes_def)
qed

lemma sealed_open_dedup [simp]: "sealed_open X peer sealed (d\<lparr>dm_dedup := dd\<rparr>) = sealed_open X peer sealed d"
  by (simp add: sealed_open_def fed_trust_denied_def cong: option.case_cong if_cong)

lemma sealed_ingress_inv:
  obtains (refused) r dx dd where "fed_sealed_ingress X t now peer sealed rt d = sealed_reject t peer r dx" "dx = d\<lparr>dm_dedup := dd\<rparr>"
  | (dup) dd where "fed_sealed_ingress X t now peer sealed rt d = (Rejected ''DUPLICATE'', inc DUPLICATES (d\<lparr>dm_dedup := dd\<rparr>))"
  | (passed) fc env env1 rc dd dx where "fed_sealed_ingress X t now peer sealed rt d = sealed_accept t now peer (sealed_key sealed) rt env1 rc dx" "dx = d\<lparr>dm_dedup := dd\<rparr>"
      "se_alg sealed = SEAL_ALG_V1" "now div 1000000000 < se_expires_at sealed"
      "\<not> fst (is_duplicate (sealed_key sealed) t (dm_dedup d))"
      "sealed_open X peer sealed d = Inr (fc, env)" "\<not> message_exists (env_id env) d"
      "sealed_policy X now rt fc env d = Inr (env1, rc)"
proof -
  define f where assms: "f = fed_sealed_ingress X t now peer sealed rt d"
  note refused = refused[folded assms] and dup = dup[folded assms] and passed = passed[folded assms]
  have self: "d = d\<lparr>dm_dedup := dm_dedup d\<rparr>" by simp
  have po: "sealed_policy X now rt fc env (d\<lparr>dm_dedup := dd\<rparr>) = sealed_policy X now rt fc env d" for fc env dd
    by (simp add: sealed_policy_def cong: option.case_cong sum.case_cong if_cong)
  have me: "message_exists i (d\<lparr>dm_dedup := dd\<rparr>) = message_exists i d" for i dd
    by (simp add: message_exists_def)
  note simps = po me
  consider (alg) "se_alg sealed \<noteq> SEAL_ALG_V1" | (exp) "se_alg sealed = SEAL_ALG_V1" "se_expires_at sealed \<le> now div 1000000000"
    | (on) "se_alg sealed = SEAL_ALG_V1" "now div 1000000000 < se_expires_at sealed" by fastforce
  then show thesis
  proof cases
    case alg show thesis by (rule refused[of "''UNSUPPORTED_SEAL_ALG''", OF _ self]) (simp add: assms fed_sealed_ingress_def alg)
  next
    case exp show thesis by (rule refused[of "''EXPIRED''", OF _ self]) (simp add: assms fed_sealed_ingress_def exp)
  next
    case on
    obtain du dd where D: "is_duplicate (sealed_key sealed) t (dm_dedup d) = (du, dd)" by fastforce
    show thesis
    proof (cases du)
      case True
      then show thesis using dup[of dd] D on assms by (simp add: fed_sealed_ingress_def sealed_key_def Let_def)
    next
      case nd: False
      show thesis
      proof (cases "sealed_open X peer sealed d")
        case (Inl r)
        then show thesis using refused[of r _ dd] D nd on assms by (simp add: fed_sealed_ingress_def sealed_key_def Let_def simps)
      next
        case (Inr p)
        obtain fc env where p: "p = (fc, env)" by (cases p)
        obtain du2 dd2 where D2: "is_duplicate (env_id env) t dd = (du2, dd2)" by fastforce
        have f: "f = (if du2 \<or> message_exists (env_id env) d then (Rejected ''DUPLICATE'', inc DUPLICATES (d\<lparr>dm_dedup := dd2\<rparr>))
                     else case sealed_policy X now rt fc env d of
                       Inl reason \<Rightarrow> sealed_reject t peer reason (d\<lparr>dm_dedup := dd2\<rparr>)
                     | Inr (env1, rc) \<Rightarrow> sealed_accept t now peer (sealed_key sealed) rt env1 rc (d\<lparr>dm_dedup := dd2\<rparr>))"
          using D D2 nd on assms Inr p
          by (simp add: fed_sealed_ingress_def sealed_key_def Let_def simps cong: sum.case_cong prod.case_cong if_cong)
        show thesis
          using f D nd on Inr p refused[of _ "d\<lparr>dm_dedup := dd2\<rparr>" dd2] dup[of dd2] passed[of _ _ "d\<lparr>dm_dedup := dd2\<rparr>" dd2 fc env]
          by (auto split: if_splits sum.splits)
      qed
    qed
  qed
qed


lemma fed_sealed_ingress_steps: "ingress_steps (dm_store d) (dm_store (snd (fed_sealed_ingress X t now peer sealed rt d)))"
proof (cases rule: sealed_ingress_inv[of X t now peer sealed rt d])
  case (passed fc env env1 rc dd dx)
  then show ?thesis
    by (cases rule: sealed_accept_cases[of t now peer "sealed_key sealed" rt env1 rc dx])
       (use persist_steps[of "dx\<lparr>dm_sender_limiter := sl, dm_dedup := d2\<rparr>" for sl d2] in \<open>simp_all\<close>)
qed simp_all

text \<open>
  A refused sealed envelope stores nothing. Whatever the reason, from an unknown algorithm to a
  storage error, \<open>fed_sealed_ingress\<close> leaves the database and the blob store exactly as they were and
  sends nothing: the content of a sealed envelope is never kept unless it is accepted.
\<close>

theorem sealed_rejection_stores_nothing:
  assumes "fed_sealed_ingress X t now peer sealed rt d = (Rejected r, d')"
  shows "dm_store d' = dm_store d \<and> dm_cas d' = dm_cas d \<and> dm_sent d' = dm_sent d \<and> dm_fed_sent d' = dm_fed_sent d"
proof (cases rule: sealed_ingress_inv[of X t now peer sealed rt d])
  case (refused q dx dd)
  then have "d' = snd (sealed_reject t peer q dx)" using assms by (metis snd_conv)
  then show ?thesis using refused by simp
next
  case (dup dd) then show ?thesis using assms by auto
next
  case (passed fc env env1 rc dd dx)
  then have a: "sealed_accept t now peer (sealed_key sealed) rt env1 rc dx = (Rejected r, d')" using assms by simp
  show ?thesis
    by (cases rule: sealed_accept_cases[of t now peer "sealed_key sealed" rt env1 rc dx])
       (use a passed(2) persist_rejected in \<open>auto dest!: persist_rejected\<close>)
qed

theorem sealed_rejection_stores_nothing_witness:
  "\<exists>d'. fed_sealed_ingress ext_demo 5 5 peer_demo
        \<lparr>se_alg = SEAL_ALG_V1, se_id = ''i'', se_expires_at = 9, se_epk = pad32 [], se_nonce = replicate 24 (CHR ''0''), se_ct = ''x''\<rparr>
        ''demo'' daemon_fed = (Rejected ''BAD_SEAL'', d') \<and> dm_store d' = dm_store daemon_fed"
proof -
  let ?s = "\<lparr>se_alg = SEAL_ALG_V1, se_id = ''i'', se_expires_at = 9, se_epk = pad32 [], se_nonce = replicate 24 (CHR ''0''), se_ct = ''x''\<rparr>"
  have "\<not> fed_trust_denied peer_demo ''verified'' daemon_fed" "cf_federation (dm_cfg daemon_fed) = Some (fed_demo peer_demo)"
    by (simp_all add: fed_trust_denied_def daemon_fed_def daemon_demo_def trust_level_def store_empty_def no_fails_def trust_rank_def)
  moreover have "unseal ext_demo ?s (dm_sealed_secret daemon_fed) = Err BadSeal"
    by (simp add: unseal_def parse_epk_def parse_nonce_def ext_demo_def)
  ultimately have o: "sealed_open ext_demo peer_demo ?s daemon_fed = Err ''BAD_SEAL''"
    by (simp add: sealed_open_def fed_demo_def)
  have dd: "dm_dedup daemon_fed = dedup_new (secs 600)" by (simp add: daemon_fed_def daemon_demo_def cfg_demo_def)
  have "\<exists>d'. fed_sealed_ingress ext_demo 5 5 peer_demo ?s ''demo'' daemon_fed = (Rejected ''BAD_SEAL'', d')"
    using o by (simp add: fed_sealed_ingress_def Let_def dd is_duplicate_def dedup_prune_def sealed_reject_def dedup_new_def)
  then show ?thesis using sealed_rejection_stores_nothing by metis
qed

subsection \<open>What an accepted sealed envelope has passed\<close>

lemma sealed_open_ok:
  assumes "sealed_open X peer sealed d = Inr (fc, env)"
  shows "\<exists>cbor env0. cf_federation (dm_cfg d) = Some fc \<and> unseal X sealed (dm_sealed_secret d) = Ok cbor \<and>
    x_uncbor_envelope X cbor = Some env0 \<and> env = env0\<lparr>env_priority := ''normal''\<rparr> \<and> chain_admitted X peer fc (dm_store d) env0"
proof -
  from assms obtain cbor env0 where c: "cf_federation (dm_cfg d) = Some fc" "unseal X sealed (dm_sealed_secret d) = Ok cbor"
    "x_uncbor_envelope X cbor = Some env0" "env = env0\<lparr>env_priority := ''normal''\<rparr>"
    and t: "\<not> fed_trust_denied peer (fc_accept_from fc) d" and s: "check_chain_shape env peer (fc_max_hops fc) = Inr ()"
    and v: "verify_chain X env = Ok ()"
    by (auto simp: sealed_open_def Let_def is_ok_unit split: option.splits if_splits sum.splits seal_error.splits)
  have "chain_admitted X peer fc (dm_store d) env"
    using t v chain_shape_signed[OF s v] by (simp add: chain_admitted_def peer_level_def fed_trust_denied_def)
  then show ?thesis using c by simp
qed

lemma sealed_policy_ok:
  assumes "sealed_policy X now rt fc env d = Inr (env1, rc)"
  shows "\<exists>ttl. within_replay_bound X now fc (env_created_at env) ttl \<and> env1 = env\<lparr>env_expires_at := min (env_expires_at env) (now + ttl)\<rparr> \<and>
    rt \<in> set (fc_ingress_routes fc) \<and> route_cfg (dm_cfg d) rt = Some rc \<and> effective_allow_gateway_decryption (dm_cfg d) rc"
  using assms bound_replay_ok[of X now fc env env1]
  by (auto simp: sealed_policy_def split: sum.splits if_splits option.splits)

text \<open>
  C7: A sealed envelope is opened only where the route allows it. When \<open>fed_sealed_ingress\<close> accepts,
  the seal opens under the node's own key, the header has not expired, the decoded envelope's chain
  verifies and ends in the sending peer, whose trust reaches \<open>accept_from\<close>, the creation time is within
  the replay bound, the route is listed for ingress and permits decryption at this gateway, and the
  inner identifier is new. What is stored is that envelope with normal priority and clamped expiry, with
  one row per destination of the route.
\<close>

theorem sealed_accept_safe:
  assumes "fed_sealed_ingress X t now peer sealed rt d = (Accepted i, d')" "sql_ok (dm_store d)" "readable (dm_store d)"
  shows "\<exists>fc rc ttl cbor env0 env rows. se_alg sealed = SEAL_ALG_V1 \<and> now div 1000000000 < se_expires_at sealed \<and>
    unseal X sealed (dm_sealed_secret d) = Ok cbor \<and> x_uncbor_envelope X cbor = Some env0 \<and>
    i = env_id env0 \<and> i \<notin> live_ids (dm_store d) \<and> cf_federation (dm_cfg d) = Some fc \<and>
    chain_admitted X peer fc (dm_store d) env0 \<and> within_replay_bound X now fc (env_created_at env0) ttl \<and>
    rt \<in> set (fc_ingress_routes fc) \<and> route_cfg (dm_cfg d) rt = Some rc \<and> effective_allow_gateway_decryption (dm_cfg d) rc \<and>
    env = env0\<lparr>env_priority := ''normal'', env_expires_at := min (env_expires_at env0) (now + ttl), env_received_at := now\<rparr> \<and>
    st_messages (dm_store d') = st_messages (dm_store d) @ [\<lparr>mr_id = i, mr_envelope = Some env, mr_created_at = env_created_at env0\<rparr>] \<and>
    st_deliveries (dm_store d') = st_deliveries (dm_store d) @ rows \<and>
    list_all2 (target_row now i (env_expires_at env) 2) (map (Pair rt) (rc_destinations rc)) rows"
proof (cases rule: sealed_ingress_inv[of X t now peer sealed rt d])
  case (refused q dx dd) then show ?thesis using assms(1) by (simp add: sealed_reject_def Let_def)
next
  case (dup dd) then show ?thesis using assms(1) by simp
next
  case (passed fc env env1 rc dd dx)
  then have a: "sealed_accept t now peer (sealed_key sealed) rt env1 rc dx = (Accepted i, d')" using assms(1) by simp
  then obtain sl d2 where p: "persist_and_fan_out now (env1\<lparr>env_received_at := now\<rparr>) rt rc SEALED_INGRESS
      (dx\<lparr>dm_sender_limiter := sl, dm_dedup := d2\<rparr>) = (Accepted i, d')"
    by (cases rule: sealed_accept_cases[of t now peer "sealed_key sealed" rt env1 rc dx]) auto
  from sealed_open_ok[OF passed(6)] obtain cbor env0 where o: "cf_federation (dm_cfg d) = Some fc"
    "unseal X sealed (dm_sealed_secret d) = Ok cbor" "x_uncbor_envelope X cbor = Some env0"
    "env = env0\<lparr>env_priority := ''normal''\<rparr>" "chain_admitted X peer fc (dm_store d) env0" by blast
  from sealed_policy_ok[OF passed(8)] obtain ttl where q: "within_replay_bound X now fc (env_created_at env0) ttl"
    "env1 = env0\<lparr>env_priority := ''normal'', env_expires_at := min (env_expires_at env0) (now + ttl)\<rparr>" "rt \<in> set (fc_ingress_routes fc)"
    "route_cfg (dm_cfg d) rt = Some rc" "effective_allow_gateway_decryption (dm_cfg d) rc"
    using o(4) by auto
  have fr: "env_id env0 \<notin> live_ids (dm_store d)" using passed(7) assms(2,3) by (simp add: message_exists_iff o(4))
  have rank: "priority_rank ''normal'' = 2" by (simp add: priority_rank_def PRIORITY_CLASSES_def)
  have "i = env_id env0 \<and>
    st_messages (dm_store d') = st_messages (dm_store d) @ [\<lparr>mr_id = i, mr_envelope = Some (env1\<lparr>env_received_at := now\<rparr>), mr_created_at = env_created_at env0\<rparr>] \<and>
    (\<exists>rows. st_deliveries (dm_store d') = st_deliveries (dm_store d) @ rows \<and>
      list_all2 (target_row now i (env_expires_at env1) 2) (map (Pair rt) (rc_destinations rc)) rows)"
    using persist_accepted[OF p] assms(2) fr rank passed(2) by (auto simp: q(2))
  then show ?thesis using passed(3,4) o q fr by auto
qed


definition ext_open :: ext where
  "ext_open = ext_demo\<lparr>x_uncbor_envelope := (\<lambda>b. Some env_demo), x_uncbor_plaintext := (\<lambda>b. Some (b, ''i'', 9))\<rparr>"

definition sealed_demo :: sealed_envelope where
  "sealed_demo = \<lparr>se_alg = SEAL_ALG_V1, se_id = ''i'', se_expires_at = 9, se_epk = pad32 [], se_nonce = replicate 24 (CHR ''0''), se_ct = ''x''\<rparr>"

lemma verify_chain_ext_open: "verify_chain ext_open env = verify_chain ext_demo env"
proof -
  have i: "identity_verify ext_open n m sg = identity_verify ext_demo n m sg" for n m sg
    by (simp add: identity_verify_def ext_open_def cong: option.case_cong)
  have b: "origin_bytes ext_open e = origin_bytes ext_demo e" "digest_canonical ext_open e = digest_canonical ext_demo e"
    "attestation_bytes ext_open dg pv ts = attestation_bytes ext_demo dg pv ts" for e dg pv ts
    by (simp_all add: origin_bytes_def digest_canonical_def attestation_bytes_def canonical_bytes_def canonical_tuple_def ext_open_def)
  have l: "verify_links ext_open dg pv as = verify_links ext_demo dg pv as" for dg pv as
    by (induction as arbitrary: pv) (simp_all add: i b)
  show ?thesis by (simp add: verify_chain_def verify_origin_def i b l cong: option.case_cong sum.case_cong)
qed

lemma sealed_demo_open: "sealed_open ext_open peer_demo sealed_demo daemon_fed = Ok (fed_demo peer_demo, env_demo\<lparr>env_priority := ''normal''\<rparr>)"
proof -
  have "\<not> fed_trust_denied peer_demo ''verified'' daemon_fed" "cf_federation (dm_cfg daemon_fed) = Some (fed_demo peer_demo)"
    by (simp_all add: fed_trust_denied_def daemon_fed_def daemon_demo_def trust_level_def store_empty_def no_fails_def trust_rank_def)
  moreover have "unseal ext_open sealed_demo (dm_sealed_secret daemon_fed) = Ok ''x''"
    by (simp add: unseal_def parse_epk_def parse_nonce_def ext_open_def ext_demo_def sealed_demo_def)
  moreover have "check_chain_shape (env_demo\<lparr>env_priority := ''normal''\<rparr>) peer_demo 4 = Ok ()"
    using env_demo_signed(2) by (simp add: check_chain_shape_def env_demo_def sign_origin_def peer_demo_def)
  moreover have "x_uncbor_envelope ext_open b = Some env_demo" for b by (simp add: ext_open_def)
  ultimately show ?thesis
    using env_demo_signed(1) by (simp add: sealed_open_def fed_demo_def Let_def verify_chain_ext_open is_ok_def)
qed

lemma sealed_demo_policy:
  "sealed_policy ext_open 5 ''demo'' (fed_demo peer_demo) (env_demo\<lparr>env_priority := ''normal''\<rparr>) (daemon_fed\<lparr>dm_dedup := dd\<rparr>) =
     Ok (env_demo\<lparr>env_priority := ''normal''\<rparr>, hd (cf_routes cfg_demo))"
proof -
  have "bound_replay_and_clamp_ttl ext_open 5 3600 (env_demo\<lparr>env_priority := ''normal''\<rparr>) = Ok (env_demo\<lparr>env_priority := ''normal''\<rparr>)"
    by (simp add: bound_replay_and_clamp_ttl_def ext_open_def ext_demo_def as_i64_def env_demo_def sample_env_def envelope_new_def csecs_def
        MAX_CREATED_AT_SKEW_SECS_def ns_per_sec_def)
  then show ?thesis
    by (simp add: sealed_policy_def fed_demo_def daemon_fed_def daemon_demo_def route_cfg_def cfg_demo_def mk_route_def
        effective_allow_gateway_decryption_def)
qed

theorem sealed_accept_safe_witness:
  "\<exists>d' env rows. fed_sealed_ingress ext_open 5 5 peer_demo sealed_demo ''demo'' daemon_fed = (Accepted ''id-1'', d') \<and>
     map mr_envelope (st_messages (dm_store d')) = [Some env] \<and> env_priority env = ''normal'' \<and>
     st_deliveries (dm_store d') = rows \<and> length rows = 2"
proof -
  have e: "env_id env_demo = ''id-1''" "dm_dedup daemon_fed = dedup_new (secs 600)"
    "sender_allow k b 5 (dm_sender_limiter daemon_fed) = (True, dm_sender_limiter daemon_fed)" for k b
    by (simp_all add: env_demo_def sample_env_def envelope_new_def daemon_fed_def daemon_demo_def cfg_demo_def
        sender_allow_def sender_limiter_new_def)
  have st: "dm_store daemon_fed = (store_empty no_fails)\<lparr>st_trust := [\<lparr>tr_node_id = peer_demo, tr_level = ''trusted'', tr_first_seen = 0, tr_updated_at = 0\<rparr>]\<rparr>"
    by (simp add: daemon_fed_def daemon_demo_def)
  have n: "\<not> message_exists i (daemon_fed\<lparr>dm_dedup := dd\<rparr>)" for i dd
    by (simp add: message_exists_def get_message_def st store_empty_def no_fails_def)
  have "fst (fed_sealed_ingress ext_open 5 5 peer_demo sealed_demo ''demo'' daemon_fed) = Accepted ''id-1''"
    using e n sealed_demo_open
    by (simp add: fed_sealed_ingress_def Let_def is_duplicate_def dedup_prune_def dedup_new_def sealed_demo_policy sealed_accept_def
        persist_and_fan_out_def on_store_eq insert_message_def case_prod_unfold st store_empty_def no_fails_def)
       (simp add: sealed_demo_def)
  then obtain d' where d': "fed_sealed_ingress ext_open 5 5 peer_demo sealed_demo ''demo'' daemon_fed = (Accepted ''id-1'', d')"
    by (metis prod.collapse)
  have s: "sql_ok (dm_store daemon_fed)" "readable (dm_store daemon_fed)" "st_messages (dm_store daemon_fed) = []"
    "st_deliveries (dm_store daemon_fed) = []"
    by (simp_all add: st store_empty_def sql_ok_def no_fails_def readable_def)
  have r: "route_cfg (dm_cfg daemon_fed) ''demo'' = Some (hd (cf_routes cfg_demo))" "length (rc_destinations (hd (cf_routes cfg_demo))) = 2"
    by (simp_all add: daemon_fed_def daemon_demo_def route_cfg_def cfg_demo_def mk_route_def)
  from sealed_accept_safe[OF d' s(1,2)] obtain env rows rc created where
    "st_messages (dm_store d') = [\<lparr>mr_id = ''id-1'', mr_envelope = Some env, mr_created_at = created\<rparr>]"
    "env_priority env = ''normal''" "st_deliveries (dm_store d') = rows" "route_cfg (dm_cfg daemon_fed) ''demo'' = Some rc"
    "length rows = length (map (Pair ''demo'') (rc_destinations rc))"
    using s(3,4) by (auto dest: list_all2_lengthD)
  then show ?thesis using d' r by auto
qed


subsection \<open>At most once\<close>

lemma fan_one_sql: "sql_fails (dm_store (fan_one now mid ex rank tgt rm gm d)) = sql_fails (dm_store d)"
  by (simp add: fan_one_store insert_delivery_def insert_dead_delivery_def)

lemma fan_out_sql: "sql_fails (dm_store (snd (fan_out_deliveries now mid ex rank targets rm gm d))) = sql_fails (dm_store d)"
  by (induction targets arbitrary: d) (simp_all add: fan_out_rec fan_one_sql del: fan_out_deliveries.simps)

lemma persist_sql: "sql_fails (dm_store (snd (persist_and_fan_out now env rt rc m d))) = sql_fails (dm_store d)"
  by (auto simp: persist_and_fan_out_def Let_def on_store_eq case_prod_unfold fan_out_sql insert_message_def split: sum.splits)

definition fed_receive :: "ext \<Rightarrow> instant \<Rightarrow> datetime \<Rightarrow> string \<Rightarrow> envelope + sealed_envelope \<Rightarrow> string \<Rightarrow> daemon \<Rightarrow> fed_outcome \<times> daemon" where
  "fed_receive X t now peer e rt d =
     (case e of Inl env \<Rightarrow> fed_ingress X t now peer env rt d | Inr sealed \<Rightarrow> fed_sealed_ingress X t now peer sealed rt d)"

lemma fed_receive_accepted:
  assumes "fed_receive X t now peer e rt d = (Accepted i, d')"
  obtains env rc m sl dd where "env_id env = i" "\<not> message_exists i d"
    "persist_and_fan_out now env rt rc m (d\<lparr>dm_sender_limiter := sl, dm_dedup := dd\<rparr>) = (Accepted i, d')"
proof (cases e)
  case (Inl env0)
  from fed_accept_inv[of X t now peer env0 rt d i d'] assms Inl obtain env rc sl dd where n: "\<not> message_exists (env_id env) d"
    and p: "persist_and_fan_out now (env\<lparr>env_received_at := now\<rparr>) rt rc FED_INGRESS (d\<lparr>dm_sender_limiter := sl, dm_dedup := dd\<rparr>) = (Accepted i, d')"
    by (auto simp: fed_receive_def)
  have "i = env_id env" using p by (auto simp: persist_and_fan_out_def Let_def on_store_eq case_prod_unfold split: sum.splits)
  then show thesis using that[OF _ _ p] n by simp
next
  case (Inr sealed)
  then have a: "fed_sealed_ingress X t now peer sealed rt d = (Accepted i, d')" using assms by (simp add: fed_receive_def)
  show thesis
  proof (cases rule: sealed_ingress_inv[of X t now peer sealed rt d])
    case (refused q dx dd) then show thesis using a by (simp add: sealed_reject_def Let_def)
  next
    case (dup dd) then show thesis using a by simp
  next
    case (passed fc env env1 rc dd dx)
    then obtain sl d2 where p: "persist_and_fan_out now (env1\<lparr>env_received_at := now\<rparr>) rt rc SEALED_INGRESS
        (d\<lparr>dm_sender_limiter := sl, dm_dedup := d2\<rparr>) = (Accepted i, d')"
      using a by (cases rule: sealed_accept_cases[of t now peer "sealed_key sealed" rt env1 rc dx]) auto
    have "i = env_id env1" using p by (auto simp: persist_and_fan_out_def Let_def on_store_eq case_prod_unfold split: sum.splits)
    moreover have "env_id env1 = env_id env" using sealed_policy_ok[OF passed(8)] by auto
    ultimately show thesis using that[OF _ _ p] passed(7) by simp
  qed
qed

lemma fed_receive_known:
  assumes "fed_receive X t now peer e rt d = (Accepted i, d')" "sql_ok (dm_store d)" "readable (dm_store d)"
  shows "message_exists i d'" "sql_ok (dm_store d')" "readable (dm_store d')"
proof -
  obtain env rc m sl dd where e: "env_id env = i" and n: "\<not> message_exists i d" and
    p: "persist_and_fan_out now env rt rc m (d\<lparr>dm_sender_limiter := sl, dm_dedup := dd\<rparr>) = (Accepted i, d')"
    using fed_receive_accepted[OF assms(1)] by metis
  have "i \<notin> live_ids (dm_store d)" using n message_exists_iff[OF assms(2,3)] by simp
  with persist_accepted[OF p] assms(2) e have m: "st_messages (dm_store d') = st_messages (dm_store d) @
      [\<lparr>mr_id = i, mr_envelope = Some env, mr_created_at = env_created_at env\<rparr>]" by simp
  have "sql_fails (dm_store d') = sql_fails (dm_store d)"
    using persist_sql[of now env rt rc m "d\<lparr>dm_sender_limiter := sl, dm_dedup := dd\<rparr>"] p by simp
  then show s: "sql_ok (dm_store d')" using assms(2) by (simp add: sql_ok_def)
  show r: "readable (dm_store d')" using m assms(3) by (auto simp: readable_def)
  show "message_exists i d'" unfolding message_exists_iff[OF s r] by (simp add: live_ids_def m)
qed



end
