(* ===== verification/Egress_Props.thy ===== *)
theory Egress_Props
  imports Fed_Props
begin

text \<open>
  Properties of egress: what the scheduler does with a due row, what a frame to a plugin or peer may
  contain, and how results move a row.
\<close>

subsection \<open>One due row\<close>

definition quiet :: "daemon \<Rightarrow> daemon \<Rightarrow> bool" where
  "quiet d d' \<longleftrightarrow> dm_sent d' = dm_sent d \<and> dm_fed_sent d' = dm_fed_sent d"

definition one_frame :: "daemon \<Rightarrow> daemon \<Rightarrow> bool" where
  "one_frame d d' \<longleftrightarrow>
     (\<exists>f. dm_sent d' = dm_sent d @ [f]) \<and> dm_fed_sent d' = dm_fed_sent d \<or>
     dm_sent d' = dm_sent d \<and> (\<exists>f. dm_fed_sent d' = dm_fed_sent d @ [f])"

text \<open>The four ways in which a due row is left: settled, deferred, sent, or sent in vain.\<close>

definition settled :: "datetime \<Rightarrow> delivery \<Rightarrow> dstate \<Rightarrow> string \<Rightarrow> daemon \<Rightarrow> daemon \<Rightarrow> bool" where
  "settled now del s r d d' \<longleftrightarrow> quiet d d' \<and> dm_store d' = snd (mark_terminal now (dl_id del) s r (dm_store d))"

definition deferred :: "datetime \<Rightarrow> delivery \<Rightarrow> daemon \<Rightarrow> daemon \<Rightarrow> bool" where
  "deferred now del d d' \<longleftrightarrow> quiet d d' \<and>
     (\<exists>w \<in> {5, 10}. dm_store d' = snd (mark_retry now (dl_id del) (now + csecs w) (dm_store d)))"

definition dispatched :: "datetime \<Rightarrow> delivery \<Rightarrow> daemon \<Rightarrow> daemon \<Rightarrow> bool" where
  "dispatched now del d d' \<longleftrightarrow> one_frame d d' \<and> dm_store d' = snd (mark_attempting now (dl_id del) (dm_store d))"

definition bounced :: "datetime \<Rightarrow> delivery \<Rightarrow> daemon \<Rightarrow> daemon \<Rightarrow> bool" where
  "bounced now del d d' \<longleftrightarrow> quiet d d' \<and>
     dm_store d' = snd (mark_retry now (dl_id del) (now + csecs 5) (snd (mark_attempting now (dl_id del) (dm_store d))))"

definition due_outcome :: "datetime \<Rightarrow> delivery \<Rightarrow> daemon \<Rightarrow> daemon \<Rightarrow> bool" where
  "due_outcome now del d d' \<longleftrightarrow> (\<exists>s r. terminal s \<and> settled now del s r d d') \<or> deferred now del d d' \<or>
     dispatched now del d d' \<or> bounced now del d d'"

lemmas outcome_defs = quiet_def one_frame_def settled_def deferred_def dispatched_def bounced_def

lemma outcome_same_start:
  assumes "dm_store d1 = dm_store d" "dm_sent d1 = dm_sent d" "dm_fed_sent d1 = dm_fed_sent d"
  shows "due_outcome now del d1 d' = due_outcome now del d d'"
  using assms by (simp add: due_outcome_def outcome_defs)

lemma finish_outcome: "terminal s \<Longrightarrow> due_outcome now del d (finish now del s r d)"
  by (auto simp: due_outcome_def outcome_defs)

lemma policy_denied_outcome: "due_outcome now del d (policy_denied now del d)"
  by (auto simp: due_outcome_def outcome_defs terminal_def)

lemma retry_outcome: "w \<in> {5, 10} \<Longrightarrow> due_outcome now del d (retry_at now (dl_id del) (now + csecs w) d)"
  by (auto simp: due_outcome_def outcome_defs)

lemma plugin_attempt_outcome:
  "due_outcome now del d
     (case plugin_send p h m (mark mark_attempting now (dl_id del) d) of
        (SendOk, d3) \<Rightarrow> d3 | (_, d3) \<Rightarrow> retry_at now (dl_id del) (now + csecs 5) d3)"
  by (auto simp: plugin_send_def due_outcome_def outcome_defs split: send_result.splits)

lemma fed_attempt_outcome:
  "due_outcome now del d
     (case fed_send p h m (mark mark_attempting now (dl_id del) d) of
        (SendOk, d3) \<Rightarrow> inc c d3 | (_, d3) \<Rightarrow> retry_at now (dl_id del) (now + csecs 5) d3)"
  by (auto simp: fed_send_def due_outcome_def outcome_defs split: send_result.splits)

lemma budget_defer_outcome:
  "w \<in> {5, 10} \<Longrightarrow> dm_store d1 = dm_store d \<Longrightarrow> dm_sent d1 = dm_sent d \<Longrightarrow> dm_fed_sent d1 = dm_fed_sent d \<Longrightarrow>
   due_outcome now del d (retry_at now (dl_id del) (now + csecs w) (inc m d1))"
  by (auto simp: due_outcome_def outcome_defs)

lemma terminal_states [simp]: "terminal Failed" "terminal Expired" "terminal DeadLetter"
  by (simp_all add: terminal_def)

lemma send_to_plugin_outcome: "due_outcome now del d (send_to_plugin X now del env h pm ok cap d)"
proof -
  let ?tp = "transport_policy_for (dm_cfg d) (ep_protocol (dl_destination del))"
  obtain atts nts d1 where o: "outgoing_attachments X env (ok \<and> cap_attachments (ph_capabilities h)) cap ?tp d = ((atts, nts), d1)"
    by (metis surj_pair)
  have f: "dm_store d1 = dm_store d" "dm_sent d1 = dm_sent d" "dm_fed_sent d1 = dm_fed_sent d"
    using outgoing_attachments_frame[of X env "ok \<and> cap_attachments (ph_capabilities h)" cap ?tp d] by (simp_all add: o)
  show ?thesis
    using finish_outcome[of DeadLetter now del d1 "''FRAME_OVERSIZE''"] plugin_attempt_outcome[of now del d1]
    by (simp add: send_to_plugin_def o Let_def outcome_same_start[OF f])
qed

lemma budget_gate_outcome:
  assumes "\<And>d1. dm_store d1 = dm_store d \<Longrightarrow> dm_sent d1 = dm_sent d \<Longrightarrow> dm_fed_sent d1 = dm_fed_sent d \<Longrightarrow> due_outcome now del d (k d1)"
  shows "due_outcome now del d
    (case budget_gate t del d of (False, d1) \<Rightarrow> retry_at now (dl_id del) (now + csecs 10) (inc BUDGET_DEFERRED d1) | (True, d1) \<Rightarrow> k d1)"
proof -
  obtain b d1 where g: "budget_gate t del d = (b, d1)" by fastforce
  have f: "dm_store d1 = dm_store d" "dm_sent d1 = dm_sent d" "dm_fed_sent d1 = dm_fed_sent d"
    using budget_gate_frame[of t del d] by (simp_all add: g)
  show ?thesis using assms[OF f] budget_defer_outcome[OF _ f, of 10] by (cases b) (simp_all add: g)
qed

lemma process_due_plugin_outcome: "due_outcome now del d (process_due_plugin X t now del env d)"
proof -
  have k: "due_outcome now del d (send_to_plugin X now del env h pm ok cap d1)"
    if "dm_store d1 = dm_store d" "dm_sent d1 = dm_sent d" "dm_fed_sent d1 = dm_fed_sent d" for h pm ok cap d1
    using send_to_plugin_outcome[of now del d1] by (simp add: outcome_same_start[OF that])
  show ?thesis
    by (auto simp: process_due_plugin_def split: decision.splits option.splits
        intro!: policy_denied_outcome retry_outcome budget_gate_outcome k)
qed

lemma process_due_identity_outcome: "due_outcome now del d (process_due_identity t now del env d)"
proof -
  have k: "due_outcome now del d (let d2 = mark mark_attempting now (dl_id del) d1 in
       (case plugin_send p h m d2 of (SendOk, d3) \<Rightarrow> d3 | (_, d3) \<Rightarrow> retry_at now (dl_id del) (now + csecs 5) d3))"
    if "dm_store d1 = dm_store d" "dm_sent d1 = dm_sent d" "dm_fed_sent d1 = dm_fed_sent d" for p h m d1
    using plugin_attempt_outcome[of now del d1 p h m] by (simp add: outcome_same_start[OF that])
  show ?thesis
    by (auto simp: process_due_identity_def split: option.splits
        intro!: finish_outcome retry_outcome budget_gate_outcome k)
qed

lemma process_due_fed_sealed_outcome: "due_outcome now del d (process_due_fed_sealed X eph nonce now del oe peer rr tx d)"
  by (auto simp: process_due_fed_sealed_def Let_def split: option.splits intro!: finish_outcome fed_attempt_outcome)

lemma process_due_fed_outcome: "due_outcome now del d (process_due_fed X eph nonce t now del env d)"
proof (cases "split_once (CHR ''/'') (ep_endpoint (dl_destination del))")
  case None then show ?thesis by (simp add: process_due_fed_def finish_outcome)
next
  case (Some pr)
  obtain peer rr where pr: "pr = (peer, rr)" by (cases pr)
  show ?thesis
  proof (cases "fed_tx d peer")
    case None then show ?thesis by (simp add: process_due_fed_def Some pr retry_outcome)
  next
    case tx: (Some tx)
    let ?pm = "case peer_of d peer of Some p \<Rightarrow> pe_messages_per_minute p | None \<Rightarrow> 0"
    obtain al b where al: "budget_allow (''fed/'' @ peer) ?pm t (dm_budget_limiter d) = (al, b)" by fastforce
    let ?d1 = "d\<lparr>dm_budget_limiter := b\<rparr>"
    have same: "due_outcome now del d d' = due_outcome now del ?d1 d'" for d' by (rule outcome_same_start[symmetric]) simp_all
    show ?thesis
    proof (cases al)
      case False
      then show ?thesis
        using al budget_defer_outcome[of 5 ?d1 d now del BUDGET_DEFERRED] by (simp add: process_due_fed_def Some pr tx Let_def)
    next
      case True
      have "due_outcome now del ?d1 (process_due_fed X eph nonce t now del env d)"
        using al True
        by (simp add: process_due_fed_def Some pr tx Let_def retry_outcome finish_outcome process_due_fed_sealed_outcome fed_attempt_outcome
            split: sum.split option.split)
      then show ?thesis by (simp add: same)
    qed
  qed
qed

lemma process_due_cases: "due_outcome now del d (process_due X eph nonce t now del d)"
  by (auto simp: process_due_def split: sum.splits option.splits decision.splits
      intro!: finish_outcome policy_denied_outcome process_due_identity_outcome process_due_fed_outcome process_due_plugin_outcome)

text \<open>
  C10: A due row is always dealt with, and alone. One pass over a due delivery either settles its row in
  a terminal state, defers it by five or ten seconds, or marks it attempting and hands exactly one frame to
  one channel (or re-arms it when the channel refuses the frame); in every case the update is to that row
  only, and at most one frame leaves.
\<close>

theorem process_due_outcome: "due_outcome now del d (process_due X eph nonce t now del d)"
  by (rule process_due_cases)

end
