(* ===== verification/Egress_Frames.thy ===== *)
theory Egress_Frames
  imports Egress_Props
begin

text \<open>
  What leaves the daemon: the content of a frame to a plugin, the content of a frame to a federation
  peer, and that the next node accepts what this node signs.
\<close>

subsection \<open>Frames to plugins\<close>

definition within :: "nat \<Rightarrow> nat option \<Rightarrow> bool" where
  "within n cap \<longleftrightarrow> (case cap of None \<Rightarrow> True | Some c \<Rightarrow> n \<le> c)"

definition shipped :: "ext \<Rightarrow> uuid \<Rightarrow> nat option \<Rightarrow> transport_policy \<Rightarrow> store \<Rightarrow> cas \<Rightarrow> attachment_meta list \<Rightarrow> ipc_attachment \<Rightarrow> bool" where
  "shipped X mid cap tp st c metas a \<longleftrightarrow>
     (\<exists>meta \<in> set metas. ia_filename a = am_filename meta \<and> ia_mime a = am_mime meta \<and> demoted_kind meta tp = None \<and>
        has_attachment_ref mid (am_sha256 meta) st = Inr True \<and> cas_get X (am_sha256 meta) c = Ok (ia_data a) \<and>
        hex_encode (x_sha256 X (ia_data a)) = am_sha256 meta \<and> within (length (ia_data a)) cap)"

lemma verdict_ship:
  assumes "attachment_verdict X mid meta cap fb tp cum d = Ship b"
  shows "demoted_kind meta tp = None \<and> has_attachment_ref mid (am_sha256 meta) (dm_store d) = Inr True \<and>
    cas_get X (am_sha256 meta) (dm_cas d) = Ok b \<and> hex_encode (x_sha256 X b) = am_sha256 meta \<and> within (length b) cap \<and> cum + length b \<le> fb"
proof -
  have dk: "demoted_kind meta tp = None" using assms by (auto simp: attachment_verdict_def split: option.splits)
  have ow: "has_attachment_ref mid (am_sha256 meta) (dm_store d) = Inr True"
    and g: "cas_get X (am_sha256 meta) (dm_cas d) = Ok b"
    using assms dk by (auto simp: attachment_verdict_def Let_def split: sum.splits if_splits option.splits bool.splits)
  show ?thesis
    using assms dk ow g
    by (auto simp: attachment_verdict_def Let_def within_def cas_get_def path_for_def not_less split: sum.splits if_splits option.splits)
qed

lemma verdict_frame:
  "dm_store d' = dm_store d \<Longrightarrow> dm_cas d' = dm_cas d \<Longrightarrow>
   attachment_verdict X mid meta cap fb tp cum d' = attachment_verdict X mid meta cap fb tp cum d"
  by (simp add: attachment_verdict_def Let_def cong: option.case_cong)

lemma shipped_mono: "set ms \<subseteq> set ms' \<Longrightarrow> shipped X mid cap tp st c ms a \<Longrightarrow> shipped X mid cap tp st c ms' a"
  by (auto simp: shipped_def)

lemma load_attachments_ships:
  assumes "load_attachments X mid ms cap fb tp cum d = ((atts, nts), d')" "cum \<le> fb"
  shows "list_all (shipped X mid cap tp (dm_store d) (dm_cas d) ms) atts \<and> cum + sum_list (map (\<lambda>a. length (ia_data a)) atts) \<le> fb"
  using assms
proof (induction ms arbitrary: cum d atts nts d')
  case (Cons meta ms)
  have up: "list_all (shipped X mid cap tp st c (meta # ms)) xs" if "list_all (shipped X mid cap tp st c ms) xs" for st c xs
    using that shipped_mono[OF set_subset_Cons] by (auto simp: list_all_iff)
  show ?case
  proof (cases "attachment_verdict X mid meta cap fb tp cum d")
    case (Demote n)
    obtain as1 ns1 d1 where r: "load_attachments X mid ms cap fb tp cum (inc TRANSPORT_DEMOTED d) = ((as1, ns1), d1)" by (metis surj_pair)
    then show ?thesis using Cons.IH[OF r Cons.prems(2)] Cons.prems(1) Demote up by simp
  next
    case (Note n)
    obtain as1 ns1 d1 where r: "load_attachments X mid ms cap fb tp cum d = ((as1, ns1), d1)" by (metis surj_pair)
    then show ?thesis using Cons.IH[OF r Cons.prems(2)] Cons.prems(1) Note up by simp
  next
    case (Ship b)
    note v = verdict_ship[OF Ship]
    obtain as1 ns1 d1 where r: "load_attachments X mid ms cap fb tp (cum + length b) d = ((as1, ns1), d1)" by (metis surj_pair)
    have "shipped X mid cap tp (dm_store d) (dm_cas d) (meta # ms) \<lparr>ia_filename = am_filename meta, ia_mime = am_mime meta, ia_data = b\<rparr>"
      using v by (auto simp: shipped_def)
    then show ?thesis using Cons.IH[OF r] v Cons.prems(1) Ship r up by auto
  qed
qed simp

lemma outgoing_ships:
  assumes "outgoing_attachments X env ok cap tp d = ((atts, nts), d1)"
  shows "list_all (shipped X (env_id env) cap tp (dm_store d) (dm_cas d) (env_attachments env)) atts \<and> (atts \<noteq> [] \<longrightarrow> ok)"
  using assms load_attachments_ships[of X "env_id env" "env_attachments env" cap "MAX_FRAME - FRAME_HEADROOM_BYTES" tp 0 d atts nts d1]
  by (auto simp: outgoing_attachments_def split: if_splits)

lemma effective_limit_bounds:
  "\<exists>l. effective_limit pm cm tp = Some l \<and> l \<le> tp_max_payload_bytes tp \<and> within l pm \<and> within l cm"
  by (auto simp: effective_limit_def within_def Let_def split: option.splits)

lemma send_to_plugin_frame:
  assumes "dm_sent (send_to_plugin X now del env h pm ok cap d) = dm_sent d @ [(p, m)]"
  obtains body atts where "p = ep_protocol (dl_destination del)" "m = Send (dl_id del) (ep_endpoint (dl_destination del)) (env_kind env) body atts"
    "ph_tx h m = SendOk" "frame_estimate body (dl_destination del) env atts \<le> MAX_FRAME"
    "length body \<le> tp_max_payload_bytes (transport_policy_for (dm_cfg d) p)" "within (length body) pm"
    "within (length body) (cap_max_payload (ph_capabilities h))" "atts \<noteq> [] \<longrightarrow> ok \<and> cap_attachments (ph_capabilities h)"
    "list_all (shipped X (env_id env) cap (transport_policy_for (dm_cfg d) p) (dm_store d) (dm_cas d) (env_attachments env)) atts"
proof -
  let ?p = "ep_protocol (dl_destination del)"
  let ?tp = "transport_policy_for (dm_cfg d) ?p"
  let ?lim = "effective_limit pm (cap_max_payload (ph_capabilities h)) ?tp"
  obtain atts nts d1 where o: "outgoing_attachments X env (ok \<and> cap_attachments (ph_capabilities h)) cap ?tp d = ((atts, nts), d1)"
    by (metis surj_pair)
  have f: "dm_sent d1 = dm_sent d"
    using outgoing_attachments_frame[of X env "ok \<and> cap_attachments (ph_capabilities h)" cap ?tp d] by (simp add: o)
  define body where "body = render (render_tag X d env del)
     ((case (case route_cfg (dm_cfg d) (dl_route del) of
               Some r \<Rightarrow> if rn_max_chars (rc_render r) > 0 then Some (rn_max_chars (rc_render r)) else None
             | None \<Rightarrow> None) of Some mc \<Rightarrow> truncate_body (env_body env) mc | None \<Rightarrow> env_body env) @ nts) ?lim"
  have e: "send_to_plugin X now del env h pm ok cap d =
      (if frame_estimate body (dl_destination del) env atts > MAX_FRAME then finish now del DeadLetter ''FRAME_OVERSIZE'' d1
       else case plugin_send ?p h (Send (dl_id del) (ep_endpoint (dl_destination del)) (env_kind env) body atts) (mark mark_attempting now (dl_id del) d1) of
              (SendOk, d3) \<Rightarrow> d3 | (_, d3) \<Rightarrow> retry_at now (dl_id del) (now + csecs 5) d3)"
    by (simp add: send_to_plugin_def o Let_def body_def)
  obtain l where l: "?lim = Some l" "l \<le> tp_max_payload_bytes ?tp" "within l pm" "within l (cap_max_payload (ph_capabilities h))"
    using effective_limit_bounds by blast
  have le: "length body \<le> l" using l(1) render_le by (simp add: body_def)
  have w: "within (length body) c" if "within l c" for c using that le by (auto simp: within_def split: option.splits)
  have s: "frame_estimate body (dl_destination del) env atts \<le> MAX_FRAME"
    "ph_tx h (Send (dl_id del) (ep_endpoint (dl_destination del)) (env_kind env) body atts) = SendOk"
    "p = ?p" "m = Send (dl_id del) (ep_endpoint (dl_destination del)) (env_kind env) body atts"
    using assms unfolding e by (auto simp: plugin_send_def f split: if_splits send_result.splits)
  show thesis
    by (rule that[of body atts]) (use s l le w outgoing_ships[OF o] in auto)
qed


text \<open>How \<open>process_due\<close> reaches a sender, when a frame leaves.\<close>

lemma process_due_noisy:
  assumes "\<not> quiet d (process_due X eph nonce t now del d)"
  obtains env where "get_message (dl_message_id del) (dm_store d) = Inr (Some env)" "\<not> is_expired env now"
    "dl_attempt_count del < MAX_ATTEMPTS"
    "process_due X eph nonce t now del d =
      (if dl_route del = IDENTITY_ROUTE then process_due_identity t now del env d
       else if ep_protocol (dl_destination del) = FED_PROTOCOL then process_due_fed X eph nonce t now del env d
       else process_due_plugin X t now del env d)"
    "dl_route del = IDENTITY_ROUTE \<or> (\<exists>pm ok cap. evaluate (cf_policies (dm_cfg d)) env (dl_destination del) = Allow pm ok cap)"
proof -
  have q: "quiet d (finish now del s r d)" "quiet d (policy_denied now del d)" for s r by (simp_all add: quiet_def)
  from assms q obtain env where g: "get_message (dl_message_id del) (dm_store d) = Inr (Some env)"
    by (auto simp: process_due_def split: sum.splits option.splits)
  have x: "\<not> is_expired env now" "\<not> MAX_ATTEMPTS \<le> dl_attempt_count del" using assms q by (auto simp: process_due_def g split: if_splits)
  have a: "\<exists>pm ok cap. evaluate (cf_policies (dm_cfg d)) env (dl_destination del) = Allow pm ok cap" if "dl_route del \<noteq> IDENTITY_ROUTE"
    using assms q that
    by (cases "evaluate (cf_policies (dm_cfg d)) env (dl_destination del)") (auto simp: process_due_def process_due_plugin_def g x split: if_splits)
  show thesis
    by (rule that[of env]) (use g x a in \<open>auto simp: process_due_def split: decision.splits\<close>)
qed

lemma process_due_plugin_noisy:
  assumes "\<not> quiet d (process_due_plugin X t now del env d)"
  obtains pm ok cap h d1 where "evaluate (cf_policies (dm_cfg d)) env (dl_destination del) = Allow pm ok cap"
    "connected_plugin (ep_protocol (dl_destination del)) d = Some h" "dm_cfg d1 = dm_cfg d" "dm_store d1 = dm_store d" "dm_cas d1 = dm_cas d"
    "dm_sent d1 = dm_sent d" "process_due_plugin X t now del env d = send_to_plugin X now del env h pm ok cap d1"
proof -
  have q: "quiet d (policy_denied now del d)" "quiet d (retry_at now i n d)" for i n by (simp_all add: quiet_def)
  obtain pm ok cap where e: "evaluate (cf_policies (dm_cfg d)) env (dl_destination del) = Allow pm ok cap"
    using assms q by (auto simp: process_due_plugin_def split: decision.splits)
  obtain h where h: "connected_plugin (ep_protocol (dl_destination del)) d = Some h"
    using assms q e by (auto simp: process_due_plugin_def split: option.splits)
  obtain al d1 where g: "budget_gate t del d = (al, d1)" by fastforce
  have f: "dm_store d1 = dm_store d" "dm_sent d1 = dm_sent d" "dm_fed_sent d1 = dm_fed_sent d" "dm_cfg d1 = dm_cfg d" "dm_cas d1 = dm_cas d"
    using budget_gate_frame[of t del d] by (simp_all add: g)
  have al using assms e h g f by (cases al) (auto simp: process_due_plugin_def quiet_def)
  then show thesis using that[OF e h f(4,1,5,2)] e h g by (simp add: process_due_plugin_def)
qed

lemma process_due_identity_send:
  "dm_sent (process_due_identity t now del env d) = dm_sent d @ [(p, m)] \<Longrightarrow>
   p = ep_protocol (dl_destination del) \<and> m = SendDirect (dl_id del) (ep_endpoint (dl_destination del)) (env_body env) \<and>
   (\<exists>h. connected_plugin p d = Some h \<and> cap_direct_messages (ph_capabilities h))"
proof -
  assume s: "dm_sent (process_due_identity t now del env d) = dm_sent d @ [(p, m)]"
  obtain h where h: "connected_plugin (ep_protocol (dl_destination del)) d = Some h"
    using s by (auto simp: process_due_identity_def split: option.splits)
  have c: "cap_direct_messages (ph_capabilities h)" using s by (cases "cap_direct_messages (ph_capabilities h)") (auto simp: process_due_identity_def h)
  obtain al d1 where g: "budget_gate t del d = (al, d1)" by fastforce
  have "dm_sent d1 = dm_sent d" using budget_gate_frame(2)[of t del d] by (simp add: g)
  then show ?thesis using s h c g by (cases al) (auto simp: process_due_identity_def plugin_send_def Let_def split: send_result.splits)
qed

lemma process_due_fed_sent: "dm_sent (process_due_fed X eph nonce t now del env d) = dm_sent d"
  by (auto simp: process_due_fed_def process_due_fed_sealed_def fed_send_def Let_def
      split: option.splits prod.splits bool.splits sum.splits send_result.splits)


definition plugin_demo :: plugin_handle where
  "plugin_demo = \<lparr>ph_tx = (\<lambda>_. SendOk), ph_capabilities = capabilities_default, ph_connected = True, ph_conn_id = 1, ph_last_seen = 0\<rparr>"

definition store_out :: "endpoint \<Rightarrow> store" where
  "store_out dest = snd (insert_delivery 0 ''id-1'' ''demo'' dest 0 1000 2
     (snd (insert_message (sample_env ''text'' ''hi'') (store_empty no_fails))))"

definition daemon_out :: daemon where
  "daemon_out = (daemon_demo cfg_demo (store_out (mk_ep ''meshtastic'' ''x'')))\<lparr>dm_plugins := [(''meshtastic'', plugin_demo)]\<rparr>"

lemma store_out_row:
  "\<exists>row. st_deliveries (store_out dest) = [row] \<and> dl_id row = 1 \<and> dl_message_id row = ''id-1'' \<and> dl_route row = ''demo'' \<and>
     dl_destination row = dest \<and> dl_priority row = 2 \<and> dl_attempt_count row = 0 \<and> dl_state row = Pending"
  "get_message ''id-1'' (store_out dest) = Inr (Some (sample_env ''text'' ''hi''))"
  by (simp_all add: store_out_def insert_delivery_def insert_message_def store_empty_def no_fails_def live_ids_def
      sample_env_def envelope_new_def get_message_def)

lemma frame_small: "length body \<le> 237 \<Longrightarrow> frame_estimate body (mk_ep ''meshtastic'' ''x'') (sample_env ''text'' ''hi'') [] \<le> MAX_FRAME"
  by (simp add: frame_estimate_def mk_ep_def sample_env_def envelope_new_def MAX_FRAME_def)

lemma daemon_out_sends:
  assumes "st_deliveries (dm_store daemon_out) = [row]"
  shows "\<exists>body. dm_sent (process_due ext_demo [] [] 2 5 row daemon_out) = dm_sent daemon_out @ [(''meshtastic'', Send 1 ''x'' ''text'' body [])]"
proof -
  let ?env = "sample_env ''text'' ''hi''"
  have st: "dm_store daemon_out = store_out (mk_ep ''meshtastic'' ''x'')" by (simp add: daemon_out_def daemon_demo_def)
  have r: "dl_id row = 1" "dl_message_id row = ''id-1''" "dl_route row = ''demo''" "dl_destination row = mk_ep ''meshtastic'' ''x''"
    "dl_priority row = 2" "dl_attempt_count row = 0"
    using store_out_row(1)[of "mk_ep ''meshtastic'' ''x''"] assms by (auto simp: st)
  have c: "dm_cfg daemon_out = cfg_demo" "connected_plugin ''meshtastic'' daemon_out = Some plugin_demo"
    by (simp_all add: daemon_out_def daemon_demo_def connected_plugin_def plugin_demo_def)
  have ev: "evaluate [] ?env e = Allow None True None" for e by (simp add: evaluate_def)
  have b: "budget_gate 2 row daemon_out = (True, daemon_out\<lparr>dm_budget_limiter := dm_budget_limiter daemon_out\<rparr>)"
    by (simp add: budget_gate_def r c cfg_demo_def budget_allow_def)
  have tp: "transport_policy_for cfg_demo ''meshtastic'' = mk_policy 237 False True True"
    by (simp add: transport_policy_for_def cfg_demo_def default_transport_class_for_def)
  have lim: "effective_limit None (cap_max_payload capabilities_default) (mk_policy 237 False True True) = Some 237"
    by (simp add: effective_limit_def capabilities_default_def mk_policy_def u64_max_def)
  have env: "env_attachments ?env = []" "env_kind ?env = ''text''" "\<not> is_expired ?env 5"
    by (simp_all add: sample_env_def envelope_new_def is_expired_def)
  have pd: "process_due ext_demo [] [] 2 5 row daemon_out = send_to_plugin ext_demo 5 row ?env plugin_demo None True None daemon_out"
    using env(3) by (simp add: process_due_def st r store_out_row(2) MAX_ATTEMPTS_def IDENTITY_ROUTE_def FED_PROTOCOL_def
        process_due_plugin_def c ev b cfg_demo_def[THEN arg_cong, of cf_policies] mk_ep_def)
  define body where "body = render (render_tag ext_demo daemon_out ?env row)
     (case (case route_cfg cfg_demo ''demo'' of
               Some r \<Rightarrow> if rn_max_chars (rc_render r) > 0 then Some (rn_max_chars (rc_render r)) else None
             | None \<Rightarrow> None) of Some mc \<Rightarrow> truncate_body (env_body ?env) mc | None \<Rightarrow> env_body ?env) (Some 237)"
  have s: "send_to_plugin ext_demo 5 row ?env plugin_demo None True None daemon_out =
      (if frame_estimate body (mk_ep ''meshtastic'' ''x'') ?env [] > MAX_FRAME then finish 5 row DeadLetter ''FRAME_OVERSIZE'' daemon_out
       else case plugin_send ''meshtastic'' plugin_demo (Send 1 ''x'' ''text'' body []) (mark mark_attempting 5 1 daemon_out) of
              (SendOk, d3) \<Rightarrow> d3 | (_, d3) \<Rightarrow> retry_at 5 (dl_id row) (5 + csecs 5) d3)"
    using lim tp by (simp add: send_to_plugin_def outgoing_attachments_def env r c mk_ep_def plugin_demo_def Let_def body_def)
  have "frame_estimate body (mk_ep ''meshtastic'' ''x'') ?env [] \<le> MAX_FRAME"
    unfolding body_def by (rule frame_small[OF render_le])
  then show ?thesis unfolding pd s by (simp add: plugin_send_def plugin_demo_def)
qed


subsection \<open>Frames to federation peers\<close>

lemma prepare_fed_frame [simp]:
  "prepare_fed X now env peer rr (d\<lparr>dm_budget_limiter := b\<rparr>) = prepare_fed X now env peer rr d"
  "resolve_sealed_key X now peer (d\<lparr>dm_budget_limiter := b\<rparr>) = resolve_sealed_key X now peer d"
proof -
  have a: "sender_alias X (d\<lparr>dm_budget_limiter := b\<rparr>) e s = sender_alias X d e s" for e s by (simp add: sender_alias_def)
  show "prepare_fed X now env peer rr (d\<lparr>dm_budget_limiter := b\<rparr>) = prepare_fed X now env peer rr d"
    by (simp add: prepare_fed_def a Let_def)
  have k: "advert_key X now n (d\<lparr>dm_budget_limiter := b\<rparr>) = advert_key X now n d" for n by (simp add: advert_key_def)
  show "resolve_sealed_key X now peer (d\<lparr>dm_budget_limiter := b\<rparr>) = resolve_sealed_key X now peer d"
    by (simp add: resolve_sealed_key_def peer_of_def k cong: option.case_cong)
qed

definition fed_payload :: "ext \<Rightarrow> bytes \<Rightarrow> bytes \<Rightarrow> datetime \<Rightarrow> string \<Rightarrow> string \<Rightarrow> bool \<Rightarrow> envelope \<Rightarrow> daemon \<Rightarrow> fed_frame \<Rightarrow> bool" where
  "fed_payload X eph nonce now peer rr must_seal out d f \<longleftrightarrow>
     (if must_seal then \<exists>key expires. resolve_sealed_key X now peer d = Some key \<and> length (x_cbor_envelope X out) \<le> SEALED_MAX_BYTES \<and>
         f = FedSealed (seal_fixed X (x_cbor_envelope X out) (env_id out) expires key eph nonce) rr
      else f = FedEnvelope out rr)"

lemma fed_send_appends:
  "dm_fed_sent (case fed_send p tx m d0 of (SendOk, d2) \<Rightarrow> inc c d2 | (_, d2) \<Rightarrow> retry_at now i n d2) = dm_fed_sent d0 @ [f] \<longleftrightarrow>
   tx m = SendOk \<and> f = (p, m)"
  by (auto simp: fed_send_def split: send_result.splits)

lemma process_due_fed_sealed_payload:
  assumes "dm_fed_sent (process_due_fed_sealed X eph nonce now del out peer rr tx d) = dm_fed_sent d @ [(p, f)]"
  shows "p = peer \<and> fed_payload X eph nonce now peer rr True out d f"
proof -
  from assms obtain key where k: "resolve_sealed_key X now peer d = Some key"
    by (auto simp: process_due_fed_sealed_def split: option.splits)
  have l: "length (x_cbor_envelope X out) \<le> SEALED_MAX_BYTES"
    using assms by (cases "length (x_cbor_envelope X out) > SEALED_MAX_BYTES") (auto simp: process_due_fed_sealed_def k Let_def)
  let ?ttl = "case cf_federation (dm_cfg d) of Some fc \<Rightarrow> fc_max_ttl_secs fc | None \<Rightarrow> 86400"
  from assms k l obtain ex where e: "Option.bind (x_try_seconds X (as_i64 ?ttl)) (x_checked_add X (env_created_at out)) = Some ex"
    by (cases "Option.bind (x_try_seconds X (as_i64 ?ttl)) (x_checked_add X (env_created_at out))") (auto simp: process_due_fed_sealed_def Let_def)
  let ?d1 = "mark mark_attempting now (dl_id del) d"
  have "dm_fed_sent (case fed_send peer tx (FedSealed (seal_fixed X (x_cbor_envelope X out) (env_id out) (ex div 1000000000) key eph nonce) rr) ?d1 of
       (SendOk, d2) \<Rightarrow> inc SEALED_EGRESS d2 | (_, d2) \<Rightarrow> retry_at now (dl_id del) (now + csecs 5) d2) = dm_fed_sent ?d1 @ [(p, f)]"
    using assms k l e by (simp add: process_due_fed_sealed_def Let_def not_less[symmetric])
  then show ?thesis using k l unfolding fed_send_appends by (auto simp: fed_payload_def)
qed

lemma process_due_fed_payload:
  assumes "dm_fed_sent (process_due_fed X eph nonce t now del env d) = dm_fed_sent d @ [(p, f)]"
  obtains rr out rc where "split_once (CHR ''/'') (ep_endpoint (dl_destination del)) = Some (p, rr)"
    "prepare_fed X now env p rr d = Ok out" "route_cfg (dm_cfg d) (dl_route del) = Some rc"
    "fed_payload X eph nonce now p rr (rc_security_mode rc = ''sealed'') out d f"
proof -
  from assms obtain peer rr where sp: "split_once (CHR ''/'') (ep_endpoint (dl_destination del)) = Some (peer, rr)"
    by (auto simp: process_due_fed_def split: option.splits)
  from assms sp obtain tx where tx: "fed_tx d peer = Some tx"
    by (auto simp: process_due_fed_def split: option.splits)
  let ?pm = "case peer_of d peer of Some p \<Rightarrow> pe_messages_per_minute p | None \<Rightarrow> 0"
  obtain al b where al: "budget_allow (''fed/'' @ peer) ?pm t (dm_budget_limiter d) = (al, b)" by fastforce
  note base = process_due_fed_def sp tx Let_def
  have "al" using assms al by (cases al) (simp_all add: base)
  with al have ok: "budget_allow (''fed/'' @ peer) ?pm t (dm_budget_limiter d) = (True, b)" by simp
  let ?d1 = "d\<lparr>dm_budget_limiter := b\<rparr>"
  from assms ok obtain out where out: "prepare_fed X now env peer rr d = Ok out"
    by (cases "prepare_fed X now env peer rr d") (auto simp: base)
  from assms ok out obtain rc where rc: "route_cfg (dm_cfg d) (dl_route del) = Some rc"
    by (cases "route_cfg (dm_cfg d) (dl_route del)") (auto simp: base)
  have fp: "p = peer \<and> fed_payload X eph nonce now peer rr (rc_security_mode rc = ''sealed'') out d f"
  proof (cases "rc_security_mode rc = ''sealed''")
    case True
    have "dm_fed_sent (process_due_fed_sealed X eph nonce now del out peer rr tx ?d1) = dm_fed_sent ?d1 @ [(p, f)]"
      using assms ok out rc True by (simp add: base)
    from process_due_fed_sealed_payload[OF this] True show ?thesis by (simp add: fed_payload_def)
  next
    case False
    let ?d2 = "mark mark_attempting now (dl_id del) ?d1"
    have "dm_fed_sent (case fed_send peer tx (FedEnvelope out rr) ?d2 of (SendOk, d3) \<Rightarrow> inc FED_EGRESS d3
        | (_, d3) \<Rightarrow> retry_at now (dl_id del) (now + csecs 5) d3) = dm_fed_sent ?d2 @ [(p, f)]"
      using assms ok out rc False by (simp add: base)
    then show ?thesis using False unfolding fed_send_appends by (simp add: fed_payload_def)
  qed
  then show thesis using that sp out rc by blast
qed

lemma process_due_identity_fed_sent: "dm_fed_sent (process_due_identity t now del env d) = dm_fed_sent d"
  by (auto simp: process_due_identity_def plugin_send_def Let_def case_prod_unfold split: option.splits bool.splits send_result.splits)

lemma process_due_plugin_fed_sent: "dm_fed_sent (process_due_plugin X t now del env d) = dm_fed_sent d"
proof -
  have s: "dm_fed_sent (send_to_plugin X now del env h pm ok cap d1) = dm_fed_sent d1" for h pm ok cap d1
    by (auto simp: send_to_plugin_def Let_def case_prod_unfold plugin_send_def split: send_result.splits)
  show ?thesis
    by (auto simp: process_due_plugin_def s case_prod_unfold split: decision.splits option.splits bool.splits)
qed

text \<open>
  A signed envelope on its way: with a sound signature scheme, preparing an unsigned local message or a
  message whose chain verifies always succeeds, and the result verifies, is last signed by this node
  and has one more attestation and hop. A local message leaves with the pseudonym of its sender, scoped to
  the peer and remote route, in place of the native reference (under pseudonymous exposure), and the signature covers the pseudonym; a
  relayed message keeps its origin and sender.
\<close>

definition relayable :: "ext \<Rightarrow> envelope \<Rightarrow> bool" where
  "relayable X env \<longleftrightarrow> env_origin env = None \<and> env_attestations env = [] \<or> verify_chain X env = Ok ()"

definition exposure_of :: "daemon \<Rightarrow> string" where
  "exposure_of d = (case cf_federation (dm_cfg d) of Some f \<Rightarrow> fc_identity_exposure f | None \<Rightarrow> ''pseudonymous'')"

lemma verify_chain_origin: "verify_chain X env = Ok () \<Longrightarrow> env_origin env \<noteq> None"
  by (auto simp: verify_chain_def verify_origin_def split: option.splits)

lemma verify_chain_signed:
  assumes "ed25519_correct X" "env_attestations env = []"
  shows "verify_chain X (env\<lparr>env_origin := Some (sign_origin X env seed)\<rparr>) = Ok ()"
  using verify_origin_sign[OF assms(1), of env seed] assms(2) by (simp add: verify_chain_def)

lemma prepare_fed_signed:
  assumes "ed25519_correct X" "relayable X env"
  obtains out where "prepare_fed X now env peer rr d = Ok out" "verify_chain X out = Ok ()"
    "last_signer out = Some (identity_node_id X (dm_identity d))" "length (env_attestations out) = Suc (length (env_attestations env))"
    "env_hops out = env_hops env + 1" "env_id out = env_id env" "env_body out = env_body env" "env_created_at out = env_created_at env"
    "env_native_ref out = (if env_origin env = None \<and> exposure_of d = ''pseudonymous''
       then sender_alias X d env (''fed:'' @ peer @ ''/'' @ rr) else env_native_ref env)"
    "env_origin env \<noteq> None \<Longrightarrow> env_origin out = env_origin env"
proof -
  define e0 where "e0 = (if env_origin env = None \<and> exposure_of d = ''pseudonymous''
       then env\<lparr>env_native_ref := sender_alias X d env (''fed:'' @ peer @ ''/'' @ rr)\<rparr> else env)"
  define e1 where "e1 = (if env_origin env = None then e0\<lparr>env_origin := Some (sign_origin X e0 (dm_identity d))\<rparr> else env)"
  have e0: "env_attestations e0 = env_attestations env" "env_hops e0 = env_hops env" "env_id e0 = env_id env" "env_body e0 = env_body env"
    "env_created_at e0 = env_created_at env" by (simp_all add: e0_def)
  have v: "verify_chain X e1 = Ok ()"
  proof (cases "env_origin env = None")
    case True
    then have "env_attestations e0 = []" using assms(2) verify_chain_origin[of X env] e0(1) by (auto simp: relayable_def)
    then show ?thesis using True verify_chain_signed[OF assms(1), of e0] by (simp add: e1_def)
  next
    case False then show ?thesis using assms(2) by (auto simp: e1_def relayable_def)
  qed
  have e1: "env_attestations e1 = env_attestations env" "env_hops e1 = env_hops env" "env_id e1 = env_id env" "env_body e1 = env_body env"
    "env_created_at e1 = env_created_at env" by (simp_all add: e1_def e0)
  obtain e2 where a: "append_attestation X e1 (dm_identity d) now = Ok e2" "verify_chain X e2 = Ok ()"
    "env_attestations e2 = env_attestations e1 @ [last (env_attestations e2)]"
    "at_node_id (last (env_attestations e2)) = identity_node_id X (dm_identity d)" "env_origin e2 = env_origin e1" "env_hops e2 = env_hops e1"
    by (rule append_attestation_verifies[OF assms(1) v])
  have c: "\<exists>ats. e2 = e1\<lparr>env_attestations := ats\<rparr>" using a(1) by (auto simp: append_attestation_def Let_def split: if_splits option.splits)
  have p: "prepare_fed X now env peer rr d = Ok (e2\<lparr>env_hops := env_hops e2 + 1\<rparr>)"
  proof -
    have "prepare_fed X now env peer rr d = (case append_attestation X e1 (dm_identity d) now of
        Inl e \<Rightarrow> Err e | Inr o1 \<Rightarrow> Ok (o1\<lparr>env_hops := env_hops o1 + 1\<rparr>))"
      by (cases "env_origin env"; cases "exposure_of d = ''pseudonymous''")
         (simp_all add: prepare_fed_def e1_def e0_def exposure_of_def Let_def)
    then show ?thesis by (simp add: a(1))
  qed
  have n: "env_attestations e2 \<noteq> []" "length (env_attestations e2) = Suc (length (env_attestations env))" using a(3) e1(1) by (metis append_is_Nil_conv not_Cons_self2, metis length_append_singleton)
  show thesis
    by (rule that[OF p]) (use a n c e1 in \<open>auto simp: last_signer_def e1_def e0_def\<close>)
qed

text \<open>
  C8: The security posture of federation egress. When a due row makes the daemon hand a frame to a peer, the
  peer and the remote route are the row's destination, policy allows the message, and the row's route is
  still configured (a row whose route is gone sends nothing). On a route whose security mode is
  \<open>sealed\<close> the frame is the envelope sealed to the peer's resolved key, and never the clear-text envelope; on
  any other route it is the prepared envelope itself. Either way it is the envelope that \<open>prepare_fed\<close> signed.
\<close>

theorem fed_frame_posture:
  assumes "dm_fed_sent (process_due X eph nonce t now del d) = dm_fed_sent d @ [(p, f)]"
  shows "\<exists>env rr out rc. get_message (dl_message_id del) (dm_store d) = Inr (Some env) \<and> \<not> is_expired env now \<and>
    (\<exists>pm ok cap. evaluate (cf_policies (dm_cfg d)) env (dl_destination del) = Allow pm ok cap) \<and>
    ep_protocol (dl_destination del) = FED_PROTOCOL \<and>
    split_once (CHR ''/'') (ep_endpoint (dl_destination del)) = Some (p, rr) \<and> route_cfg (dm_cfg d) (dl_route del) = Some rc \<and>
    prepare_fed X now env p rr d = Ok out \<and> fed_payload X eph nonce now p rr (rc_security_mode rc = ''sealed'') out d f"
proof -
  have "\<not> quiet d (process_due X eph nonce t now del d)" using assms by (simp add: quiet_def)
  then obtain env where e: "get_message (dl_message_id del) (dm_store d) = Inr (Some env)" "\<not> is_expired env now"
    and r: "process_due X eph nonce t now del d =
      (if dl_route del = IDENTITY_ROUTE then process_due_identity t now del env d
       else if ep_protocol (dl_destination del) = FED_PROTOCOL then process_due_fed X eph nonce t now del env d
       else process_due_plugin X t now del env d)"
    and a: "dl_route del = IDENTITY_ROUTE \<or> (\<exists>pm ok cap. evaluate (cf_policies (dm_cfg d)) env (dl_destination del) = Allow pm ok cap)"
    by (elim process_due_noisy)
  have c: "dl_route del \<noteq> IDENTITY_ROUTE" "ep_protocol (dl_destination del) = FED_PROTOCOL"
    "dm_fed_sent (process_due_fed X eph nonce t now del env d) = dm_fed_sent d @ [(p, f)]"
    using assms r process_due_identity_fed_sent process_due_plugin_fed_sent by (auto split: if_splits)
  from process_due_fed_payload[OF c(3)] obtain rr out rc where
    "split_once (CHR ''/'') (ep_endpoint (dl_destination del)) = Some (p, rr)"
    "prepare_fed X now env p rr d = Ok out" "route_cfg (dm_cfg d) (dl_route del) = Some rc"
    "fed_payload X eph nonce now p rr (rc_security_mode rc = ''sealed'') out d f" .
  then show ?thesis using e a c by blast
qed

definition daemon_peer :: daemon where
  "daemon_peer = (daemon_demo (cfg_demo\<lparr>cf_routes := map (\<lambda>r. r\<lparr>rc_security_mode := ''sealed''\<rparr>) (cf_routes cfg_demo),
       cf_federation := Some ((fed_demo ''n'')\<lparr>fc_peers := [\<lparr>pe_name = ''bob'', pe_node_id = ''rf:b'', pe_addr = ''h'', pe_trust = ''trusted'',
         pe_messages_per_minute = 0, pe_sealed_key = Some (hex_encode (pad32 ''bob''))\<rparr>]\<rparr>)\<rparr>)
     (store_out (mk_ep ''fed'' ''bob/r1'')))\<lparr>dm_fed := Some [(''bob'', \<lparr>cn_tx = \<lambda>_. SendOk, cn_node_id = ''rf:b'', cn_connected_at = 0, cn_instance = 0\<rparr>)]\<rparr>"

theorem fed_frame_posture_witness:
  "\<exists>row s. st_deliveries (dm_store daemon_peer) = [row] \<and>
     dm_fed_sent (process_due ext_demo ''e'' ''n'' 2 5 row daemon_peer) = [(''bob'', FedSealed s ''r1'')]"
proof -
  let ?env = "sample_env ''text'' ''hi''"
  have st: "dm_store daemon_peer = store_out (mk_ep ''fed'' ''bob/r1'')" "dm_fed_sent daemon_peer = []"
    by (simp_all add: daemon_peer_def daemon_demo_def)
  obtain row where r: "st_deliveries (dm_store daemon_peer) = [row]" "dl_id row = 1" "dl_message_id row = ''id-1''" "dl_route row = ''demo''"
    "dl_destination row = mk_ep ''fed'' ''bob/r1''" "dl_priority row = 2" "dl_attempt_count row = 0"
    using store_out_row(1)[of "mk_ep ''fed'' ''bob/r1''"] by (auto simp: st)
  have sp: "split_once (CHR ''/'') ''bob/r1'' = Some (''bob'', ''r1'')" by code_simp
  have rc: "\<exists>rc. route_cfg (dm_cfg daemon_peer) ''demo'' = Some rc \<and> rc_security_mode rc = ''sealed''"
    by (simp add: daemon_peer_def daemon_demo_def route_cfg_def cfg_demo_def mk_route_def)
  have po: "peer_of (daemon_peer\<lparr>dm_budget_limiter := b\<rparr>) ''bob'' = Some \<lparr>pe_name = ''bob'', pe_node_id = ''rf:b'', pe_addr = ''h'', pe_trust = ''trusted'',
         pe_messages_per_minute = 0, pe_sealed_key = Some (hex_encode (pad32 ''bob''))\<rparr>" for b
    by (simp add: peer_of_def daemon_peer_def daemon_demo_def find_peer_def)
  have po': "peer_of daemon_peer ''bob'' = Some \<lparr>pe_name = ''bob'', pe_node_id = ''rf:b'', pe_addr = ''h'', pe_trust = ''trusted'',
         pe_messages_per_minute = 0, pe_sealed_key = Some (hex_encode (pad32 ''bob''))\<rparr>"
    by (simp add: peer_of_def daemon_peer_def daemon_demo_def find_peer_def)
  have key: "resolve_sealed_key ext_demo 5 ''bob'' daemon_peer = Some (pad32 ''bob'')" by (simp add: resolve_sealed_key_def po')
  have at: "env_attestations ?env = []" "env_origin ?env = None" "\<not> is_expired ?env 5" by (simp_all add: sample_env_def envelope_new_def is_expired_def)
  obtain out where o: "prepare_fed ext_demo 5 ?env ''bob'' ''r1'' daemon_peer = Ok out" "env_body out = ''hi''"
    by (rule prepare_fed_signed[OF ed25519_demo, of ?env 5 "''bob''" "''r1''" daemon_peer]) (simp_all add: relayable_def at sample_env_def envelope_new_def)
  have tx: "fed_tx daemon_peer ''bob'' = Some (\<lambda>_. SendOk)" "cf_policies (dm_cfg daemon_peer) = []" by (simp_all add: fed_tx_def daemon_peer_def daemon_demo_def cfg_demo_def)
  have "\<exists>p f. dm_fed_sent (process_due ext_demo ''e'' ''n'' 2 5 row daemon_peer) = dm_fed_sent daemon_peer @ [(p, f)]"
    using at(3) rc o key tx
    by (auto simp: process_due_def st r(2-) store_out_row(2) MAX_ATTEMPTS_def IDENTITY_ROUTE_def FED_PROTOCOL_def mk_ep_def evaluate_def
        process_due_fed_def sp po' budget_allow_def Let_def process_due_fed_sealed_def ext_demo_def[THEN arg_cong, of x_cbor_envelope]
        SEALED_MAX_BYTES_def NOISE_MAX_FRAME_def SEALED_OVERHEAD_MARGIN_def ext_demo_def[THEN arg_cong, of x_try_seconds]
        ext_demo_def[THEN arg_cong, of x_checked_add] fed_send_def)
  then obtain p f where f: "dm_fed_sent (process_due ext_demo ''e'' ''n'' 2 5 row daemon_peer) = dm_fed_sent daemon_peer @ [(p, f)]" by blast
  from fed_frame_posture[OF f] rc have "p = ''bob'' \<and> (\<exists>s. f = FedSealed s ''r1'')"
    by (auto simp: r(4,5) sp mk_ep_def fed_payload_def)
  then show ?thesis using f r(1) st(2) by auto
qed

subsection \<open>From one node to the next\<close>

lemma fed_gates_pass:
  assumes "cf_federation (dm_cfg d) = Some fc" "chain_admitted X peer fc (dm_store d) env"
    "within_replay_bound X now fc (env_created_at env) ttl" "env_hops env < fc_max_hops fc"
    "rt \<in> set (fc_ingress_routes fc)" "route_cfg (dm_cfg d) rt = Some rc"
  shows "\<exists>ex. fed_gates X now peer rt env d = Inr (env\<lparr>env_expires_at := ex\<rparr>, rc)"
proof -
  have "check_chain_shape env peer (fc_max_hops fc) = Inr ()"
    using assms(2) by (auto simp: chain_admitted_def check_chain_shape_def last_signer_def Let_def split: if_splits)
  moreover have "\<not> fed_trust_denied peer (fc_accept_from fc) d"
    using assms(2) by (simp add: chain_admitted_def fed_trust_denied_def peer_level_def)
  moreover obtain ex where b: "bound_replay_and_clamp_ttl X now (fc_max_ttl_secs fc) env = Inr (env\<lparr>env_expires_at := ex\<rparr>)"
  proof
    show "bound_replay_and_clamp_ttl X now (fc_max_ttl_secs fc) env = Inr (env\<lparr>env_expires_at := min (env_expires_at env) (now + ttl)\<rparr>)"
      using assms(3) by (auto simp: within_replay_bound_def bound_replay_and_clamp_ttl_def min_def not_less)
  qed
  ultimately have "fed_gates X now peer rt env d = Inr (env\<lparr>env_expires_at := ex\<rparr>, rc)"
    using assms by (simp add: fed_gates_def chain_admitted_def is_ok_def not_le)
  then show ?thesis by blast
qed

lemma fed_ingress_accepts:
  assumes g: "fed_gates X now peer rt (env\<lparr>env_priority := ''normal''\<rparr>) d = Inr (env1, rc)" "env1 = env\<lparr>env_priority := ''normal'', env_expires_at := ex\<rparr>"
    and n: "\<not> fst (is_duplicate (env_id env) t (dm_dedup d))" "env_id env \<notin> live_ids (dm_store d)" "sql_ok (dm_store d)"
    and l: "fst (sender_allow (fed_sender_key peer env) (fed_bytes env) t (dm_sender_limiter d))"
  shows "fst (fed_ingress X t now peer env rt d) = Accepted (env_id env)"
proof -
  have k: "fed_sender_key peer env1 = fed_sender_key peer env" "fed_bytes env1 = fed_bytes env" "env_id env1 = env_id env"
    by (simp_all add: g(2) fed_sender_key_def fed_bytes_def)
  have "\<not> message_exists (env_id env) d"
    using n(2,3) by (auto simp: message_exists_def get_message_def sql_ok_def live_ids_def split: option.splits dest!: find_SomeD) (metis imageI)
  with n(1) have nd: "\<not> (fst (is_duplicate (env_id env1) t (dm_dedup d)) \<or> message_exists (env_id env1) d)" by (simp add: k)
  from fed_ingress_cases(3)[OF refl g(1) nd] l obtain sl dd where
    "fed_ingress X t now peer env rt d =
       persist_and_fan_out now (env1\<lparr>env_received_at := now\<rparr>) rt rc FED_INGRESS (d\<lparr>dm_sender_limiter := sl, dm_dedup := dd\<rparr>)"
    by (auto simp: k)
  then show ?thesis
    using n(3) by (auto simp: persist_and_fan_out_def Let_def on_store_eq case_prod_unfold insert_message_def sql_ok_def k)
qed


definition me_demo :: string where
  "me_demo = identity_node_id ext_demo ''seed''"

definition daemon_b :: daemon where
  "daemon_b = daemon_demo (cfg_demo\<lparr>cf_federation := Some (fed_demo me_demo)\<rparr>)
     ((store_empty no_fails)\<lparr>st_trust := [\<lparr>tr_node_id = me_demo, tr_level = ''trusted'', tr_first_seen = 0, tr_updated_at = 0\<rparr>]\<rparr>)"


end
