(* ===== verification/Fed_Conn.thy ===== *)
theory Fed_Conn
  imports Engine_Egress
begin

text \<open>
  Federation connections (\<open>src/switchyardd/src/fed/conn.rs\<close>), the frame decoding of \<open>fed/wire.rs\<close> and
  the node's own advert (\<open>fed/advert.rs\<close>, \<open>build_from_config\<close>): admission after the handshake, the
  registry of live connections with its instance tokens, the gate in front of the decoder, the dispatch
  of decoded frames, advert exchange, and the frame loop of one connection.

  The CBOR readers of the frame structs, the CBOR writers and the parser of a UUID are third-party
  code: fields of the record \<open>wire\<close>. Sockets and the Noise channel are not modelled: the loop receives
  its inputs (a frame, a frame to send, a tick) as values, and a write succeeds as the argument \<open>ch\<close> says.
\<close>

record wire =
  w_peek :: "bytes \<Rightarrow> string option"
  w_envelope_fields :: "bytes \<Rightarrow> (envelope \<times> string) option"
  w_ack_fields :: "bytes \<Rightarrow> string option"
  w_advert_fields :: "bytes \<Rightarrow> advert option"
  w_sealed_fields :: "bytes \<Rightarrow> (sealed_envelope \<times> string) option"
  w_encode :: "fed_frame \<Rightarrow> bytes option"
  w_advert_doc :: "advert \<Rightarrow> bytes option"
  w_uuid_parse :: "string \<Rightarrow> uuid option"

subsection \<open>Constants\<close>

definition PING_INTERVAL :: duration where "PING_INTERVAL = secs 30"
definition DEAD_AFTER :: duration where "DEAD_AFTER = secs 90"
definition REKEY_INTERVAL :: duration where "REKEY_INTERVAL = secs (8 * 3600)"
definition TICK :: duration where "TICK = secs 5"
definition MAX_INBOUND_CONNS :: nat where "MAX_INBOUND_CONNS = 64"
definition ADVERT_MAX_BYTES :: nat where "ADVERT_MAX_BYTES = 16 * 1024"
definition ADVERT_MAX_NAME_CHARS :: nat where "ADVERT_MAX_NAME_CHARS = 64"
definition ADVERT_MAX_FUTURE_SECS :: int where "ADVERT_MAX_FUTURE_SECS = 86400"
definition ADVERT_REJECT_WARN_INTERVAL :: duration where "ADVERT_REJECT_WARN_INTERVAL = secs 60"
definition SMALL_FRAME_MAX_BYTES :: nat where "SMALL_FRAME_MAX_BYTES = 1024"
definition ENVELOPE_FRAME_MAX_BYTES :: nat where "ENVELOPE_FRAME_MAX_BYTES = 1024 * 1024"
definition ADVERT_FRAME_WRAP_BYTES :: nat where "ADVERT_FRAME_WRAP_BYTES = 32"
definition INBOUND_REJECT_LOG_INTERVAL :: duration where "INBOUND_REJECT_LOG_INTERVAL = secs 60"
definition MAX_SEEN_TRUST_ROWS :: nat where "MAX_SEEN_TRUST_ROWS = 10000"
definition MAX_PEER_ADVERTS :: nat where "MAX_PEER_ADVERTS = 10000"
definition DIAL_RECHECK :: duration where "DIAL_RECHECK = secs 5"

subsection \<open>Characters of a displayed name\<close>

definition is_display_spoofing :: "string \<Rightarrow> bool" where
  "is_display_spoofing c \<longleftrightarrow>
     (let n = code_point c in
      n = 0x061C \<or> (0x200E \<le> n \<and> n \<le> 0x200F) \<or> (0x202A \<le> n \<and> n \<le> 0x202E) \<or> (0x2066 \<le> n \<and> n \<le> 0x2069) \<or>
      (0x200B \<le> n \<and> n \<le> 0x200D) \<or> n = 0xFEFF \<or> n = 0x2060)"

definition sanitize_advert_name :: "string \<Rightarrow> string" where
  "sanitize_advert_name name =
     concat (take ADVERT_MAX_NAME_CHARS
       (filter (\<lambda>c. \<not> is_control c \<and> \<not> is_display_spoofing c) (rust_chars name)))"

subsection \<open>Trust and scope\<close>

definition configured_peer_name :: "daemon \<Rightarrow> string \<Rightarrow> string option" where
  "configured_peer_name d node_id =
     Option.bind (cf_federation (dm_cfg d))
       (\<lambda>f. map_option pe_name (find (\<lambda>p. pe_node_id p = node_id) (fc_peers f)))"

definition has_live_conn :: "daemon \<Rightarrow> string \<Rightarrow> bool" where
  "has_live_conn d peer_key =
     (case dm_fed d of None \<Rightarrow> False | Some conns \<Rightarrow> map_of conns peer_key \<noteq> None)"

definition stored_level :: "daemon \<Rightarrow> string \<Rightarrow> string option" where
  "stored_level d node_id = (case trust_level node_id (dm_store d) of Inl _ \<Rightarrow> None | Inr l \<Rightarrow> l)"

definition trust_below_accept_from :: "daemon \<Rightarrow> string \<Rightarrow> bool" where
  "trust_below_accept_from d peer =
     (case cf_federation (dm_cfg d) of
        None \<Rightarrow> True
      | Some f \<Rightarrow>
          trust_rank (case stored_level d peer of None \<Rightarrow> ''unknown'' | Some l \<Rightarrow> l) < trust_rank (fc_accept_from f))"

definition discovery_is_public :: "daemon \<Rightarrow> bool" where
  "discovery_is_public d \<longleftrightarrow> dc_mode (cf_discovery (dm_cfg d)) = ''public''"

definition advert_scope_allows :: "daemon \<Rightarrow> string \<Rightarrow> bool" where
  "advert_scope_allows d peer =
     (let mode = dc_mode (cf_discovery (dm_cfg d)) in
      if mode = ''disabled'' then False
      else if mode = ''public'' then True
      else if mode = ''federation'' then \<not> trust_below_accept_from d peer
      else False)"

definition display_peer_key :: "string \<Rightarrow> string" where
  "display_peer_key key = (if starts_with key ''rf:'' then short_node_id key else key)"

subsection \<open>The registry of live connections\<close>

definition set_federation_peer_up :: "string \<Rightarrow> bool \<Rightarrow> daemon \<Rightarrow> daemon" where
  "set_federation_peer_up label up d = d\<lparr>dm_peers_up := alist_put label up (dm_peers_up d)\<rparr>"

text \<open>\<open>PeerConn::new\<close> draws its token from a process-wide counter, taken or not.\<close>

definition register_up ::
  "string \<Rightarrow> string \<Rightarrow> datetime \<Rightarrow> (fed_frame \<Rightarrow> send_result) \<Rightarrow> daemon \<Rightarrow> u64 option \<times> daemon" where
  "register_up peer_key node_id now tx d =
     (case dm_fed d of
        None \<Rightarrow> (None, d)
      | Some conns \<Rightarrow>
          let token = dm_next_instance d;
              conn = \<lparr>cn_tx = tx, cn_node_id = node_id, cn_connected_at = now, cn_instance = token\<rparr>;
              d1 = d\<lparr>dm_next_instance := token + 1\<rparr>
          in if map_of conns peer_key \<noteq> None then (None, d1)
             else
               let label = display_peer_key peer_key;
                   d2 = d1\<lparr>dm_fed := Some (alist_put peer_key conn conns)\<rparr>
               in (Some token, emit_event (EvFederation label True now) (set_federation_peer_up label True d2)))"

definition register_down :: "datetime \<Rightarrow> string \<Rightarrow> u64 \<Rightarrow> daemon \<Rightarrow> daemon" where
  "register_down now peer_key token d =
     (case dm_fed d of
        None \<Rightarrow> d
      | Some conns \<Rightarrow>
          (case map_of conns peer_key of
             None \<Rightarrow> d
           | Some c \<Rightarrow>
               if cn_instance c = token then
                 let label = display_peer_key peer_key
                 in emit_event (EvFederation label False now)
                      (set_federation_peer_up label False (d\<lparr>dm_fed := Some (alist_del peer_key conns)\<rparr>))
               else d))"

text \<open>The part of \<open>admit_and_run\<close> before the frame loop: \<open>None\<close> is a refused connection.\<close>

definition admit ::
  "instant \<Rightarrow> datetime \<Rightarrow> string \<Rightarrow> string \<Rightarrow> (fed_frame \<Rightarrow> send_result) \<Rightarrow> daemon \<Rightarrow> u64 option \<times> daemon" where
  "admit t now peer_key node_id tx d =
     (let level = stored_level d node_id in
      if level = Some ''blocked'' then (None, d)
      else
        let vouched = trust_rank (case level of None \<Rightarrow> ''unknown'' | Some l \<Rightarrow> l) \<ge> trust_rank ''verified'' in
        if \<not> vouched \<and> \<not> discovery_is_public d then
          (None, (inc FED_REJECTED d)\<lparr>dm_inbound_warned :=
             snd (warn_throttle_due node_id INBOUND_REJECT_LOG_INTERVAL t (dm_inbound_warned d))\<rparr>)
        else
          let d1 = do_store (prune_seen_trust MAX_SEEN_TRUST_ROWS) (do_store (record_seen node_id now) d)
          in register_up peer_key node_id now tx d1)"

text \<open>An accepted socket after its handshake: the key is the configured name, or the node id.\<close>

definition accepted_peer_key :: "daemon \<Rightarrow> string \<Rightarrow> string" where
  "accepted_peer_key d node_id = (case configured_peer_name d node_id of None \<Rightarrow> node_id | Some n \<Rightarrow> n)"

definition try_acquire :: "nat \<Rightarrow> nat \<Rightarrow> nat option" where
  "try_acquire max_inbound in_use = (if in_use < max_inbound then Some (Suc in_use) else None)"

definition redial_backoff :: "bool \<Rightarrow> duration \<Rightarrow> duration" where
  "redial_backoff handshake_ok b = (if handshake_ok then secs 1 else min (b * 2) (secs 60))"

subsection \<open>Adverts\<close>

definition build_from_config :: "config \<Rightarrow> string \<Rightarrow> string \<Rightarrow> datetime \<Rightarrow> advert option" where
  "build_from_config cfg node_id sealed_key_hex now =
     (if dc_mode (cf_discovery cfg) = ''disabled'' then None
      else
        let services = map (\<lambda>k. (k, True)) (sort (remdups (''federation'' # map ps_type (cf_public_services cfg))));
            rx = concat (map ps_ingress (cf_public_services cfg));
            tx = concat (map ps_egress (cf_public_services cfg));
            protocols = map (\<lambda>p. (p, \<lparr>px_rx = p \<in> set rx, px_tx = p \<in> set tx, px_text = True, px_files = False,
                                       px_max_payload = None\<rparr>)) (sort (remdups (rx @ tx)));
            expires = (now + csecs (as_i64 (dc_advert_ttl_secs (cf_discovery cfg)))) div 1000000000
        in Some \<lparr>ad_rf_version = 1, ad_node_id = node_id, ad_name = nc_name (cf_node cfg), ad_services = services,
                 ad_protocols = protocols,
                 ad_security = \<lparr>sc_translate = True, sc_signed = True, sc_sealed = True, sc_sealed_key = Some sealed_key_hex\<rparr>,
                 ad_expires = expires, ad_sig = []\<rparr>)"

definition build_signed_advert :: "ext \<Rightarrow> datetime \<Rightarrow> daemon \<Rightarrow> advert option" where
  "build_signed_advert X now d =
     map_option (\<lambda>a. advert_sign X a (dm_identity d))
       (build_from_config (dm_cfg d) (identity_node_id X (dm_identity d))
          (hex_encode (x_box_public X (dm_sealed_secret d))) now)"

definition advert_key_ok :: "string \<Rightarrow> bool" where
  "advert_key_ok k \<longleftrightarrow> k \<noteq> [] \<and> length k \<le> 32 \<and>
     list_all (\<lambda>b. is_lower_byte b \<or> is_digit_byte b \<or> b = CHR ''_'' \<or> b = CHR ''-'') k"

definition advert_keys_sane :: "advert \<Rightarrow> bool" where
  "advert_keys_sane a \<longleftrightarrow>
     list_all (\<lambda>e. advert_key_ok (fst e)) (ad_services a) \<and> list_all (\<lambda>e. advert_key_ok (fst e)) (ad_protocols a)"

definition reject_advert :: "instant \<Rightarrow> string \<Rightarrow> string \<Rightarrow> daemon \<Rightarrow> daemon" where
  "reject_advert t peer reason d =
     (inc ADVERT_REJECTED d)\<lparr>dm_advert_warned :=
        snd (warn_throttle_due peer ADVERT_REJECT_WARN_INTERVAL t (dm_advert_warned d))\<rparr>"

text \<open>\<open>DateTime::from_timestamp\<close> on whole seconds: the range of chrono's \<open>DateTime\<close>.\<close>

definition from_timestamp :: "int \<Rightarrow> datetime option" where
  "from_timestamp s =
     (if - 8334601228800 \<le> s \<and> s \<le> 8210266876799 then Some (s * 1000000000) else None)"

definition store_advert :: "wire \<Rightarrow> datetime \<Rightarrow> advert \<Rightarrow> bytes \<Rightarrow> daemon \<Rightarrow> daemon" where
  "store_advert W now a raw d =
     (let clamped = min (ad_expires a) (now div 1000000000 + ADVERT_MAX_FUTURE_SECS);
          expires_dt = (case from_timestamp clamped of None \<Rightarrow> now | Some e \<Rightarrow> e);
          name = sanitize_advert_name (ad_name a)
      in case on_store (upsert_peer_advert (ad_node_id a) raw name expires_dt now) d of
           (upserted, d1) \<Rightarrow>
             let d2 = do_store (prune_peer_adverts MAX_PEER_ADVERTS) d1
             in (case upserted of
                   Inl _ \<Rightarrow> d2
                 | Inr _ \<Rightarrow> emit_event (EvAdvert (ad_node_id a) name now) (inc ADVERT_RX d2)))"

definition receive_advert :: "ext \<Rightarrow> wire \<Rightarrow> instant \<Rightarrow> datetime \<Rightarrow> string \<Rightarrow> advert \<Rightarrow> daemon \<Rightarrow> daemon" where
  "receive_advert X W t now peer a d =
     (case w_advert_doc W a of
        None \<Rightarrow> reject_advert t peer ''OVERSIZED'' d
      | Some raw \<Rightarrow>
          if length raw > ADVERT_MAX_BYTES then reject_advert t peer ''OVERSIZED'' d
          else if ad_node_id a \<noteq> peer then reject_advert t peer ''NODE_ID_MISMATCH'' d
          else if \<not> is_ok (advert_verify X a) then reject_advert t peer ''BAD_SIGNATURE'' d
          else if \<not> advert_keys_sane a then reject_advert t peer ''INVALID_SHAPE'' d
          else if ad_expires a \<le> now div 1000000000 then reject_advert t peer ''EXPIRED'' d
          else if \<not> advert_scope_allows d peer then reject_advert t peer ''TRUST_DENIED'' d
          else store_advert W now a raw d)"

subsection \<open>Decoding and dispatch of a frame\<close>

definition peek_tag :: "wire \<Rightarrow> bytes \<Rightarrow> string option" where
  "peek_tag W b = w_peek W b"

definition decode_tagged :: "wire \<Rightarrow> string \<Rightarrow> bytes \<Rightarrow> fed_frame option" where
  "decode_tagged W tag b =
     (if tag = ''envelope'' then map_option (\<lambda>(env, rt). FedEnvelope env rt) (w_envelope_fields W b)
      else if tag = ''ack'' then map_option FedAck (w_ack_fields W b)
      else if tag = ''ping'' then Some FedPing
      else if tag = ''pong'' then Some FedPong
      else if tag = ''advert'' then map_option FedAdvert (w_advert_fields W b)
      else if tag = ''advert_req'' then Some FedAdvertReq
      else if tag = ''sealed'' then map_option (\<lambda>(s, rt). FedSealed s rt) (w_sealed_fields W b)
      else None)"

definition reject_frame :: "instant \<Rightarrow> string \<Rightarrow> string \<Rightarrow> string \<Rightarrow> daemon \<Rightarrow> daemon" where
  "reject_frame t peer tag reason d =
     (if tag = ''advert'' then reject_advert t peer reason d
      else (inc FED_REJECTED d)\<lparr>dm_inbound_warned :=
             snd (warn_throttle_due peer INBOUND_REJECT_LOG_INTERVAL t (dm_inbound_warned d))\<rparr>)"

definition frame_cap :: "string \<Rightarrow> nat option" where
  "frame_cap tag =
     (if tag \<in> {''ping'', ''pong'', ''ack'', ''advert_req''} then Some SMALL_FRAME_MAX_BYTES
      else if tag = ''advert'' then Some (ADVERT_MAX_BYTES + ADVERT_FRAME_WRAP_BYTES)
      else if tag = ''envelope'' then Some ENVELOPE_FRAME_MAX_BYTES
      else if tag = ''sealed'' then Some NOISE_MAX_FRAME
      else None)"

definition frame_permitted :: "daemon \<Rightarrow> string \<Rightarrow> string \<Rightarrow> bool" where
  "frame_permitted d peer tag =
     (if tag \<in> {''envelope'', ''sealed''} then \<not> trust_below_accept_from d peer
      else if tag \<in> {''advert'', ''advert_req''} then advert_scope_allows d peer
      else True)"

definition decode_inbound :: "wire \<Rightarrow> instant \<Rightarrow> string \<Rightarrow> bytes \<Rightarrow> daemon \<Rightarrow> fed_frame option \<times> daemon" where
  "decode_inbound W t peer b d =
     (case peek_tag W b of
        None \<Rightarrow> (None, d)
      | Some tag \<Rightarrow>
          (case frame_cap tag of
             None \<Rightarrow> (None, d)
           | Some cap \<Rightarrow>
               if length b > cap then (None, reject_frame t peer tag ''OVERSIZED'' d)
               else if \<not> frame_permitted d peer tag then (None, reject_frame t peer tag ''TRUST_DENIED'' d)
               else (decode_tagged W tag b, d)))"

fun ack_rows :: "datetime \<Rightarrow> delivery list \<Rightarrow> daemon \<Rightarrow> (uuid \<times> string) list \<times> daemon" where
  "ack_rows now [] d = ([], d)"
| "ack_rows now (row # rows) d =
     (if dl_state row \<noteq> Attempting then ack_rows now rows d
      else case on_store (mark_delivered now (dl_id row)) d of
             (Inl _, d1) \<Rightarrow> ack_rows now rows d1
           | (Inr _, d1) \<Rightarrow>
               (case ack_rows now rows d1 of (done_rows, d2) \<Rightarrow> ((dl_message_id row, dl_route row) # done_rows, d2)))"

definition handle_fed_ack :: "wire \<Rightarrow> datetime \<Rightarrow> string \<Rightarrow> string \<Rightarrow> daemon \<Rightarrow> daemon" where
  "handle_fed_ack W now peer_key i d =
     (case w_uuid_parse W i of
        None \<Rightarrow> d
      | Some mid \<Rightarrow>
          let rows = (case deliveries_for_fed_ack mid peer_key (dm_store d) of Inl _ \<Rightarrow> [] | Inr rs \<Rightarrow> rs)
          in case ack_rows now rows d of
               (delivered, d1) \<Rightarrow> fold (\<lambda>(m, rt). emit_delivery now m rt ''delivered'') delivered d1)"

definition ack_reply :: "fed_outcome \<times> daemon \<Rightarrow> fed_frame option \<times> daemon" where
  "ack_reply r = (case r of (Accepted i, d1) \<Rightarrow> (Some (FedAck i), d1) | (Rejected _, d1) \<Rightarrow> (None, d1))"

fun handle_frame ::
  "ext \<Rightarrow> wire \<Rightarrow> instant \<Rightarrow> datetime \<Rightarrow> string \<Rightarrow> string \<Rightarrow> fed_frame \<Rightarrow> daemon \<Rightarrow> fed_frame option \<times> daemon" where
  "handle_frame X W t now peer key FedPing d = (Some FedPong, d)"
| "handle_frame X W t now peer key FedPong d = (None, d)"
| "handle_frame X W t now peer key (FedAck i) d = (None, handle_fed_ack W now key i d)"
| "handle_frame X W t now peer key (FedEnvelope env rt) d = ack_reply (fed_ingress X t now peer env rt d)"
| "handle_frame X W t now peer key FedAdvertReq d =
     (if \<not> advert_scope_allows d peer then (None, d)
      else case build_signed_advert X now d of
             None \<Rightarrow> (None, d)
           | Some a \<Rightarrow> (Some (FedAdvert a), inc ADVERT_TX d))"
| "handle_frame X W t now peer key (FedAdvert a) d = (None, receive_advert X W t now peer a d)"
| "handle_frame X W t now peer key (FedSealed s rt) d = ack_reply (fed_sealed_ingress X t now peer s rt d)"
| "handle_frame X W t now peer key FedUnknown d = (None, d)"

subsection \<open>The frame loop of one connection\<close>

record conn_loop =
  lp_last_ping :: instant
  lp_started :: instant
  lp_last_activity :: instant
  lp_last_advert :: instant
  lp_refresh :: duration

datatype conn_input = Received bytes | StreamError | Outgoing fed_frame | TxDropped | TickFired

definition send_fed :: "wire \<Rightarrow> (bytes \<Rightarrow> bool) \<Rightarrow> fed_frame \<Rightarrow> bool" where
  "send_fed W ch f = (case w_encode W f of None \<Rightarrow> False | Some b \<Rightarrow> ch b)"

text \<open>Entering \<open>run_conn\<close>: the loop's timers, and whether it asks the peer for its advert.\<close>

definition conn_start :: "instant \<Rightarrow> string \<Rightarrow> daemon \<Rightarrow> conn_loop \<times> fed_frame list" where
  "conn_start t peer d =
     (\<lparr>lp_last_ping = t, lp_started = t, lp_last_activity = t, lp_last_advert = t,
       lp_refresh = secs (max (dc_advert_ttl_secs (cf_discovery (dm_cfg d)) div 2) 1)\<rparr>,
      if advert_scope_allows d peer then [FedAdvertReq] else [])"

definition conn_received ::
  "ext \<Rightarrow> wire \<Rightarrow> (bytes \<Rightarrow> bool) \<Rightarrow> instant \<Rightarrow> datetime \<Rightarrow> string \<Rightarrow> string \<Rightarrow> bytes \<Rightarrow> conn_loop \<Rightarrow> daemon \<Rightarrow>
     conn_loop option \<times> fed_frame list \<times> daemon" where
  "conn_received X W ch t now peer key b lp d =
     (let lp1 = lp\<lparr>lp_last_activity := t\<rparr> in
      case decode_inbound W t peer b d of
        (None, d1) \<Rightarrow> (Some lp1, [], d1)
      | (Some f, d1) \<Rightarrow>
          (case handle_frame X W t now peer key f d1 of
             (None, d2) \<Rightarrow> (Some lp1, [], d2)
           | (Some reply, d2) \<Rightarrow>
               if send_fed W ch reply then (Some lp1, [reply], d2) else (None, [], d2)))"

definition conn_refresh ::
  "ext \<Rightarrow> wire \<Rightarrow> (bytes \<Rightarrow> bool) \<Rightarrow> instant \<Rightarrow> datetime \<Rightarrow> string \<Rightarrow> conn_loop \<Rightarrow> daemon \<Rightarrow> conn_loop option \<times> fed_frame list \<times> daemon" where
  "conn_refresh X W ch t now peer lp d =
     (if t - lp_last_advert lp \<ge> lp_refresh lp then
        let lp1 = lp\<lparr>lp_last_advert := t\<rparr> in
        if advert_scope_allows d peer then
          case build_signed_advert X now d of
            None \<Rightarrow> (Some lp1, [], d)
          | Some a \<Rightarrow>
              if send_fed W ch (FedAdvert a) then (Some lp1, [FedAdvert a], inc ADVERT_TX d)
              else (None, [], inc ADVERT_TX d)
        else (Some lp1, [], d)
      else (Some lp, [], d))"

definition conn_tick ::
  "ext \<Rightarrow> wire \<Rightarrow> (bytes \<Rightarrow> bool) \<Rightarrow> instant \<Rightarrow> datetime \<Rightarrow> string \<Rightarrow> conn_loop \<Rightarrow> daemon \<Rightarrow> conn_loop option \<times> fed_frame list \<times> daemon" where
  "conn_tick X W ch t now peer lp d =
     (if t - lp_last_activity lp \<ge> DEAD_AFTER then (None, [], d)
      else if t - lp_started lp > REKEY_INTERVAL then (None, [], d)
      else if t - lp_last_ping lp \<ge> PING_INTERVAL then
        if send_fed W ch FedPing then
          (case conn_refresh X W ch t now peer (lp\<lparr>lp_last_ping := t\<rparr>) d of (l, out, d1) \<Rightarrow> (l, FedPing # out, d1))
        else (None, [], d)
      else conn_refresh X W ch t now peer lp d)"

fun conn_step ::
  "ext \<Rightarrow> wire \<Rightarrow> (bytes \<Rightarrow> bool) \<Rightarrow> instant \<Rightarrow> datetime \<Rightarrow> string \<Rightarrow> string \<Rightarrow> conn_input \<Rightarrow> conn_loop \<Rightarrow> daemon \<Rightarrow>
     conn_loop option \<times> fed_frame list \<times> daemon" where
  "conn_step X W ch t now peer key (Received b) lp d = conn_received X W ch t now peer key b lp d"
| "conn_step X W ch t now peer key StreamError lp d = (None, [], d)"
| "conn_step X W ch t now peer key (Outgoing f) lp d = (if send_fed W ch f then (Some lp, [f], d) else (None, [], d))"
| "conn_step X W ch t now peer key TxDropped lp d = (None, [], d)"
| "conn_step X W ch t now peer key TickFired lp d = conn_tick X W ch t now peer lp d"

text \<open>
  The loop over a sequence of timed inputs; \<open>None\<close> means it has ended. The rest of the inputs is then
  not read.
\<close>

fun run_conn ::
  "ext \<Rightarrow> wire \<Rightarrow> (bytes \<Rightarrow> bool) \<Rightarrow> string \<Rightarrow> string \<Rightarrow> (instant \<times> datetime \<times> conn_input) list \<Rightarrow> conn_loop \<Rightarrow> daemon \<Rightarrow>
     conn_loop option \<times> fed_frame list \<times> daemon" where
  "run_conn X W ch peer key [] lp d = (Some lp, [], d)"
| "run_conn X W ch peer key ((t, now, i) # ins) lp d =
     (case conn_step X W ch t now peer key i lp d of
        (None, out, d1) \<Rightarrow> (None, out, d1)
      | (Some lp1, out, d1) \<Rightarrow>
          (case run_conn X W ch peer key ins lp1 d1 of (l, out2, d2) \<Rightarrow> (l, out @ out2, d2)))"

subsection \<open>Start-up\<close>

text \<open>
  \<open>spawn_federation\<close>: trust is seeded from the configuration; with a usable static key (\<open>key_ok\<close>) the
  listener's address and the peers to dial are returned.
\<close>

definition spawn_federation ::
  "bool \<Rightarrow> datetime \<Rightarrow> federation_config \<Rightarrow> daemon \<Rightarrow> string option \<times> peer_config list \<times> daemon" where
  "spawn_federation key_ok now fcfg d =
     (let d1 = do_store (seed_federation_trust fcfg now) d in
      if key_ok then (fc_listen fcfg, fc_peers fcfg, d1) else (None, [], d1))"

end
