(* ===== verification/Config_Validate.thy ===== *)
theory Config_Validate
  imports Fed_Conn
begin

text \<open>
  The checks a configuration passes before the daemon uses it (\<open>validate\<close> and its helpers in
  \<open>src/switchyardd/src/config.rs\<close>), in the order of the source: the first failing check is the error.
  An error message of the source is a constructor of \<open>config_error\<close> with the values it prints.
  \<open>is_socket_addr\<close> is \<open>str::parse::<SocketAddr>\<close> of the standard library.
\<close>

subsection \<open>Checks in sequence\<close>

named_theorems passes \<open>when a check succeeds\<close>

definition check :: "bool \<Rightarrow> 'e \<Rightarrow> 'e + unit" where
  "check b e = (if b then Ok () else Err e)"

definition and_then :: "'e + unit \<Rightarrow> 'e + unit \<Rightarrow> 'e + unit" where
  "and_then a b = (case a of Inl e \<Rightarrow> Err e | Inr _ \<Rightarrow> b)"

fun each :: "('a \<Rightarrow> 'e + unit) \<Rightarrow> 'a list \<Rightarrow> 'e + unit" where
  "each f [] = Ok ()"
| "each f (x # xs) = and_then (f x) (each f xs)"

definition all_of :: "('e + unit) list \<Rightarrow> 'e + unit" where
  "all_of cs = each (\<lambda>c. c) cs"

lemma check_ok [passes]: "check b e = Ok u \<longleftrightarrow> b"
  by (simp add: check_def)

lemma and_then_ok [passes]: "and_then a b = Ok u \<longleftrightarrow> a = Ok () \<and> b = Ok ()"
  by (auto simp: and_then_def split: sum.splits)

lemma each_ok [passes]: "each f xs = Ok u \<longleftrightarrow> list_all (\<lambda>x. f x = Ok ()) xs"
  by (induction xs) (auto simp: and_then_ok)

lemma all_of_ok [passes]: "all_of cs = Ok u \<longleftrightarrow> list_all (\<lambda>c. c = Ok ()) cs"
  by (simp add: all_of_def each_ok)

subsection \<open>Socket addresses\<close>

text \<open>
  The parser of the standard library, as a recogniser: each function returns the rest of the input. A
  number has at most \<open>max_digits\<close> digits when given, no leading zero unless allowed, and must not exceed
  \<open>limit\<close>, the largest value of its type.
\<close>

definition digit_in :: "nat \<Rightarrow> char \<Rightarrow> nat option" where
  "digit_in radix c =
     (case hex_val c of Some v \<Rightarrow> if v < radix then Some v else None | None \<Rightarrow> None)"

fun take_digits :: "nat \<Rightarrow> string \<Rightarrow> nat list \<times> string" where
  "take_digits radix [] = ([], [])"
| "take_digits radix (c # s) =
     (case digit_in radix c of
        None \<Rightarrow> ([], c # s)
      | Some v \<Rightarrow> (case take_digits radix s of (vs, r) \<Rightarrow> (v # vs, r)))"

definition digits_value :: "nat \<Rightarrow> nat list \<Rightarrow> nat" where
  "digits_value radix vs = foldl (\<lambda>acc v. acc * radix + v) 0 vs"

definition read_number :: "nat \<Rightarrow> nat option \<Rightarrow> bool \<Rightarrow> nat \<Rightarrow> string \<Rightarrow> string option" where
  "read_number radix max_digits allow_zero_prefix limit s =
     (case take_digits radix s of
        (vs, r) \<Rightarrow>
          if vs = [] \<or> digits_value radix vs > limit \<or> (case max_digits of None \<Rightarrow> False | Some m \<Rightarrow> length vs > m) \<or>
             (\<not> allow_zero_prefix \<and> hd vs = 0 \<and> length vs > 1)
          then None else Some r)"

definition read_given_char :: "char \<Rightarrow> string \<Rightarrow> string option" where
  "read_given_char c s = (case s of [] \<Rightarrow> None | x # r \<Rightarrow> if x = c then Some r else None)"

definition read_separator :: "char \<Rightarrow> nat \<Rightarrow> (string \<Rightarrow> string option) \<Rightarrow> string \<Rightarrow> string option" where
  "read_separator sep i f s = (if i = 0 then f s else Option.bind (read_given_char sep s) f)"

definition read_octet :: "string \<Rightarrow> string option" where
  "read_octet = read_number 10 (Some 3) False 255"

definition read_ipv4_addr :: "string \<Rightarrow> string option" where
  "read_ipv4_addr s =
     Option.bind (read_octet s) (\<lambda>s. Option.bind (read_separator (CHR ''.'') 1 read_octet s)
       (\<lambda>s. Option.bind (read_separator (CHR ''.'') 2 read_octet s) (read_separator (CHR ''.'') 3 read_octet)))"

text \<open>\<open>read_groups\<close> with \<open>n\<close> groups left of which the next is number \<open>i\<close>: groups read, whether an IPv4 tail, rest.\<close>

fun read_groups :: "nat \<Rightarrow> nat \<Rightarrow> string \<Rightarrow> nat \<times> bool \<times> string" where
  "read_groups 0 i s = (i, False, s)"
| "read_groups (Suc n) i s =
     (case (if n > 0 then read_separator (CHR '':'') i read_ipv4_addr s else None) of
        Some r \<Rightarrow> (i + 2, True, r)
      | None \<Rightarrow>
          (case read_separator (CHR '':'') i (read_number 16 (Some 4) True 65535) s of
             Some r \<Rightarrow> read_groups n (Suc i) r
           | None \<Rightarrow> (i, False, s)))"

definition read_ipv6_addr :: "string \<Rightarrow> string option" where
  "read_ipv6_addr s =
     (case read_groups 8 0 s of
        (head_size, head_ipv4, r) \<Rightarrow>
          if head_size = 8 then Some r
          else if head_ipv4 then None
          else Option.bind (read_given_char (CHR '':'') r) (\<lambda>r1. Option.bind (read_given_char (CHR '':'') r1)
                 (\<lambda>r2. Some (snd (snd (read_groups (8 - (head_size + 1)) 0 r2))))))"

definition read_port :: "string \<Rightarrow> string option" where
  "read_port s = Option.bind (read_given_char (CHR '':'') s) (read_number 10 None True 65535)"

definition read_socket_addr_v6 :: "string \<Rightarrow> string option" where
  "read_socket_addr_v6 s =
     Option.bind (read_given_char (CHR ''['') s) (\<lambda>s1. Option.bind (read_ipv6_addr s1) (\<lambda>s2.
       let scoped = Option.bind (read_given_char (CHR ''%'') s2) (read_number 10 None True (2 ^ 32 - 1));
           s3 = (case scoped of None \<Rightarrow> s2 | Some r \<Rightarrow> r)
       in Option.bind (read_given_char (CHR '']'') s3) read_port))"

definition is_socket_addr :: "string \<Rightarrow> bool" where
  "is_socket_addr s =
     (case Option.bind (read_ipv4_addr s) read_port of
        Some r \<Rightarrow> r = []
      | None \<Rightarrow> read_socket_addr_v6 s = Some [])"

subsection \<open>Shapes of names and identifiers\<close>

definition is_alnum_byte :: "char \<Rightarrow> bool" where
  "is_alnum_byte c \<longleftrightarrow> is_lower_byte c \<or> is_upper_byte c \<or> is_digit_byte c"

definition is_valid_component_name :: "string \<Rightarrow> bool" where
  "is_valid_component_name name \<longleftrightarrow> name \<noteq> [] \<and> length name \<le> 64 \<and>
     list_all (\<lambda>c. is_alnum_byte c \<or> c = CHR ''_'' \<or> c = CHR ''-'') name"

definition is_unsafe_advert_name_char :: "string \<Rightarrow> bool" where
  "is_unsafe_advert_name_char c \<longleftrightarrow> is_control c \<or>
     (let n = code_point c in
      n = 0x061C \<or> (0x200E \<le> n \<and> n \<le> 0x200F) \<or> (0x202A \<le> n \<and> n \<le> 0x202E) \<or> (0x2066 \<le> n \<and> n \<le> 0x2069) \<or>
      (0x200B \<le> n \<and> n \<le> 0x200D) \<or> n = 0xFEFF \<or> n = 0x2060)"

definition is_hexdigit_byte :: "char \<Rightarrow> bool" where
  "is_hexdigit_byte c \<longleftrightarrow> hex_val c \<noteq> None"

definition is_valid_hex64 :: "string \<Rightarrow> bool" where
  "is_valid_hex64 s \<longleftrightarrow> length s = 64 \<and> list_all is_hexdigit_byte s"

definition is_valid_rf_node_id :: "string \<Rightarrow> bool" where
  "is_valid_rf_node_id s =
     (case strip_prefix s ''rf:'' of
        Some hex_part \<Rightarrow> length hex_part = 64 \<and> list_all is_hexdigit_byte hex_part
      | None \<Rightarrow> False)"

definition is_lowercase_rf_node_id :: "string \<Rightarrow> bool" where
  "is_lowercase_rf_node_id s \<longleftrightarrow> \<not> list_ex is_upper_byte s"

definition security_rank :: "string \<Rightarrow> nat" where
  "security_rank mode = (if mode = ''sealed'' then 1 else 0)"

definition MAX_LIFECYCLE_SECS :: nat where "MAX_LIFECYCLE_SECS = 10 * 365 * 24 * 3600"
definition SOCKET_PATH_MAX :: nat where "SOCKET_PATH_MAX = 103"
definition TRANSPORT_MAX_PAYLOAD_BYTES_FLOOR :: nat where "TRANSPORT_MAX_PAYLOAD_BYTES_FLOOR = 64"

definition overlapping_federation_node_ids :: "federation_config \<Rightarrow> string list" where
  "overlapping_federation_node_ids f =
     (let peers = map pe_node_id (fc_peers f);
          hit = (\<lambda>xs ys. filter (\<lambda>x. x \<in> set ys) xs)
      in sort (remdups (hit peers (fc_trusted f) @ hit peers (fc_blocked f) @ hit (fc_trusted f) (fc_blocked f))))"

subsection \<open>Errors\<close>

datatype (plugins only: code size) config_error =
    DataDirRelative string
  | SocketPathLong string
  | PublicUnlimited
  | FedPluginReserved
  | BadPluginName string
  | HopLimitZero | TtlZero | DedupTtlZero | RetentionZero
  | AboveMaximum string nat
  | AlertEndpointShape string | AlertEndpointEmpty string | AlertPlugin string | AlertEvent string
  | NodeNameLong nat | NodeNameUnsafe
  | RouteReserved | BadRouteName string | DuplicateRoute string
  | BadIdentityMode string string | BadSecurityMode string string | BelowSecurityFloor string
  | BadRenderTag string string | MaxCharsLow string nat | FedSource string
  | PluginDisabled string string | PluginUnknown string string
  | FedDestNoBlock string | FedDestShape string string | FedDestPeer string string | FedDestRoute string string
  | SealedNotFed string | SealedNoKey string string
  | PolicyAttachments string string
  | PublicSource string string | PublicDestination string string
  | BudgetZero string | PayloadLow string nat
  | AcceptFrom string | MaxHopsZero | MaxTtlZero | MaxTtlHigh nat | IdentityExposure string | ListenAddr string
  | IngressRoute string
  | PeerName string | PeerDuplicate string | PeerNodeId string | PeerNodeIdCase string | PeerAddr string
  | PeerTrust string | PeerSealedKey string | PeerSealedKeyCase string
  | NodeIdShape string | NodeIdCase string
  | DiscoveryLocal | DiscoveryMode string | AdvertTtlLow nat | AdvertTtlHigh nat | DiscoveryNotPublic
  | MinimumSecurity string

subsection \<open>The checks\<close>

definition require_enabled_plugin :: "config \<Rightarrow> string \<Rightarrow> string \<Rightarrow> config_error + unit" where
  "require_enabled_plugin cfg proto what =
     (case map_of (cf_plugins cfg) proto of
        Some p \<Rightarrow> if pc_enabled p then Ok () else Err (PluginDisabled what proto)
      | None \<Rightarrow> Err (PluginUnknown what proto))"

text \<open>\<open>Path::join\<close>: an absolute component replaces the path.\<close>

definition path_join :: "string \<Rightarrow> string \<Rightarrow> string" where
  "path_join base c =
     (if starts_with c ''/'' then c
      else if base = [] \<or> last base = CHR ''/'' then base @ c else base @ ''/'' @ c)"

definition bound_socket_paths :: "config \<Rightarrow> string list" where
  "bound_socket_paths cfg =
     (let dir = nc_data_dir (cf_node cfg); plugins_d = path_join dir ''plugins.d''
      in path_join dir ''admin.sock'' #
         map (\<lambda>e. path_join plugins_d (fst e @ ''.sock'')) (filter (\<lambda>e. pc_enabled (snd e)) (cf_plugins cfg)))"

definition validate_node :: "config \<Rightarrow> config_error + unit" where
  "validate_node cfg = all_of
     [check (starts_with (nc_data_dir (cf_node cfg)) ''/'') (DataDirRelative (nc_data_dir (cf_node cfg))),
      each (\<lambda>p. check (length p \<le> SOCKET_PATH_MAX) (SocketPathLong p)) (bound_socket_paths cfg),
      (let l = cf_limits cfg;
           per_sender_unset = (lim_sender_messages_per_minute l = 0 \<and> lim_sender_bytes_per_hour l = 0);
           global_unset = (lim_global_queue_max l = 0 \<and> lim_global_cas_max_bytes l = 0)
       in check (\<not> (nc_public (cf_node cfg) \<and> per_sender_unset \<and> global_unset)) PublicUnlimited),
      check (FED_PROTOCOL \<notin> fst ` set (cf_plugins cfg)) FedPluginReserved,
      each (\<lambda>e. check (is_valid_component_name (fst e)) (BadPluginName (fst e))) (cf_plugins cfg)]"

definition validate_lifecycle :: "config \<Rightarrow> config_error + unit" where
  "validate_lifecycle cfg = all_of
     [check (cf_hop_limit cfg \<noteq> 0) HopLimitZero,
      check (cf_ttl_default_secs cfg \<noteq> 0) TtlZero,
      check (cf_dedup_ttl_secs cfg \<noteq> 0) DedupTtlZero,
      check (cf_retention_secs cfg \<noteq> 0) RetentionZero,
      each (\<lambda>(name, v). check (v \<le> MAX_LIFECYCLE_SECS) (AboveMaximum name v))
        [(''ttl_default_secs'', cf_ttl_default_secs cfg), (''dedup_ttl_secs'', cf_dedup_ttl_secs cfg),
         (''retention_secs'', cf_retention_secs cfg)]]"

definition validate_alerts :: "config \<Rightarrow> config_error + unit" where
  "validate_alerts cfg =
     (case cf_alerts cfg of
        None \<Rightarrow> Ok ()
      | Some a \<Rightarrow>
          (case split_once (CHR '':'') (al_endpoint a) of
             None \<Rightarrow> Err (AlertEndpointShape (al_endpoint a))
           | Some (plugin, ep) \<Rightarrow> all_of
               [check (plugin \<noteq> [] \<and> ep \<noteq> []) (AlertEndpointEmpty (al_endpoint a)),
                check (case map_of (cf_plugins cfg) plugin of Some p \<Rightarrow> pc_enabled p | None \<Rightarrow> False) (AlertPlugin plugin),
                each (\<lambda>e. check (e = ''plugin'' \<or> e = ''federation'') (AlertEvent e)) (al_events a)]))"

definition validate_node_name :: "config \<Rightarrow> config_error + unit" where
  "validate_node_name cfg =
     (let cs = rust_chars (nc_name (cf_node cfg)) in all_of
        [check (length cs \<le> 64) (NodeNameLong (length cs)),
         check (find is_unsafe_advert_name_char cs = None) NodeNameUnsafe])"

definition validate_fed_destination :: "config \<Rightarrow> string \<Rightarrow> string \<Rightarrow> config_error + unit" where
  "validate_fed_destination cfg rname endpoint =
     (case cf_federation cfg of
        None \<Rightarrow> Err (FedDestNoBlock rname)
      | Some fed \<Rightarrow>
          (case split_once (CHR ''/'') endpoint of
             None \<Rightarrow> Err (FedDestShape rname endpoint)
           | Some (peer_name, remote_route) \<Rightarrow> all_of
               [check (peer_name \<in> pe_name ` set (fc_peers fed)) (FedDestPeer rname peer_name),
                check (is_valid_peer_name remote_route) (FedDestRoute rname remote_route)]))"

definition validate_sealed_destination :: "config \<Rightarrow> string \<Rightarrow> endpoint \<Rightarrow> config_error + unit" where
  "validate_sealed_destination cfg rname ep =
     (if ep_protocol ep \<noteq> FED_PROTOCOL then Err (SealedNotFed rname)
      else case split_once (CHR ''/'') (ep_endpoint ep) of
             None \<Rightarrow> Ok ()
           | Some (peer_name, _) \<Rightarrow>
               (case Option.bind (cf_federation cfg) (\<lambda>f. find_peer f peer_name) of
                  None \<Rightarrow> Ok ()
                | Some p \<Rightarrow> check (pe_sealed_key p \<noteq> None) (SealedNoKey rname peer_name)))"

definition validate_sealed_route :: "config \<Rightarrow> route_config \<Rightarrow> config_error + unit" where
  "validate_sealed_route cfg r = each (validate_sealed_destination cfg (rc_name r)) (rc_destinations r)"

definition validate_route :: "config \<Rightarrow> string list \<Rightarrow> route_config \<Rightarrow> config_error + unit" where
  "validate_route cfg seen r = all_of
     [check (rc_name r \<noteq> IDENTITY_ROUTE) RouteReserved,
      check (is_valid_component_name (rc_name r)) (BadRouteName (rc_name r)),
      check (rc_name r \<notin> set seen) (DuplicateRoute (rc_name r)),
      check (rc_identity_mode r \<in> {''pseudonymous'', ''linked''}) (BadIdentityMode (rc_name r) (rc_identity_mode r)),
      check (rc_security_mode r \<in> {''gateway'', ''sealed''}) (BadSecurityMode (rc_name r) (rc_security_mode r)),
      check (security_rank (rc_security_mode r) \<ge> security_rank (pv_minimum_security (cf_privacy cfg))) (BelowSecurityFloor (rc_name r)),
      check (rn_tag (rc_render r) \<in> {''alias'', ''none''}) (BadRenderTag (rc_name r) (rn_tag (rc_render r))),
      check (rn_max_chars (rc_render r) = 0 \<or> rn_max_chars (rc_render r) \<ge> 16) (MaxCharsLow (rc_name r) (rn_max_chars (rc_render r))),
      check (\<not> list_ex (\<lambda>ep. ep_protocol ep = FED_PROTOCOL) (rc_sources r)) (FedSource (rc_name r)),
      each (\<lambda>ep. if ep_protocol ep = FED_PROTOCOL then Ok () else require_enabled_plugin cfg (ep_protocol ep) (rc_name r))
        (rc_sources r @ rc_destinations r),
      each (\<lambda>ep. if ep_protocol ep = FED_PROTOCOL then validate_fed_destination cfg (rc_name r) (ep_endpoint ep) else Ok ())
        (rc_destinations r),
      if rc_security_mode r = ''sealed'' then validate_sealed_route cfg r else Ok ()]"

fun validate_routes :: "config \<Rightarrow> string list \<Rightarrow> route_config list \<Rightarrow> config_error + unit" where
  "validate_routes cfg seen [] = Ok ()"
| "validate_routes cfg seen (r # rs) = and_then (validate_route cfg seen r) (validate_routes cfg (rc_name r # seen) rs)"

definition validate_policies :: "config \<Rightarrow> config_error + unit" where
  "validate_policies cfg =
     each (\<lambda>p. case pr_attachments (pol_rules p) of
                 None \<Rightarrow> Ok ()
               | Some v \<Rightarrow> check (v \<in> {''allow'', ''reject''}) (PolicyAttachments (pol_name p) v)) (cf_policies cfg)"

definition validate_public :: "config \<Rightarrow> config_error + unit" where
  "validate_public cfg = all_of
     [each (\<lambda>svc. each (\<lambda>proto. require_enabled_plugin cfg proto (ps_name svc)) (ps_ingress svc @ ps_egress svc))
        (cf_public_services cfg),
      if nc_public (cf_node cfg) then
        let ingress_protocols = concat (map ps_ingress (cf_public_services cfg));
            egress_protocols = concat (map ps_egress (cf_public_services cfg))
        in each (\<lambda>r. all_of
             [each (\<lambda>ep. check (ep_protocol ep \<in> set ingress_protocols) (PublicSource (rc_name r) (ep_protocol ep))) (rc_sources r),
              each (\<lambda>ep. check (ep_protocol ep \<in> set egress_protocols) (PublicDestination (rc_name r) (ep_protocol ep)))
                (rc_destinations r)]) (cf_routes cfg)
      else Ok ()]"

definition validate_transports :: "config \<Rightarrow> config_error + unit" where
  "validate_transports cfg = all_of
     [each (\<lambda>(proto, per_minute). all_of
        [check (per_minute \<noteq> 0) (BudgetZero proto), require_enabled_plugin cfg proto proto]) (cf_transport_budgets cfg),
      each (\<lambda>(proto, e). all_of
        [require_enabled_plugin cfg proto proto,
         case te_max_payload_bytes e of
           None \<Rightarrow> Ok ()
         | Some n \<Rightarrow> check (n \<ge> TRANSPORT_MAX_PAYLOAD_BYTES_FLOOR) (PayloadLow proto n)]) (cf_transports cfg)]"

definition validate_peer :: "string list \<Rightarrow> peer_config \<Rightarrow> config_error + unit" where
  "validate_peer seen p = all_of
     [check (is_valid_peer_name (pe_name p)) (PeerName (pe_name p)),
      check (pe_name p \<notin> set seen) (PeerDuplicate (pe_name p)),
      check (is_valid_rf_node_id (pe_node_id p)) (PeerNodeId (pe_node_id p)),
      check (is_lowercase_rf_node_id (pe_node_id p)) (PeerNodeIdCase (pe_node_id p)),
      check (is_socket_addr (pe_addr p)) (PeerAddr (pe_addr p)),
      check (pe_trust p \<in> {''verified'', ''trusted''}) (PeerTrust (pe_trust p)),
      case pe_sealed_key p of
        None \<Rightarrow> Ok ()
      | Some k \<Rightarrow> all_of [check (is_valid_hex64 k) (PeerSealedKey k),
                          check (\<not> list_ex is_upper_byte k) (PeerSealedKeyCase k)]]"

fun validate_peers :: "string list \<Rightarrow> peer_config list \<Rightarrow> config_error + unit" where
  "validate_peers seen [] = Ok ()"
| "validate_peers seen (p # ps) = and_then (validate_peer seen p) (validate_peers (pe_name p # seen) ps)"

definition validate_federation :: "config \<Rightarrow> config_error + unit" where
  "validate_federation cfg =
     (case cf_federation cfg of
        None \<Rightarrow> Ok ()
      | Some fed \<Rightarrow> all_of
          [check (fc_accept_from fed \<in> {''verified'', ''trusted''}) (AcceptFrom (fc_accept_from fed)),
           check (fc_max_hops fed \<noteq> 0) MaxHopsZero,
           check (fc_max_ttl_secs fed \<noteq> 0) MaxTtlZero,
           check (fc_max_ttl_secs fed \<le> MAX_LIFECYCLE_SECS) (MaxTtlHigh (fc_max_ttl_secs fed)),
           check (fc_identity_exposure fed \<in> {''pseudonymous'', ''full''}) (IdentityExposure (fc_identity_exposure fed)),
           (case fc_listen fed of None \<Rightarrow> Ok () | Some a \<Rightarrow> check (is_socket_addr a) (ListenAddr a)),
           each (\<lambda>n. check (n \<in> rc_name ` set (cf_routes cfg)) (IngressRoute n)) (fc_ingress_routes fed),
           validate_peers [] (fc_peers fed),
           each (\<lambda>n. all_of [check (is_valid_rf_node_id n) (NodeIdShape n), check (is_lowercase_rf_node_id n) (NodeIdCase n)])
             (fc_trusted fed @ fc_blocked fed)])"

definition validate_discovery :: "config \<Rightarrow> config_error + unit" where
  "validate_discovery cfg =
     (let d = cf_discovery cfg in all_of
        [if dc_mode d \<in> {''disabled'', ''federation'', ''public''} then Ok ()
         else if dc_mode d = ''local'' then Err DiscoveryLocal else Err (DiscoveryMode (dc_mode d)),
         check (dc_advert_ttl_secs d \<ge> 300) (AdvertTtlLow (dc_advert_ttl_secs d)),
         check (dc_advert_ttl_secs d \<le> 86400) (AdvertTtlHigh (dc_advert_ttl_secs d)),
         check (\<not> (dc_mode d = ''public'' \<and> \<not> nc_public (cf_node cfg))) DiscoveryNotPublic])"

definition validate_privacy :: "config \<Rightarrow> config_error + unit" where
  "validate_privacy cfg =
     check (pv_minimum_security (cf_privacy cfg) \<in> {''gateway'', ''sealed''}) (MinimumSecurity (pv_minimum_security (cf_privacy cfg)))"

definition validate :: "config \<Rightarrow> config_error + unit" where
  "validate cfg = all_of
     [validate_node cfg, validate_lifecycle cfg, validate_alerts cfg, validate_node_name cfg,
      validate_routes cfg [] (cf_routes cfg), validate_policies cfg, validate_public cfg, validate_transports cfg,
      validate_federation cfg, validate_discovery cfg, validate_privacy cfg]"

end
