(* ===== verification/Fed_Conn_Props.thy ===== *)
theory Fed_Conn_Props
  imports Fed_Conn Fed_Props
begin

text \<open>
  What the connection layer promises: an acknowledgement is sent only for a stored message and settles
  exactly the rows it names, frames of a peer without sufficient trust are inert, the registry of
  connections is exact, a silent or old connection ends, and an advertised sealing key reaches the peer that
  seals to it.
\<close>

subsection \<open>Frame facts\<close>

lemma reject_advert_frame [simp]:
  "dm_store (reject_advert t p r d) = dm_store d" "dm_cas (reject_advert t p r d) = dm_cas d"
  "dm_fed (reject_advert t p r d) = dm_fed d" "dm_cfg (reject_advert t p r d) = dm_cfg d"
  "dm_sent (reject_advert t p r d) = dm_sent d" "dm_fed_sent (reject_advert t p r d) = dm_fed_sent d"
  by (simp_all add: reject_advert_def)

lemma reject_frame_frame [simp]:
  "dm_store (reject_frame t p tag r d) = dm_store d" "dm_cas (reject_frame t p tag r d) = dm_cas d"
  "dm_fed (reject_frame t p tag r d) = dm_fed d" "dm_cfg (reject_frame t p tag r d) = dm_cfg d"
  "dm_sent (reject_frame t p tag r d) = dm_sent d" "dm_fed_sent (reject_frame t p tag r d) = dm_fed_sent d"
  by (simp_all add: reject_frame_def)

lemma peer_level_stored: "peer_level p (dm_store d) = (case stored_level d p of None \<Rightarrow> ''unknown'' | Some l \<Rightarrow> l)"
  by (auto simp: peer_level_def stored_level_def split: sum.splits option.splits)

text \<open>The gate in front of the decoder and the gate of the engine are two copies of one comparison.\<close>

lemma trust_gates_agree:
  "trust_below_accept_from d peer =
    (case cf_federation (dm_cfg d) of None \<Rightarrow> True | Some f \<Rightarrow> fed_trust_denied peer (fc_accept_from f) d)"
  by (auto simp: trust_below_accept_from_def fed_trust_denied_def stored_level_def Let_def split: option.splits sum.splits)

lemma decode_inbound_Some:
  assumes "decode_inbound W t peer b d = (Some f, d1)"
  obtains tag cap where "peek_tag W b = Some tag" "frame_cap tag = Some cap" "length b \<le> cap"
    "frame_permitted d peer tag" "decode_tagged W tag b = Some f" "d1 = d"
proof -
  obtain tag where tag: "peek_tag W b = Some tag" using assms by (auto simp: decode_inbound_def split: option.splits)
  obtain cap where cap: "frame_cap tag = Some cap" using assms tag by (auto simp: decode_inbound_def split: option.splits)
  show thesis
    by (rule that[OF tag cap]) (use assms tag cap in \<open>auto simp: decode_inbound_def split: if_splits\<close>)
qed

lemma decode_inbound_store [simp]: "dm_store (snd (decode_inbound W t peer b d)) = dm_store d"
  by (auto simp: decode_inbound_def split: option.splits)

text \<open>A decoded frame is of a type the peer may send.\<close>

definition frame_needs_trust :: "fed_frame \<Rightarrow> bool" where
  "frame_needs_trust f = (case f of FedEnvelope _ _ \<Rightarrow> True | FedSealed _ _ \<Rightarrow> True | _ \<Rightarrow> False)"

definition frame_needs_scope :: "fed_frame \<Rightarrow> bool" where
  "frame_needs_scope f = (case f of FedAdvert _ \<Rightarrow> True | FedAdvertReq \<Rightarrow> True | _ \<Rightarrow> False)"

lemma decoded_permitted:
  assumes "decode_inbound W t peer b d = (Some f, d1)"
  shows "d1 = d" "frame_needs_trust f \<Longrightarrow> \<not> trust_below_accept_from d peer"
    "frame_needs_scope f \<Longrightarrow> advert_scope_allows d peer"
proof -
  obtain tag where t: "frame_permitted d peer tag" "decode_tagged W tag b = Some f" "d1 = d"
    by (rule decode_inbound_Some[OF assms])
  show "d1 = d" by (rule t(3))
  show "frame_needs_trust f \<Longrightarrow> \<not> trust_below_accept_from d peer" "frame_needs_scope f \<Longrightarrow> advert_scope_allows d peer"
    using t(1,2) by (auto simp: decode_tagged_def frame_permitted_def frame_needs_trust_def frame_needs_scope_def
        split: if_splits option.splits)
qed

subsection \<open>Acknowledgements sent\<close>

lemma handle_frame_ack:
  assumes "handle_frame X W t now peer key f d = (Some (FedAck i), d')"
  obtains e rt where "fed_receive X t now peer e rt d = (Accepted i, d')" "frame_needs_trust f"
proof (cases f)
  case (FedEnvelope env rt)
  then show thesis using assms that[of "Inl env" rt]
    by (auto simp: ack_reply_def fed_receive_def frame_needs_trust_def split: prod.splits fed_outcome.splits)
next
  case (FedSealed s rt)
  then show thesis using assms that[of "Inr s" rt]
    by (auto simp: ack_reply_def fed_receive_def frame_needs_trust_def split: prod.splits fed_outcome.splits)
qed (use assms in \<open>auto split: if_splits option.splits\<close>)

text \<open>
  C14: An acknowledgement means stored. Whatever bytes a peer sends, when the frame loop answers with an
  acknowledgement for \<open>i\<close>, then the peer's trust reaches \<open>accept_from\<close>, the message \<open>i\<close> was not stored
  before and it is stored now: a rejected frame is never acknowledged, so the sender's retry machinery
  never forgets a message this node does not hold.
\<close>

theorem ack_means_stored:
  assumes "conn_received X W ch t now peer key b lp d = (l, out, d')" "FedAck i \<in> set out"
    and "sql_ok (dm_store d)" "readable (dm_store d)"
  shows "\<not> trust_below_accept_from d peer \<and> \<not> message_exists i d \<and> message_exists i d'"
proof -
  obtain f where f: "decode_inbound W t peer b d = (Some f, d)" "handle_frame X W t now peer key f d = (Some (FedAck i), d')"
    using assms(1,2) decoded_permitted(1)[of W t peer b d]
    by (auto simp: conn_received_def Let_def split: prod.splits option.splits if_splits)
  obtain e rt where e: "fed_receive X t now peer e rt d = (Accepted i, d')" "frame_needs_trust f"
    by (rule handle_frame_ack[OF f(2)])
  obtain env rc m sl dd where "\<not> message_exists i d" by (rule fed_receive_accepted[OF e(1)])
  then show ?thesis using fed_receive_known(1)[OF e(1) assms(3,4)] decoded_permitted(2)[OF f(1) e(2)] by blast
qed

definition wire_demo :: wire where
  "wire_demo = \<lparr>w_peek = (\<lambda>b. if b = [] then None else if hd b = CHR ''e'' then Some ''envelope'' else Some ''ping''),
     w_envelope_fields = (\<lambda>b. Some (env_demo, ''demo'')), w_ack_fields = Some, w_advert_fields = (\<lambda>b. None),
     w_sealed_fields = (\<lambda>b. None), w_encode = (\<lambda>f. Some []), w_advert_doc = (\<lambda>a. Some ''doc''), w_uuid_parse = Some\<rparr>"

definition loop_demo :: conn_loop where
  "loop_demo = \<lparr>lp_last_ping = 0, lp_started = 0, lp_last_activity = 0, lp_last_advert = 0, lp_refresh = secs 150\<rparr>"

theorem ack_means_stored_witness:
  "\<exists>l d'. conn_received ext_demo wire_demo (\<lambda>_. True) 5 5 peer_demo ''bob'' ''e'' loop_demo daemon_fed = (l, [FedAck ''id-1''], d') \<and>
     \<not> message_exists ''id-1'' daemon_fed \<and> message_exists ''id-1'' d'"
proof -
  obtain d' where d': "fed_ingress ext_demo 5 5 peer_demo env_demo ''demo'' daemon_fed = (Accepted ''id-1'', d')"
    using fed_demo_accepts by (metis prod.collapse)
  have tr: "\<not> trust_below_accept_from daemon_fed peer_demo"
    by (simp add: trust_below_accept_from_def daemon_fed_def daemon_demo_def fed_demo_def stored_level_def trust_level_def
        store_empty_def no_fails_def trust_rank_def)
  have dec: "decode_inbound wire_demo 5 peer_demo ''e'' daemon_fed = (Some (FedEnvelope env_demo ''demo''), daemon_fed)"
    using tr by (simp add: decode_inbound_def peek_tag_def wire_demo_def frame_cap_def ENVELOPE_FRAME_MAX_BYTES_def frame_permitted_def decode_tagged_def)
  have c: "conn_received ext_demo wire_demo (\<lambda>_. True) 5 5 peer_demo ''bob'' ''e'' loop_demo daemon_fed =
      (Some (loop_demo\<lparr>lp_last_activity := 5\<rparr>), [FedAck ''id-1''], d')"
    by (simp add: conn_received_def dec d' ack_reply_def send_fed_def) (simp add: wire_demo_def)
  have s: "sql_ok (dm_store daemon_fed)" "readable (dm_store daemon_fed)"
    by (simp_all add: daemon_fed_def daemon_demo_def store_empty_def sql_ok_def no_fails_def readable_def)
  from ack_means_stored[OF c _ s, of "''id-1''"] c show ?thesis by auto
qed

subsection \<open>Acknowledgements received\<close>

definition deliver_row :: "datetime \<Rightarrow> delivery \<Rightarrow> delivery" where
  "deliver_row now r = r\<lparr>dl_state := Delivered, dl_updated_at := now\<rparr>"

definition acked :: "uuid \<Rightarrow> string \<Rightarrow> delivery \<Rightarrow> bool" where
  "acked mid key r \<longleftrightarrow> dl_message_id r = mid \<and> ep_protocol (dl_destination r) = ''fed'' \<and>
     like (key @ ''/%'') (ep_endpoint (dl_destination r)) \<and> dl_state r = Attempting"

abbreviation attempting_ids :: "delivery list \<Rightarrow> int set" where
  "attempting_ids rows \<equiv> dl_id ` {r \<in> set rows. dl_state r = Attempting}"

lemma update_deliveries_sql [simp]: "sql_fails (update_deliveries P f st) = sql_fails st"
  by (simp add: update_deliveries_def)

lemma update_deliveries_twice:
  "update_deliveries (\<lambda>r. dl_id r \<in> A \<and> dl_state r = Attempting) (deliver_row now)
     (update_deliveries (\<lambda>r. dl_id r = i \<and> dl_state r = Attempting) (deliver_row now) st) =
   update_deliveries (\<lambda>r. dl_id r \<in> insert i A \<and> dl_state r = Attempting) (deliver_row now) st"
proof -
  have "(\<lambda>r. if dl_id r \<in> A \<and> dl_state r = Attempting then deliver_row now r else r) \<circ>
        (\<lambda>r. if dl_id r = i \<and> dl_state r = Attempting then deliver_row now r else r) =
      (\<lambda>r. if dl_id r \<in> insert i A \<and> dl_state r = Attempting then deliver_row now r else r)"
    by (auto simp: fun_eq_iff deliver_row_def)
  then show ?thesis by (simp add: update_deliveries_def del: insert_iff)
qed

lemma update_deliveries_none [simp]: "update_deliveries (\<lambda>r. False) f st = st"
  by (simp add: update_deliveries_def)

lemma ack_rows_eq:
  assumes "sql_ok (dm_store d)"
  shows "ack_rows now rows d =
    (map (\<lambda>r. (dl_message_id r, dl_route r)) (filter (\<lambda>r. dl_state r = Attempting) rows),
     d\<lparr>dm_store := update_deliveries (\<lambda>r. dl_id r \<in> attempting_ids rows \<and> dl_state r = Attempting) (deliver_row now) (dm_store d)\<rparr>)"
  using assms
proof (induction rows arbitrary: d)
  case (Cons row rows)
  have m: "mark_delivered now (dl_id row) (dm_store d) =
      (Ok (), update_deliveries (\<lambda>r. dl_id r = dl_id row \<and> dl_state r = Attempting) (deliver_row now) (dm_store d))"
    using Cons.prems by (simp add: mark_delivered_def sql_ok_def deliver_row_def[abs_def])
  have i: "attempting_ids (row # rows) = (if dl_state row = Attempting then insert (dl_id row) (attempting_ids rows) else attempting_ids rows)"
    by auto
  show ?case
  proof (cases "dl_state row = Attempting")
    case True
    let ?d = "d\<lparr>dm_store := update_deliveries (\<lambda>r. dl_id r = dl_id row \<and> dl_state r = Attempting) (deliver_row now) (dm_store d)\<rparr>"
    have "sql_ok (dm_store ?d)" using Cons.prems by (simp add: sql_ok_def)
    from Cons.IH[OF this] show ?thesis unfolding i by (simp add: True on_store_eq m update_deliveries_twice)
  next
    case False then show ?thesis using Cons unfolding i by simp
  qed
qed simp

lemma emit_deliveries:
  "fold (\<lambda>(m, rt). emit_delivery now m rt s) xs d =
    d\<lparr>dm_events := dm_events d @ (if dm_receivers d > 0 then map (\<lambda>(m, rt). EvDelivery m rt s now) xs else [])\<rparr>"
  by (induction xs arbitrary: d) (auto simp: emit_delivery_def emit_event_def)

lemma acked_delivered [simp]: "\<not> acked mid key (deliver_row now r)"
  unfolding acked_def deliver_row_def by simp

lemma row_unique:
  assumes "store_inv st" "r \<in> set (st_deliveries st)" "r' \<in> set (st_deliveries st)" "dl_id r = dl_id r'"
  shows "r = r'"
proof -
  have "distinct (map dl_id (st_deliveries st))" using assms(1) by (simp add: store_inv_def ids_ok_def strict_sorted_iff)
  then show ?thesis using assms(2-4) by (auto simp: distinct_map dest: inj_onD)
qed

lemma ack_ids:
  assumes "store_inv st" "r \<in> set (st_deliveries st)"
  shows "dl_id r \<in> attempting_ids (filter (\<lambda>d. dl_message_id d = mid \<and> ep_protocol (dl_destination d) = ''fed'' \<and>
      like (key @ ''/%'') (ep_endpoint (dl_destination d))) (st_deliveries st)) \<and> dl_state r = Attempting \<longleftrightarrow> acked mid key r"
proof -
  have "r' = r" if "r' \<in> set (st_deliveries st)" "dl_id r' = dl_id r" for r'
    using row_unique[OF assms(1) that(1) assms(2) that(2)] .
  then show ?thesis using assms(2) by (auto simp: acked_def)
qed

lemma handle_fed_ack_eq:
  assumes "w_uuid_parse W i = Some mid" "store_inv (dm_store d)" "sql_ok (dm_store d)"
  shows "handle_fed_ack W now key i d =
    d\<lparr>dm_store := update_deliveries (acked mid key) (deliver_row now) (dm_store d),
      dm_events := dm_events d @ (if dm_receivers d > 0 then
        map (\<lambda>r. EvDelivery mid (dl_route r) ''delivered'' now) (filter (acked mid key) (st_deliveries (dm_store d))) else [])\<rparr>"
proof -
  let ?rows = "filter (\<lambda>d. dl_message_id d = mid \<and> ep_protocol (dl_destination d) = ''fed'' \<and>
      like (key @ ''/%'') (ep_endpoint (dl_destination d))) (st_deliveries (dm_store d))"
  have f: "filter (\<lambda>r. dl_state r = Attempting) ?rows = filter (acked mid key) (st_deliveries (dm_store d))"
    by (auto simp: acked_def intro!: filter_cong)
  have u: "update_deliveries (\<lambda>r. dl_id r \<in> attempting_ids ?rows \<and> dl_state r = Attempting) (deliver_row now) (dm_store d) =
      update_deliveries (acked mid key) (deliver_row now) (dm_store d)"
    using ack_ids[OF assms(2)] by (auto simp: update_deliveries_def intro!: arg_cong[where f="\<lambda>x. dm_store d\<lparr>st_deliveries := x\<rparr>"] map_cong)
  have m: "map (\<lambda>(m, rt). EvDelivery m rt s now) (map (\<lambda>r. (dl_message_id r, dl_route r)) (filter (acked mid key) ds)) =
      map (\<lambda>r. EvDelivery mid (dl_route r) s now) (filter (acked mid key) ds)" for s ds
    by (auto simp: acked_def)
  have a: "ack_rows now ?rows d = (map (\<lambda>r. (dl_message_id r, dl_route r)) (filter (acked mid key) (st_deliveries (dm_store d))),
      d\<lparr>dm_store := update_deliveries (acked mid key) (deliver_row now) (dm_store d)\<rparr>)"
    unfolding ack_rows_eq[OF assms(3)] f u ..
  have r: "deliveries_for_fed_ack mid key (dm_store d) = Ok ?rows" using assms(3) by (simp add: deliveries_for_fed_ack_def sql_ok_def)
  show ?thesis unfolding handle_fed_ack_def assms(1) r option.case sum.case Let_def a prod.case emit_deliveries m by simp
qed

text \<open>
  C15: An acknowledgement settles exactly its rows, once. When a peer acknowledges a message, the rows of
  that message addressed to this peer that are in flight become delivered, every other row and table of
  the store stays as it is, and one event is published per settled row; a repeated acknowledgement
  changes nothing at all.
\<close>

theorem fed_ack_settles:
  assumes "w_uuid_parse W i = Some mid" "store_inv (dm_store d)" "sql_ok (dm_store d)"
  shows "dm_store (handle_fed_ack W now key i d) =
      (dm_store d)\<lparr>st_deliveries := map (\<lambda>r. if acked mid key r then r\<lparr>dl_state := Delivered, dl_updated_at := now\<rparr> else r)
          (st_deliveries (dm_store d))\<rparr> \<and>
    (dm_receivers d > 0 \<longrightarrow> dm_events (handle_fed_ack W now key i d) = dm_events d @
        map (\<lambda>r. EvDelivery mid (dl_route r) ''delivered'' now) (filter (acked mid key) (st_deliveries (dm_store d)))) \<and>
    handle_fed_ack W now' key i (handle_fed_ack W now key i d) = handle_fed_ack W now key i d"
proof -
  let ?d = "handle_fed_ack W now key i d"
  have s: "dm_store ?d = update_deliveries (acked mid key) (deliver_row now) (dm_store d)"
    by (simp add: handle_fed_ack_eq[OF assms])
  have n: "filter (acked mid key) (st_deliveries (dm_store ?d)) = []"
    by (auto simp: s update_deliveries_def filter_empty_conv)
  have inv: "store_inv (dm_store ?d)" by (rule store_inv_same_keys[OF _ _ _ _ assms(2)]) (auto simp: s update_deliveries_def deliver_row_def live_ids_def)
  have ok: "sql_ok (dm_store ?d)" using assms(3) by (simp add: s sql_ok_def)
  have "update_deliveries (acked mid key) (deliver_row now') (dm_store ?d) = dm_store ?d"
    using n by (auto simp: update_deliveries_def filter_empty_conv map_idI)
  then have "handle_fed_ack W now' key i ?d = ?d" unfolding handle_fed_ack_eq[OF assms(1) inv ok] n by simp
  then show ?thesis by (auto simp: handle_fed_ack_eq[OF assms] update_deliveries_def deliver_row_def)
qed

definition daemon_acked :: daemon where
  "daemon_acked = daemon_demo cfg_demo (snd (mark_attempting 9 1 store_fed))"

lemma acked_demo:
  "map (\<lambda>r. (dl_id r, dl_state r, acked ''id-1'' ''phoen'' r)) (st_deliveries (dm_store daemon_acked)) =
     [(1, Attempting, True), (2, Pending, False)]"
  using like_peer[of "''phoen''" "''phoen''" "''chat''"]
  by (simp add: peer_name_byte_def is_lower_byte_def byte_val_def daemon_acked_def daemon_demo_def store_fed_def insert_delivery_def insert_message_def store_empty_def no_fails_def
      live_ids_def sample_env_def envelope_new_def mark_attempting_def update_deliveries_def acked_def mk_ep_def)

theorem fed_ack_settles_witness:
  "map (\<lambda>r. (dl_id r, dl_state r)) (st_deliveries (dm_store (handle_fed_ack wire_demo 9 ''phoen'' ''id-1'' daemon_acked))) =
     [(1, Delivered), (2, Pending)]"
proof -
  have i: "store_inv (dm_store daemon_acked)" "sql_ok (dm_store daemon_acked)"
    by (auto simp: daemon_acked_def daemon_demo_def store_fed_def insert_delivery_def insert_message_def store_empty_def no_fails_def
        live_ids_def sample_env_def envelope_new_def mark_attempting_def update_deliveries_def store_inv_def ids_ok_def refs_ok_def sql_ok_def)
  have w: "w_uuid_parse wire_demo ''id-1'' = Some ''id-1''" by (simp add: wire_demo_def)
  obtain r1 r2 where r: "st_deliveries (dm_store daemon_acked) = [r1, r2]" using acked_demo by (auto simp: map_eq_Cons_conv)
  show ?thesis using fed_ack_settles[OF w i, of 9 "''phoen''" 9] acked_demo by (simp add: r)
qed

subsection \<open>Peers without trust\<close>

lemma handle_frame_inert:
  assumes "\<not> frame_needs_trust f" "\<not> frame_needs_scope f" "handle_frame X W t now peer key f d = (r, d')"
  shows "r \<in> {None, Some FedPong} \<and> (d' = d \<or> (\<exists>i. d' = handle_fed_ack W now key i d))"
  using assms by (cases f) (auto simp: frame_needs_trust_def frame_needs_scope_def)

lemma handle_fed_ack_frame [simp]:
  "dm_cas (handle_fed_ack W now key i d) = dm_cas d" "dm_fed_sent (handle_fed_ack W now key i d) = dm_fed_sent d"
  "dm_fed (handle_fed_ack W now key i d) = dm_fed d" "dm_next_instance (handle_fed_ack W now key i d) = dm_next_instance d"
  "dm_sent (handle_fed_ack W now key i d) = dm_sent d" "dm_cfg (handle_fed_ack W now key i d) = dm_cfg d"
proof -
  have r: "\<exists>st. snd (ack_rows now rows e) = e\<lparr>dm_store := st\<rparr>" for rows e
  proof (induction rows arbitrary: e)
    case Nil show ?case by (simp, metis daemon.surjective daemon.update_convs(2))
  next
    case (Cons row rows)
    have "\<exists>st. snd (ack_rows now rows (e\<lparr>dm_store := s\<rparr>)) = e\<lparr>dm_store := st\<rparr>" for s using Cons[of "e\<lparr>dm_store := s\<rparr>"] by auto
    then show ?case using Cons[of e] by (auto simp: on_store_eq case_prod_unfold split: sum.split)
  qed
  obtain st evs where "handle_fed_ack W now key i d = d\<lparr>dm_store := st, dm_events := evs\<rparr> \<or> handle_fed_ack W now key i d = d"
  proof (cases "w_uuid_parse W i")
    case None then show thesis using that by (simp add: handle_fed_ack_def)
  next
    case (Some mid)
    let ?a = "ack_rows now (case deliveries_for_fed_ack mid key (dm_store d) of Inl _ \<Rightarrow> [] | Inr rs \<Rightarrow> rs) d"
    obtain st where "snd ?a = d\<lparr>dm_store := st\<rparr>" using r by blast
    then have "handle_fed_ack W now key i d = fold (\<lambda>(m, rt). emit_delivery now m rt ''delivered'') (fst ?a) (d\<lparr>dm_store := st\<rparr>)"
      by (simp add: handle_fed_ack_def Some Let_def case_prod_unfold)
    then show thesis unfolding emit_deliveries by (intro that disjI1) simp
  qed
  then show "dm_cas (handle_fed_ack W now key i d) = dm_cas d" "dm_fed_sent (handle_fed_ack W now key i d) = dm_fed_sent d"
    "dm_fed (handle_fed_ack W now key i d) = dm_fed d" "dm_next_instance (handle_fed_ack W now key i d) = dm_next_instance d"
    "dm_sent (handle_fed_ack W now key i d) = dm_sent d" "dm_cfg (handle_fed_ack W now key i d) = dm_cfg d"
    by (elim disjE; simp)+
qed



subsection \<open>The life of a connection\<close>

text \<open>The last time the loop heard from its peer.\<close>

fun last_heard :: "instant \<Rightarrow> (instant \<times> datetime \<times> conn_input) list \<Rightarrow> instant" where
  "last_heard t0 [] = t0"
| "last_heard t0 ((t, now, Received b) # ins) = last_heard t ins"
| "last_heard t0 (_ # ins) = last_heard t0 ins"

lemma conn_refresh_timers:
  "conn_refresh X W ch t now peer lp d = (Some lp1, out, d1) \<Longrightarrow>
    lp_started lp1 = lp_started lp \<and> lp_last_activity lp1 = lp_last_activity lp"
  by (auto simp: conn_refresh_def Let_def split: if_splits option.splits)

lemma conn_tick_timers:
  "conn_tick X W ch t now peer lp d = (Some lp1, out, d1) \<Longrightarrow>
    lp_started lp1 = lp_started lp \<and> lp_last_activity lp1 = lp_last_activity lp"
  by (auto simp: conn_tick_def split: if_splits prod.splits dest: conn_refresh_timers)

lemma conn_step_timers:
  assumes "conn_step X W ch t now peer key i lp d = (Some lp1, out, d1)"
  shows "lp_started lp1 = lp_started lp" "last_heard (lp_last_activity lp) [(t, now, i)] = lp_last_activity lp1"
  using assms by (cases i; auto simp: conn_received_def Let_def split: if_splits prod.splits option.splits dest: conn_tick_timers)+

lemma last_heard_Cons: "last_heard t0 ((t, now, i) # ins) = last_heard (last_heard t0 [(t, now, i)]) ins"
  by (cases i) auto

lemma last_heard_append: "last_heard t0 (xs @ ys) = last_heard (last_heard t0 xs) ys"
  by (induction t0 xs rule: last_heard.induct) auto

lemma run_conn_alive:
  "run_conn X W ch peer key (pre @ (t, now, TickFired) # post) lp d = (Some lp', out, d') \<Longrightarrow>
   t - lp_started lp \<le> REKEY_INTERVAL \<and> t - last_heard (lp_last_activity lp) pre < DEAD_AFTER"
proof (induction pre arbitrary: lp d out)
  case Nil then show ?case by (auto simp: conn_tick_def split: if_splits prod.splits option.splits)
next
  case (Cons e pre)
  obtain t1 n1 i where e: "e = (t1, n1, i)" by (cases e)
  obtain lp1 o1 d1 where s: "conn_step X W ch t1 n1 peer key i lp d = (Some lp1, o1, d1)"
    using Cons.prems by (auto simp: e split: prod.splits option.splits)
  obtain o2 where "run_conn X W ch peer key (pre @ (t, now, TickFired) # post) lp1 d1 = (Some lp', o2, d')"
    using Cons.prems by (auto simp: e s split: prod.splits)
  from Cons.IH[OF this] show ?case by (simp add: e last_heard_Cons[of _ _ _ _ pre] conn_step_timers[OF s])
qed

text \<open>
  C18: A connection ends. Once a tick fires more than eight hours after the connection started, or ninety
  seconds after the last frame heard from the peer, the frame loop has ended, whatever was received, sent
  or ticked before and after.
\<close>

theorem conn_closes:
  assumes "drop n ins = (t, now, TickFired) # post"
    and "t - lp_started lp > REKEY_INTERVAL \<or> t - last_heard (lp_last_activity lp) (take n ins) \<ge> DEAD_AFTER"
  shows "fst (run_conn X W ch peer key ins lp d) = None"
proof (rule ccontr)
  assume a: "fst (run_conn X W ch peer key ins lp d) \<noteq> None"
  obtain l out d' where r: "run_conn X W ch peer key ins lp d = (l, out, d')" by (cases "run_conn X W ch peer key ins lp d")
  have "ins = take n ins @ (t, now, TickFired) # post" by (metis assms(1) append_take_drop_id)
  with a r obtain lp' where "run_conn X W ch peer key (take n ins @ (t, now, TickFired) # post) lp d = (Some lp', out, d')"
    by fastforce
  from run_conn_alive[OF this] assms(2) show False by auto
qed

theorem conn_closes_witness:
  "fst (run_conn ext_demo wire_demo (\<lambda>_. True) ''rf:x'' ''rf:x''
     [(secs 10, 0, Received ''p''), (secs 99, 0, TickFired), (secs 100, 0, TickFired)] loop_demo (daemon_demo cfg_demo (store_empty no_fails))) = None"
  by (rule conn_closes[of 2 _ "secs 100" 0 "[]"]) (simp_all add: DEAD_AFTER_def secs_def ns_per_sec_def)

subsection \<open>The registry is exact\<close>

text \<open>
  The connection tasks of the daemon: inbound sockets in their handshake (each holds a permit), and
  admitted connections (key, token, and whether they hold a permit) whose frame loop runs.
  The remaining handlers leave the registry alone.
\<close>

record conn_sys =
  cy_daemon :: daemon
  cy_handshakes :: nat
  cy_tasks :: "(string \<times> u64 \<times> bool) list"

definition permits_in_use :: "conn_sys \<Rightarrow> nat" where
  "permits_in_use s = cy_handshakes s + length (filter (\<lambda>(k, tok, inb). inb) (cy_tasks s))"

definition admitted :: "string \<Rightarrow> bool \<Rightarrow> u64 option \<Rightarrow> daemon \<Rightarrow> conn_sys \<Rightarrow> conn_sys" where
  "admitted key inb r d' s =
     s\<lparr>cy_daemon := d', cy_tasks := (case r of None \<Rightarrow> cy_tasks s | Some tok \<Rightarrow> (key, tok, inb) # cy_tasks s)\<rparr>"

inductive conn_sys_step :: "conn_sys \<Rightarrow> conn_sys \<Rightarrow> bool" where
  accept: "try_acquire MAX_INBOUND_CONNS (permits_in_use s) = Some n \<Longrightarrow>
    conn_sys_step s (s\<lparr>cy_handshakes := Suc (cy_handshakes s)\<rparr>)"
| handshake_failed: "cy_handshakes s = Suc n \<Longrightarrow> conn_sys_step s (s\<lparr>cy_handshakes := n\<rparr>)"
| inbound: "cy_handshakes s = Suc n \<Longrightarrow> key = accepted_peer_key (cy_daemon s) node \<Longrightarrow>
    admit t now key node tx (cy_daemon s) = (r, d') \<Longrightarrow>
    conn_sys_step s ((admitted key True r d' s)\<lparr>cy_handshakes := n\<rparr>)"
| outbound: "admit t now (pe_name (p :: peer_config)) (pe_node_id p) tx (cy_daemon s) = (r, d') \<Longrightarrow>
    conn_sys_step s (admitted (pe_name p) False r d' s)"
| ended: "cy_tasks s = ts1 @ (key, tok, inb) # ts2 \<Longrightarrow>
    conn_sys_step s (s\<lparr>cy_daemon := register_down now key tok (cy_daemon s), cy_tasks := ts1 @ ts2\<rparr>)"
| other: "dm_fed d' = dm_fed (cy_daemon s) \<Longrightarrow> conn_sys_step s (s\<lparr>cy_daemon := d'\<rparr>)"

definition registered :: "daemon \<Rightarrow> (string \<times> u64) set" where
  "registered d = {(k, tok). Option.bind (dm_fed d) (\<lambda>conns. map_option cn_instance (map_of conns k)) = Some tok}"

fun task_entries :: "(string \<times> u64 \<times> bool) list \<Rightarrow> (string \<times> u64) set" where
  "task_entries [] = {}"
| "task_entries ((k, tok, inb) # ts) = insert (k, tok) (task_entries ts)"

lemma task_entries_append [simp]: "task_entries (xs @ ys) = task_entries xs \<union> task_entries ys"
  by (induction xs rule: task_entries.induct) auto

lemma task_entries_keys: "fst ` task_entries ts = fst ` set ts"
  by (induction ts rule: task_entries.induct) auto

definition conn_sys_inv :: "conn_sys \<Rightarrow> bool" where
  "conn_sys_inv s \<longleftrightarrow> permits_in_use s \<le> MAX_INBOUND_CONNS \<and> distinct (map fst (cy_tasks s)) \<and>
     task_entries (cy_tasks s) = registered (cy_daemon s)"

lemma registered_keys: "(k, a) \<in> registered d \<Longrightarrow> (k, b) \<in> registered d \<Longrightarrow> a = b"
  by (auto simp: registered_def split: option.splits)

lemma has_live_conn_iff: "has_live_conn d k \<longleftrightarrow> (\<exists>tok. (k, tok) \<in> registered d)"
  by (auto simp: has_live_conn_def registered_def split: option.splits)

lemma register_up_cases:
  assumes "register_up k n now tx d = (r, d')"
  shows "(\<exists>tok. r = Some tok \<and> \<not> has_live_conn d k \<and> registered d' = insert (k, tok) (registered d)) \<or>
    (r = None \<and> registered d' = registered d \<and> (dm_fed d = None \<or> has_live_conn d k))"
proof (cases "dm_fed d")
  case None then show ?thesis using assms by (auto simp: register_up_def)
next
  case (Some conns)
  then show ?thesis
    using assms by (auto simp: register_up_def registered_def has_live_conn_def Let_def set_federation_peer_up_def split: if_splits)
qed

lemma do_store_registered [simp]: "registered (do_store f d) = registered d" "has_live_conn (do_store f d) k = has_live_conn d k"
  by (simp_all add: registered_def has_live_conn_def)

lemma admit_cases:
  assumes "admit t now k n tx d = (r, d')"
  shows "(\<exists>tok. r = Some tok \<and> \<not> has_live_conn d k \<and> registered d' = insert (k, tok) (registered d)) \<or>
    (r = None \<and> registered d' = registered d)"
proof -
  let ?d1 = "do_store (prune_seen_trust MAX_SEEN_TRUST_ROWS) (do_store (record_seen n now) d)"
  have "r = None \<and> registered d' = registered d \<or> register_up k n now tx ?d1 = (r, d')"
    using assms by (auto simp: admit_def Let_def registered_def split: if_splits)
  then show ?thesis using register_up_cases[of k n now tx ?d1 r d'] by auto
qed

lemma register_down_registered:
  assumes "(k, tok) \<in> registered d"
  shows "registered (register_down now k tok d) = registered d - {(k, tok)}"
proof -
  obtain conns c where c: "dm_fed d = Some conns" "map_of conns k = Some c" "cn_instance c = tok"
    using assms by (auto simp: registered_def bind_eq_Some_conv)
  then show ?thesis by (auto simp: register_down_def registered_def set_federation_peer_up_def Let_def split: if_splits option.splits)
qed

lemma admitted_inv:
  assumes "conn_sys_inv s" "admit t now k n tx (cy_daemon s) = (r, d')"
  shows "distinct (map fst (cy_tasks (admitted k inb r d' s)))"
    "task_entries (cy_tasks (admitted k inb r d' s)) = registered d'"
proof -
  have i: "distinct (map fst (cy_tasks s))" "task_entries (cy_tasks s) = registered (cy_daemon s)"
    using assms(1) by (simp_all add: conn_sys_inv_def)
  have k: "k \<in> fst ` set (cy_tasks s) \<longleftrightarrow> has_live_conn (cy_daemon s) k"
    unfolding has_live_conn_iff i(2)[symmetric] task_entries_keys[symmetric] by force
  from admit_cases[OF assms(2)] show "distinct (map fst (cy_tasks (admitted k inb r d' s)))"
    "task_entries (cy_tasks (admitted k inb r d' s)) = registered d'"
    using i k by (auto simp: admitted_def)
qed

lemma ended_inv:
  assumes "conn_sys_inv s" "cy_tasks s = ts1 @ (k, tok, inb) # ts2"
  shows "task_entries (ts1 @ ts2) = registered (register_down now k tok (cy_daemon s))"
proof -
  have i: "distinct (map fst (cy_tasks s))" "task_entries (cy_tasks s) = registered (cy_daemon s)"
    using assms(1) by (simp_all add: conn_sys_inv_def)
  have m: "(k, tok) \<in> registered (cy_daemon s)" unfolding i(2)[symmetric] assms(2) by simp
  have "k \<notin> fst ` set (ts1 @ ts2)" using i(1) by (simp add: assms(2) image_Un)
  then have n: "(k, tok) \<notin> task_entries (ts1 @ ts2)"
    unfolding task_entries_keys[symmetric] by force
  show ?thesis unfolding register_down_registered[OF m] i(2)[symmetric] assms(2) using n by auto
qed

lemma conn_sys_step_inv:
  assumes "conn_sys_step s s'" and inv: "conn_sys_inv s"
  shows "conn_sys_inv s'"
  using assms(1)
proof cases
  case (accept n)
  then show ?thesis using inv by (auto simp: conn_sys_inv_def permits_in_use_def try_acquire_def split: if_splits)
next
  case (handshake_failed n)
  then show ?thesis using inv by (auto simp: conn_sys_inv_def permits_in_use_def)
next
  case (inbound n key node t now tx r d')
  then show ?thesis using inv admitted_inv[OF inv inbound(4), of True]
    by (auto simp: conn_sys_inv_def permits_in_use_def admitted_def split: option.splits)
next
  case (outbound t now p tx r d')
  then show ?thesis using inv admitted_inv[OF inv outbound(2), of False]
    by (auto simp: conn_sys_inv_def permits_in_use_def admitted_def split: option.splits)
next
  case (ended ts1 key tok inb ts2 now)
  then show ?thesis using inv ended_inv[OF inv ended(2), of now] by (auto simp: conn_sys_inv_def permits_in_use_def split: if_splits)
next
  case (other d')
  then show ?thesis using inv by (auto simp: conn_sys_inv_def permits_in_use_def registered_def)
qed

interpretation conn_reg: invariant_system conn_sys_step conn_sys_inv
  by unfold_locales (rule conn_sys_step_inv)

text \<open>
  C17: The registry tells the truth. In every state the connection layer reaches from an invariant one, by
  accepting sockets, failing handshakes, admitting inbound and outbound connections in any order (crossed
  dials included), ending connections and running other handlers, each running connection is registered
  under its key with its own token and every registered entry belongs to a running connection: a teardown
  never evicts another connection, and there is at most one connection per key. At most 64 inbound
  connections are active.
\<close>

theorem registry_exact:
  assumes "conn_sys_step\<^sup>*\<^sup>* s s'" "conn_sys_inv s"
  shows "conn_sys_inv s'"
  by (rule conn_reg.reach_inv[OF assms])

definition conn_sys_demo :: conn_sys where
  "conn_sys_demo = \<lparr>cy_daemon = daemon_fed\<lparr>dm_fed := Some []\<rparr>, cy_handshakes = 0, cy_tasks = []\<rparr>"

theorem registry_exact_witness:
  "\<exists>s'. conn_sys_step\<^sup>*\<^sup>* conn_sys_demo s' \<and> cy_tasks s' = [(peer_demo, 0, True)] \<and> conn_sys_inv s'"
proof -
  let ?d = "cy_daemon conn_sys_demo"
  have k: "accepted_peer_key ?d peer_demo = peer_demo"
    by (simp add: conn_sys_demo_def accepted_peer_key_def configured_peer_name_def daemon_fed_def daemon_demo_def fed_demo_def)
  have lv: "stored_level ?d peer_demo = Some ''trusted''"
    by (simp add: conn_sys_demo_def stored_level_def trust_level_def daemon_fed_def daemon_demo_def store_empty_def no_fails_def)
  obtain d' where a: "admit 5 5 peer_demo peer_demo (\<lambda>_. SendOk) ?d = (Some 0, d')"
  proof -
    let ?d1 = "do_store (prune_seen_trust MAX_SEEN_TRUST_ROWS) (do_store (record_seen peer_demo 5) ?d)"
    have f: "dm_fed ?d1 = Some []" "dm_next_instance ?d1 = 0"
      by (simp_all add: do_store_def on_store_eq conn_sys_demo_def) (simp add: daemon_fed_def daemon_demo_def)
    have "fst (admit 5 5 peer_demo peer_demo (\<lambda>_. SendOk) ?d) = fst (register_up peer_demo peer_demo 5 (\<lambda>_. SendOk) ?d1)"
      using lv by (simp add: admit_def Let_def trust_rank_def)
    also have "\<dots> = Some 0" using f by (simp add: register_up_def Let_def)
    finally show thesis using that by (metis prod.collapse)
  qed
  let ?s1 = "conn_sys_demo\<lparr>cy_handshakes := Suc 0\<rparr>"
  have s1: "conn_sys_step conn_sys_demo ?s1"
    using conn_sys_step.accept[of conn_sys_demo 1] by (simp add: permits_in_use_def conn_sys_demo_def try_acquire_def MAX_INBOUND_CONNS_def)
  have s2: "conn_sys_step ?s1 ((admitted peer_demo True (Some 0) d' ?s1)\<lparr>cy_handshakes := 0\<rparr>)"
    by (rule conn_sys_step.inbound[where node = peer_demo and t = 5 and now = 5 and tx = "\<lambda>_. SendOk"]) (use k a in simp_all)
  let ?s2 = "(admitted peer_demo True (Some 0) d' ?s1)\<lparr>cy_handshakes := 0\<rparr>"
  have r: "conn_sys_step\<^sup>*\<^sup>* conn_sys_demo ?s2" using s1 s2 by (meson r_into_rtranclp rtranclp_trans)
  have i: "conn_sys_inv conn_sys_demo"
    by (simp add: conn_sys_inv_def permits_in_use_def conn_sys_demo_def registered_def)
  have "cy_tasks ?s2 = [(peer_demo, 0, True)]" by (simp add: admitted_def conn_sys_demo_def)
  then show ?thesis using registry_exact[OF r i] r by blast
qed

subsection \<open>Displayed names\<close>

definition safe_char :: "string \<Rightarrow> bool" where
  "safe_char c \<longleftrightarrow> \<not> is_control c \<and> \<not> is_display_spoofing c"

lemma sanitize_chars:
  assumes "valid_utf8 name"
  shows "rust_chars (sanitize_advert_name name) = take ADVERT_MAX_NAME_CHARS (filter safe_char (rust_chars name))"
    "list_all utf8_char (rust_chars (sanitize_advert_name name))"
proof -
  let ?cs = "take ADVERT_MAX_NAME_CHARS (filter safe_char (rust_chars name))"
  have "list_all utf8_char (rust_chars name)" using assms by (rule valid_utf8_chars)
  then have u: "list_all utf8_char ?cs" by (auto simp: list_all_iff dest: in_set_takeD)
  have n: "sanitize_advert_name name = concat ?cs" by (simp add: sanitize_advert_name_def safe_char_def[abs_def])
  have "list_all char_shape ?cs" using u by (auto simp: list_all_iff utf8_char_shape)
  then show r: "rust_chars (sanitize_advert_name name) = ?cs" unfolding n by (rule rust_chars_concat_shape)
  show "list_all utf8_char (rust_chars (sanitize_advert_name name))" unfolding r by (rule u)
qed

lemma sanitize_safe_id:
  assumes "list_all safe_char (rust_chars n)" "length (rust_chars n) \<le> 64"
  shows "sanitize_advert_name n = n"
proof -
  have "filter (\<lambda>c. \<not> is_control c \<and> \<not> is_display_spoofing c) (rust_chars n) = rust_chars n"
    using assms(1) by (simp add: list_all_iff safe_char_def filter_id_conv)
  then show ?thesis using assms(2) by (simp add: sanitize_advert_name_def ADVERT_MAX_NAME_CHARS_def)
qed

text \<open>
  A displayed advert name is safe. Sanitizing any name gives valid text of at most 64 characters with no
  control character and none of the bidirectional or invisible code points; doing it again changes
  nothing, and a short name without such characters is kept as it is.
\<close>

theorem sanitize_advert_name_safe:
  assumes "valid_utf8 name"
  shows "valid_utf8 (sanitize_advert_name name) \<and> length (rust_chars (sanitize_advert_name name)) \<le> 64 \<and>
    list_all (\<lambda>c. \<not> is_control c \<and> \<not> is_display_spoofing c) (rust_chars (sanitize_advert_name name)) \<and>
    sanitize_advert_name (sanitize_advert_name name) = sanitize_advert_name name \<and>
    (list_all safe_char (rust_chars name) \<and> length (rust_chars name) \<le> 64 \<longrightarrow> sanitize_advert_name name = name)"
proof -
  note c = sanitize_chars[OF assms]
  have v: "valid_utf8 (sanitize_advert_name name)" using c(2) by (simp add: valid_utf8_def)
  have s: "list_all safe_char (rust_chars (sanitize_advert_name name))" unfolding c(1) by (auto simp: list_all_iff dest: in_set_takeD)
  have l: "length (rust_chars (sanitize_advert_name name)) \<le> 64" unfolding c(1) by (simp add: ADVERT_MAX_NAME_CHARS_def)
  have s': "list_all (\<lambda>c. \<not> is_control c \<and> \<not> is_display_spoofing c) (rust_chars (sanitize_advert_name name))"
    using s unfolding safe_char_def[abs_def] .
  show ?thesis using v s' l sanitize_safe_id[OF s l] sanitize_safe_id[of name] by blast
qed

theorem sanitize_advert_name_safe_witness:
  "sanitize_advert_name [CHR 0x1B, CHR ''['', CHR ''m''] = ''[m'' \<and> sanitize_advert_name ''[m'' = ''[m''"
proof -
  have c: "rust_chars [CHR 0x1B, CHR ''['', CHR ''m''] = [[CHR 0x1B], ''['', ''m'']"
    by (simp add: is_cont_def byte_val_def)
  have v: "valid_utf8 [CHR 0x1B, CHR ''['', CHR ''m'']"
    unfolding valid_utf8_def c by (simp add: utf8_char_def byte_val_def)
  have "sanitize_advert_name [CHR 0x1B, CHR ''['', CHR ''m''] = ''[m''"
    unfolding sanitize_advert_name_def c by (simp add: is_control_def is_display_spoofing_def code_point_def byte_val_def ADVERT_MAX_NAME_CHARS_def)
  then show ?thesis using sanitize_advert_name_safe[OF v] by simp
qed

subsection \<open>From an advert to a sealed frame\<close>

lemma find_unique:
  assumes "x \<in> set xs" "P x" "\<And>y. y \<in> set xs \<Longrightarrow> P y \<Longrightarrow> y = x"
  shows "find P xs = Some x"
proof (cases "find P xs")
  case None then show ?thesis using assms(1,2) by (auto simp: find_None_iff)
next
  case (Some y) then show ?thesis using assms(3)[of y] by (auto simp: find_Some_iff)
qed

lemma advert_sign_verifies:
  assumes "ed25519_correct X" "ad_node_id a = identity_node_id X seed" "ad_expires a > 0"
  shows "advert_verify X (advert_sign X a seed) = Ok ()"
  using assms by (simp add: advert_verify_def advert_sign_def advert_bytes_def advert_tuple_def identity_verify_own
      ed25519_correct_def identity_sign_def)

lemma build_signed_advert_facts:
  assumes "build_signed_advert X now d = Some a"
  shows "ad_node_id a = identity_node_id X (dm_identity d)" "ad_name a = nc_name (cf_node (dm_cfg d))"
    "sc_sealed_key (ad_security a) = Some (hex_encode (x_box_public X (dm_sealed_secret d)))"
    "ed25519_correct X \<Longrightarrow> ad_expires a > 0 \<Longrightarrow> advert_verify X a = Ok ()"
    "fst ` set (ad_services a) = insert ''federation'' (ps_type ` set (cf_public_services (dm_cfg d)))"
    "fst ` set (ad_protocols a) = (\<Union>s \<in> set (cf_public_services (dm_cfg d)). set (ps_ingress s) \<union> set (ps_egress s))"
proof -
  obtain b where b: "build_from_config (dm_cfg d) (identity_node_id X (dm_identity d))
      (hex_encode (x_box_public X (dm_sealed_secret d))) now = Some b" "a = advert_sign X b (dm_identity d)"
    using assms by (auto simp: build_signed_advert_def)
  have f: "ad_node_id b = identity_node_id X (dm_identity d)" "ad_name b = nc_name (cf_node (dm_cfg d))"
    "sc_sealed_key (ad_security b) = Some (hex_encode (x_box_public X (dm_sealed_secret d)))"
    "fst ` set (ad_services b) = insert ''federation'' (ps_type ` set (cf_public_services (dm_cfg d)))"
    "fst ` set (ad_protocols b) = (\<Union>s \<in> set (cf_public_services (dm_cfg d)). set (ps_ingress s) \<union> set (ps_egress s))"
    using b(1) by (auto simp: build_from_config_def Let_def image_image simp del: remdups.simps sort_key_simps split: if_splits)
  show "ad_node_id a = identity_node_id X (dm_identity d)" "ad_name a = nc_name (cf_node (dm_cfg d))"
    "sc_sealed_key (ad_security a) = Some (hex_encode (x_box_public X (dm_sealed_secret d)))"
    "fst ` set (ad_services a) = insert ''federation'' (ps_type ` set (cf_public_services (dm_cfg d)))"
    "fst ` set (ad_protocols a) = (\<Union>s \<in> set (cf_public_services (dm_cfg d)). set (ps_ingress s) \<union> set (ps_egress s))"
    using f by (simp_all add: b(2) advert_sign_def)
  show "ed25519_correct X \<Longrightarrow> ad_expires a > 0 \<Longrightarrow> advert_verify X a = Ok ()"
    unfolding b(2) by (rule advert_sign_verifies[OF _ f(1)]) (simp_all add: advert_sign_def)
qed

text \<open>The names a configuration publishes, as the receiver wants them.\<close>

definition publishable :: "config \<Rightarrow> bool" where
  "publishable c \<longleftrightarrow> list_all (\<lambda>s. advert_key_ok (ps_type s) \<and> list_all advert_key_ok (ps_ingress s) \<and> list_all advert_key_ok (ps_egress s))
     (cf_public_services c)"

lemma list_all_fst: "list_all (\<lambda>e. P (fst e)) xs \<longleftrightarrow> (\<forall>k \<in> fst ` set xs. P k)"
  by (simp add: list_all_iff)

lemma own_keys_sane:
  assumes "build_signed_advert X now d = Some a"
  shows "advert_keys_sane a \<longleftrightarrow> publishable (dm_cfg d)"
proof -
  have "advert_key_ok ''federation''" by (simp add: advert_key_ok_def is_lower_byte_def byte_val_def)
  then have s: "list_all (\<lambda>e. advert_key_ok (fst e)) (ad_services a) \<longleftrightarrow> list_all (\<lambda>s. advert_key_ok (ps_type s)) (cf_public_services (dm_cfg d))"
    using build_signed_advert_facts(5)[OF assms] list_all_fst[of advert_key_ok "ad_services a"] by (simp add: list_all_iff)
  have "list_all (\<lambda>e. advert_key_ok (fst e)) (ad_protocols a) \<longleftrightarrow> (\<forall>k \<in> fst ` set (ad_protocols a). advert_key_ok k)"
    by (rule list_all_fst)
  then show ?thesis unfolding advert_keys_sane_def s build_signed_advert_facts(6)[OF assms] by (auto simp: publishable_def list_all_iff)
qed

lemma stored_advert_found:
  assumes "sql_ok (dm_store d)" "n \<notin> ar_node_id ` set (st_adverts (dm_store d))" "length (st_adverts (dm_store d)) < MAX_PEER_ADVERTS"
    "ad_node_id a = n" "now div 1000000000 < ad_expires a" "0 \<le> now" "now div 1000000000 + ADVERT_MAX_FUTURE_SECS \<le> 8210266876799"
    "x_uncbor_advert X raw = Some a" "advert_verify X a = Ok ()"
  shows "advert_key X now n (store_advert W now a raw d) = sc_sealed_key (ad_security a)"
proof -
  let ?e = "min (ad_expires a) (now div 1000000000 + ADVERT_MAX_FUTURE_SECS) * 1000000000"
  let ?row = "\<lparr>ar_node_id = n, ar_advert_cbor = raw, ar_name = sanitize_advert_name (ad_name a), ar_expires = ?e, ar_received_at = now\<rparr>"
  have ft: "from_timestamp (min (ad_expires a) (now div 1000000000 + ADVERT_MAX_FUTURE_SECS)) = Some ?e"
    using assms(5-7) pos_imp_zdiv_nonneg_iff[of 1000000000 now] by (auto simp: from_timestamp_def ADVERT_MAX_FUTURE_SECS_def)
  have st: "st_adverts (dm_store (store_advert W now a raw d)) = st_adverts (dm_store d) @ [?row]"
    and sq: "sql_fails (dm_store (store_advert W now a raw d)) = sql_fails (dm_store d)"
    using assms(1-4) by (simp_all add: store_advert_def Let_def ft on_store_eq upsert_peer_advert_def sql_ok_def prune_peer_adverts_def)
  have "min (ad_expires a) (now div 1000000000 + ADVERT_MAX_FUTURE_SECS) \<ge> now div 1000000000 + 1"
    using assms(5) by (simp add: ADVERT_MAX_FUTURE_SECS_def)
  then have "?e \<ge> (now div 1000000000 + 1) * 1000000000" by (rule mult_right_mono) simp
  moreover have "now < (now div 1000000000 + 1) * 1000000000" by presburger
  ultimately have exp: "?e > now" by (rule less_le_trans[rotated])
  let ?rows = "map (\<lambda>r. (ar_node_id r, ar_advert_cbor r, ar_received_at r))
      (sort_key ar_node_id (filter (\<lambda>r. ar_expires r > now) (st_adverts (dm_store d) @ [?row])))"
  have "find (\<lambda>(nid, _, _). nid = n) ?rows = Some (n, raw, now)"
    by (rule find_unique) (use exp assms(2) in auto)
  then show ?thesis using assms(1,4,8,9)
    by (simp add: advert_key_def list_peer_adverts_def st sq sql_ok_def is_ok_def del: map_append filter_append)
qed

text \<open>
  The key a node advertises is the key its peer seals to. When node A builds and signs its advert and
  node B receives it over A's connection as the first one of A, within its lifetime and in scope, and A
  publishes only well-formed service and protocol names, then B, with no pinned key for A, resolves exactly
  A's public sealing key.
\<close>

theorem advertised_key_resolves:
  assumes "ed25519_correct X" "build_signed_advert X now a = Some adv" "publishable (dm_cfg a)"
    and "w_advert_doc W adv = Some raw" "length raw \<le> ADVERT_MAX_BYTES" "x_uncbor_advert X raw = Some adv"
    and "length (x_box_public X (dm_sealed_secret a)) = 32"
    and "advert_scope_allows b (ad_node_id adv)" "sql_ok (dm_store b)"
    and "ad_node_id adv \<notin> ar_node_id ` set (st_adverts (dm_store b))" "length (st_adverts (dm_store b)) < MAX_PEER_ADVERTS"
    and "0 \<le> now'" "now' div 1000000000 < ad_expires adv" "now' div 1000000000 + ADVERT_MAX_FUTURE_SECS \<le> 8210266876799"
    and "peer_of b p = Some pc" "pe_node_id pc = ad_node_id adv" "pe_sealed_key pc = None"
  shows "resolve_sealed_key X now' p (receive_advert X W t now' (ad_node_id adv) adv b) = Some (x_box_public X (dm_sealed_secret a))"
proof -
  note f = build_signed_advert_facts[OF assms(2)]
  have pos: "ad_expires adv > 0" using assms(12,13) by (smt (verit) pos_imp_zdiv_nonneg_iff)
  have v: "advert_verify X adv = Ok ()" by (rule f(4)[OF assms(1) pos])
  have sane: "advert_keys_sane adv" using own_keys_sane[OF assms(2)] assms(3) by simp
  have r: "receive_advert X W t now' (ad_node_id adv) adv b = store_advert W now' adv raw b"
    using assms(4,5,8,13) v sane by (simp add: receive_advert_def is_ok_def)
  have k: "advert_key X now' (ad_node_id adv) (store_advert W now' adv raw b) = sc_sealed_key (ad_security adv)"
    by (rule stored_advert_found[OF assms(9-11) refl assms(13,12,14,6) v])
  have "dm_cfg (store_advert W now' adv raw b) = dm_cfg b"
    by (simp add: store_advert_def Let_def on_store_eq split: sum.split)
  then have "peer_of (store_advert W now' adv raw b) p = Some pc" using assms(15) by (simp add: peer_of_def)
  then show ?thesis unfolding r using assms(7,16,17) k f(3) by (simp add: resolve_sealed_key_def)
qed

definition daemon_adv :: daemon where
  "daemon_adv = daemon_demo (cfg_demo\<lparr>cf_discovery := \<lparr>dc_mode = ''public'', dc_advert_ttl_secs = 600\<rparr>,
     cf_public_services := [\<lparr>ps_name = ''Chat'', ps_type = ''chat'', ps_ingress = [''lxmf''], ps_egress = [''mqtt'']\<rparr>],
     cf_federation := Some ((fed_demo ''n'')\<lparr>fc_peers := [\<lparr>pe_name = ''bob'', pe_node_id = identity_node_id ext_demo ''seed'', pe_addr = ''h'',
        pe_trust = ''trusted'', pe_messages_per_minute = 0, pe_sealed_key = None\<rparr>]\<rparr>)\<rparr>) (store_empty no_fails)"

theorem advertised_key_resolves_witness:
  "\<exists>X adv. build_signed_advert X 5 daemon_adv = Some adv \<and>
     resolve_sealed_key X 7 ''bob'' (receive_advert X wire_demo 5 7 (ad_node_id adv) adv daemon_adv) = Some (pad32 ''own'')"
proof -
  let ?m = "dc_mode (cf_discovery (dm_cfg daemon_adv))"
  have m: "?m = ''public''" by (simp add: daemon_adv_def daemon_demo_def)
  obtain adv where adv: "build_signed_advert ext_demo 5 daemon_adv = Some adv"
    using m by (auto simp: build_signed_advert_def build_from_config_def Let_def)
  let ?X = "ext_demo\<lparr>x_uncbor_advert := \<lambda>b. Some adv\<rparr>"
  have b: "build_signed_advert ?X 5 daemon_adv = Some adv"
    using adv by (simp add: build_signed_advert_def identity_node_id_def advert_sign_def identity_sign_def advert_bytes_def)
  have pub: "x_box_public ?X (dm_sealed_secret daemon_adv) = pad32 ''own''" by (simp add: ext_demo_def daemon_adv_def daemon_demo_def)
  have n: "ad_node_id adv = identity_node_id ext_demo ''seed''"
    using build_signed_advert_facts(1)[OF adv] by (simp add: daemon_adv_def daemon_demo_def)
  have e: "ad_expires adv = 600"
    using adv m by (auto simp: build_signed_advert_def build_from_config_def Let_def advert_sign_def)
       (simp add: daemon_adv_def daemon_demo_def as_i64_def csecs_def)
  have s: "st_adverts (dm_store daemon_adv) = []" "sql_ok (dm_store daemon_adv)"
    by (simp_all add: daemon_adv_def daemon_demo_def store_empty_def sql_ok_def no_fails_def)
  have p: "publishable (dm_cfg daemon_adv)"
    by (simp add: publishable_def daemon_adv_def daemon_demo_def advert_key_ok_def is_lower_byte_def byte_val_def)
  have po: "peer_of daemon_adv ''bob'' = Some \<lparr>pe_name = ''bob'', pe_node_id = identity_node_id ext_demo ''seed'', pe_addr = ''h'',
        pe_trust = ''trusted'', pe_messages_per_minute = 0, pe_sealed_key = None\<rparr>"
    by (simp add: peer_of_def daemon_adv_def daemon_demo_def find_peer_def)
  have ed: "ed25519_correct ?X" using ed25519_demo by (simp add: ed25519_correct_def)
  have sc: "advert_scope_allows daemon_adv (ad_node_id adv)" by (simp add: advert_scope_allows_def m)
  have "resolve_sealed_key ?X 7 ''bob'' (receive_advert ?X wire_demo 5 7 (ad_node_id adv) adv daemon_adv) =
      Some (x_box_public ?X (dm_sealed_secret daemon_adv))"
    by (rule advertised_key_resolves[OF ed b p _ _ _ _ sc s(2) _ _ _ _ _ po, where raw = "''doc''"])
       (use pub in \<open>simp_all add: s n e wire_demo_def ADVERT_MAX_BYTES_def MAX_PEER_ADVERTS_def ADVERT_MAX_FUTURE_SECS_def\<close>)
  then show ?thesis using b pub by auto
qed

end
