(* ===== verification/Config_Props.thy ===== *)
theory Config_Props
  imports Config_Validate Fed_Conn_Props
begin

text \<open>
  What a validated configuration gives the engine, and what validation lets through or rules out
  against the expectations of the rest of the program.
\<close>

lemmas validated_parts = validate_node_def validate_lifecycle_def validate_alerts_def validate_node_name_def validate_policies_def
  validate_public_def validate_transports_def validate_federation_def validate_discovery_def validate_privacy_def

lemma socket_addr_examples:
  "is_socket_addr ''127.0.0.1:80''" "\<not> is_socket_addr ''01.2.3.4:5''"
  by (simp_all add: is_socket_addr_def read_ipv4_addr_def read_octet_def read_number_def digit_in_def hex_val_def is_digit_byte_def
      byte_val_def digits_value_def read_separator_def read_given_char_def read_port_def read_socket_addr_v6_def)

subsection \<open>Routes and peers\<close>

lemma require_enabled_plugin_ok [passes]:
  "require_enabled_plugin cfg proto what = Ok u \<longleftrightarrow> (\<exists>p. map_of (cf_plugins cfg) proto = Some p \<and> pc_enabled p)"
  by (auto simp: require_enabled_plugin_def split: option.splits)

lemma validate_routes_ok:
  "validate_routes cfg seen rs = Ok () \<Longrightarrow> distinct (map rc_name rs) \<and> set seen \<inter> rc_name ` set rs = {} \<and>
     (\<forall>r \<in> set rs. \<exists>sn. validate_route cfg sn r = Ok ())"
proof (induction rs arbitrary: seen)
  case (Cons r rs)
  have r: "validate_route cfg seen r = Ok ()" and rs: "validate_routes cfg (rc_name r # seen) rs = Ok ()"
    using Cons.prems by (simp_all add: passes)
  have "rc_name r \<notin> set seen" using r by (simp add: validate_route_def passes)
  then show ?case using Cons.IH[OF rs] r by auto
qed simp

lemma validate_peers_ok:
  "validate_peers seen ps = Ok () \<Longrightarrow> distinct (map pe_name ps) \<and> set seen \<inter> pe_name ` set ps = {} \<and>
     (\<forall>p \<in> set ps. \<exists>sn. validate_peer sn p = Ok ())"
proof (induction ps arbitrary: seen)
  case (Cons p ps)
  have p: "validate_peer seen p = Ok ()" and ps: "validate_peers (pe_name p # seen) ps = Ok ()"
    using Cons.prems by (simp_all add: passes)
  have "pe_name p \<notin> set seen" using p by (simp add: validate_peer_def passes)
  then show ?case using Cons.IH[OF ps] p by auto
qed simp

lemma validated_route:
  assumes "validate_route cfg sn r = Ok ()"
  shows "rc_name r \<noteq> IDENTITY_ROUTE" "list_all (\<lambda>s. ep_protocol s \<noteq> FED_PROTOCOL) (rc_sources r)"
    "ep \<in> set (rc_sources r @ rc_destinations r) \<Longrightarrow> ep_protocol ep \<noteq> FED_PROTOCOL \<Longrightarrow>
       \<exists>p. map_of (cf_plugins cfg) (ep_protocol ep) = Some p \<and> pc_enabled p"
    "ep \<in> set (rc_destinations r) \<Longrightarrow> ep_protocol ep = FED_PROTOCOL \<Longrightarrow> validate_fed_destination cfg (rc_name r) (ep_endpoint ep) = Ok ()"
    "rc_security_mode r = ''sealed'' \<Longrightarrow> ep \<in> set (rc_destinations r) \<Longrightarrow> validate_sealed_destination cfg (rc_name r) ep = Ok ()"
    "security_rank (rc_security_mode r) \<ge> security_rank (pv_minimum_security (cf_privacy cfg))"
proof -
  have parts: "rc_name r \<noteq> IDENTITY_ROUTE" "\<not> list_ex (\<lambda>ep. ep_protocol ep = FED_PROTOCOL) (rc_sources r)"
    "security_rank (rc_security_mode r) \<ge> security_rank (pv_minimum_security (cf_privacy cfg))"
    "list_all (\<lambda>ep. (if ep_protocol ep = FED_PROTOCOL then Ok () else require_enabled_plugin cfg (ep_protocol ep) (rc_name r)) = Ok ())
       (rc_sources r @ rc_destinations r)"
    "list_all (\<lambda>ep. (if ep_protocol ep = FED_PROTOCOL then validate_fed_destination cfg (rc_name r) (ep_endpoint ep) else Ok ()) = Ok ())
       (rc_destinations r)"
    "rc_security_mode r = ''sealed'' \<Longrightarrow> list_all (\<lambda>ep. validate_sealed_destination cfg (rc_name r) ep = Ok ()) (rc_destinations r)"
    using assms by (simp_all add: validate_route_def validate_sealed_route_def passes)
  show "rc_name r \<noteq> IDENTITY_ROUTE" "security_rank (rc_security_mode r) \<ge> security_rank (pv_minimum_security (cf_privacy cfg))" by fact+
  show "list_all (\<lambda>s. ep_protocol s \<noteq> FED_PROTOCOL) (rc_sources r)" using parts(2) by (auto simp: list_all_iff list_ex_iff)
  show "ep \<in> set (rc_sources r @ rc_destinations r) \<Longrightarrow> ep_protocol ep \<noteq> FED_PROTOCOL \<Longrightarrow>
       \<exists>p. map_of (cf_plugins cfg) (ep_protocol ep) = Some p \<and> pc_enabled p"
    using parts(4) require_enabled_plugin_ok[of cfg "ep_protocol ep" "rc_name r"] unfolding list_all_iff by force
  show "ep \<in> set (rc_destinations r) \<Longrightarrow> ep_protocol ep = FED_PROTOCOL \<Longrightarrow> validate_fed_destination cfg (rc_name r) (ep_endpoint ep) = Ok ()"
    using parts(5) unfolding list_all_iff by force
  show "rc_security_mode r = ''sealed'' \<Longrightarrow> ep \<in> set (rc_destinations r) \<Longrightarrow> validate_sealed_destination cfg (rc_name r) ep = Ok ()"
    using parts(6) by (auto simp: list_all_iff)
qed

lemma validated_routes:
  assumes "validate cfg = Ok ()"
  shows "distinct (map rc_name (cf_routes cfg))" "r \<in> set (cf_routes cfg) \<Longrightarrow> \<exists>sn. validate_route cfg sn r = Ok ()"
  using assms validate_routes_ok[of cfg "[]" "cf_routes cfg"] by (auto simp: validate_def passes)

lemma validated_peers:
  assumes "validate cfg = Ok ()" "cf_federation cfg = Some fed"
  shows "distinct (map pe_name (fc_peers fed))" "p \<in> set (fc_peers fed) \<Longrightarrow> \<exists>sn. validate_peer sn p = Ok ()"
  using assms validate_peers_ok[of "[]" "fc_peers fed"] by (auto simp: validate_def validate_federation_def passes)

text \<open>What the engine relies on for the destinations of a route.\<close>

definition reachable_dest :: "config \<Rightarrow> endpoint \<Rightarrow> bool" where
  "reachable_dest cfg ep =
     (if ep_protocol ep = FED_PROTOCOL then
        \<exists>fed p rr. cf_federation cfg = Some fed \<and> find_peer fed (pe_name p) = Some p \<and> is_valid_peer_name (pe_name p) \<and>
          split_once (CHR ''/'') (ep_endpoint ep) = Some (pe_name p, rr)
      else \<exists>p. map_of (cf_plugins cfg) (ep_protocol ep) = Some p \<and> pc_enabled p)"

lemma find_peer_name: "n \<in> pe_name ` set (fc_peers fed) \<Longrightarrow> \<exists>p. find_peer fed n = Some p \<and> pe_name p = n \<and> p \<in> set (fc_peers fed)"
proof -
  assume n: "n \<in> pe_name ` set (fc_peers fed)"
  then obtain p where "find_peer fed n = Some p"
    by (cases "find_peer fed n") (auto simp: find_peer_def find_None_iff)
  then show ?thesis by (auto simp: find_peer_def find_Some_iff)
qed

lemma fed_destination_ok:
  assumes "validate cfg = Ok ()" "validate_fed_destination cfg rname e = Ok u"
  obtains fed p rr where "cf_federation cfg = Some fed" "find_peer fed (pe_name p) = Some p" "p \<in> set (fc_peers fed)"
    "is_valid_peer_name (pe_name p)" "split_once (CHR ''/'') e = Some (pe_name p, rr)"
proof -
  obtain fed where f: "cf_federation cfg = Some fed" using assms(2) by (auto simp: validate_fed_destination_def split: option.splits)
  obtain n rr where s: "split_once (CHR ''/'') e = Some (n, rr)"
    using assms(2) by (auto simp: validate_fed_destination_def split: option.splits)
  have "n \<in> pe_name ` set (fc_peers fed)" using assms(2) by (simp add: validate_fed_destination_def f s passes)
  then obtain p where p: "find_peer fed n = Some p" "pe_name p = n" "p \<in> set (fc_peers fed)" using find_peer_name by blast
  have "is_valid_peer_name n" using validated_peers(2)[OF assms(1) f p(3)] p(2) by (auto simp: validate_peer_def passes)
  then show thesis using that[OF f _ p(3)] p s by simp
qed

text \<open>
  C28: A validated configuration is one the engine can route by. Its route names are distinct and none is the
  reserved identity route; no source is a federation endpoint, every source protocol is an enabled plugin, and every destination is reachable:
  an enabled plugin, or a federation endpoint that splits into a configured peer (found under its unique
  name, of the restricted charset) and a remote route. The lifecycle times are positive and survive the
  cast to a signed integer.
\<close>

theorem validated_config_routable:
  assumes "validate cfg = Ok ()"
  shows "distinct (map rc_name (cf_routes cfg)) \<and>
    list_all (\<lambda>r. rc_name r \<noteq> IDENTITY_ROUTE \<and> list_all (reachable_dest cfg) (rc_destinations r) \<and>
      list_all (\<lambda>s. ep_protocol s \<noteq> FED_PROTOCOL \<and> reachable_dest cfg s) (rc_sources r)) (cf_routes cfg) \<and>
    list_all (\<lambda>s. 0 < s \<and> as_i64 s = int s) ([cf_ttl_default_secs cfg, cf_dedup_ttl_secs cfg, cf_retention_secs cfg] @
      (case cf_federation cfg of None \<Rightarrow> [] | Some f \<Rightarrow> [fc_max_ttl_secs f]))"
proof -
  have "rc_name r \<noteq> IDENTITY_ROUTE \<and> list_all (reachable_dest cfg) (rc_destinations r) \<and>
      list_all (\<lambda>s. ep_protocol s \<noteq> FED_PROTOCOL \<and> reachable_dest cfg s) (rc_sources r)" if r: "r \<in> set (cf_routes cfg)" for r
  proof -
    obtain sn where v: "validate_route cfg sn r = Ok ()" using validated_routes(2)[OF assms r] by blast
    have plug: "reachable_dest cfg ep" if "ep \<in> set (rc_sources r @ rc_destinations r)" "ep_protocol ep \<noteq> FED_PROTOCOL" for ep
      using validated_route(3)[OF v that] that(2) by (simp add: reachable_dest_def)
    have fed: "reachable_dest cfg ep" if e: "ep \<in> set (rc_destinations r)" "ep_protocol ep = FED_PROTOCOL" for ep
    proof -
      have "validate_fed_destination cfg (rc_name r) (ep_endpoint ep) = Ok ()" by (rule validated_route(4)[OF v e])
      then show ?thesis by (rule fed_destination_ok[OF assms]) (use e(2) in \<open>auto simp: reachable_dest_def\<close>)
    qed
    show ?thesis using validated_route(1,2)[OF v] plug fed by (auto simp: list_all_iff)
  qed
  moreover have "0 < s \<and> as_i64 s = int s" if "s \<noteq> 0" "s \<le> MAX_LIFECYCLE_SECS" for s
    using that by (simp add: as_i64_def MAX_LIFECYCLE_SECS_def)
  ultimately show ?thesis
    using assms validated_routes(1)[OF assms]
    by (auto simp: list_all_iff validate_def validate_lifecycle_def validate_federation_def passes split: option.splits)
qed

definition plugin_on :: plugin_config where
  "plugin_on = \<lparr>pc_enabled = True, pc_command = None, pc_config = YNull, pc_peer_uid = None\<rparr>"

definition fed_valid :: federation_config where
  "fed_valid = (fed_demo peer_demo)\<lparr>fc_peers := [\<lparr>pe_name = ''bob'', pe_node_id = ''rf:'' @ replicate 64 (CHR ''b''),
     pe_addr = ''127.0.0.1:80'', pe_trust = ''trusted'', pe_messages_per_minute = 0, pe_sealed_key = Some (replicate 64 (CHR ''a''))\<rparr>],
     fc_trusted := []\<rparr>"

definition cfg_valid :: config where
  "cfg_valid = cfg_demo\<lparr>cf_plugins := [(''lora'', plugin_on), (''mqtt'', plugin_on)],
     cf_discovery := \<lparr>dc_mode = ''federation'', dc_advert_ttl_secs = 600\<rparr>, cf_federation := Some fed_valid,
     cf_routes := [mk_route ''demo'' [mk_ep ''mqtt'' ''a''] [mk_ep ''lora'' ''x''],
       (mk_route ''vault'' [mk_ep ''mqtt'' ''b''] [mk_ep ''fed'' ''bob/r1''])\<lparr>rc_security_mode := ''sealed''\<rparr>]\<rparr>"

lemmas name_shapes = is_valid_component_name_def is_alnum_byte_def is_lower_byte_def is_upper_byte_def is_digit_byte_def byte_val_def
  is_valid_peer_name_def peer_name_byte_def is_valid_rf_node_id_def is_lowercase_rf_node_id_def is_valid_hex64_def is_hexdigit_byte_def
  hex_val_def strip_prefix_def starts_with_def

lemma path_lengths: "length (path_join b c) \<le> Suc (length b + length c)"
  by (simp add: path_join_def)

lemma cfg_valid_node: "validate_node cfg_valid = Ok ()" "validate_lifecycle cfg_valid = Ok ()" "validate_alerts cfg_valid = Ok ()"
  by (simp_all add: validate_node_def validate_lifecycle_def validate_alerts_def passes cfg_valid_def cfg_demo_def plugin_on_def
      bound_socket_paths_def path_join_def SOCKET_PATH_MAX_def FED_PROTOCOL_def MAX_LIFECYCLE_SECS_def name_shapes)

lemma cfg_valid_rest: "validate_node_name cfg_valid = Ok ()" "validate_policies cfg_valid = Ok ()" "validate_public cfg_valid = Ok ()"
    "validate_transports cfg_valid = Ok ()" "validate_discovery cfg_valid = Ok ()" "validate_privacy cfg_valid = Ok ()"
  by (simp_all add: validated_parts passes cfg_valid_def cfg_demo_def is_unsafe_advert_name_char_def is_control_def code_point_def byte_val_def Let_def)

lemma list_rep: "list_all P (replicate n x) \<longleftrightarrow> n = 0 \<or> P x" "list_ex P (replicate n x) \<longleftrightarrow> n \<noteq> 0 \<and> P x"
  by (induction n) auto

lemma cfg_valid_fed: "validate_federation cfg_valid = Ok ()"
  using socket_addr_examples(1)
  by (simp add: validate_federation_def passes cfg_valid_def fed_valid_def fed_demo_def validate_peer_def mk_route_def
      MAX_LIFECYCLE_SECS_def name_shapes list_rep)

lemma cfg_valid_routes: "validate_routes cfg_valid [] (cf_routes cfg_valid) = Ok ()"
proof -
  have p: "map_of (cf_plugins cfg_valid) ''mqtt'' = Some plugin_on" "map_of (cf_plugins cfg_valid) ''lora'' = Some plugin_on" "pc_enabled plugin_on"
    by (simp_all add: cfg_valid_def plugin_on_def)
  have f: "cf_federation cfg_valid = Some fed_valid" "pe_name ` set (fc_peers fed_valid) = {''bob''}"
      "\<exists>q k. find_peer fed_valid ''bob'' = Some q \<and> pe_sealed_key q = Some k"
    by (simp_all add: cfg_valid_def fed_valid_def find_peer_def)
  have c: "is_valid_component_name ''demo''" "is_valid_component_name ''vault''" "is_valid_peer_name ''r1''" by (simp_all add: name_shapes)
  have m: "pv_minimum_security (cf_privacy cfg_valid) = ''gateway''" by (simp add: cfg_valid_def cfg_demo_def)
  let ?r1 = "mk_route ''demo'' [mk_ep ''mqtt'' ''a''] [mk_ep ''lora'' ''x'']"
  let ?r2 = "(mk_route ''vault'' [mk_ep ''mqtt'' ''b''] [mk_ep ''fed'' ''bob/r1''])\<lparr>rc_security_mode := ''sealed''\<rparr>"
  have "validate_route cfg_valid [] ?r1 = Ok ()"
    by (simp add: validate_route_def passes mk_route_def mk_ep_def FED_PROTOCOL_def IDENTITY_ROUTE_def c p m security_rank_def)
  moreover have "validate_route cfg_valid [''demo''] ?r2 = Ok ()"
    using f(3) by (auto simp: validate_route_def passes mk_route_def mk_ep_def FED_PROTOCOL_def IDENTITY_ROUTE_def c p m f(1,2) security_rank_def
        validate_fed_destination_def validate_sealed_route_def validate_sealed_destination_def)
  moreover have "cf_routes cfg_valid = [?r1, ?r2]" "rc_name ?r1 = ''demo''" by (simp_all add: cfg_valid_def mk_route_def)
  ultimately show ?thesis by (simp add: passes)
qed

lemma cfg_valid_ok: "validate cfg_valid = Ok ()"
  by (simp add: validate_def passes cfg_valid_node cfg_valid_rest cfg_valid_fed cfg_valid_routes)

theorem validated_config_routable_witness:
  "validate cfg_valid = Ok () \<and> distinct (map rc_name (cf_routes cfg_valid)) \<and> length (cf_routes cfg_valid) = 2"
  using validated_config_routable[OF cfg_valid_ok] cfg_valid_ok by (simp add: cfg_valid_def)

subsection \<open>Keys of sealed routes\<close>

lemma hex_decode_total: "list_all is_hexdigit_byte s \<Longrightarrow> even (length s) \<Longrightarrow> \<exists>b. hex_decode s = Some b \<and> length s = 2 * length b"
  by (induction s rule: hex_decode.induct) (auto simp: is_hexdigit_byte_def split: option.splits)

text \<open>
  A validated sealed route can always seal. For every destination of every route in mode \<open>sealed\<close> of the
  configuration the daemon runs with, the destination names a peer and remote route, and the peer's sealing key resolves
  to 32 bytes at any time and whatever adverts are stored: the dead letter \<open>NO_SEALED_KEY\<close> cannot happen
  for a row of such a route.
\<close>

theorem sealed_routes_have_keys:
  assumes "validate (dm_cfg d) = Ok ()" "r \<in> set (cf_routes (dm_cfg d))" "rc_security_mode r = ''sealed''" "ep \<in> set (rc_destinations r)"
  shows "\<exists>p rr key. ep_protocol ep = FED_PROTOCOL \<and> split_once (CHR ''/'') (ep_endpoint ep) = Some (p, rr) \<and>
    resolve_sealed_key X now p d = Some key \<and> length key = 32"
proof -
  obtain sn where v: "validate_route (dm_cfg d) sn r = Ok ()" using validated_routes(2)[OF assms(1,2)] by blast
  have sd: "validate_sealed_destination (dm_cfg d) (rc_name r) ep = Ok ()" by (rule validated_route(5)[OF v assms(3,4)])
  then have proto: "ep_protocol ep = FED_PROTOCOL" by (auto simp: validate_sealed_destination_def split: if_splits)
  obtain fed q rr where f: "cf_federation (dm_cfg d) = Some fed" "find_peer fed (pe_name q) = Some q" "q \<in> set (fc_peers fed)"
      "split_once (CHR ''/'') (ep_endpoint ep) = Some (pe_name q, rr)"
    by (rule fed_destination_ok[OF assms(1) validated_route(4)[OF v assms(4) proto]])
  obtain k where k: "pe_sealed_key q = Some k" using sd by (auto simp: validate_sealed_destination_def proto f passes)
  obtain sp where "validate_peer sp q = Ok ()" using validated_peers(2)[OF assms(1) f(1,3)] by blast
  then have "is_valid_hex64 k" by (simp add: validate_peer_def k passes)
  then obtain b where "hex_decode k = Some b" "length b = 32" using hex_decode_total[of k] by (auto simp: is_valid_hex64_def)
  then show ?thesis using proto f k by (auto simp: resolve_sealed_key_def peer_of_def)
qed

theorem sealed_routes_have_keys_witness:
  "\<exists>p rr key. split_once (CHR ''/'') ''bob/r1'' = Some (p, rr) \<and>
     resolve_sealed_key ext_demo 5 p (daemon_demo cfg_valid (store_empty no_fails)) = Some key"
  using sealed_routes_have_keys[of "daemon_demo cfg_valid (store_empty no_fails)"
      "(mk_route ''vault'' [mk_ep ''mqtt'' ''b''] [mk_ep ''fed'' ''bob/r1''])\<lparr>rc_security_mode := ''sealed''\<rparr>" "mk_ep ''fed'' ''bob/r1''" ext_demo 5]
    cfg_valid_ok by (auto simp: daemon_demo_def cfg_valid_def mk_route_def mk_ep_def)

subsection \<open>Two copies of one predicate\<close>

lemma unsafe_char_iff: "is_unsafe_advert_name_char c \<longleftrightarrow> is_control c \<or> is_display_spoofing c"
  by (simp add: is_unsafe_advert_name_char_def is_display_spoofing_def)

text \<open>
  The duplicated predicates agree. The character check of the configuration accepts exactly the
  characters the advert sanitizer keeps, and the trust gate in front of the frame decoder decides exactly as the
  gate of federation ingress (closed when there is no federation block).
\<close>

theorem duplicated_gates_agree:
  "is_unsafe_advert_name_char c = (is_control c \<or> is_display_spoofing c) \<and>
   trust_below_accept_from d peer =
     (case cf_federation (dm_cfg d) of None \<Rightarrow> True | Some f \<Rightarrow> fed_trust_denied peer (fc_accept_from f) d)"
  by (simp add: trust_gates_agree unsafe_char_iff)

subsection \<open>The node's own advert\<close>

text \<open>
  A validated node advertises its name as configured. The advert it signs carries a name no receiver
  changes, and a lifetime that no receiver clamps when it arrives within the second it was built.
\<close>

theorem own_advert_unaltered:
  assumes "validate (dm_cfg d) = Ok ()" "build_signed_advert X now d = Some a"
  shows "sanitize_advert_name (ad_name a) = nc_name (cf_node (dm_cfg d)) \<and>
    min (ad_expires a) (now div 1000000000 + ADVERT_MAX_FUTURE_SECS) = ad_expires a \<and> ad_expires a > now div 1000000000"
proof -
  let ?n = "nc_name (cf_node (dm_cfg d))" and ?ttl = "dc_advert_ttl_secs (cf_discovery (dm_cfg d))"
  have v: "validate_node_name (dm_cfg d) = Ok ()" "validate_discovery (dm_cfg d) = Ok ()" using assms(1) by (simp_all add: validate_def passes)
  have "length (rust_chars ?n) \<le> 64" "list_all safe_char (rust_chars ?n)"
    using v(1) unsafe_char_iff by (auto simp: validate_node_name_def Let_def passes find_None_iff list_all_iff safe_char_def)
  then have san: "sanitize_advert_name ?n = ?n" by (intro sanitize_safe_id)
  have t: "300 \<le> ?ttl" "?ttl \<le> 86400" using v(2) by (simp_all add: validate_discovery_def Let_def passes)
  have "ad_expires a = (now + csecs (as_i64 ?ttl)) div 1000000000"
    using assms(2) by (auto simp: build_signed_advert_def build_from_config_def advert_sign_def Let_def split: if_splits)
  also have "\<dots> = now div 1000000000 + int ?ttl" using t by (simp add: as_i64_def csecs_def)
  finally show ?thesis using san t build_signed_advert_facts(2)[OF assms(2)] by (simp add: ADVERT_MAX_FUTURE_SECS_def)
qed

theorem own_advert_unaltered_witness:
  "\<exists>a. build_signed_advert ext_demo 5 (daemon_demo cfg_valid (store_empty no_fails)) = Some a \<and>
     sanitize_advert_name (ad_name a) = ''n'' \<and> min (ad_expires a) 86400 = ad_expires a"
proof -
  let ?d = "daemon_demo cfg_valid (store_empty no_fails)"
  have c: "dm_cfg ?d = cfg_valid" by (simp add: daemon_demo_def)
  obtain a where a: "build_signed_advert ext_demo 5 ?d = Some a"
    by (auto simp: build_signed_advert_def build_from_config_def Let_def c) (simp add: cfg_valid_def)
  have n: "nc_name (cf_node cfg_valid) = ''n''" by (simp add: cfg_valid_def cfg_demo_def)
  show ?thesis
    using own_advert_unaltered[of ?d ext_demo 5 a] a cfg_valid_ok unfolding c n by (simp add: ADVERT_MAX_FUTURE_SECS_def)
qed

text \<open>
  A published service can silence a node. There is a configuration that passes validation, with an
  upper-case plugin name in its public services, whose own signed advert no peer accepts: whatever the peer's
  state, it is counted as rejected and nothing is stored.
\<close>

definition cfg_loud :: config where
  "cfg_loud = cfg_demo\<lparr>cf_plugins := [(''LoRa'', plugin_on)],
     cf_routes := [], cf_discovery := \<lparr>dc_mode = ''federation'', dc_advert_ttl_secs = 600\<rparr>,
     cf_public_services := [\<lparr>ps_name = ''relay'', ps_type = ''relay'', ps_ingress = [''LoRa''], ps_egress = []\<rparr>]\<rparr>"

lemma cfg_loud_ok: "validate cfg_loud = Ok ()"
  by (simp add: validate_def validated_parts passes cfg_loud_def cfg_demo_def plugin_on_def bound_socket_paths_def path_join_def
      SOCKET_PATH_MAX_def FED_PROTOCOL_def MAX_LIFECYCLE_SECS_def name_shapes is_unsafe_advert_name_char_def is_control_def code_point_def Let_def)

theorem validated_advert_rejected:
  "validate cfg_loud = Ok () \<and> (\<exists>a. build_signed_advert X now ((daemon_demo cfg_loud st)\<lparr>dm_identity := i\<rparr>) = Some a \<and>
     receive_advert X W t now' peer a b = reject_advert t peer reason b \<and>
     dm_store (receive_advert X W t now' peer a b) = dm_store b)"
proof -
  let ?d = "(daemon_demo cfg_loud st)\<lparr>dm_identity := i\<rparr>"
  have c: "dm_cfg ?d = cfg_loud" by (simp add: daemon_demo_def)
  obtain a where a: "build_signed_advert X now ?d = Some a"
    by (auto simp: build_signed_advert_def build_from_config_def Let_def c) (simp add: cfg_loud_def)
  have "\<not> publishable cfg_loud" by (simp add: publishable_def cfg_loud_def advert_key_ok_def is_lower_byte_def is_digit_byte_def byte_val_def)
  then have s: "\<not> advert_keys_sane a" using own_keys_sane[OF a] c by simp
  have "receive_advert X W t now' peer a b = reject_advert t peer reason b"
    using s by (auto simp: receive_advert_def reject_advert_def split: option.split)
  then show ?thesis using a cfg_loud_ok by auto
qed

subsection \<open>Public nodes\<close>

text \<open>
  A validated public node forwards to no peer. When the configuration passes validation with
  \<open>node.public\<close> set, no route has a federation destination: coverage demands the protocol \<open>fed\<close> in the egress list of a public
  service, that list admits enabled plugins only, and no plugin may be named \<open>fed\<close>.
\<close>

theorem public_node_never_forwards:
  assumes "validate cfg = Ok ()" "nc_public (cf_node cfg)" "r \<in> set (cf_routes cfg)"
  shows "list_all (\<lambda>ep. ep_protocol ep \<noteq> FED_PROTOCOL) (rc_destinations r)"
proof -
  have v: "validate_public cfg = Ok ()" "FED_PROTOCOL \<notin> fst ` set (cf_plugins cfg)"
    using assms(1) by (simp_all add: validate_def validate_node_def passes)
  have svc: "list_all (\<lambda>svc. list_all (\<lambda>proto. \<exists>p. map_of (cf_plugins cfg) proto = Some p \<and> pc_enabled p) (ps_ingress svc @ ps_egress svc)) (cf_public_services cfg)"
    and cov: "list_all (\<lambda>r. list_all (\<lambda>ep. ep_protocol ep \<in> set (concat (map ps_egress (cf_public_services cfg)))) (rc_destinations r)) (cf_routes cfg)"
    using v(1) assms(2) by (simp_all add: validate_public_def passes list_all_iff)
  have "FED_PROTOCOL \<notin> set (concat (map ps_egress (cf_public_services cfg)))"
    using svc v(2) by (force simp: list_all_iff dest: map_of_SomeD)
  then show ?thesis using cov assms(3) unfolding list_all_iff by metis
qed

definition cfg_public :: config where
  "cfg_public = cfg_demo\<lparr>cf_node := \<lparr>nc_name = ''n'', nc_data_dir = ''/d'', nc_public = True\<rparr>, cf_plugins := [(''lxmf'', plugin_on)],
     cf_limits := (cf_limits cfg_demo)\<lparr>lim_global_queue_max := 10\<rparr>,
     cf_routes := [mk_route ''regional'' [mk_ep ''lxmf'' ''a''] [mk_ep ''lxmf'' ''b'']],
     cf_discovery := \<lparr>dc_mode = ''public'', dc_advert_ttl_secs = 600\<rparr>,
     cf_public_services := [\<lparr>ps_name = ''relay'', ps_type = ''relay'', ps_ingress = [''lxmf''], ps_egress = [''lxmf'']\<rparr>]\<rparr>"

lemma cfg_public_ok: "validate cfg_public = Ok ()"
  by (simp add: validate_def validated_parts passes cfg_public_def cfg_demo_def plugin_on_def bound_socket_paths_def path_join_def
      SOCKET_PATH_MAX_def FED_PROTOCOL_def MAX_LIFECYCLE_SECS_def name_shapes is_unsafe_advert_name_char_def is_control_def code_point_def Let_def
      validate_route_def mk_route_def mk_ep_def IDENTITY_ROUTE_def security_rank_def require_enabled_plugin_def)

theorem public_node_never_forwards_witness:
  "list_all (\<lambda>r. list_all (\<lambda>ep. ep_protocol ep \<noteq> FED_PROTOCOL) (rc_destinations r)) (cf_routes cfg_public) \<and> length (cf_routes cfg_public) = 1"
  using public_node_never_forwards[OF cfg_public_ok] by (simp add: cfg_public_def)

end
