(* ===== verification/Daemon_Sys.thy ===== *)
theory Daemon_Sys
  imports Fed_Conn
begin

text \<open>
  The running daemon as a transition system: the handlers of the engine, of the federation links and of the operator,
  interleaved with the delivery pump, which reads a batch of due rows and then processes them one by
  one from that snapshot. A handler is one step. The state is the daemon and the rest of the pump's
  batch. Starting the daemon again (\<open>Daemon::new\<close> over the data directory) is a step too.
\<close>

subsection \<open>Operator actions and start-up\<close>

text \<open>The answers of the admin API are HTTP status codes, with the number of removed rows for a purge.\<close>

definition queue_requeue :: "datetime \<Rightarrow> int \<Rightarrow> daemon \<Rightarrow> nat \<times> daemon" where
  "queue_requeue now i d =
     (case on_store (requeue now i) d of
        (Inr True, d1) \<Rightarrow> (204, d1)
      | (Inr False, d1) \<Rightarrow> (404, d1)
      | (Inl _, d1) \<Rightarrow> (500, d1))"

definition queue_purge :: "daemon \<Rightarrow> (nat \<times> nat option) \<times> daemon" where
  "queue_purge d =
     (case on_store purge_dead_letters d of
        (Inr (n, orphans), d1) \<Rightarrow> ((200, Some n), d1\<lparr>dm_cas := cas_remove_all orphans (dm_cas d1)\<rparr>)
      | (Inl _, d1) \<Rightarrow> ((500, None), d1))"

definition daemon_new :: "config \<Rightarrow> daemon \<Rightarrow> daemon option" where
  "daemon_new cfg d =
     (case recover (dm_store d) of
        (Inl _, _) \<Rightarrow> None
      | (Inr _, st) \<Rightarrow> Some (d
          \<lparr>dm_cfg := cfg, dm_store := st, dm_dedup := dedup_new (secs (cf_dedup_ttl_secs cfg)), dm_plugins := [],
           dm_cas := cas_new (cs_blobs (dm_cas d)) (lim_global_cas_max_bytes (cf_limits cfg)) (cs_fails (dm_cas d)),
           dm_sender_limiter := sender_limiter_new (lim_sender_messages_per_minute (cf_limits cfg)) (lim_sender_bytes_per_hour (cf_limits cfg)),
           dm_budget_limiter := budget_limiter_new, dm_receivers := 0, dm_events := [],
           dm_fed := (if cf_federation cfg = None then None else Some []), dm_next_instance := 0, dm_peers_up := [], dm_gauges := [],
           dm_metrics := (\<lambda>_. 0), dm_route_messages := [], dm_guesses := [], dm_pre_trust_warned := [],
           dm_sealed_warned := [], dm_advert_warned := [], dm_inbound_warned := []\<rparr>))"

text \<open>One round of the pump up to the batch, and the whole round as the steps that follow.\<close>

definition pump_begin :: "datetime \<Rightarrow> daemon \<Rightarrow> daemon \<times> delivery list" where
  "pump_begin now d =
     (let d1 = do_store (reclaim_stale (now - csecs 60)) d
      in (d1, case due_deliveries now 32 (dm_store d1) of Inr ds \<Rightarrow> ds | Inl _ \<Rightarrow> []))"

subsection \<open>Steps\<close>

type_synonym node = "daemon \<times> delivery list"

inductive daemon_step :: "ext \<Rightarrow> wire \<Rightarrow> node \<Rightarrow> node \<Rightarrow> bool" for X W where
  inbound: "daemon_step X W (d, q)
    (handle_inbound X fresh t now plugin ep sender kind body created atts priority d, q)"
| result: "daemon_step X W (d, q) (handle_result now plugin corr delivered d, q)"
| fed_frame: "daemon_step X W (d, q) (snd (handle_frame X W t now peer key f d), q)"
| undecoded: "daemon_step X W (d, q) (snd (decode_inbound W t peer b d), q)"
| link_admit: "daemon_step X W (d, q) (snd (admit t now key peer tx d), q)"
| link_down: "daemon_step X W (d, q) (register_down now key tok d, q)"
| federation_up: "daemon_step X W (d, q) (snd (snd (spawn_federation ok now fcfg d)), q)"
| config: "daemon_step X W (d, q) (snd (apply_config now cfg d), q)"
| link_start: "daemon_step X W (d, q) (snd (initiate_link fresh code now requester target name d), q)"
| op_requeue: "daemon_step X W (d, q) (snd (queue_requeue now i d), q)"
| op_purge: "daemon_step X W (d, q) (snd (queue_purge d), q)"
| batch: "daemon_step X W (d, []) (pump_begin now d)"
| due: "daemon_step X W (d, del # q) (process_due X eph nonce t now del d, q)"
| retention: "daemon_step X W (d, []) (pump_purge now d, [])"
| pump_panic: "daemon_step X W (d, q) (d, [])"
| restart: "daemon_new cfg d = Some d' \<Longrightarrow> daemon_step X W (d, q) (d', [])"

inductive_cases daemon_stepE: "daemon_step X W s s'"

text \<open>A quiet round of the pump is a run of these steps.\<close>

lemma process_all_steps:
  "(daemon_step X W)\<^sup>*\<^sup>* (d, dels) (process_all X rand t now k dels d, [])"
proof (induction dels arbitrary: k d)
  case (Cons del dels)
  show ?case unfolding process_all.simps by (rule converse_rtranclp_into_rtranclp[OF daemon_step.due Cons.IH])
qed simp

lemma pump_pass_steps: "(daemon_step X W)\<^sup>*\<^sup>* (d, []) (snd (pump_pass X rand t now last_purge d), [])"
proof -
  let ?d1 = "fst (pump_begin now d)" and ?due = "snd (pump_begin now d)"
  let ?d2 = "process_all X rand t now 0 ?due ?d1"
  have "daemon_step X W (d, []) (?d1, ?due)" using daemon_step.batch[of X W d now] by simp
  then have r: "(daemon_step X W)\<^sup>*\<^sup>* (d, []) (?d2, [])" using process_all_steps by (rule converse_rtranclp_into_rtranclp)
  have "snd (pump_pass X rand t now last_purge d) \<in> {?d2, pump_purge now ?d2}"
    by (auto simp: pump_pass_def pump_begin_def Let_def)
  then show ?thesis using r daemon_step.retention[of X W ?d2 now] by (auto intro: rtranclp.rtrancl_into_rtrancl)
qed

end
