(* ===== verification/Daemon_Props.thy ===== *)
theory Daemon_Props
  imports Daemon_Sys Fed_Conn_Props Egress_Props
begin

text \<open>
  The daemon as a whole. Every handler except the pump moves the delivery rows in a limited way
  (\<open>calm\<close>); together with the pump's batch this gives an invariant of the whole system, from which
  follow that a delivered row is never touched again and that no row is attempted more often than
  the limit.
\<close>

subsection \<open>How a handler may move a row\<close>

definition evolves :: "delivery \<Rightarrow> delivery \<Rightarrow> bool" where
  "evolves r r' \<longleftrightarrow> dl_id r' = dl_id r \<and> dl_attempt_count r' \<le> dl_attempt_count r \<and> (dl_state r = Delivered \<longrightarrow> r' = r) \<and>
     (dl_state r \<noteq> Attempting \<longrightarrow> dl_state r' = Pending \<or> dl_state r' = dl_state r \<or>
        (terminal (dl_state r') \<and> dl_state r' \<noteq> Delivered \<and> MAX_ATTEMPTS \<le> dl_attempt_count r))"

definition stems_from :: "store \<Rightarrow> delivery \<Rightarrow> bool" where
  "stems_from st r' \<longleftrightarrow> (\<exists>r \<in> set (st_deliveries st). evolves r r') \<or> (st_next_delivery st \<le> dl_id r' \<and> dl_attempt_count r' = 0)"

definition calm :: "store \<Rightarrow> store \<Rightarrow> bool" where
  "calm st st' \<longleftrightarrow> st_next_delivery st \<le> st_next_delivery st' \<and> (\<forall>r' \<in> set (st_deliveries st'). stems_from st r')"

lemma evolves_refl [simp]: "evolves r r"
  by (simp add: evolves_def)

lemma stems_old [intro]: "r \<in> set (st_deliveries st) \<Longrightarrow> stems_from st r"
  and stems_evolved [intro]: "r \<in> set (st_deliveries st) \<Longrightarrow> evolves r r' \<Longrightarrow> stems_from st r'"
  and stems_fresh [intro]: "st_next_delivery st \<le> dl_id r' \<Longrightarrow> dl_attempt_count r' = 0 \<Longrightarrow> stems_from st r'"
  unfolding stems_from_def using evolves_refl by blast+

lemma evolves_trans: "evolves a b \<Longrightarrow> evolves b c \<Longrightarrow> evolves a c"
  by (auto simp: evolves_def terminal_def)

lemma calm_refl [simp]: "calm st st"
  by (auto simp: calm_def)

lemma calm_same: "st_deliveries st' = st_deliveries st \<Longrightarrow> st_next_delivery st' = st_next_delivery st \<Longrightarrow> calm st st'"
  by (auto simp: calm_def)

lemma calm_subset: "set (st_deliveries st') \<subseteq> set (st_deliveries st) \<Longrightarrow> st_next_delivery st' = st_next_delivery st \<Longrightarrow> calm st st'"
  by (auto simp: calm_def intro: evolves_refl)

lemma calm_trans:
  assumes "calm a b" "calm b c"
  shows "calm a c"
proof -
  have "stems_from a r'" if r': "r' \<in> set (st_deliveries c)" for r'
  proof (cases "\<exists>m \<in> set (st_deliveries b). evolves m r'")
    case True
    then obtain m where m: "m \<in> set (st_deliveries b)" "evolves m r'" by blast
    from assms(1) m(1) consider r where "r \<in> set (st_deliveries a)" "evolves r m"
      | "st_next_delivery a \<le> dl_id m" "dl_attempt_count m = 0" by (auto simp: calm_def stems_from_def)
    then show ?thesis
    proof cases
      case 1 then show ?thesis using m(2) evolves_trans by blast
    next
      case 2 then show ?thesis using m(2) by (intro stems_fresh) (auto simp: evolves_def)
    qed
  next
    case False then show ?thesis using assms r' by (force simp: calm_def stems_from_def)
  qed
  then show ?thesis using assms by (auto simp: calm_def)
qed

lemma grows_calm:
  assumes "grows st st'"
  shows "calm st st'"
proof -
  obtain rows where r: "st_deliveries st' = st_deliveries st @ rows" "list_all (fresh_row st) rows" "st_next_delivery st \<le> st_next_delivery st'"
    using assms by (auto simp: grows_def)
  have "stems_from st x" if "x \<in> set rows" for x using r(2) that by (intro stems_fresh) (auto simp: list_all_iff fresh_row_def)
  then show ?thesis using r(1,3) stems_old by (auto simp: calm_def)
qed

lemmas ingress_calm = grows_calm[OF ingress_steps_grow]

lemma calm_update:
  assumes "\<And>r. r \<in> set (st_deliveries st) \<Longrightarrow> P r \<Longrightarrow> evolves r (f r)"
  shows "calm st (update_deliveries P f st)"
  using assms by (auto simp: calm_def update_deliveries_def)

subsection \<open>The handlers are calm\<close>

lemma prune_orphans_deliveries [simp]:
  "st_deliveries (snd (prune_orphans st)) = st_deliveries st" "st_next_delivery (snd (prune_orphans st)) = st_next_delivery st"
  by (simp_all add: prune_orphans_def Let_def)

lemma purge_calm: "calm st (snd (purge_terminal older st))" "calm st (snd (purge_dead_letters st))"
  by (auto simp: purge_terminal_snd purge_dead_snd delete_deliveries_def intro!: calm_subset)

lemma reclaim_calm: "calm st (snd (reclaim_stale older st))" "calm st (snd (recover st))"
  by (auto simp: reclaim_stale_def recover_def stale_def evolves_def intro!: calm_update)

lemma requeue_calm: "calm st (snd (requeue now i st))"
  by (auto simp: requeue_def Let_def evolves_def intro!: calm_update)

lemma retry_calm: "calm st (snd (mark_retry now i nxt st))"
  by (auto simp: mark_retry_def evolves_def in_flight_def intro!: calm_update)

lemma delivered_calm: "calm st (snd (mark_delivered now i st))"
  by (auto simp: mark_delivered_def evolves_def intro!: calm_update)

lemma exhausted_calm:
  assumes "store_inv st" "r \<in> set (st_deliveries st)" "dl_id r = i" "MAX_ATTEMPTS \<le> dl_attempt_count r"
  shows "calm st (snd (mark_terminal now i DeadLetter reason st))"
proof -
  have "r' = r" if "r' \<in> set (st_deliveries st)" "dl_id r' = i" for r' using row_unique[OF assms(1) that(1) assms(2)] that(2) assms(3) by simp
  then show ?thesis using assms(4)
    by (auto simp: mark_terminal_def evolves_def in_flight_def terminal_def intro!: calm_update)
qed

lemma handle_result_calm:
  assumes "store_inv (dm_store d)"
  shows "calm (dm_store d) (dm_store (handle_result now plugin corr ok d))"
proof (cases "deliveries_for_id corr (dm_store d)")
  case None then show ?thesis by (simp add: handle_result_def)
next
  case (Some del)
  then have del: "del \<in> set (st_deliveries (dm_store d))" "dl_id del = corr"
    by (auto simp: deliveries_for_id_def find_Some_iff split: if_splits)
  show ?thesis
    using exhausted_calm[OF assms del] retry_calm delivered_calm
    by (auto simp: handle_result_def Some Let_def split: sum.splits option.splits)
qed

lemma ack_rows_calm: "calm (dm_store d) (dm_store (snd (ack_rows now rows d)))"
proof (induction rows arbitrary: d)
  case (Cons row rows)
  have "calm (dm_store d) (dm_store (snd (ack_rows now rows (d\<lparr>dm_store := snd (mark_delivered now (dl_id row) (dm_store d))\<rparr>))))"
    using calm_trans[OF delivered_calm[of "dm_store d" now "dl_id row"]] Cons.IH[of "d\<lparr>dm_store := snd (mark_delivered now (dl_id row) (dm_store d))\<rparr>"]
    by simp
  then show ?case using Cons.IH[of d] by (auto simp: on_store_eq case_prod_unfold split: sum.split)
qed simp

lemma emit_deliveries_store [simp]: "dm_store (fold (\<lambda>(m, rt). emit_delivery now m rt s) xs d) = dm_store d"
  by (simp add: emit_deliveries)

lemma handle_fed_ack_calm: "calm (dm_store d) (dm_store (handle_fed_ack W now key i d))"
  by (auto simp: handle_fed_ack_def Let_def case_prod_unfold ack_rows_calm[unfolded case_prod_unfold] split: option.split)
     (simp add: ack_rows_calm emit_deliveries[unfolded case_prod_unfold])

lemma receive_advert_calm: "calm (dm_store d) (dm_store (receive_advert X W t now peer a d))"
proof -
  have "calm (dm_store d) (dm_store (store_advert W now a raw d))" for raw
    by (intro calm_same) (simp_all add: store_advert_def Let_def on_store_eq upsert_peer_advert_def prune_peer_adverts_def split: sum.split)
  then show ?thesis by (simp add: receive_advert_def split: option.split)
qed

lemma handle_frame_calm: "calm (dm_store d) (dm_store (snd (handle_frame X W t now peer key f d)))"
proof (cases f)
  case (FedEnvelope env rt)
  then show ?thesis using ingress_calm[OF fed_ingress_steps[of d X t now peer env rt]]
    by (auto simp: ack_reply_def split: prod.splits fed_outcome.splits)
next
  case (FedSealed s rt)
  then show ?thesis using ingress_calm[OF fed_sealed_ingress_steps[of d X t now peer s rt]]
    by (auto simp: ack_reply_def split: prod.splits fed_outcome.splits)
qed (simp_all add: handle_fed_ack_calm receive_advert_calm split: option.split)

lemma register_store [simp]:
  "dm_store (snd (register_up k n now tx d)) = dm_store d" "dm_store (register_down now k tok d) = dm_store d"
  by (simp_all add: register_up_def register_down_def Let_def set_federation_peer_up_def split: option.split)

lemma trust_tables [simp]:
  "st_deliveries (snd (prune_seen_trust cap st)) = st_deliveries st" "st_next_delivery (snd (prune_seen_trust cap st)) = st_next_delivery st"
  "st_messages (snd (prune_seen_trust cap st)) = st_messages st"
  "st_deliveries (snd (record_seen n now st)) = st_deliveries st" "st_next_delivery (snd (record_seen n now st)) = st_next_delivery st"
  "st_messages (snd (record_seen n now st)) = st_messages st"
  "st_deliveries (snd (seed_trust n l now st)) = st_deliveries st" "st_next_delivery (snd (seed_trust n l now st)) = st_next_delivery st"
  "st_messages (snd (seed_trust n l now st)) = st_messages st"
  by (simp_all add: prune_seen_trust_def record_seen_def seed_trust_def Let_def)

lemma seed_list_same:
  "st_deliveries (snd (seed_list ls now st)) = st_deliveries st \<and> st_next_delivery (snd (seed_list ls now st)) = st_next_delivery st \<and>
   st_messages (snd (seed_list ls now st)) = st_messages st"
proof (induction ls arbitrary: st)
  case (Cons a ls)
  obtain n l where a: "a = (n, l)" by (cases a)
  show ?case using Cons.IH[of "snd (seed_trust n l now st)"] by (auto simp: a case_prod_unfold split: sum.split)
qed simp

lemmas seed_list_tables [simp] = seed_list_same[THEN conjunct1] seed_list_same[THEN conjunct2, THEN conjunct1] seed_list_same[THEN conjunct2, THEN conjunct2]

lemma seed_federation_tables [simp]:
  "st_deliveries (snd (seed_federation_trust f now st)) = st_deliveries st"
  "st_next_delivery (snd (seed_federation_trust f now st)) = st_next_delivery st"
  "st_messages (snd (seed_federation_trust f now st)) = st_messages st"
  by (simp_all add: seed_federation_trust_def downgrade_def split: sum.split)

lemma admit_store:
  "dm_store (snd (admit t now key n tx d)) \<in> {dm_store d, snd (prune_seen_trust MAX_SEEN_TRUST_ROWS (snd (record_seen n now (dm_store d))))}"
  by (simp add: admit_def Let_def)

lemma admit_calm: "calm (dm_store d) (dm_store (snd (admit t now key n tx d)))"
  using admit_store[of t now key n tx d] by (auto intro!: calm_same)

lemma apply_config_store [simp]: "dm_store (snd (apply_config now cfg d)) = dm_store d"
  by (simp add: apply_config_def Let_def)

lemma queue_store [simp]:
  "dm_store (snd (queue_purge d)) = snd (purge_dead_letters (dm_store d))" "dm_store (snd (queue_requeue now i d)) = snd (requeue now i (dm_store d))"
  by (simp_all add: queue_purge_def queue_requeue_def on_store_eq case_prod_unfold split: sum.split bool.split)

lemma pump_purge_store:
  "\<exists>older st. st = snd (purge_terminal older (dm_store d)) \<and> st_deliveries (dm_store (pump_purge now d)) = st_deliveries st \<and>
     st_next_delivery (dm_store (pump_purge now d)) = st_next_delivery st \<and> st_messages (dm_store (pump_purge now d)) = st_messages st"
proof -
  have o: "st_deliveries (snd (purge_expired_adverts now st)) = st_deliveries st" "st_next_delivery (snd (purge_expired_adverts now st)) = st_next_delivery st"
    "st_messages (snd (purge_expired_adverts now st)) = st_messages st"
    "st_deliveries (snd (purge_expired_challenges now st)) = st_deliveries st" "st_next_delivery (snd (purge_expired_challenges now st)) = st_next_delivery st"
    "st_messages (snd (purge_expired_challenges now st)) = st_messages st" for st
    by (simp_all add: purge_expired_adverts_def purge_expired_challenges_def Let_def)
  show ?thesis
    by (rule exI[of _ "now - csecs (as_i64 (cf_retention_secs (dm_cfg d)))"])
       (simp add: pump_purge_def Let_def o on_store_eq case_prod_unfold split: sum.split)
qed

lemma pump_purge_calm: "calm (dm_store d) (dm_store (pump_purge now d))"
proof -
  obtain older st where st: "st = snd (purge_terminal older (dm_store d))" "st_deliveries (dm_store (pump_purge now d)) = st_deliveries st"
    "st_next_delivery (dm_store (pump_purge now d)) = st_next_delivery st" using pump_purge_store[of d now] by blast
  show ?thesis by (rule calm_trans[OF purge_calm(1)[of "dm_store d" older, folded st(1)] calm_same[OF st(2,3)]])
qed

subsection \<open>The pump\<close>

lemma exhausted_settled:
  assumes "MAX_ATTEMPTS \<le> dl_attempt_count del"
  shows "\<exists>s r. s \<in> {Failed, Expired, DeadLetter} \<and> process_due X eph nonce t now del d = finish now del s r d"
  using assms by (auto simp: process_due_def split: sum.splits option.splits)

text \<open>At most the row with one id is changed, its attempts by at most one if \<open>b\<close>; without \<open>b\<close> only if it is in flight.\<close>

definition touches :: "int \<Rightarrow> bool \<Rightarrow> store \<Rightarrow> store \<Rightarrow> bool" where
  "touches i b st st' \<longleftrightarrow> st_next_delivery st' = st_next_delivery st \<and> st_messages st' = st_messages st \<and>
     map dl_id (st_deliveries st') = map dl_id (st_deliveries st) \<and>
     map dl_message_id (st_deliveries st') = map dl_message_id (st_deliveries st) \<and>
     (\<forall>r' \<in> set (st_deliveries st'). r' \<in> set (st_deliveries st) \<or>
        (\<exists>r \<in> set (st_deliveries st). dl_id r = i \<and> dl_id r' = i \<and> dl_attempt_count r' \<le> dl_attempt_count r + (if b then 1 else 0) \<and>
           (\<not> b \<longrightarrow> in_flight (dl_state r))))"

lemma touches_settle: "touches i False st (snd (mark_terminal now i s reason st))"
  by (auto simp: touches_def settle.upd_frame settle.upd_ids elim!: settle.upd_row)

lemma touches_retry: "touches i False st (snd (mark_retry now i nxt st))"
  by (auto simp: touches_def retry.upd_frame retry.upd_ids elim!: retry.upd_row)

lemma touches_attempt: "touches i True st (snd (mark_attempting now i st))"
  by (auto simp: touches_def attempting.upd_frame attempting.upd_ids elim!: attempting.upd_row)

lemma touches_more: "touches i False st st' \<Longrightarrow> touches i True st st'"
  by (fastforce simp: touches_def)

lemma touches_again: "touches i True st st1 \<Longrightarrow> touches i False st1 st2 \<Longrightarrow> touches i True st st2"
  unfolding touches_def by (fastforce dest: bspec)

lemma process_due_touches:
  "touches (dl_id del) (dl_attempt_count del < MAX_ATTEMPTS) (dm_store d) (dm_store (process_due X eph nonce t now del d))"
proof (cases "MAX_ATTEMPTS \<le> dl_attempt_count del")
  case True
  then obtain s r where "process_due X eph nonce t now del d = finish now del s r d" using exhausted_settled by blast
  then show ?thesis using True by (simp add: touches_settle)
next
  case False
  have "touches (dl_id del) True (dm_store d) (dm_store (process_due X eph nonce t now del d))"
    using process_due_cases[of now del d X eph nonce t] unfolding due_outcome_def settled_def deferred_def dispatched_def bounced_def
    by (auto intro: touches_more[OF touches_settle] touches_more[OF touches_retry] touches_attempt touches_again[OF touches_attempt touches_retry])
  then show ?thesis using False by simp
qed

subsection \<open>The invariant of the running daemon\<close>

definition batch_entry_ok :: "store \<Rightarrow> delivery \<Rightarrow> bool" where
  "batch_entry_ok st del \<longleftrightarrow> dl_id del < st_next_delivery st \<and>
     (\<forall>r \<in> set (st_deliveries st). dl_id r = dl_id del \<longrightarrow> dl_attempt_count r \<le> dl_attempt_count del \<and>
        (dl_state r = Pending \<or> (terminal (dl_state r) \<and> dl_state r \<noteq> Delivered \<and> MAX_ATTEMPTS \<le> dl_attempt_count del)))"

definition attempts_ok :: "store \<Rightarrow> bool" where
  "attempts_ok st \<longleftrightarrow> (\<forall>r \<in> set (st_deliveries st). dl_attempt_count r \<le> MAX_ATTEMPTS)"

definition node_inv :: "node \<Rightarrow> bool" where
  "node_inv s \<longleftrightarrow> store_inv (dm_store (fst s)) \<and> attempts_ok (dm_store (fst s)) \<and>
     distinct (map dl_id (snd s)) \<and> list_all (batch_entry_ok (dm_store (fst s))) (snd s)"

lemma calm_batch:
  assumes "calm st st'" "batch_entry_ok st del"
  shows "batch_entry_ok st' del"
proof -
  have "dl_attempt_count r' \<le> dl_attempt_count del \<and>
      (dl_state r' = Pending \<or> (terminal (dl_state r') \<and> dl_state r' \<noteq> Delivered \<and> MAX_ATTEMPTS \<le> dl_attempt_count del))"
    if r': "r' \<in> set (st_deliveries st')" "dl_id r' = dl_id del" for r'
  proof -
    have "stems_from st r'" using assms(1) r'(1) by (simp add: calm_def)
    then obtain r where r: "r \<in> set (st_deliveries st)" "evolves r r'" using assms(2) r'(2) by (auto simp: stems_from_def batch_entry_ok_def)
    then have "dl_id r = dl_id del" using r'(2) by (simp add: evolves_def)
    then show ?thesis using assms(2) r by (auto simp: batch_entry_ok_def evolves_def terminal_def)
  qed
  then show ?thesis using assms by (auto simp: batch_entry_ok_def calm_def)
qed

lemma calm_attempts: "calm st st' \<Longrightarrow> attempts_ok st \<Longrightarrow> attempts_ok st'"
  by (force simp: calm_def stems_from_def attempts_ok_def evolves_def)

lemma calm_node:
  assumes "calm (dm_store d) (dm_store d')" "store_inv (dm_store d')" "node_inv (d, q)"
  shows "node_inv (d', q)"
  using assms calm_batch[OF assms(1)] calm_attempts[OF assms(1)] by (auto simp: node_inv_def list_all_iff)

lemma touches_other:
  "touches i b st st' \<Longrightarrow> dl_id del \<noteq> i \<Longrightarrow> batch_entry_ok st del \<Longrightarrow> batch_entry_ok st' del"
  unfolding touches_def batch_entry_ok_def by fastforce

lemma touches_store_inv: "touches i b st st' \<Longrightarrow> store_inv st \<Longrightarrow> store_inv st'"
  unfolding touches_def by (rule store_inv_same_keys) auto

lemma process_due_node:
  assumes "node_inv (d, del # q)"
  shows "node_inv (process_due X eph nonce t now del d, q)"
proof -
  let ?st = "dm_store d" and ?st' = "dm_store (process_due X eph nonce t now del d)"
  note t = process_due_touches[of del d X eph nonce t now]
  have inv: "store_inv ?st" "attempts_ok ?st" "batch_entry_ok ?st del" "distinct (map dl_id (del # q))" "list_all (batch_entry_ok ?st) q"
    using assms by (simp_all add: node_inv_def)
  have "dl_attempt_count r' \<le> MAX_ATTEMPTS" if r': "r' \<in> set (st_deliveries ?st')" for r'
  proof (cases "r' \<in> set (st_deliveries ?st)")
    case False
    then obtain r where r: "r \<in> set (st_deliveries ?st)" "dl_id r = dl_id del"
        "dl_attempt_count r' \<le> dl_attempt_count r + (if dl_attempt_count del < MAX_ATTEMPTS then 1 else 0)"
      using t r' by (auto simp: touches_def)
    moreover have "dl_attempt_count r \<le> dl_attempt_count del" "dl_attempt_count r \<le> MAX_ATTEMPTS"
      using inv(2,3) r by (auto simp: batch_entry_ok_def attempts_ok_def)
    ultimately show ?thesis by (auto split: if_splits)
  qed (use inv(2) in \<open>auto simp: attempts_ok_def\<close>)
  moreover have "list_all (batch_entry_ok ?st') q"
    using inv(4,5) touches_other[OF t] by (auto simp: list_all_iff image_iff)
  ultimately show ?thesis using inv(4) touches_store_inv[OF t inv(1)] by (simp add: node_inv_def attempts_ok_def)
qed

lemma due_batch:
  assumes "store_inv st" "due_deliveries now n st = Inr ds"
  shows "distinct (map dl_id ds)" "list_all (batch_entry_ok st) ds"
proof -
  have ds: "ds = take n (sort_key (\<lambda>d. (dl_priority d, dl_next_attempt d)) (filter (\<lambda>d. dl_state d = Pending \<and> dl_next_attempt d \<le> now) (st_deliveries st)))"
    using assms(2) by (simp add: due_deliveries_def split: if_splits)
  have sub: "del \<in> set (st_deliveries st) \<and> dl_state del = Pending" if "del \<in> set ds" for del
    using that unfolding ds by (auto dest: in_set_takeD)
  have "distinct ds" using store_inv_distinct[OF assms(1)] by (simp add: ds)
  then show "distinct (map dl_id ds)" using sub row_unique[OF assms(1)] by (auto simp: distinct_map inj_on_def)
  have "batch_entry_ok st del" if "del \<in> set ds" for del
  proof -
    note d = sub[OF that]
    have "r = del" if "r \<in> set (st_deliveries st)" "dl_id r = dl_id del" for r using row_unique[OF assms(1) that(1)] d that(2) by blast
    then show ?thesis using d assms(1) by (auto simp: batch_entry_ok_def store_inv_def ids_ok_def)
  qed
  then show "list_all (batch_entry_ok st) ds" by (simp add: list_all_iff)
qed

lemma same_tables_inv:
  "st_deliveries st' = st_deliveries st \<Longrightarrow> st_next_delivery st' = st_next_delivery st \<Longrightarrow> st_messages st' = st_messages st \<Longrightarrow>
   store_inv st \<Longrightarrow> store_inv st'"
  by (rule store_inv_same_keys) simp_all

lemma handle_result_inv: "store_inv (dm_store d) \<Longrightarrow> store_inv (dm_store (handle_result now plugin corr ok d))"
  by (auto simp: handle_result_def Let_def intro: store_step_inv store_step.intros split: option.split sum.split)

lemma ack_rows_inv: "store_inv (dm_store d) \<Longrightarrow> store_inv (dm_store (snd (ack_rows now rows d)))"
proof (induction rows arbitrary: d)
  case (Cons row rows)
  have "store_inv (dm_store (d\<lparr>dm_store := snd (mark_delivered now (dl_id row) (dm_store d))\<rparr>))"
    using store_step_inv[OF s_delivered Cons.prems] by simp
  from Cons.IH[OF this] show ?case using Cons.IH[OF Cons.prems] by (auto simp: on_store_eq case_prod_unfold split: sum.split)
qed simp

lemma handle_fed_ack_inv: "store_inv (dm_store d) \<Longrightarrow> store_inv (dm_store (handle_fed_ack W now key i d))"
  by (cases "w_uuid_parse W i")
     (simp_all add: handle_fed_ack_def Let_def case_prod_unfold ack_rows_inv emit_deliveries[unfolded case_prod_unfold])

lemma receive_advert_inv: "store_inv (dm_store d) \<Longrightarrow> store_inv (dm_store (receive_advert X W t now peer a d))"
proof -
  assume i: "store_inv (dm_store d)"
  have "store_inv (dm_store (store_advert W now a raw d))" for raw
    by (rule same_tables_inv[OF _ _ _ i]) (simp_all add: store_advert_def Let_def on_store_eq upsert_peer_advert_def prune_peer_adverts_def split: sum.split)
  then show ?thesis using i by (simp add: receive_advert_def split: option.split)
qed

lemma handle_frame_inv:
  assumes "store_inv (dm_store d)"
  shows "store_inv (dm_store (snd (handle_frame X W t now peer key f d)))"
proof (cases f)
  case (FedEnvelope env rt)
  then show ?thesis using ingress_steps_inv[OF fed_ingress_steps[of d X t now peer env rt] assms]
    by (auto simp: ack_reply_def split: prod.splits fed_outcome.splits)
next
  case (FedSealed s rt)
  then show ?thesis using ingress_steps_inv[OF fed_sealed_ingress_steps[of d X t now peer s rt] assms]
    by (auto simp: ack_reply_def split: prod.splits fed_outcome.splits)
qed (simp_all add: assms handle_fed_ack_inv receive_advert_inv split: option.split)

lemma admit_inv: "store_inv (dm_store d) \<Longrightarrow> store_inv (dm_store (snd (admit t now key n tx d)))"
  using admit_store[of t now key n tx d] by (auto intro: same_tables_inv[rotated 3])

lemma spawn_store [simp]: "dm_store (snd (snd (spawn_federation ok now f d))) = snd (seed_federation_trust f now (dm_store d))"
  by (simp add: spawn_federation_def Let_def)

lemma pump_purge_inv:
  assumes "store_inv (dm_store d)"
  shows "store_inv (dm_store (pump_purge now d))"
proof -
  obtain older where "st_deliveries (dm_store (pump_purge now d)) = st_deliveries (snd (purge_terminal older (dm_store d)))"
    "st_next_delivery (dm_store (pump_purge now d)) = st_next_delivery (snd (purge_terminal older (dm_store d)))"
    "st_messages (dm_store (pump_purge now d)) = st_messages (snd (purge_terminal older (dm_store d)))"
    using pump_purge_store[of d now] by blast
  then show ?thesis using store_step_inv[OF s_purge assms] by (rule same_tables_inv)
qed

lemma daemon_new_store: "daemon_new cfg d = Some d' \<Longrightarrow> dm_store d' = snd (recover (dm_store d))"
  by (auto simp: daemon_new_def split: prod.splits sum.splits)

text \<open>A step is calm and keeps the table invariant, or it is the pump taking the next entry of its batch.\<close>

lemma daemon_step_shape:
  assumes "daemon_step X W (d, q) (d', q')" "store_inv (dm_store d)"
  shows "(calm (dm_store d) (dm_store d') \<and> store_inv (dm_store d') \<and>
      (q' = q \<or> q' = [] \<or> (\<exists>now. due_deliveries now 32 (dm_store d') = Inr q'))) \<or>
    (\<exists>eph nonce t now del. q = del # q' \<and> d' = process_due X eph nonce t now del d)"
  using assms(1)
proof cases
  case (inbound fresh t now plugin ep sender kind body created atts priority)
  then show ?thesis using ingress_calm[OF handle_inbound_steps] ingress_steps_inv[OF handle_inbound_steps assms(2)] by simp
next
  case (result now plugin corr delivered)
  then show ?thesis using handle_result_calm[OF assms(2)] handle_result_inv[OF assms(2)] by simp
next
  case (fed_frame t now peer key f)
  then show ?thesis using handle_frame_calm handle_frame_inv[OF assms(2)] by simp
next
  case (undecoded t peer b) then show ?thesis using assms(2) by simp
next
  case (link_admit t now key peer tx) then show ?thesis using admit_calm admit_inv[OF assms(2)] by simp
next
  case (link_down now key tok) then show ?thesis using assms(2) by simp
next
  case (federation_up ok now fcfg)
  then show ?thesis using assms(2) by (auto intro: calm_same same_tables_inv[OF _ _ _ assms(2)])
next
  case (config now cfg) then show ?thesis using assms(2) by simp
next
  case (link_start fresh code now requester target name)
  then show ?thesis using ingress_calm[OF initiate_link_steps] ingress_steps_inv[OF initiate_link_steps assms(2)] by simp
next
  case (op_requeue now i)
  then show ?thesis using requeue_calm store_step_inv[OF s_requeue assms(2)] by simp
next
  case op_purge
  then show ?thesis using purge_calm(2) store_step_inv[OF s_purge_dead assms(2)] by simp
next
  case (batch now)
  then have d': "dm_store d' = snd (reclaim_stale (now - csecs 60) (dm_store d))"
    "q' = (case due_deliveries now 32 (dm_store d') of Inr ds \<Rightarrow> ds | Inl _ \<Rightarrow> [])" by (auto simp: pump_begin_def Let_def)
  have "q' = [] \<or> (\<exists>now. due_deliveries now 32 (dm_store d') = Inr q')"
    using d'(2) by (cases "due_deliveries now 32 (dm_store d')") auto
  then show ?thesis using d'(1) reclaim_calm(1) store_step_inv[OF s_reclaim assms(2)] by auto
next
  case (due del eph nonce t now) then show ?thesis by blast
next
  case (retention now) then show ?thesis using pump_purge_calm pump_purge_inv[OF assms(2)] by simp
next
  case pump_panic then show ?thesis using assms(2) by simp
next
  case (restart cfg)
  then show ?thesis using daemon_new_store reclaim_calm(2) store_step_inv[OF s_recover assms(2)] by metis
qed

lemma daemon_step_inv:
  assumes "daemon_step X W (d, q) (d', q')" "node_inv (d, q)"
  shows "node_inv (d', q')"
proof -
  have i: "store_inv (dm_store d)" using assms(2) by (simp add: node_inv_def)
  from daemon_step_shape[OF assms(1) i] show ?thesis
  proof (elim disjE conjE exE)
    assume c: "calm (dm_store d) (dm_store d')" "store_inv (dm_store d')"
    note n = calm_node[OF c assms(2)]
    { assume "q' = q" then show ?thesis using n by simp }
    { assume "q' = []" then show ?thesis using n by (simp add: node_inv_def) }
    { fix now assume "due_deliveries now 32 (dm_store d') = Inr q'"
      then show ?thesis using n due_batch[OF c(2)] by (simp add: node_inv_def) }
  next
    fix eph nonce t now del assume "q = del # q'" "d' = process_due X eph nonce t now del d"
    then show ?thesis using process_due_node assms(2) by blast
  qed
qed

interpretation node_sys: invariant_system "daemon_step X W" node_inv for X W
  by unfold_locales (metis daemon_step_inv surj_pair)

lemmas daemon_steps_inv = node_sys.reach_inv

end
