(* ===== verification/Daemon_Safety.thy ===== *)
theory Daemon_Safety
  imports Daemon_Props
begin

text \<open>
  What the running daemon promises, whatever order its handlers, the pump, the operator and restarts
  run in: a delivered row stays as it is, a frame leaves only for a row that is still waiting, and the
  pump works off what is due.
\<close>

subsection \<open>Delivered rows\<close>

lemma daemon_step_next:
  assumes "daemon_step X W (d, q) (d', q')" "store_inv (dm_store d)"
  shows "st_next_delivery (dm_store d) \<le> st_next_delivery (dm_store d')"
  using daemon_step_shape[OF assms] process_due_touches by (fastforce simp: calm_def touches_def)

lemma daemon_step_delivered:
  assumes s: "daemon_step X W (d, q) (d', q')" and i: "node_inv (d, q)"
    and i0: "i < st_next_delivery (dm_store d)"
    and all: "\<And>x. x \<in> set (st_deliveries (dm_store d)) \<Longrightarrow> dl_id x = i \<Longrightarrow> x = r" and r: "dl_state r = Delivered"
    and x: "x \<in> set (st_deliveries (dm_store d'))" "dl_id x = i"
  shows "x = r"
proof -
  have inv: "store_inv (dm_store d)" using i by (simp add: node_inv_def)
  from daemon_step_shape[OF s inv] consider (calm) "calm (dm_store d) (dm_store d')"
    | (due) eph nonce t now del where "q = del # q'" "d' = process_due X eph nonce t now del d" by blast
  then show ?thesis
  proof cases
    case calm
    then have "stems_from (dm_store d) x" using x(1) by (simp add: calm_def)
    then obtain y where y: "y \<in> set (st_deliveries (dm_store d))" "evolves y x" using x(2) i0 by (auto simp: stems_from_def)
    then have "y = r" using all x(2) by (simp add: evolves_def)
    then show ?thesis using y(2) r by (simp add: evolves_def)
  next
    case (due eph nonce t now del)
    show ?thesis
    proof (cases "x \<in> set (st_deliveries (dm_store d))")
      case True then show ?thesis using all x(2) by simp
    next
      case False
      then obtain y where y: "y \<in> set (st_deliveries (dm_store d))" "dl_id y = dl_id del" "dl_id x = dl_id del"
        using process_due_touches[of del d X eph nonce t now] x(1) by (auto simp: due(2) touches_def)
      then have "y = r" using all x(2) by simp
      then have "dl_state y \<noteq> Delivered" using i y by (auto simp: node_inv_def due(1) batch_entry_ok_def)
      then show ?thesis using \<open>y = r\<close> r by simp
    qed
  qed
qed

text \<open>
  C1: Once delivered, always delivered. However the handlers of plugins, peers and the operator, the
  pump with its snapshot of due rows, configuration swaps and restarts are interleaved after it, a row
  in the state \<open>delivered\<close> keeps every field until the retention purge removes it, and its id is never
  given to another row.
\<close>

theorem delivered_row_final:
  assumes "(daemon_step X W)\<^sup>*\<^sup>* s s'" "node_inv s"
    and "r \<in> set (st_deliveries (dm_store (fst s)))" "dl_state r = Delivered"
    and "r' \<in> set (st_deliveries (dm_store (fst s')))" "dl_id r' = dl_id r"
  shows "r' = r"
proof -
  have "dl_id r < st_next_delivery (dm_store (fst s')) \<and> node_inv s' \<and>
      (\<forall>x \<in> set (st_deliveries (dm_store (fst s'))). dl_id x = dl_id r \<longrightarrow> x = r)"
    using assms(1)
  proof (induction rule: rtranclp_induct)
    case base
    then show ?case using assms(2,3) row_unique[of "dm_store (fst s)"]
      by (auto simp: node_inv_def store_inv_def ids_ok_def)
  next
    case (step y z)
    obtain d q d' q' where yz: "y = (d, q)" "z = (d', q')" by fastforce
    note st = step.hyps(2)[unfolded yz]
    have i: "node_inv (d, q)" "dl_id r < st_next_delivery (dm_store d)" using step.IH yz by auto
    then show ?case
      using daemon_step_delivered[OF st i _ assms(4)] daemon_step_inv[OF st i(1)] daemon_step_next[OF st] step.IH
      by (fastforce simp: yz node_inv_def)
  qed
  then show ?thesis using assms(5,6) by blast
qed

definition daemon_done :: daemon where
  "daemon_done = daemon_demo cfg_demo store_done"

lemma store_done_tables: "mr_id ` set (st_messages store_done) = {''id-1''}" "distinct (map mr_id (st_messages store_done))"
  "st_next_delivery store_done = 2" "sql_fails store_done = no_fails"
  by (simp_all add: store_done_def store_one_def insert_delivery_def insert_message_def store_empty_def mark_delivered_def
      mark_attempting_def update_deliveries_def no_fails_def live_ids_def sample_env_def envelope_new_def)

lemma daemon_done_store [simp]: "dm_store daemon_done = store_done"
  by (simp add: daemon_done_def daemon_demo_def)

lemma daemon_done_inv: "node_inv (daemon_done, [])"
  by (simp add: node_inv_def store_inv_def ids_ok_def refs_ok_def live_ids_def
      store_done_rows store_done_tables attempts_ok_def MAX_ATTEMPTS_def)

theorem delivered_row_final_witness:
  "st_deliveries (dm_store (fst (pump_begin 900 (snd (queue_requeue 9 1 daemon_done))))) = st_deliveries store_done"
proof -
  let ?s1 = "(snd (queue_requeue 9 1 daemon_done), [] :: delivery list)" and ?s2 = "pump_begin 900 (snd (queue_requeue 9 1 daemon_done))"
  have run: "(daemon_step ext_demo wire_demo)\<^sup>*\<^sup>* (daemon_done, []) ?s2"
    by (rule converse_rtranclp_into_rtranclp[of _ _ ?s1], rule daemon_step.op_requeue, rule r_into_rtranclp, rule daemon_step.batch)
  have ids: "map dl_id (st_deliveries (dm_store (fst ?s2))) = [1]"
    by (simp add: pump_begin_def Let_def reclaim.upd_ids requeueing.upd_ids store_done_rows)
  then obtain r' where r': "st_deliveries (dm_store (fst ?s2)) = [r']" "dl_id r' = 1" by (auto simp: map_eq_Cons_conv)
  have "r' = hd (st_deliveries store_done)"
    by (rule delivered_row_final[OF run daemon_done_inv]) (simp_all add: r' store_done_rows)
  then show ?thesis by (simp add: r' store_done_rows)
qed

subsection \<open>Frames\<close>

definition frames_of :: "daemon \<Rightarrow> (string \<times> daemon_to_plugin) list \<times> (string \<times> fed_frame) list" where
  "frames_of d = (dm_sent d, dm_fed_sent d)"

lemma frame_sent_dispatched:
  assumes "frames_of (process_due X eph nonce t now del d) \<noteq> frames_of d"
  shows "dispatched now del d (process_due X eph nonce t now del d)" "dl_attempt_count del < MAX_ATTEMPTS"
proof -
  show "dispatched now del d (process_due X eph nonce t now del d)"
    using process_due_cases[of now del d X eph nonce t] assms
    by (auto simp: due_outcome_def settled_def deferred_def bounced_def quiet_def frames_of_def)
  show "dl_attempt_count del < MAX_ATTEMPTS"
  proof (rule ccontr)
    assume "\<not> dl_attempt_count del < MAX_ATTEMPTS"
    then have "MAX_ATTEMPTS \<le> dl_attempt_count del" by simp
    from exhausted_settled[OF this] obtain s r where "process_due X eph nonce t now del d = finish now del s r d" by blast
    then show False using assms by (simp add: frames_of_def)
  qed
qed

text \<open>
  C2: From an empty database on, in every state the running daemon can reach: row ids are unique, every
  row belongs to a stored message, no row has more than eight attempts; and when the pump takes an entry of
  its batch and a frame leaves, the row of that entry is at that moment still pending with attempts left,
  so a row another handler has settled meanwhile is not sent again.
\<close>

theorem daemon_invariant:
  assumes "(daemon_step X W)\<^sup>*\<^sup>* (d0, []) (d, q)" "dm_store d0 = store_empty fails"
  shows "distinct (map dl_id (st_deliveries (dm_store d))) \<and>
    (\<forall>r \<in> set (st_deliveries (dm_store d)). dl_message_id r \<in> live_ids (dm_store d) \<and> dl_attempt_count r \<le> MAX_ATTEMPTS) \<and>
    (\<forall>del q' eph nonce t now r. q = del # q' \<and> frames_of (process_due X eph nonce t now del d) \<noteq> frames_of d \<and>
       r \<in> set (st_deliveries (dm_store d)) \<and> dl_id r = dl_id del \<longrightarrow>
       dl_state r = Pending \<and> dl_attempt_count r < MAX_ATTEMPTS)"
proof -
  have "node_inv (d0, [])" using assms(2) by (simp add: node_inv_def attempts_ok_def) (simp add: store_empty_def)
  note n = daemon_steps_inv[OF assms(1) this]
  have "dl_state r = Pending \<and> dl_attempt_count r < MAX_ATTEMPTS"
    if "q = del # q'" "frames_of (process_due X eph nonce t now del d) \<noteq> frames_of d"
      "r \<in> set (st_deliveries (dm_store d))" "dl_id r = dl_id del" for del q' eph nonce t now r
  proof -
    have "batch_entry_ok (dm_store d) del" using n that(1) by (simp add: node_inv_def)
    then show ?thesis using frame_sent_dispatched(2)[OF that(2)] that(3,4) by (auto simp: batch_entry_ok_def)
  qed
  moreover have "distinct (map dl_id (st_deliveries (dm_store d)))"
    using n by (simp add: node_inv_def store_inv_def ids_ok_def strict_sorted_iff)
  moreover have "\<forall>r \<in> set (st_deliveries (dm_store d)). dl_message_id r \<in> live_ids (dm_store d) \<and> dl_attempt_count r \<le> MAX_ATTEMPTS"
    using n by (auto simp: node_inv_def store_inv_def refs_ok_def attempts_ok_def)
  ultimately show ?thesis by blast
qed

definition inbound_demo :: daemon where
  "inbound_demo = handle_inbound ext_demo (\<lambda>_. ''u'') 5 7 ''mqtt'' ''a'' ''al'' ''text'' ''hi'' None [] None (daemon_demo cfg_demo (store_empty no_fails))"

lemma inbound_demo_rows: "length (st_deliveries (dm_store inbound_demo)) = 2"
proof -
  let ?d = "daemon_demo cfg_demo (store_empty no_fails)"
  have g: "\<not> inbound_duplicate ext_demo 5 ''mqtt'' ''a'' ''al'' ''hi'' None [] ?d" "\<not> inbound_limited 5 ''mqtt'' ''al'' ''hi'' [] ?d"
    by (simp_all add: inbound_duplicate_def is_duplicate_def dedup_new_def dedup_prune_def Let_def
        inbound_limited_def sender_allow_def daemon_demo_def sender_limiter_new_def cfg_demo_def)
  have e: "\<not> is_link_code (trim_chars ''hi'')" unfolding is_link_code_def by code_simp
  have r: "route (cf_routes (dm_cfg ?d)) \<lparr>ep_protocol = ''mqtt'', ep_endpoint = ''a''\<rparr> =
      [(''demo'', mk_ep ''lora'' ''x''), (''demo'', mk_ep ''lora'' ''y'')]"
    by (simp add: route_def daemon_demo_def cfg_demo_def mk_route_def mk_ep_def)
  have "\<exists>hs d1. inbound_demo = accept_inbound ext_demo (\<lambda>_. ''u'') 7 \<lparr>ep_protocol = ''mqtt'', ep_endpoint = ''a''\<rparr> ''al'' ''text'' ''hi'' None hs None
      [(''demo'', mk_ep ''lora'' ''x''), (''demo'', mk_ep ''lora'' ''y'')] (dm_cfg ?d) d1 \<and> dm_store d1 = store_empty no_fails"
    unfolding inbound_demo_def handle_inbound_cases(3)[OF refl refl g]
    using e by (simp add: route_inbound_def r Let_def) (intro exI conjI, rule refl, simp add: daemon_demo_def)
  then obtain hs d1 where a: "inbound_demo = accept_inbound ext_demo (\<lambda>_. ''u'') 7 \<lparr>ep_protocol = ''mqtt'', ep_endpoint = ''a''\<rparr> ''al'' ''text'' ''hi'' None hs None
      [(''demo'', mk_ep ''lora'' ''x''), (''demo'', mk_ep ''lora'' ''y'')] (dm_cfg ?d) d1" "dm_store d1 = store_empty no_fails" by blast
  have "sql_ok (dm_store d1)" "(\<lambda>_. ''u'') (0::nat) \<notin> live_ids (dm_store d1)"
    by (simp_all add: a(2) store_empty_def sql_ok_def no_fails_def live_ids_def)
  from accept_inbound_rows[OF this a(1)] show ?thesis by (auto simp: a(2) store_empty_def dest!: list_all2_lengthD)
qed

theorem daemon_invariant_witness:
  "length (st_deliveries (dm_store inbound_demo)) = 2 \<and>
   list_all (\<lambda>r. dl_message_id r \<in> live_ids (dm_store inbound_demo) \<and> dl_attempt_count r \<le> MAX_ATTEMPTS) (st_deliveries (dm_store inbound_demo))"
proof -
  have run: "(daemon_step ext_demo wire_demo)\<^sup>*\<^sup>* (daemon_demo cfg_demo (store_empty no_fails), []) (inbound_demo, [])"
    unfolding inbound_demo_def by (rule r_into_rtranclp, rule daemon_step.inbound)
  have "dm_store (daemon_demo cfg_demo (store_empty no_fails)) = store_empty no_fails" by (simp add: daemon_demo_def)
  from daemon_invariant[OF run this] show ?thesis using inbound_demo_rows by (simp add: list_all_iff)
qed

subsection \<open>The pump works off the backlog\<close>

definition backlogged :: "datetime \<Rightarrow> delivery \<Rightarrow> bool" where
  "backlogged now r \<longleftrightarrow> (dl_state r = Pending \<or> stale (now - csecs 60) r) \<and> dl_next_attempt r \<le> now"

definition backlog :: "datetime \<Rightarrow> store \<Rightarrow> delivery list" where
  "backlog now st = filter (backlogged now) (st_deliveries st)"

lemma backlog_update:
  assumes "\<And>r. P r \<Longrightarrow> dl_id r = i \<and> \<not> backlogged now (f r)" "\<And>r. backlogged now r \<Longrightarrow> dl_id r = i \<Longrightarrow> P r"
  shows "backlog now (update_deliveries P f st) = filter (\<lambda>r. dl_id r \<noteq> i) (backlog now st)"
proof -
  have "filter (backlogged now) (map (\<lambda>d. if P d then f d else d) xs) = filter (\<lambda>r. dl_id r \<noteq> i) (filter (backlogged now) xs)" for xs
  proof (induction xs)
    case (Cons x xs) then show ?case using assms(1)[of x] assms(2)[of x] by (cases "P x") auto
  qed simp
  then show ?thesis by (simp add: backlog_def update_deliveries_def)
qed

lemma backlog_marks:
  assumes "sql_ok st"
  shows "terminal s \<Longrightarrow> backlog now (snd (mark_terminal now i s reason st)) = filter (\<lambda>r. dl_id r \<noteq> i) (backlog now st)"
    and "0 < w \<Longrightarrow> backlog now (snd (mark_retry now i (now + csecs w) st)) = filter (\<lambda>r. dl_id r \<noteq> i) (backlog now st)"
    and "backlog now (snd (mark_attempting now i st)) = filter (\<lambda>r. dl_id r \<noteq> i) (backlog now st)"
  using assms
  by (auto simp: sql_ok_def mark_terminal_def mark_retry_def mark_attempting_def backlogged_def stale_def in_flight_def terminal_def csecs_def
      intro!: backlog_update)

lemma process_due_backlog:
  assumes "sql_ok (dm_store d)"
  shows "backlog now (dm_store (process_due X eph nonce t now del d)) = filter (\<lambda>r. dl_id r \<noteq> dl_id del) (backlog now (dm_store d))"
    "sql_ok (dm_store (process_due X eph nonce t now del d))"
proof -
  note c = process_due_cases[of now del d X eph nonce t, unfolded due_outcome_def settled_def deferred_def dispatched_def bounced_def]
  have a: "sql_ok (snd (mark_attempting now (dl_id del) (dm_store d)))" using assms by (simp add: sql_ok_def attempting.upd_frame)
  show "backlog now (dm_store (process_due X eph nonce t now del d)) = filter (\<lambda>r. dl_id r \<noteq> dl_id del) (backlog now (dm_store d))"
    using c assms a by (elim disjE exE conjE bexE) (auto simp: backlog_marks)
  show "sql_ok (dm_store (process_due X eph nonce t now del d))"
    using c assms by (elim disjE exE conjE bexE) (auto simp: sql_ok_def attempting.upd_frame retry.upd_frame settle.upd_frame)
qed

lemma process_all_backlog:
  "sql_ok (dm_store d) \<Longrightarrow> store_inv (dm_store d) \<Longrightarrow>
   backlog now (dm_store (process_all X rand t now k dels d)) = filter (\<lambda>r. dl_id r \<notin> dl_id ` set dels) (backlog now (dm_store d)) \<and>
   sql_ok (dm_store (process_all X rand t now k dels d)) \<and> store_inv (dm_store (process_all X rand t now k dels d))"
proof (induction dels arbitrary: k d)
  case (Cons del dels)
  let ?d1 = "process_due X (fst (rand k)) (snd (rand k)) t now del d"
  note IH = Cons.IH[OF process_due_backlog(2)[OF Cons.prems(1)] touches_store_inv[OF process_due_touches Cons.prems(2)]]
  then show ?case using process_due_backlog(1)[OF Cons.prems(1)] by (auto simp: conj_commute)
qed (simp add: backlog_def)

lemma reclaim_backlog:
  assumes "sql_ok st" and st1_def: "st1 = snd (reclaim_stale (now - csecs 60) st)"
  shows "length (backlog now st1) = length (backlog now st)"
    "backlog now st1 = filter (\<lambda>d. dl_state d = Pending \<and> dl_next_attempt d \<le> now) (st_deliveries st1)" "sql_ok st1"
proof -
  let ?g = "\<lambda>d. if stale (now - csecs 60) d then d\<lparr>dl_state := Pending\<rparr> else d"
  have rows: "st_deliveries st1 = map ?g (st_deliveries st)"
    using assms(1) by (simp add: st1_def sql_ok_def reclaim_stale_def update_deliveries_def)
  have "length (filter (backlogged now) (map ?g xs)) = length (filter (backlogged now) xs)" for xs
    by (induction xs) (auto simp: backlogged_def stale_def)
  then show "length (backlog now st1) = length (backlog now st)" by (simp add: backlog_def rows)
  show "backlog now st1 = filter (\<lambda>d. dl_state d = Pending \<and> dl_next_attempt d \<le> now) (st_deliveries st1)"
    by (auto simp: backlog_def rows backlogged_def stale_def intro!: filter_cong)
  show "sql_ok st1" using assms(1) by (simp add: st1_def sql_ok_def reclaim.upd_frame)
qed

lemma take_sorted_rest:
  assumes "distinct (map f xs)"
  shows "length (filter (\<lambda>x. f x \<notin> f ` set (take n (sort_key k xs))) xs) = length xs - n"
proof -
  let ?s = "sort_key k xs"
  have d: "distinct (map f (take n ?s @ drop n ?s))" using assms by (simp add: distinct_map)
  have "length (filter (\<lambda>x. f x \<notin> f ` set (take n ?s)) xs) = length (filter (\<lambda>x. f x \<notin> f ` set (take n ?s)) ?s)"
    by (metis filter_sort length_sort)
  also have "\<dots> = length (filter (\<lambda>x. f x \<notin> f ` set (take n ?s)) (take n ?s @ drop n ?s))" by simp
  also have "\<dots> = length (drop n ?s)"
  proof -
    have "filter (\<lambda>x. f x \<notin> f ` set (take n ?s)) (take n ?s) = []" by (simp add: filter_empty_conv)
    moreover have "filter (\<lambda>x. f x \<notin> f ` set (take n ?s)) (drop n ?s) = drop n ?s"
      using d unfolding map_append distinct_append filter_id_conv by fastforce
    ultimately show ?thesis unfolding filter_append by (simp only: append_Nil)
  qed
  finally show ?thesis by simp
qed

text \<open>A number of rounds of the pump at the same wall-clock time, each with its own randomness and monotonic time.\<close>

fun pump_rounds :: "ext \<Rightarrow> datetime \<Rightarrow> ((nat \<Rightarrow> bytes \<times> bytes) \<times> instant) list \<Rightarrow> instant \<Rightarrow> daemon \<Rightarrow> daemon" where
  "pump_rounds X now [] last_purge d = d"
| "pump_rounds X now ((rand, t) # rounds) last_purge d =
     (case pump_pass X rand t now last_purge d of (lp, d1) \<Rightarrow> pump_rounds X now rounds lp d1)"

lemma purge_backlog: "backlog now (dm_store (pump_purge now d)) = backlog now (dm_store d)"
proof -
  obtain older where "st_deliveries (dm_store (pump_purge now d)) = st_deliveries (snd (purge_terminal older (dm_store d)))"
    using pump_purge_store[of d now] by blast
  then show ?thesis
    by (auto simp: backlog_def purge_terminal_snd delete_deliveries_def backlogged_def stale_def terminal_def intro!: filter_cong)
qed

lemma prune_orphans_fails [simp]: "sql_fails (snd (prune_orphans st)) = sql_fails st"
  by (simp add: prune_orphans_def Let_def)

lemma purge_sql_ok: "sql_ok (dm_store d) \<Longrightarrow> sql_ok (dm_store (pump_purge now d))"
  by (auto simp: pump_purge_def sql_ok_def Let_def on_store_eq case_prod_unfold purge_terminal_snd delete_deliveries_def
      purge_expired_adverts_def purge_expired_challenges_def split: sum.split)

lemma pump_pass_backlog:
  assumes ok: "sql_ok (dm_store d)" and inv: "store_inv (dm_store d)" and p: "pump_pass X rand t now lp d = (lp', d')"
  shows "length (backlog now (dm_store d')) = length (backlog now (dm_store d)) - 32 \<and> sql_ok (dm_store d') \<and> store_inv (dm_store d')"
proof -
  define d1 where "d1 = do_store (reclaim_stale (now - csecs 60)) d"
  define due where "due = take 32 (sort_key (\<lambda>d. (dl_priority d, dl_next_attempt d)) (backlog now (dm_store d1)))"
  define d2 where "d2 = process_all X rand t now 0 due d1"
  have s1: "dm_store d1 = snd (reclaim_stale (now - csecs 60) (dm_store d))" by (simp add: d1_def)
  note r = reclaim_backlog[OF ok s1]
  have inv1: "store_inv (dm_store d1)" using store_step_inv[OF s_reclaim inv] by (simp add: s1)
  have "due_deliveries now 32 (dm_store d1) = Inr due" using r(2,3) by (simp add: due_deliveries_def due_def sql_ok_def)
  then have d': "d' = d2 \<or> d' = pump_purge now d2" using p by (auto simp: pump_pass_def Let_def d1_def[symmetric] d2_def split: if_splits)
  note b = process_all_backlog[OF r(3) inv1, of now X rand t 0 due, folded d2_def]
  have "distinct (map dl_id (backlog now (dm_store d1)))"
    using inv1 by (simp add: backlog_def store_inv_def ids_ok_def strict_sorted_iff distinct_map_filter)
  from take_sorted_rest[OF this] have "length (backlog now (dm_store d2)) = length (backlog now (dm_store d)) - 32"
    using b r(1) by (simp add: due_def)
  then show ?thesis using d' b purge_backlog[of now d2] purge_sql_ok[of d2 now] pump_purge_inv[of d2 now] by auto
qed



end
