(* ===== verification/Attachment_Gc.thy ===== *)
theory Attachment_Gc
  imports Daemon_Safety
begin

text \<open>
  Attachments and the removal of unused blobs. \<open>handle_inbound\<close> writes the blobs of a message before
  it takes the lock of the database and writes the rows that refer to them; the retention purge of the
  pump and the purge of the operator remove unreferenced blobs under that lock. This theory shows what
  happens when such a purge runs between the two parts of \<open>handle_inbound\<close>.
\<close>

lemma cas_remove_fails [simp]: "cs_fails (snd (cas_remove sha c)) = cs_fails c"
  by (simp add: cas_remove_def path_for_def split: option.split)

lemma cas_remove_stays_gone: "map_of (cs_blobs c) k = None \<Longrightarrow> map_of (cs_blobs (cas_remove_all shas c)) k = None"
proof (induction shas arbitrary: c)
  case (Cons s shas)
  have "map_of (cs_blobs (snd (cas_remove s c))) k = None"
    using Cons.prems cas_remove_other[of k s c] by (cases "k = s") (simp_all add: cas_remove_def path_for_def split: option.split)
  then show ?case using Cons.IH by simp
qed simp

lemma cas_remove_all_gone:
  "sha \<in> set shas \<Longrightarrow> is_valid_sha sha \<Longrightarrow> \<forall>f. \<not> cs_fails c f \<Longrightarrow> map_of (cs_blobs (cas_remove_all shas c)) sha = None"
proof (induction shas arbitrary: c)
  case (Cons s shas)
  show ?case
  proof (cases "s = sha")
    case True
    have "map_of (cs_blobs (snd (cas_remove s c))) sha = None"
      using Cons.prems(2,3) True by (auto simp: cas_remove_def path_for_def split: option.split)
    then show ?thesis by (simp add: cas_remove_stays_gone)
  next
    case False then show ?thesis using Cons by simp
  qed
qed simp

lemma fan_one_tables [simp]:
  "st_attachments (dm_store (fan_one now mid ex rank tgt rm gm d)) = st_attachments (dm_store d)"
  "sql_fails (dm_store (fan_one now mid ex rank tgt rm gm d)) = sql_fails (dm_store d)"
  by (simp_all add: fan_one_store insert_dead_delivery_def insert_delivery_def)

lemma fan_out_tables:
  "st_attachments (dm_store (snd (fan_out_deliveries now mid ex rank targets rm gm d))) = st_attachments (dm_store d)"
  "sql_fails (dm_store (snd (fan_out_deliveries now mid ex rank targets rm gm d))) = sql_fails (dm_store d)"
  by (induction targets arbitrary: d) (simp_all add: fan_out_rec del: fan_out_deliveries.simps)

lemma cas_remove_all_fails [simp]: "cs_fails (cas_remove_all shas c) = cs_fails c"
  by (induction shas arbitrary: c) simp_all

lemma purge_live_ids: "live_ids (dm_store (pump_purge now d)) \<subseteq> live_ids (dm_store d)"
proof -
  obtain older where "st_messages (dm_store (pump_purge now d)) = st_messages (snd (purge_terminal older (dm_store d)))"
    using pump_purge_store[of d now] by blast
  then show ?thesis by (auto simp: live_ids_def purge_terminal_snd prune_orphans_def delete_deliveries_def Let_def)
qed

text \<open>What the second part of \<open>handle_inbound\<close> leaves behind.\<close>

lemma commit_inbound_result:
  assumes ok: "sql_ok (dm_store d)" and fr: "fresh 0 \<notin> live_ids (dm_store d)"
    and d': "d' = commit_inbound fresh now src sender kind body ca prio metas shas targets cfg d"
  shows "dm_cas d' = dm_cas d" "set (map (Pair (fresh 0)) shas) \<subseteq> set (st_attachments (dm_store d'))"
    "\<exists>env. get_message (fresh 0) (dm_store d') = Ok (Some env) \<and> env_attachments env = metas" "sql_ok (dm_store d')"
proof -
  define env where "env = inbound_env fresh now src sender kind body ca prio cfg metas"
  define d2 where "d2 = d\<lparr>dm_store := snd (insert_message env (dm_store d))\<rparr>"
  define d3 where "d3 = do_store (insert_attachment_refs (fresh 0) shas) d2"
  have e: "env_id env = fresh 0" "env_attachments env = metas" by (simp_all add: env_def inbound_env_def envelope_new_def)
  have im: "insert_message env (dm_store d) = (Ok (), (dm_store d)\<lparr>st_messages := st_messages (dm_store d) @
      [\<lparr>mr_id = fresh 0, mr_envelope = Some env, mr_created_at = env_created_at env\<rparr>]\<rparr>)"
    using ok fr by (simp add: insert_message_def sql_ok_def live_ids_def e)
  let ?fo = "fan_out_deliveries now (env_id env) (env_expires_at env) (priority_rank (env_priority env)) targets
            (lim_route_queue_max (cf_limits cfg)) (lim_global_queue_max (cf_limits cfg)) d3"
  have c: "dm_cas d' = dm_cas (snd ?fo)" "dm_store d' = dm_store (snd ?fo)"
    unfolding d' commit_inbound_def Let_def on_store_eq env_def[unfolded inbound_env_def, symmetric]
    using im by (simp_all add: d3_def d2_def e case_prod_unfold)
  have ok2: "sql_ok (dm_store d2)" using ok by (simp add: d2_def im sql_ok_def)
  have s3: "dm_store d3 = (dm_store d)\<lparr>st_messages := st_messages (dm_store d) @
      [\<lparr>mr_id = fresh 0, mr_envelope = Some env, mr_created_at = env_created_at env\<rparr>],
      st_attachments := st_attachments (dm_store d) @ map (Pair (fresh 0)) shas\<rparr>"
    using insert_refs_ok[OF ok2] by (simp add: d3_def) (simp add: d2_def im)
  show "dm_cas d' = dm_cas d" by (simp add: c d3_def d2_def)
  show "set (map (Pair (fresh 0)) shas) \<subseteq> set (st_attachments (dm_store d'))" by (simp add: c fan_out_tables s3)
  have ok3: "sql_ok (dm_store d3)" "fresh 0 \<in> live_ids (dm_store d3)" using ok by (simp_all add: s3 sql_ok_def live_ids_def)
  show okd: "sql_ok (dm_store d')" using ok3(1) by (simp add: c e fan_out_tables sql_ok_def)
  have "st_messages (dm_store d') = st_messages (dm_store d3)"
    using fan_out_rows[OF ok3] unfolding c(2) e(1) by blast
  moreover have "find (\<lambda>r. mr_id r = fresh 0) (st_messages (dm_store d) @ [x]) = Some x" if "mr_id x = fresh 0" for x
  proof -
    have "find (\<lambda>r. mr_id r = fresh 0) (st_messages (dm_store d)) = None" using fr by (simp only: find_key_None live_ids_def) simp
    then show ?thesis using that by (simp add: find_append)
  qed
  ultimately have "get_message (fresh 0) (dm_store d') = Ok (Some env)" using okd by (simp add: get_message_def sql_ok_def s3)
  then show "\<exists>env. get_message (fresh 0) (dm_store d') = Ok (Some env) \<and> env_attachments env = metas" using e by blast
qed

text \<open>The first part finds content that is already stored and leaves the blob store as it is.\<close>

lemma put_again:
  assumes "sha = hex_encode (x_sha256 X (ia_data a))" "cas_get X sha c0 = Ok (ia_data a)" "length (ia_data a) \<le> limit"
    and "store_attachments X limit (hash_attachments X limit [a]) c0 = ((metas, shas, notes), c)"
  shows "map am_sha256 metas = [sha]" "shas = [sha]" "c = c0" "notes = []"
proof -
  have "sha \<in> fst ` set (cs_blobs c0)"
    using assms(2) by (auto simp: cas_get_def path_for_def split: if_splits option.splits dest: map_of_SomeD intro: rev_image_eqI)
  then have put: "cas_put X (ia_data a) c0 = (Ok sha, c0)" by (simp add: cas_put_def assms(1) Let_def)
  show "map am_sha256 metas = [sha]" "shas = [sha]" "c = c0" "notes = []"
    using assms(3,4) by (auto simp: hash_attachments_def put)
qed

text \<open>
  The removal of unused blobs races with ingress. Suppose a blob is stored, and the purge that is due
  finds no live message referring to it. A new message that carries the same content finds the blob in place
  and writes nothing; if the purge runs before the rows of the message are committed, it removes the blob, and
  the message is then stored with an attachment reference to content the store no longer has.
\<close>

theorem attachment_gc_race:
  assumes "sql_ok (dm_store d)" "fresh 0 \<notin> live_ids (dm_store d)" "\<forall>f. \<not> cs_fails (dm_cas d) f"
    and "sha = hex_encode (x_sha256 X (ia_data a))" "length (x_sha256 X (ia_data a)) = 32" "cas_get X sha (dm_cas d) = Ok (ia_data a)"
    and "length (ia_data a) \<le> limit"
    and "purge_terminal (now - csecs (as_i64 (cf_retention_secs (dm_cfg d)))) (dm_store d) = (Ok (n, orphans), st1)" "sha \<in> set orphans"
    and "store_attachments X limit (hash_attachments X limit [a]) (dm_cas d) = ((metas, shas, notes), c)"
    and "d' = commit_inbound fresh now' src sender kind (body @ notes) ca prio metas shas targets cfg (pump_purge now (d\<lparr>dm_cas := c\<rparr>))"
  shows "(\<exists>env. get_message (fresh 0) (dm_store d') = Ok (Some env) \<and> map am_sha256 (env_attachments env) = [sha]) \<and>
    has_attachment_ref (fresh 0) sha (dm_store d') = Ok True \<and> cas_get X sha (dm_cas d') = Err NotFound"
proof -
  let ?p = "pump_purge now (d\<lparr>dm_cas := c\<rparr>)"
  have v: "is_valid_sha sha" using hex_encode_valid_sha[OF assms(5)] by (simp add: assms(4))
  note st = put_again[OF assms(4,6,7,10)]
  have cas: "dm_cas ?p = cas_remove_all orphans (dm_cas d)"
    using assms(8) by (simp add: pump_purge_def Let_def on_store_eq st(3))
  have gone: "map_of (cs_blobs (dm_cas ?p)) sha = None" unfolding cas by (rule cas_remove_all_gone[OF assms(9) v assms(3)])
  have ok: "sql_ok (dm_store ?p)" using purge_sql_ok[of "d\<lparr>dm_cas := c\<rparr>"] assms(1) by simp
  have fr: "fresh 0 \<notin> live_ids (dm_store ?p)" using purge_live_ids[of now "d\<lparr>dm_cas := c\<rparr>"] assms(2) by auto
  note r = commit_inbound_result[OF ok fr assms(11)]
  have "cs_fails (dm_cas ?p) = cs_fails (dm_cas d)" by (simp add: cas)
  then have "cas_get X sha (dm_cas d') = Err NotFound" using gone v assms(3) by (simp add: r(1) cas_get_def path_for_def)
  moreover have "has_attachment_ref (fresh 0) sha (dm_store d') = Ok True"
    using r(2,4) by (auto simp: has_attachment_ref_def sql_ok_def st(2) filter_empty_conv)
  ultimately show ?thesis using r(3) st(1) by auto
qed

text \<open>
  A message delivered long ago carried a photo; the same photo arrives again while the purge is due.
\<close>

definition photo :: ipc_attachment where
  "photo = \<lparr>ia_filename = ''p.jpg'', ia_mime = ''image/jpeg'', ia_data = ''photo''\<rparr>"

definition photo_sha :: string where
  "photo_sha = hex_encode (x_sha256 ext_demo ''photo'')"

definition daemon_photo :: daemon where
  "daemon_photo = (daemon_demo cfg_demo (store_done\<lparr>st_attachments := [(''id-1'', photo_sha)]\<rparr>))
     \<lparr>dm_cas := snd (cas_put ext_demo ''photo'' (cas_new [] 100 no_fs_fails))\<rparr>"

theorem attachment_gc_race_witness:
  "\<exists>c d'. store_attachments ext_demo 10 (hash_attachments ext_demo 10 [photo]) (dm_cas daemon_photo) = c \<and>
     d' = commit_inbound (\<lambda>_. ''id-2'') (csecs 900000) (mk_ep ''mqtt'' ''a'') ''al'' ''text'' ''hi'' None None (fst (fst c)) (fst (snd (fst c)))
       [(''demo'', mk_ep ''lora'' ''x'')] cfg_demo (pump_purge (csecs 900000) (daemon_photo\<lparr>dm_cas := snd c\<rparr>)) \<and>
     cas_get ext_demo photo_sha (dm_cas daemon_photo) = Ok ''photo'' \<and>
     has_attachment_ref ''id-2'' photo_sha (dm_store d') = Ok True \<and> cas_get ext_demo photo_sha (dm_cas d') = Err NotFound"
proof -
  let ?now = "csecs 900000" and ?put = "cas_put ext_demo ''photo'' (cas_new [] 100 no_fs_fails)"
  let ?blobs = "[(photo_sha, ''photo'')]"
  have put: "fst ?put = Ok photo_sha" "cs_blobs (snd ?put) = ?blobs" "cs_fails (snd ?put) = no_fs_fails"
    by (simp_all add: cas_put_def cas_new_def existing_bytes_def no_fs_fails_def Let_def photo_sha_def)
  have len: "length (x_sha256 ext_demo (ia_data photo)) = 32" by (simp add: ext_demo_def)
  have sha: "photo_sha = hex_encode (x_sha256 ext_demo (ia_data photo))" by (simp add: photo_sha_def photo_def)
  have v: "is_valid_sha photo_sha" using hex_encode_valid_sha[OF len] by (simp add: sha)
  have c: "dm_cas daemon_photo = snd ?put" "dm_cfg daemon_photo = cfg_demo"
    "dm_store daemon_photo = store_done\<lparr>st_attachments := [(''id-1'', photo_sha)]\<rparr>"
    by (simp_all add: daemon_photo_def) (simp_all add: daemon_demo_def)
  have get: "cas_get ext_demo photo_sha (dm_cas daemon_photo) = Ok (ia_data photo)"
    using v sha by (simp add: c put(2,3) cas_get_def path_for_def no_fs_fails_def photo_def)
  have fs: "\<forall>f. \<not> cs_fails (dm_cas daemon_photo) f" by (simp add: c put(3) no_fs_fails_def)
  have ok: "sql_ok (dm_store daemon_photo)" "(\<lambda>_. ''id-2'') (0::nat) \<notin> live_ids (dm_store daemon_photo)"
    using store_done_tables(1) by (simp_all add: c sql_ok_def live_ids_def store_done_tables no_fails_def)
  have purge: "\<exists>n st1. purge_terminal (?now - csecs (as_i64 (cf_retention_secs (dm_cfg daemon_photo)))) (dm_store daemon_photo) = (Ok (n, [photo_sha]), st1)"
    by (simp add: c purge_terminal_def delete_deliveries_def prune_orphans_def store_done_rows store_done_tables no_fails_def Let_def live_ids_def
        cfg_demo_def as_i64_def csecs_def terminal_def)
  then obtain n st1 where purge: "purge_terminal (?now - csecs (as_i64 (cf_retention_secs (dm_cfg daemon_photo)))) (dm_store daemon_photo) = (Ok (n, [photo_sha]), st1)" by blast
  obtain metas shas nts cas where sa: "store_attachments ext_demo 10 (hash_attachments ext_demo 10 [photo]) (dm_cas daemon_photo) = ((metas, shas, nts), cas)"
    by (metis surj_pair)
  have n: "nts = []" using put_again[OF sha get _ sa] by (simp add: photo_def)
  have small: "length (ia_data photo) \<le> 10" and orph: "photo_sha \<in> set [photo_sha]" by (simp_all add: photo_def)
  have h: "''hi'' @ nts = ''hi''" by (simp add: n)
  note race = attachment_gc_race[OF ok fs sha len get small purge orph sa refl, of ?now "mk_ep ''mqtt'' ''a''" "''al''" "''text''" "''hi''" None None
        "[(''demo'', mk_ep ''lora'' ''x'')]" cfg_demo, unfolded h]
  show ?thesis by (intro exI conjI, rule sa, rule refl) (use race get in \<open>simp_all add: photo_def\<close>)
qed

end
