(* ===== verification/Plugin_Conn.thy ===== *)
theory Plugin_Conn
  imports Daemon_Sys
begin

text \<open>
  Plugin connections and supervision (\<open>src/switchyardd/src/plugins.rs\<close>): the gate on the credentials of a
  connecting process, the handshake, the registration of the connection, the frame loop, the teardown, the
  writer and heartbeat tasks, the liveness rule, the environment of a plugin process and the restart
  ladder. Sockets, process groups and signals are the operating system's: a connection is the sequence of
  what its reads return, a channel answers as the function in its handle says.
\<close>

definition PLUGIN_PING_INTERVAL :: duration where "PLUGIN_PING_INTERVAL = secs 20"
definition LIVENESS_TIMEOUT :: duration where "LIVENESS_TIMEOUT = secs 90"
definition LIVENESS_POLL :: duration where "LIVENESS_POLL = secs 15"
definition CONNECT_TIMEOUT :: duration where "CONNECT_TIMEOUT = secs 60"
definition HELLO_TIMEOUT :: duration where "HELLO_TIMEOUT = secs 10"
definition PROTOCOL_VERSION :: nat where "PROTOCOL_VERSION = 1"

datatype plugin_error =
    RefusedUid nat string
  | HelloTimedOut
  | FirstFrameNotHello
  | HelloRefused string string
  | FrameTimedOut
  | PluginIo

subsection \<open>Opening a connection\<close>

definition uid_ok :: "config \<Rightarrow> nat \<Rightarrow> string \<Rightarrow> nat \<Rightarrow> bool" where
  "uid_ok cfg euid bound_plugin uid =
     (case Option.bind (map_of (cf_plugins cfg) bound_plugin) pc_peer_uid of
        Some expected \<Rightarrow> uid = expected
      | None \<Rightarrow> uid = euid)"

definition plugin_enabled :: "config \<Rightarrow> string \<Rightarrow> bool" where
  "plugin_enabled cfg name = (case map_of (cf_plugins cfg) name of Some p \<Rightarrow> pc_enabled p | None \<Rightarrow> False)"

definition hello_error :: "config \<Rightarrow> string \<Rightarrow> string \<Rightarrow> nat \<Rightarrow> string option" where
  "hello_error cfg bound_plugin plugin version =
     (let name_ok = plugin = bound_plugin;
          allowed = name_ok \<and> plugin_enabled cfg plugin
      in if \<not> allowed \<or> version \<noteq> PROTOCOL_VERSION then
           Some (if \<not> name_ok then ''plugin name does not match socket''
                 else if \<not> allowed then ''unknown plugin''
                 else ''unsupported protocol version'')
         else None)"

definition install_plugin ::
  "instant \<Rightarrow> datetime \<Rightarrow> nat \<Rightarrow> (daemon_to_plugin \<Rightarrow> send_result) \<Rightarrow> string \<Rightarrow> capabilities \<Rightarrow> daemon \<Rightarrow> daemon" where
  "install_plugin t now conn_id tx plugin caps d =
     emit_event (EvPlugin plugin True now)
       (d\<lparr>dm_plugins := alist_put plugin
            \<lparr>ph_tx = tx, ph_capabilities = caps, ph_connected = True, ph_conn_id = conn_id, ph_last_seen = t\<rparr>
            (dm_plugins d)\<rparr>)"

text \<open>
  The start of \<open>handle_conn\<close>: \<open>hello\<close> is what the first read returns (\<open>None\<close> on the deadline), \<open>ack_ok\<close>
  whether the acknowledgement could be written. The result is the plugin the connection serves, and
  the acknowledgement that was sent.
\<close>

definition open_conn ::
  "nat \<Rightarrow> instant \<Rightarrow> datetime \<Rightarrow> nat \<Rightarrow> (daemon_to_plugin \<Rightarrow> send_result) \<Rightarrow> string \<Rightarrow> nat \<Rightarrow> (plugin_error + plugin_to_daemon) option \<Rightarrow>
   bool \<Rightarrow> daemon \<Rightarrow> (plugin_error + string) \<times> daemon_to_plugin list \<times> daemon" where
  "open_conn euid t now conn_id tx bound_plugin uid hello ack_ok d =
     (if \<not> uid_ok (dm_cfg d) euid bound_plugin uid then (Err (RefusedUid uid bound_plugin), [], d)
      else case hello of
        None \<Rightarrow> (Err HelloTimedOut, [], d)
      | Some (Inl e) \<Rightarrow> (Err e, [], d)
      | Some (Inr (Hello plugin pversion version caps)) \<Rightarrow>
          (case hello_error (dm_cfg d) bound_plugin plugin version of
             Some err \<Rightarrow>
               if ack_ok then (Err (HelloRefused plugin err), [HelloAck PROTOCOL_VERSION (Some err)], d)
               else (Err PluginIo, [], d)
           | None \<Rightarrow>
               if ack_ok then (Ok plugin, [HelloAck PROTOCOL_VERSION None], install_plugin t now conn_id tx plugin caps d)
               else (Err PluginIo, [], d))
      | Some (Inr _) \<Rightarrow> (Err FirstFrameNotHello, [], d))"

subsection \<open>The frame loop\<close>

definition refresh_seen :: "instant \<Rightarrow> string \<Rightarrow> nat \<Rightarrow> daemon \<Rightarrow> daemon" where
  "refresh_seen t plugin conn_id d =
     (case map_of (dm_plugins d) plugin of
        Some h \<Rightarrow> if ph_conn_id h = conn_id then d\<lparr>dm_plugins := alist_put plugin (h\<lparr>ph_last_seen := t\<rparr>) (dm_plugins d)\<rparr> else d
      | None \<Rightarrow> d)"

definition plugin_frame ::
  "ext \<Rightarrow> (nat \<Rightarrow> uuid) \<Rightarrow> instant \<Rightarrow> datetime \<Rightarrow> string \<Rightarrow> nat \<Rightarrow> plugin_to_daemon \<Rightarrow> daemon \<Rightarrow> daemon" where
  "plugin_frame X fresh t now plugin conn_id f d0 =
     (let d = refresh_seen t plugin conn_id d0 in
      case f of
        Inbound ep sender kind body created_at atts prio \<Rightarrow>
          handle_inbound X fresh t now plugin ep sender kind body created_at atts prio d
      | DeliveryResult corr delivered detail \<Rightarrow> handle_result now plugin corr delivered d
      | Gauges gauges \<Rightarrow> d\<lparr>dm_gauges := gauges_record t plugin gauges (dm_gauges d)\<rparr>
      | Pong \<Rightarrow> d
      | Hello _ _ _ _ \<Rightarrow> d
      | UnknownP2D \<Rightarrow> d)"

definition close_conn :: "datetime \<Rightarrow> string \<Rightarrow> nat \<Rightarrow> daemon \<Rightarrow> daemon" where
  "close_conn now plugin conn_id d =
     (case map_of (dm_plugins d) plugin of
        Some h \<Rightarrow>
          if ph_conn_id h = conn_id then
            emit_event (EvPlugin plugin False now)
              (d\<lparr>dm_plugins := alist_put plugin (h\<lparr>ph_connected := False\<rparr>) (dm_plugins d)\<rparr>)
          else d
      | None \<Rightarrow> d)"

text \<open>
  What the reads of a connection return, with the fresh identifiers and clock readings of each turn; no
  frame within \<open>LIVENESS_TIMEOUT\<close> reads as \<open>FrameTimedOut\<close>. An exhausted list is a connection still waiting.
\<close>

fun plugin_loop ::
  "ext \<Rightarrow> string \<Rightarrow> nat \<Rightarrow> ((nat \<Rightarrow> uuid) \<times> instant \<times> datetime \<times> (plugin_error + plugin_to_daemon)) list \<Rightarrow> daemon \<Rightarrow>
   plugin_error option \<times> daemon" where
  "plugin_loop X plugin conn_id [] d = (None, d)"
| "plugin_loop X plugin conn_id ((fresh, t, now, Inr f) # reads) d =
     plugin_loop X plugin conn_id reads (plugin_frame X fresh t now plugin conn_id f d)"
| "plugin_loop X plugin conn_id ((fresh, t, now, Inl e) # reads) d = (Some e, close_conn now plugin conn_id d)"

text \<open>The writer task: an oversize frame is dropped, any other failure ends the task.\<close>

datatype write_result = Written | TooLarge | WriteFailed

fun plugin_writer :: "(daemon_to_plugin \<Rightarrow> write_result) \<Rightarrow> daemon_to_plugin list \<Rightarrow> daemon_to_plugin list" where
  "plugin_writer w [] = []"
| "plugin_writer w (m # ms) =
     (case w m of
        Written \<Rightarrow> m # plugin_writer w ms
      | TooLarge \<Rightarrow> plugin_writer w ms
      | WriteFailed \<Rightarrow> [])"

definition heartbeat_tick :: "string \<Rightarrow> plugin_handle \<Rightarrow> daemon \<Rightarrow> bool \<times> daemon" where
  "heartbeat_tick plugin h d = (case plugin_send plugin h Ping d of (r, d1) \<Rightarrow> (r \<noteq> SendClosed, d1))"

subsection \<open>Supervision\<close>

definition is_wedged :: "bool \<Rightarrow> duration \<Rightarrow> duration \<Rightarrow> bool" where
  "is_wedged connected since_last_seen since_spawn =
     (if connected then since_last_seen > LIVENESS_TIMEOUT
      else since_spawn > CONNECT_TIMEOUT \<and> since_last_seen > CONNECT_TIMEOUT)"

definition monitor_poll :: "instant \<Rightarrow> instant \<Rightarrow> string \<Rightarrow> daemon \<Rightarrow> bool" where
  "monitor_poll t started name d =
     (let since_spawn = t - started in
      case map_of (dm_plugins d) name of
        Some h \<Rightarrow> is_wedged (ph_connected h) (t - ph_last_seen h) since_spawn
      | None \<Rightarrow> is_wedged False since_spawn since_spawn)"

definition env_exact :: "string list" where
  "env_exact = [''PATH'', ''HOME'', ''USER'', ''LOGNAME'', ''LANG'', ''TZ'', ''TMPDIR'', ''RUST_LOG'', ''RUST_BACKTRACE'', ''VIRTUAL_ENV'',
     ''LD_LIBRARY_PATH'', ''NO_PROXY'', ''HTTP_PROXY'', ''HTTPS_PROXY'', ''no_proxy'', ''http_proxy'', ''https_proxy'']"

definition env_allowed :: "string \<Rightarrow> bool" where
  "env_allowed name \<longleftrightarrow> name \<in> set env_exact \<or> list_ex (starts_with name) [''LC_'', ''PYTHON'', ''XDG_'', ''SSL_CERT_'']"

definition inherited_env :: "(string \<times> string) list \<Rightarrow> (string \<times> string) list" where
  "inherited_env env = filter (\<lambda>(k, _). valid_utf8 k \<and> env_allowed k) env"

definition own_env :: "string \<Rightarrow> string \<Rightarrow> string \<Rightarrow> (string \<times> string) list" where
  "own_env socket name cfg_json =
     [(''RELAYFABRIC_SOCKET'', socket), (''RELAYFABRIC_PLUGIN_NAME'', name), (''RELAYFABRIC_PLUGIN_CONFIG'', cfg_json), (''PYTHONUNBUFFERED'', ''1'')]"

definition plugin_command_env :: "(string \<times> string) list \<Rightarrow> string \<Rightarrow> string \<Rightarrow> string \<Rightarrow> (string \<times> string) list" where
  "plugin_command_env env socket name cfg_json =
     fold (\<lambda>(k, v). alist_put k v) (inherited_env env @ own_env socket name cfg_json) []"

definition spawn_config :: "(yaml \<Rightarrow> string) \<Rightarrow> string \<Rightarrow> daemon \<Rightarrow> string option" where
  "spawn_config json name d =
     (case map_of (cf_plugins (dm_cfg d)) name of
        Some p \<Rightarrow> if pc_enabled p then Some (json (pc_config p)) else None
      | None \<Rightarrow> None)"

definition backoffs :: "nat list" where
  "backoffs = [1, 5, 30, 120]"

text \<open>One exit of the child after it ran for \<open>uptime\<close>: the delay before the restart, and the strikes after it.\<close>

definition restart_delay :: "nat \<Rightarrow> duration \<Rightarrow> nat \<times> nat" where
  "restart_delay strikes uptime =
     (let s = (if uptime > secs 60 then 0 else strikes) in (backoffs ! min s (length backoffs - 1), s + 1))"

fun supervise_delays :: "nat \<Rightarrow> duration list \<Rightarrow> nat list" where
  "supervise_delays strikes [] = []"
| "supervise_delays strikes (uptime # runs) =
     (case restart_delay strikes uptime of (delay, s) \<Rightarrow> delay # supervise_delays s runs)"

end
