(* ===== verification/Plugin_Conn_Props.thy ===== *)
theory Plugin_Conn_Props
  imports Plugin_Conn Ingress_Props
begin

text \<open>
  Plugin connections: who may attach, that the registry of plugins always names the newest live
  connection, what a plugin process inherits, and when the supervisor restarts it.
\<close>

subsection \<open>Attaching\<close>

text \<open>
  C34: Only the right process becomes a plugin. A connection is registered only when its peer has the
  configured user id (or, without one, the daemon's own), its first frame is a Hello for the name the socket is
  bound to with the supported protocol version, and that plugin is enabled now; then exactly the handle of that plugin is
  replaced, by a connected one with the new connection id. A refused connection leaves the daemon as it was.
\<close>

theorem plugin_attach_authorized:
  assumes "open_conn euid t now cid tx bound uid hello ok d = (r, acks, d')"
  shows "(\<forall>p. r = Ok p \<longrightarrow> p = bound \<and> plugin_enabled (dm_cfg d) p \<and> uid_ok (dm_cfg d) euid bound uid \<and>
      (\<exists>v caps. hello = Some (Ok (Hello p v PROTOCOL_VERSION caps)) \<and>
        map_of (dm_plugins d') p = Some \<lparr>ph_tx = tx, ph_capabilities = caps, ph_connected = True, ph_conn_id = cid, ph_last_seen = t\<rparr>) \<and>
      (\<forall>q. q \<noteq> p \<longrightarrow> map_of (dm_plugins d') q = map_of (dm_plugins d) q)) \<and>
    (\<forall>e. r = Err e \<longrightarrow> d' = d)"
proof -
  have other: "map_of (alist_put p h m) q = map_of m q" if "q \<noteq> p" for p q :: string and h :: plugin_handle and m
    using that by (induction m) (auto simp: alist_put_def)
  show ?thesis
    using assms other
    by (auto simp: open_conn_def hello_error_def install_plugin_def Let_def alist_put_def
        split: if_splits option.splits sum.splits plugin_to_daemon.splits)
qed

definition daemon_plug :: daemon where
  "daemon_plug = daemon_demo (cfg_demo\<lparr>cf_plugins := [(''lora'', \<lparr>pc_enabled = True, pc_command = None, pc_config = YNull, pc_peer_uid = Some 7\<rparr>)]\<rparr>)
     (store_empty no_fails)"

definition hello_demo :: "(plugin_error + plugin_to_daemon) option" where
  "hello_demo = Some (Ok (Hello ''lora'' ''1.0'' 1 capabilities_default))"

theorem plugin_attach_authorized_witness:
  "fst (open_conn 0 5 5 2 (\<lambda>_. SendOk) ''lora'' 7 hello_demo True daemon_plug) = Ok ''lora'' \<and>
   plugin_enabled (dm_cfg daemon_plug) ''lora'' \<and>
   map_of (dm_plugins (snd (snd (open_conn 0 5 5 2 (\<lambda>_. SendOk) ''lora'' 0 hello_demo True daemon_plug)))) ''lora'' = None"
proof -
  let ?o = "open_conn 0 5 5 2 (\<lambda>_. SendOk) ''lora''"
  have r: "fst (?o 7 hello_demo True daemon_plug) = Ok ''lora''" "fst (?o 0 hello_demo True daemon_plug) = Err (RefusedUid 0 ''lora'')"
    by (simp_all add: open_conn_def uid_ok_def hello_demo_def hello_error_def plugin_enabled_def PROTOCOL_VERSION_def Let_def
        daemon_plug_def daemon_demo_def)
  have p: "dm_plugins daemon_plug = []" by (simp add: daemon_plug_def daemon_demo_def)
  obtain r1 a1 d1 where o1: "?o 7 hello_demo True daemon_plug = (r1, a1, d1)" by (rule prod_cases3)
  obtain r2 a2 d2 where o2: "?o 0 hello_demo True daemon_plug = (r2, a2, d2)" by (rule prod_cases3)
  have "r1 = Ok ''lora''" "r2 = Err (RefusedUid 0 ''lora'')" using r o1 o2 by simp_all
  then have "plugin_enabled (dm_cfg daemon_plug) ''lora''" "d2 = daemon_plug"
    using plugin_attach_authorized[OF o1] plugin_attach_authorized[OF o2] by blast+
  then show ?thesis using r(1) p by (simp add: o2)
qed

subsection \<open>The registry of plugins\<close>

lemma fan_out_plugins [simp]: "dm_plugins (snd (fan_out_deliveries now mid ex rank targets rm gm d)) = dm_plugins d"
proof (induction targets arbitrary: d)
  case (Cons tgt targets)
  have "dm_plugins (fan_one now mid ex rank tgt rm gm d) = dm_plugins d" by (simp add: fan_one_def)
  then show ?case using Cons.IH unfolding fan_out_Cons by simp
qed simp

lemma emit_dead_letters_plugins [simp]: "dm_plugins (emit_dead_letters now i rs d) = dm_plugins d"
  by (induction rs arbitrary: d) (simp_all add: emit_delivery_def)

lemma commit_inbound_plugins [simp]:
  "dm_plugins (commit_inbound fresh now src sender kind body ca prio metas shas targets cfg d) = dm_plugins d"
  by (auto simp: commit_inbound_def Let_def on_store_eq case_prod_unfold split: sum.split)

lemma enqueue_identity_plugins [simp]: "dm_plugins (snd (enqueue_identity_send f dest body now ex d)) = dm_plugins d"
  by (auto simp: enqueue_identity_send_def Let_def on_store_eq case_prod_unfold emit_delivery_def split: sum.split)

lemma handle_inbound_plugins [simp]:
  "dm_plugins (handle_inbound X fresh t now p ep s k b ca atts prio d) = dm_plugins d"
proof -
  have r: "dm_plugins (route_inbound X fresh now p ep s k b ca hs prio cfg e) = dm_plugins e" for hs cfg e
    by (auto simp: route_inbound_def accept_inbound_def Let_def split: prod.split)
  have g: "dm_plugins (note_failed_link_guess t p s e) = dm_plugins e" for e by (simp add: note_failed_link_guess_def Let_def)
  have c: "dm_plugins (confirm_link fresh ch now e) = dm_plugins e" for ch e
    by (auto simp: confirm_link_def Let_def on_store_eq case_prod_unfold split: sum.split)
  show ?thesis
    by (auto simp: handle_inbound_def Let_def r g c split: prod.split bool.split sum.split option.split)
qed

lemma handle_result_plugins [simp]: "dm_plugins (handle_result now p corr ok d) = dm_plugins d"
  by (auto simp: handle_result_def Let_def emit_delivery_event_def emit_delivery_def retry_at_def record_latency_def inc_route_def
      split: option.split sum.split)

lemma refresh_seen_handles:
  "map_of (dm_plugins (refresh_seen t p c d)) q =
     map_option (\<lambda>h. if q = p \<and> ph_conn_id h = c then h\<lparr>ph_last_seen := t\<rparr> else h) (map_of (dm_plugins d) q)"
  by (cases "q = p"; cases "map_of (dm_plugins d) p") (simp_all add: refresh_seen_def option.map_ident)

lemma plugin_frame_handles:
  "map_of (dm_plugins (plugin_frame X fresh t now p c f d)) q =
     map_option (\<lambda>h. if q = p \<and> ph_conn_id h = c then h\<lparr>ph_last_seen := t\<rparr> else h) (map_of (dm_plugins d) q)"
proof -
  have "dm_plugins (plugin_frame X fresh t now p c f d) = dm_plugins (refresh_seen t p c d)"
    by (cases f) (simp_all add: plugin_frame_def Let_def)
  then show ?thesis by (simp add: refresh_seen_handles)
qed

lemma close_conn_handles:
  "map_of (dm_plugins (close_conn now p c d)) q =
     map_option (\<lambda>h. if q = p \<and> ph_conn_id h = c then h\<lparr>ph_connected := False\<rparr> else h) (map_of (dm_plugins d) q)"
  by (cases "q = p"; cases "map_of (dm_plugins d) p") (simp_all add: close_conn_def option.map_ident)

text \<open>
  The connection tasks of all plugin sockets, by plugin and connection id. Sockets accept in any order,
  a plugin may reconnect while its old connection is still being torn down, and the other
  handlers of the daemon run in between; they do not touch the registry.
\<close>

record plugin_sys =
  py_daemon :: daemon
  py_next :: nat
  py_tasks :: "(string \<times> nat) list"

inductive plugin_sys_step :: "ext \<Rightarrow> plugin_sys \<Rightarrow> plugin_sys \<Rightarrow> bool" for X where
  opened: "open_conn euid t now (py_next s) tx bound uid hello ok (py_daemon s) = (Ok p, acks, d') \<Longrightarrow>
    plugin_sys_step X s (s\<lparr>py_daemon := d', py_next := Suc (py_next s), py_tasks := (p, py_next s) # py_tasks s\<rparr>)"
| refused: "open_conn euid t now (py_next s) tx bound uid hello ok (py_daemon s) = (Err e, acks, d') \<Longrightarrow>
    plugin_sys_step X s (s\<lparr>py_daemon := d'\<rparr>)"
| framed: "(p, c) \<in> set (py_tasks s) \<Longrightarrow>
    plugin_sys_step X s (s\<lparr>py_daemon := plugin_frame X fresh t now p c f (py_daemon s)\<rparr>)"
| closed: "(p, c) \<in> set (py_tasks s) \<Longrightarrow>
    plugin_sys_step X s (s\<lparr>py_daemon := close_conn now p c (py_daemon s), py_tasks := remove1 (p, c) (py_tasks s)\<rparr>)"
| others: "dm_plugins d' = dm_plugins (py_daemon s) \<Longrightarrow> plugin_sys_step X s (s\<lparr>py_daemon := d'\<rparr>)"

definition conn_view :: "daemon \<Rightarrow> string \<Rightarrow> (nat \<times> bool) option" where
  "conn_view d p = map_option (\<lambda>h. (ph_conn_id h, ph_connected h)) (map_of (dm_plugins d) p)"

definition plugin_sys_inv :: "plugin_sys \<Rightarrow> bool" where
  "plugin_sys_inv s \<longleftrightarrow> distinct (map snd (py_tasks s)) \<and> list_all (\<lambda>(p, c). c < py_next s) (py_tasks s) \<and>
     (\<forall>p c b. conn_view (py_daemon s) p = Some (c, b) \<longrightarrow> c < py_next s \<and> b = ((p, c) \<in> set (py_tasks s))) \<and>
     (\<forall>p c. (p, c) \<in> set (py_tasks s) \<longrightarrow> (\<exists>c' b. conn_view (py_daemon s) p = Some (c', b) \<and> c \<le> c'))"

lemma open_conn_view:
  assumes "open_conn euid t now c tx bound uid hello ok d = (Ok p, acks, d')"
  shows "conn_view d' q = (if q = p then Some (c, True) else conn_view d q)"
proof -
  from assms obtain caps where "d' = install_plugin t now c tx p caps d"
    by (auto simp: open_conn_def split: if_splits option.splits sum.splits plugin_to_daemon.splits)
  then show ?thesis by (simp add: install_plugin_def conn_view_def)
qed

lemma refused_same: "open_conn euid t now c tx bound uid hello ok d = (Err e, acks, d') \<Longrightarrow> d' = d"
  by (auto simp: open_conn_def split: if_splits option.splits sum.splits plugin_to_daemon.splits)

lemma frame_view: "conn_view (plugin_frame X fresh t now p c f d) q = conn_view d q"
  by (cases "map_of (dm_plugins d) q") (simp_all add: conn_view_def plugin_frame_handles)

lemma close_view: "conn_view (close_conn now p c d) q = (if q = p \<and> (\<exists>b. conn_view d q = Some (c, b)) then Some (c, False) else conn_view d q)"
  by (cases "map_of (dm_plugins d) q") (auto simp: conn_view_def close_conn_handles)

lemma plugin_sys_step_inv:
  assumes "plugin_sys_step X s s'" "plugin_sys_inv s"
  shows "plugin_sys_inv s'"
  using assms(1)
proof cases
  case (opened euid t now tx bound uid hello ok p acks d')
  have old: "(q, py_next s) \<notin> set (py_tasks s)" for q using assms(2) by (auto simp: plugin_sys_inv_def list_all_iff)
  then have "py_next s \<notin> snd ` set (py_tasks s)" by force
  then show ?thesis
    using assms(2) old unfolding plugin_sys_inv_def opened(1)
    by (auto simp: open_conn_view[OF opened(2)] list_all_iff less_Suc_eq intro: less_imp_le split: if_splits)
next
  case (refused euid t now tx bound uid hello ok e acks d')
  then show ?thesis using assms(2) refused_same[OF refused(2)] by (simp add: plugin_sys_inv_def)
next
  case (framed p c fresh t now f)
  then show ?thesis using assms(2) by (simp add: plugin_sys_inv_def frame_view)
next
  case (closed p c now)
  have "distinct (map snd (py_tasks s))" using assms(2) by (simp add: plugin_sys_inv_def)
  then have "set (remove1 (p, c) (py_tasks s)) = set (py_tasks s) - {(p, c)}" "distinct (map snd (remove1 (p, c) (py_tasks s)))"
    by (auto simp: set_remove1_eq distinct_map intro: inj_on_subset)
  moreover have "ca \<le> c" if "conn_view (py_daemon s) p = Some (c, b)" "(p, ca) \<in> set (py_tasks s)" for b ca
    using assms(2) that unfolding plugin_sys_inv_def by fastforce
  ultimately show ?thesis using assms(2) by (auto simp: plugin_sys_inv_def closed(1) close_view list_all_iff split: if_splits)
next
  case (others d') then show ?thesis using assms(2) by (simp add: plugin_sys_inv_def conn_view_def)
qed

interpretation plugin_reg: invariant_system "plugin_sys_step X" plugin_sys_inv for X
  by unfold_locales (rule plugin_sys_step_inv)

text \<open>
  C35: The registry of plugins tells the truth. Whatever the order in which processes connect, are refused, send frames,
  reconnect before their old connection is torn down and disconnect, a plugin is shown as connected exactly while the
  connection in its handle is running, and that is the newest connection of the plugin: the late teardown of a
  replaced connection never takes the new one down.
\<close>

theorem plugin_registry_truthful:
  assumes "(plugin_sys_step X)\<^sup>*\<^sup>* s s'" "dm_plugins (py_daemon s) = []" "py_tasks s = []"
  shows "(\<forall>p h. map_of (dm_plugins (py_daemon s')) p = Some h \<longrightarrow>
      (ph_connected h \<longleftrightarrow> (p, ph_conn_id h) \<in> set (py_tasks s'))) \<and>
    (\<forall>p c. (p, c) \<in> set (py_tasks s') \<longrightarrow> (\<exists>h. map_of (dm_plugins (py_daemon s')) p = Some h \<and> c \<le> ph_conn_id h))"
proof -
  have "plugin_sys_inv s" using assms(2,3) by (simp add: plugin_sys_inv_def conn_view_def)
  with assms(1) have "plugin_sys_inv s'" by (rule plugin_reg.reach_inv)
  then have v: "conn_view (py_daemon s') p = Some (c, b) \<longrightarrow> b = ((p, c) \<in> set (py_tasks s'))"
    "(p, c) \<in> set (py_tasks s') \<longrightarrow> (\<exists>c' b. conn_view (py_daemon s') p = Some (c', b) \<and> c \<le> c')" for p c b
    unfolding plugin_sys_inv_def by blast+
  then show ?thesis unfolding conn_view_def by fastforce
qed

definition plug_sys :: plugin_sys where
  "plug_sys = \<lparr>py_daemon = daemon_plug, py_next = 2, py_tasks = []\<rparr>"

text \<open>The plugin reconnects (connection 3) before its first connection (2) is torn down.\<close>

theorem plugin_registry_truthful_witness:
  "\<exists>s'. (plugin_sys_step ext_demo)\<^sup>*\<^sup>* plug_sys s' \<and> py_tasks s' = [(''lora'', 3)] \<and>
     map_option ph_connected (map_of (dm_plugins (py_daemon s')) ''lora'') = Some True"
proof -
  let ?open = "\<lambda>c d. open_conn 0 5 5 c (\<lambda>_. SendOk) ''lora'' 7 hello_demo True d"
  have o: "\<exists>a d'. ?open c d = (Ok ''lora'', a, d') \<and> conn_view d' ''lora'' = Some (c, True) \<and> dm_cfg d' = dm_cfg d"
    if "dm_cfg d = dm_cfg daemon_plug" for c d
    using that by (auto simp: open_conn_def uid_ok_def hello_demo_def hello_error_def plugin_enabled_def PROTOCOL_VERSION_def Let_def
        daemon_plug_def daemon_demo_def install_plugin_def conn_view_def)
  obtain a1 d1 where o1: "?open 2 daemon_plug = (Ok ''lora'', a1, d1)" "dm_cfg d1 = dm_cfg daemon_plug" using o[of daemon_plug 2] by blast
  obtain a2 d2 where o2: "?open 3 d1 = (Ok ''lora'', a2, d2)" "conn_view d2 ''lora'' = Some (3, True)" using o[OF o1(2), of 3] by blast
  let ?s1 = "\<lparr>py_daemon = d1, py_next = 3, py_tasks = [(''lora'', 2)]\<rparr>"
  let ?s2 = "\<lparr>py_daemon = d2, py_next = 4, py_tasks = [(''lora'', 3), (''lora'', 2)]\<rparr>"
  let ?s3 = "\<lparr>py_daemon = close_conn 6 ''lora'' 2 d2, py_next = 4, py_tasks = [(''lora'', 3)]\<rparr>"
  have "plugin_sys_step ext_demo plug_sys ?s1"
    using plugin_sys_step.opened[of 0 5 5 plug_sys "\<lambda>_. SendOk" "''lora''" 7 hello_demo True] o1(1) by (simp add: plug_sys_def)
  moreover have "plugin_sys_step ext_demo ?s1 ?s2"
    using plugin_sys_step.opened[of 0 5 5 ?s1 "\<lambda>_. SendOk" "''lora''" 7 hello_demo True] o2(1) by simp
  moreover have "plugin_sys_step ext_demo ?s2 ?s3"
    using plugin_sys_step.closed[of "''lora''" 2 ?s2 ext_demo 6] by simp
  ultimately have run: "(plugin_sys_step ext_demo)\<^sup>*\<^sup>* plug_sys ?s3" by (meson rtranclp.rtrancl_into_rtrancl rtranclp.rtrancl_refl)
  have e: "dm_plugins (py_daemon plug_sys) = []" "py_tasks plug_sys = []" by (simp_all add: plug_sys_def daemon_plug_def daemon_demo_def)
  obtain h where h: "map_of (dm_plugins (close_conn 6 ''lora'' 2 d2)) ''lora'' = Some h" "ph_conn_id h = 3"
    using close_view[of 6 "''lora''" 2 d2 "''lora''"] o2(2) by (auto simp: conn_view_def)
  then have "ph_connected h" using plugin_registry_truthful[OF run e] by simp
  then show ?thesis using run h by (intro exI[of _ ?s3]) simp
qed

subsection \<open>What a plugin process inherits\<close>

lemma fold_put_keys: "map_of (fold (\<lambda>(k, v). alist_put k v) kvs m) k = Some v \<Longrightarrow> (k, v) \<in> set kvs \<or> map_of m k = Some v"
proof (induction kvs arbitrary: m)
  case (Cons a kvs)
  from Cons.IH[of "alist_put (fst a) (snd a) m"] Cons.prems show ?case by (cases a) (auto split: if_splits)
qed simp

text \<open>
  A plugin process sees no secret of the daemon. Every variable of its environment is one of the four the
  daemon sets for it, with the value the daemon gives it, or an inherited one whose name is on the allow list;
  a variable of the daemon with any other name, such as one that holds another plugin's secret, is absent.
\<close>

theorem plugin_env_scrubbed:
  assumes "map_of (plugin_command_env env socket name cfg_json) k = Some v"
  shows "(k, v) \<in> set (own_env socket name cfg_json) \<or>
    ((k, v) \<in> set env \<and> env_allowed k \<and> k \<notin> fst ` set (own_env socket name cfg_json))"
proof -
  let ?m = "fold (\<lambda>(k, v). alist_put k v) (inherited_env env) []"
  have "map_of (fold (\<lambda>(k, v). alist_put k v) (own_env socket name cfg_json) ?m) k = Some v" using assms by (simp add: plugin_command_env_def)
  then have "(k, v) \<in> set (own_env socket name cfg_json) \<or> (map_of ?m k = Some v \<and> k \<notin> fst ` set (own_env socket name cfg_json))"
    by (auto simp: own_env_def split: if_splits)
  moreover have "(k, v) \<in> set env \<and> env_allowed k" if "map_of ?m k = Some v"
    using fold_put_keys[OF that] by (auto simp: inherited_env_def)
  ultimately show ?thesis by blast
qed

definition process_env_demo :: "(string \<times> string) list" where
  "process_env_demo = [(''PATH'', ''/bin''), (''MATRIX_TOKEN'', ''s3cret''), (''PYTHONUNBUFFERED'', ''0''), (''RELAYFABRIC_DB_KEY'', ''k'')]"

theorem plugin_env_scrubbed_witness:
  "map_of (plugin_command_env process_env_demo ''/s'' ''lora'' ''null'') ''MATRIX_TOKEN'' = None \<and>
   map_of (plugin_command_env process_env_demo ''/s'' ''lora'' ''null'') ''RELAYFABRIC_DB_KEY'' = None"
proof -
  let ?e = "plugin_command_env process_env_demo ''/s'' ''lora'' ''null''"
  have none: "map_of ?e k = None"
    if "\<not> env_allowed k" "k \<notin> fst ` set (own_env ''/s'' ''lora'' ''null'')" for k
  proof (rule ccontr)
    assume "map_of ?e k \<noteq> None"
    then obtain v where v: "map_of ?e k = Some v" by blast
    show False using plugin_env_scrubbed[OF v] that by (metis fst_conv image_eqI)
  qed
  have "map_of ?e ''MATRIX_TOKEN'' = None" by (rule none) (simp_all add: env_allowed_def env_exact_def starts_with_def own_env_def)
  moreover have "map_of ?e ''RELAYFABRIC_DB_KEY'' = None" by (rule none) (simp_all add: env_allowed_def env_exact_def starts_with_def own_env_def)
  ultimately show ?thesis by (rule conjI)
qed

subsection \<open>Restarts\<close>

lemma length_delays: "length (supervise_delays s runs) = length runs"
  by (induction s runs rule: supervise_delays.induct) (auto split: prod.split)

lemma backoff_ladder: "s \<le> s' \<Longrightarrow> backoffs ! min s 3 \<le> backoffs ! min s' 3"
proof -
  assume "s \<le> s'"
  moreover have "backoffs ! i \<le> backoffs ! j" if "i \<le> j" "j \<le> 3" for i j
  proof -
    have "i \<in> {0, 1, 2, 3}" "j \<in> {0, 1, 2, 3}" using that by auto
    then show ?thesis using that(1) by (auto simp: backoffs_def)
  qed
  ultimately show ?thesis by simp
qed

lemma backoff_member: "backoffs ! min s 3 \<in> {1, 5, 30, 120}"
proof -
  have "min s 3 \<in> {0, 1, 2, 3}" by auto
  then show ?thesis by (auto simp: backoffs_def)
qed

lemma restart_delay_eq: "restart_delay s uptime = (backoffs ! min (if uptime > secs 60 then 0 else s) 3, Suc (if uptime > secs 60 then 0 else s))"
proof -
  have "length backoffs - 1 = 3" by (simp add: backoffs_def)
  then show ?thesis by (simp add: restart_delay_def Let_def)
qed

text \<open>
  Supervision. A plugin that sent any frame within the last minute is never killed, nor is one that was
  started within the last minute and is not connected; one that has been silent for more than ninety seconds and
  was started longer ago than that is found wedged at the next poll. Restarts follow the ladder of 1, 5, 30 and 120 seconds: it
  restarts at one second after a run of more than a minute, and is climbed, never descended, while runs stay short.
\<close>

theorem supervision_bounds:
  "(case map_of (dm_plugins d) name of
      Some h \<Rightarrow> (t - ph_last_seen h \<le> secs 60 \<longrightarrow> \<not> monitor_poll t started name d) \<and>
        (t - ph_last_seen h > secs 90 \<and> t - started > secs 90 \<longrightarrow> monitor_poll t started name d)
    | None \<Rightarrow> monitor_poll t started name d = (t - started > secs 60)) \<and>
   set (supervise_delays strikes runs) \<subseteq> {1, 5, 30, 120} \<and>
   (\<forall>i < length runs. runs ! i > secs 60 \<longrightarrow> supervise_delays strikes runs ! i = 1) \<and>
   (\<forall>i. Suc i < length runs \<and> runs ! Suc i \<le> secs 60 \<longrightarrow> supervise_delays strikes runs ! i \<le> supervise_delays strikes runs ! Suc i)"
proof -
  have le: "secs 60 \<le> secs 90" by (simp add: secs_def)
  have "case map_of (dm_plugins d) name of
      Some h \<Rightarrow> (t - ph_last_seen h \<le> secs 60 \<longrightarrow> \<not> monitor_poll t started name d) \<and>
        (t - ph_last_seen h > secs 90 \<and> t - started > secs 90 \<longrightarrow> monitor_poll t started name d)
    | None \<Rightarrow> monitor_poll t started name d = (t - started > secs 60)"
    using le by (auto simp: monitor_poll_def is_wedged_def LIVENESS_TIMEOUT_def CONNECT_TIMEOUT_def Let_def split: option.split)
  moreover have "set (supervise_delays strikes runs) \<subseteq> {1, 5, 30, 120}"
    using backoff_member by (induction strikes runs rule: supervise_delays.induct) (simp_all add: restart_delay_eq)
  moreover have "\<forall>i < length runs. runs ! i > secs 60 \<longrightarrow> supervise_delays strikes runs ! i = 1"
  proof (induction strikes runs rule: supervise_delays.induct)
    case (2 strikes uptime runs)
    then show ?case by (auto simp: restart_delay_eq nth_Cons backoffs_def split: nat.split)
  qed simp
  moreover have "\<forall>i. Suc i < length runs \<and> runs ! Suc i \<le> secs 60 \<longrightarrow> supervise_delays strikes runs ! i \<le> supervise_delays strikes runs ! Suc i"
  proof (induction strikes runs rule: supervise_delays.induct)
    case (2 strikes uptime runs)
    have first: "supervise_delays strikes (uptime # runs) ! 0 \<le> supervise_delays strikes (uptime # runs) ! Suc 0"
      if "runs = next # rest" "next \<le> secs 60" for "next" rest
      using that backoff_ladder[of "if uptime > secs 60 then 0 else strikes" "Suc (if uptime > secs 60 then 0 else strikes)"]
      by (simp add: restart_delay_eq)
    show ?case
    proof (intro allI impI)
      fix i assume i: "Suc i < length (uptime # runs) \<and> (uptime # runs) ! Suc i \<le> secs 60"
      show "supervise_delays strikes (uptime # runs) ! i \<le> supervise_delays strikes (uptime # runs) ! Suc i"
      proof (cases i)
        case 0 then show ?thesis using first i by (cases runs) auto
      next
        case (Suc j) then show ?thesis using "2.IH" i by (auto simp: restart_delay_eq)
      qed
    qed
  qed simp
  ultimately show ?thesis by blast
qed

theorem supervision_bounds_witness:
  "supervise_delays 0 [secs 2, secs 3, secs 2, secs 1, secs 9, secs 61, secs 2] = [1, 5, 30, 120, 120, 1, 5] \<and>
   \<not> monitor_poll (secs 60) 0 ''lora'' daemon_plug"
proof -
  have "map_of (dm_plugins daemon_plug) ''lora'' = None" by (simp add: daemon_plug_def daemon_demo_def)
  then have "\<not> monitor_poll (secs 60) 0 ''lora'' daemon_plug" using supervision_bounds[where d = daemon_plug and t = "secs 60" and started = 0 and name = "''lora''"] by simp
  then show ?thesis by (simp add: restart_delay_eq backoffs_def secs_def ns_per_sec_def)
qed

end
