(* ===== verification/Alerts.thy ===== *)
theory Alerts
  imports Plugin_Conn_Props
begin

text \<open>
  Operator alerts (\<open>src/switchyardd/src/alerts.rs\<close>, \<open>AlertConfig::wants\<close> in \<open>config.rs\<close>): the daemon
  watches its own events and sends a line through one of its plugins. The throttle is a process-wide map
  in the source and a component of the state here.
\<close>

definition ALERT_THROTTLE :: duration where "ALERT_THROTTLE = secs 60"

definition wants :: "alert_config \<Rightarrow> string \<Rightarrow> bool" where
  "wants cfg category \<longleftrightarrow> al_events cfg = [] \<or> category \<in> set (al_events cfg)"

definition apostrophe :: string where "apostrophe = [CHR 0x27]"

fun alert_for :: "alert_config \<Rightarrow> event \<Rightarrow> (string \<times> string) option" where
  "alert_for cfg (EvPlugin name up ts) =
     (if wants cfg ''plugin'' then
        Some (''plugin:'' @ name, ''plugin '' @ apostrophe @ name @ apostrophe @ '' '' @ (if up then ''recovered'' else ''went DOWN''))
      else None)"
| "alert_for cfg (EvFederation peer up ts) =
     (if wants cfg ''federation'' then
        Some (''federation:'' @ peer, ''federation peer '' @ apostrophe @ peer @ apostrophe @ '' '' @ (if up then ''reconnected'' else ''went DOWN''))
      else None)"
| "alert_for cfg _ = None"

definition send_alert :: "string \<Rightarrow> string \<Rightarrow> daemon \<Rightarrow> daemon" where
  "send_alert endpoint txt d =
     (case split_once (CHR '':'') endpoint of
        None \<Rightarrow> d
      | Some (plugin, ep) \<Rightarrow>
          (case connected_plugin plugin d of
             None \<Rightarrow> d
           | Some h \<Rightarrow> snd (plugin_send plugin h (Send (- 1) ep ''text'' (''[relayfabric alert] '' @ txt) []) d)))"

type_synonym throttle = "(string \<times> instant) list"

definition handle_event :: "instant \<Rightarrow> event \<Rightarrow> daemon \<times> throttle \<Rightarrow> daemon \<times> throttle" where
  "handle_event t ev s =
     (case cf_alerts (dm_cfg (fst s)) of
        None \<Rightarrow> s
      | Some cfg \<Rightarrow>
          (case alert_for cfg ev of
             None \<Rightarrow> s
           | Some (subject, txt) \<Rightarrow>
               (case warn_throttle_due subject ALERT_THROTTLE t (snd s) of
                  (False, m) \<Rightarrow> (fst s, m)
                | (True, m) \<Rightarrow> (send_alert (al_endpoint cfg) txt (fst s), m))))"

fun alerter :: "(instant \<times> event) list \<Rightarrow> daemon \<times> throttle \<Rightarrow> daemon \<times> throttle" where
  "alerter [] s = s"
| "alerter ((t, ev) # evs) s = alerter evs (handle_event t ev s)"

subsection \<open>Facts\<close>

lemma send_alert_frame:
  "dm_store (send_alert e x d) = dm_store d" "dm_plugins (send_alert e x d) = dm_plugins d" "dm_cfg (send_alert e x d) = dm_cfg d"
  by (auto simp: send_alert_def plugin_send_def split: option.split prod.split send_result.split)

text \<open>
  An alert frame is answered with the correlation id \<open>-1\<close>, which no delivery row has; the answer changes nothing.
\<close>

lemma alert_result_ignored:
  assumes "\<forall>r \<in> set (st_deliveries (dm_store d)). 0 < dl_id r"
  shows "handle_result now plugin (- 1) ok d = d"
proof -
  have "deliveries_for_id (- 1) (dm_store d) = None"
    using assms by (auto simp: deliveries_for_id_def find_None_iff split: option.split)
  then show ?thesis by (simp add: handle_result_def)
qed

text \<open>
  An outage can go unreported. Two events of one subject less than a minute apart give one alert: when a plugin
  connects, is announced as recovered, and fails within that minute, no alert for the outage is ever sent,
  however long it lasts; and when the first alert could not be sent at all (the alerting plugin was not
  connected) the second is suppressed all the same.
\<close>

theorem outage_alert_lost:
  assumes "cf_alerts (dm_cfg d) = Some cfg" "wants cfg ''plugin''" "t \<le> t'" "t' - t < ALERT_THROTTLE"
    and "fst (warn_throttle_due (''plugin:'' @ name) ALERT_THROTTLE t m)"
    and "handle_event t (EvPlugin name True ts) (d, m) = (d1, m1)"
  shows "dm_sent (fst (handle_event t' (EvPlugin name False ts') (d1, m1))) = dm_sent d1"
proof -
  let ?k = "''plugin:'' @ name" and ?m = "filter (\<lambda>(_, last_at). t - last_at < ALERT_THROTTLE) m"
  have cfg: "cf_alerts (dm_cfg d1) = Some cfg" and m: "m1 = alist_put ?k t ?m"
    using assms(1,2,5,6) by (auto simp: handle_event_def warn_throttle_due_def send_alert_frame Let_def split: if_splits)
  have "map_of (filter (\<lambda>(_, last_at). t' - last_at < ALERT_THROTTLE) m1) ?k = Some t"
    using assms(3,4) by (simp add: m alist_put_def)
  then have due: "fst (warn_throttle_due ?k ALERT_THROTTLE t' m1) = False"
    using assms(4) by (simp add: warn_throttle_due_def Let_def)
  then show ?thesis using assms(2) by (simp add: handle_event_def cfg case_prod_unfold split: bool.split)
qed

definition daemon_alert :: daemon where
  "daemon_alert = snd (snd (open_conn 0 5 5 2 (\<lambda>_. SendOk) ''lora'' 7 hello_demo True
     (daemon_plug\<lparr>dm_cfg := (dm_cfg daemon_plug)\<lparr>cf_alerts := Some \<lparr>al_endpoint = ''lora:ops'', al_events = []\<rparr>\<rparr>\<rparr>)))"

theorem outage_alert_lost_witness:
  "dm_sent (fst (handle_event (secs 40) (EvPlugin ''mqtt'' False 40) (handle_event (secs 5) (EvPlugin ''mqtt'' True 5) (daemon_alert, [])))) =
   [(''lora'', Send (- 1) ''ops'' ''text'' (''[relayfabric alert] plugin '' @ apostrophe @ ''mqtt'' @ apostrophe @ '' recovered'') [])]"
proof -
  have p: "map_of (dm_plugins daemon_alert) ''lora'' = Some \<lparr>ph_tx = (\<lambda>_. SendOk), ph_capabilities = capabilities_default, ph_connected = True, ph_conn_id = 2, ph_last_seen = 5\<rparr>"
    "cf_alerts (dm_cfg daemon_alert) = Some \<lparr>al_endpoint = ''lora:ops'', al_events = []\<rparr>" "dm_sent daemon_alert = []"
    by (simp_all add: daemon_alert_def open_conn_def uid_ok_def hello_demo_def hello_error_def plugin_enabled_def PROTOCOL_VERSION_def Let_def
        install_plugin_def) (simp_all add: daemon_plug_def daemon_demo_def)
  obtain d1 m1 where h: "handle_event (secs 5) (EvPlugin ''mqtt'' True 5) (daemon_alert, []) = (d1, m1)" by (metis surj_pair)
  have w: "fst (warn_throttle_due (''plugin:'' @ ''mqtt'') ALERT_THROTTLE (secs 5) [])" by (simp add: warn_throttle_due_def)
  have "dm_sent (fst (handle_event (secs 40) (EvPlugin ''mqtt'' False 40) (d1, m1))) = dm_sent d1"
    by (rule outage_alert_lost[OF p(2) _ _ _ w h]) (simp_all add: wants_def ALERT_THROTTLE_def secs_def ns_per_sec_def)
  moreover have "dm_sent d1 = [(''lora'', Send (- 1) ''ops'' ''text'' (''[relayfabric alert] plugin '' @ apostrophe @ ''mqtt'' @ apostrophe @ '' recovered'') [])]"
    using h p by (simp add: handle_event_def wants_def warn_throttle_due_def send_alert_def connected_plugin_def plugin_send_def Let_def) (auto simp: p)
  ultimately show ?thesis unfolding h by simp
qed

end
