(* ===== verification/Ui_Auth.thy ===== *)
theory Ui_Auth
  imports Rust_Prelude
begin

text \<open>
  Passkey authentication and roles of the web front end (\<open>src/relayfabric-ui/src/auth.rs\<close>).

  The libraries the code calls are the fields of the record \<open>webauthn\<close>: JSON and CBOR readers, base64url,
  SHA-256 and the two signature schemes. Random tokens and challenges are arguments; \<open>Instant::now\<close> is the
  argument \<open>t\<close>, one reading per call; \<open>wr\<close> says whether the credential file could be written. A hash map is an
  association list, and \<open>wa_order\<close> is the order in which the standard library iterates it.
\<close>

subsection \<open>Roles\<close>

datatype role = Viewer | Operator | RouteAdmin | IdentityAdmin | SecurityAdmin | Administrator

definition permits :: "role \<Rightarrow> string \<Rightarrow> string \<Rightarrow> bool" where
  "permits r method path =
     (if r = Administrator then True
      else if starts_with path ''/v1/identities'' then r = IdentityAdmin
      else if method = ''GET'' \<or> method = ''HEAD'' then True
      else case r of
        Viewer \<Rightarrow> False
      | Operator \<Rightarrow> starts_with path ''/v1/queue'' \<or> starts_with path ''/v1/messages''
      | RouteAdmin \<Rightarrow> starts_with path ''/v1/config''
      | IdentityAdmin \<Rightarrow> False
      | SecurityAdmin \<Rightarrow> starts_with path ''/v1/federation'' \<or> starts_with path ''/v1/discovery''
      | Administrator \<Rightarrow> True)"

subsection \<open>State\<close>

datatype cbor = CInteger int | CBytes bytes | CText string | CMap "(cbor \<times> cbor) list" | COther

record client_data =
  cd_type :: string
  cd_challenge :: string
  cd_origin :: string
  cd_cross_origin :: "bool option"

record credential =
  cr_id :: string
  cr_alg :: int
  cr_public_key :: bytes
  cr_counter :: u32
  cr_role :: role
  cr_label :: string

record session =
  ss_cred_id :: string
  ss_role :: role
  ss_expires :: instant

datatype purpose = Register | Login

type_synonym ui_challenge = "bytes \<times> purpose \<times> instant"

record webauthn =
  wa_sha256 :: "bytes \<Rightarrow> bytes"
  wa_client_data :: "bytes \<Rightarrow> client_data option"
  wa_cbor :: "bytes \<Rightarrow> cbor option"
  wa_b64url :: "bytes \<Rightarrow> string"
  wa_p256_key :: "bytes \<Rightarrow> bool"
  wa_p256_sig :: "bytes \<Rightarrow> bool"
  wa_p256_verify :: "bytes \<Rightarrow> bytes \<Rightarrow> bytes \<Rightarrow> bool"
  wa_ed_key :: "bytes \<Rightarrow> bool"
  wa_ed_verify :: "bytes \<Rightarrow> bytes \<Rightarrow> bytes \<Rightarrow> bool"
  wa_order :: "(string \<times> instant) list \<Rightarrow> (string \<times> instant) list"

record auth =
  au_creds :: "credential list"
  au_disk :: "credential list"
  au_sessions :: "(string \<times> session) list"
  au_challenges :: "(string \<times> ui_challenge) list"
  au_setup_token :: string
  au_setup_file :: bool
  au_rp_id :: string
  au_origins :: "string list"

definition SESSION_TTL :: duration where "SESSION_TTL = secs (12 * 60 * 60)"
definition CHALLENGE_TTL :: duration where "CHALLENGE_TTL = secs (5 * 60)"
definition MAX_CHALLENGES :: nat where "MAX_CHALLENGES = 4096"
definition MAX_SESSIONS :: nat where "MAX_SESSIONS = 4096"
definition ALG_ES256 :: int where "ALG_ES256 = - 7"
definition ALG_ED25519 :: int where "ALG_ED25519 = - 8"
definition CRV_P256 :: int where "CRV_P256 = 1"
definition CRV_ED25519 :: int where "CRV_ED25519 = 6"

definition auth_open :: "string \<Rightarrow> string \<Rightarrow> string list \<Rightarrow> credential list \<Rightarrow> auth" where
  "auth_open token rp_id origins disk =
     \<lparr>au_creds = disk, au_disk = disk, au_sessions = [], au_challenges = [], au_setup_token = token,
      au_setup_file = (disk = []), au_rp_id = rp_id, au_origins = origins\<rparr>"

definition persist :: "bool \<Rightarrow> auth \<Rightarrow> bool \<times> auth" where
  "persist wr a = (wr, if wr then a\<lparr>au_disk := au_creds a\<rparr> else a)"

definition has_credentials :: "auth \<Rightarrow> bool" where
  "has_credentials a \<longleftrightarrow> au_creds a \<noteq> []"

subsection \<open>Verification primitives\<close>

definition to_ascii_lowercase :: "string \<Rightarrow> string" where
  "to_ascii_lowercase s = map (\<lambda>b. if is_upper_byte b then char_of (byte_val b + 32) else b) s"

fun split_scheme :: "string \<Rightarrow> (string \<times> string) option" where
  "split_scheme [] = None"
| "split_scheme (b # bs) =
     (if starts_with (b # bs) ''://'' then Some ([], drop 3 (b # bs))
      else map_option (\<lambda>(s, r). (b # s, r)) (split_scheme bs))"

definition split_origin :: "string \<Rightarrow> (string \<times> string) option" where
  "split_origin origin =
     (case split_scheme origin of
        None \<Rightarrow> None
      | Some (scheme, rest) \<Rightarrow>
          (case strip_prefix rest ''['' of
             Some after \<Rightarrow>
               (case split_once (CHR '']'') after of
                  None \<Rightarrow> None
                | Some (lit, _) \<Rightarrow> Some (to_ascii_lowercase scheme, to_ascii_lowercase (''['' @ lit @ '']'')))
           | None \<Rightarrow> Some (to_ascii_lowercase scheme, to_ascii_lowercase (takeWhile (\<lambda>b. b \<noteq> CHR ''/'' \<and> b \<noteq> CHR '':'') rest))))"

definition verify_client_data :: "webauthn \<Rightarrow> bytes \<Rightarrow> string \<Rightarrow> bytes \<Rightarrow> string list \<Rightarrow> string + unit" where
  "verify_client_data V json expected_type challenge origins =
     (case wa_client_data V json of
        None \<Rightarrow> Err ''malformed clientDataJSON''
      | Some cd \<Rightarrow>
          if cd_type cd \<noteq> expected_type then Err ''wrong clientData type''
          else if cd_challenge cd \<noteq> wa_b64url V challenge then Err ''challenge mismatch''
          else if cd_cross_origin cd = Some True then Err ''cross-origin ceremony refused''
          else
            let origin = to_ascii_lowercase (cd_origin cd) in
            case split_origin origin of
              None \<Rightarrow> Err ''malformed origin''
            | Some (scheme, host) \<Rightarrow>
                let loopback = host \<in> {''localhost'', ''127.0.0.1'', ''[::1]''} in
                if scheme \<noteq> ''https'' \<and> \<not> (scheme = ''http'' \<and> loopback) then
                  Err ''origin scheme not allowed (need https, or http on loopback)''
                else if origin \<notin> set origins then Err ''origin not allowed''
                else Ok ())"

definition bit_set :: "nat \<Rightarrow> char \<Rightarrow> bool" where
  "bit_set k b \<longleftrightarrow> byte_val b div 2 ^ k mod 2 = 1"

definition parse_auth_data_common :: "webauthn \<Rightarrow> bytes \<Rightarrow> string \<Rightarrow> bool \<Rightarrow> string + unit" where
  "parse_auth_data_common V data rp_id require_uv =
     (if length data < 37 then Err ''authData too short''
      else if take 32 data \<noteq> wa_sha256 V rp_id then Err ''rpIdHash mismatch''
      else if \<not> bit_set 0 (data ! 32) then Err ''user-present flag not set''
      else if require_uv \<and> \<not> bit_set 2 (data ! 32) then Err ''user-verification flag not set (PIN/biometric required)''
      else Ok ())"

definition sign_count :: "bytes \<Rightarrow> u32" where
  "sign_count data = be_val4 (take 4 (drop 33 data))"

definition i64_of :: "cbor \<Rightarrow> int option" where
  "i64_of v = (case v of CInteger i \<Rightarrow> if - (2 ^ 63) \<le> i \<and> i < 2 ^ 63 then Some i else None | _ \<Rightarrow> None)"

definition bytes_of :: "cbor \<Rightarrow> bytes option" where
  "bytes_of v = (case v of CBytes b \<Rightarrow> Some b | _ \<Rightarrow> None)"

definition cose_get :: "(cbor \<times> cbor) list \<Rightarrow> int \<Rightarrow> cbor option" where
  "cose_get m label = map_option snd (find (\<lambda>(k, _). k = CInteger label) m)"

definition parse_cose_key :: "webauthn \<Rightarrow> bytes \<Rightarrow> string + int \<times> bytes" where
  "parse_cose_key V b =
     (case wa_cbor V b of
        None \<Rightarrow> Err ''malformed COSE key''
      | Some (CMap m) \<Rightarrow>
          (case Option.bind (cose_get m 1) i64_of of
             None \<Rightarrow> Err ''COSE key missing kty''
           | Some kty \<Rightarrow>
          (case Option.bind (cose_get m 3) i64_of of
             None \<Rightarrow> Err ''COSE key missing alg''
           | Some alg \<Rightarrow>
          (case Option.bind (cose_get m (- 1)) i64_of of
             None \<Rightarrow> Err ''COSE key missing crv''
           | Some crv \<Rightarrow>
               if kty = 2 \<and> alg = ALG_ES256 then
                 if crv \<noteq> CRV_P256 then Err ''ES256 key must use curve P-256''
                 else (case Option.bind (cose_get m (- 2)) bytes_of of
                         None \<Rightarrow> Err ''EC2 key missing x''
                       | Some x \<Rightarrow>
                      (case Option.bind (cose_get m (- 3)) bytes_of of
                         None \<Rightarrow> Err ''EC2 key missing y''
                       | Some y \<Rightarrow>
                           if length x \<noteq> 32 \<or> length y \<noteq> 32 then Err ''EC2 coordinates must be 32 bytes''
                           else if \<not> wa_p256_key V (CHR 0x04 # x @ y) then Err ''EC2 point is not on curve P-256''
                           else Ok (ALG_ES256, CHR 0x04 # x @ y)))
               else if kty = 1 \<and> alg = ALG_ED25519 then
                 if crv \<noteq> CRV_ED25519 then Err ''Ed25519 key must use curve Ed25519''
                 else (case Option.bind (cose_get m (- 2)) bytes_of of
                         None \<Rightarrow> Err ''OKP key missing x''
                       | Some x \<Rightarrow>
                           if length x \<noteq> 32 then Err ''Ed25519 key must be 32 bytes''
                           else if \<not> wa_ed_key V x then Err ''Ed25519 key is not a valid point''
                           else Ok (ALG_ED25519, x))
               else Err ''unsupported COSE key type/alg (need ES256 or Ed25519)'')))
      | Some _ \<Rightarrow> Err ''COSE key is not a map'')"

definition attested_auth_data :: "(cbor \<times> cbor) list \<Rightarrow> bytes option" where
  "attested_auth_data m =
     (case find (\<lambda>(k, _). k = CText ''authData'') m of None \<Rightarrow> None | Some (_, v) \<Rightarrow> bytes_of v)"

definition parse_attestation_object :: "webauthn \<Rightarrow> bytes \<Rightarrow> string \<Rightarrow> string + bytes \<times> int \<times> bytes \<times> u32" where
  "parse_attestation_object V obj rp_id =
     (case wa_cbor V obj of
        None \<Rightarrow> Err ''malformed attestationObject''
      | Some (CMap m) \<Rightarrow>
          (case attested_auth_data m of
             None \<Rightarrow> Err ''attestationObject missing authData''
           | Some data \<Rightarrow>
               (case parse_auth_data_common V data rp_id True of
                  Inl e \<Rightarrow> Err e
                | Inr _ \<Rightarrow>
                    if \<not> bit_set 6 (data ! 32) then Err ''no attested credential data''
                    else if length data < 55 then Err ''authData too short''
                    else
                      let cred_end = 55 + (byte_val (data ! 53) * 256 + byte_val (data ! 54)) in
                      if length data < cred_end then Err ''authData too short''
                      else (case parse_cose_key V (drop cred_end data) of
                              Inl e \<Rightarrow> Err e
                            | Inr (alg, key) \<Rightarrow> Ok (take (cred_end - 55) (drop 55 data), alg, key, sign_count data))))
      | Some _ \<Rightarrow> Err ''attestationObject is not a map'')"

definition verify_assertion :: "webauthn \<Rightarrow> bytes \<Rightarrow> bytes \<Rightarrow> bytes \<Rightarrow> string \<Rightarrow> int \<Rightarrow> bytes \<Rightarrow> string + u32" where
  "verify_assertion V data json signature rp_id alg public_key =
     (case parse_auth_data_common V data rp_id True of
        Inl e \<Rightarrow> Err e
      | Inr _ \<Rightarrow>
          let signed = data @ wa_sha256 V json in
          if alg = ALG_ES256 then
            if \<not> wa_p256_key V public_key then Err ''bad stored ES256 key''
            else if \<not> wa_p256_sig V signature then Err ''malformed ES256 signature''
            else if \<not> wa_p256_verify V public_key signed signature then Err ''signature verification failed''
            else Ok (sign_count data)
          else if alg = ALG_ED25519 then
            if length public_key \<noteq> 32 \<or> \<not> wa_ed_key V public_key then Err ''bad stored Ed25519 key''
            else if length signature \<noteq> 64 then Err ''malformed Ed25519 signature''
            else if \<not> wa_ed_verify V public_key signed signature then Err ''signature verification failed''
            else Ok (sign_count data)
          else Err ''unsupported credential alg'')"

subsection \<open>Challenges\<close>

text \<open>\<open>min_by_key\<close> keeps the first of several entries with the same key.\<close>

fun min_by_expiry :: "(string \<times> instant) list \<Rightarrow> string option" where
  "min_by_expiry [] = None"
| "min_by_expiry [e] = Some (fst e)"
| "min_by_expiry (e # f # es) = min_by_expiry ((if snd f < snd e then f else e) # es)"

function make_room :: "webauthn \<Rightarrow> nat \<Rightarrow> ('v \<Rightarrow> instant) \<Rightarrow> (string \<times> 'v) list \<Rightarrow> (string \<times> 'v) list" where
  "make_room V cap exp_of m =
     (if length m < cap then m
      else case min_by_expiry (wa_order V (map (\<lambda>(k, v). (k, exp_of v)) m)) of
        None \<Rightarrow> m
      | Some oldest \<Rightarrow>
          if oldest \<in> fst ` set m then make_room V cap exp_of (alist_del oldest m) else m)"
  by pat_completeness auto

lemma alist_del_shorter:
  assumes "k \<in> fst ` set m"
  shows "length (alist_del k m) < length m"
proof -
  obtain e where "e \<in> set m" "fst e = k" using assms by auto
  then show ?thesis unfolding alist_del_def by (intro length_filter_less) auto
qed

termination make_room
  by (relation "measure (\<lambda>(V, cap, f, m). length m)") (use alist_del_shorter in force)+

declare make_room.simps [simp del]

definition new_challenge :: "webauthn \<Rightarrow> instant \<Rightarrow> string \<Rightarrow> bytes \<Rightarrow> purpose \<Rightarrow> auth \<Rightarrow> (string \<times> string) \<times> auth" where
  "new_challenge V t tok challenge p a =
     (let live = filter (\<lambda>(_, _, _, ex). ex > t) (au_challenges a);
          room = make_room V MAX_CHALLENGES (\<lambda>(_, _, ex). ex) live
      in ((tok, wa_b64url V challenge), a\<lparr>au_challenges := alist_put tok (challenge, p, t + CHALLENGE_TTL) room\<rparr>))"

definition take_challenge :: "instant \<Rightarrow> string \<Rightarrow> purpose \<Rightarrow> auth \<Rightarrow> bytes option \<times> auth" where
  "take_challenge t tok p a =
     (case map_of (au_challenges a) tok of
        None \<Rightarrow> (None, a)
      | Some (challenge, q, ex) \<Rightarrow>
          (if q = p \<and> ex > t then Some challenge else None, a\<lparr>au_challenges := alist_del tok (au_challenges a)\<rparr>))"

subsection \<open>Ceremonies\<close>

definition register ::
  "webauthn \<Rightarrow> instant \<Rightarrow> bool \<Rightarrow> string \<Rightarrow> bytes \<Rightarrow> bytes \<Rightarrow> role \<Rightarrow> string \<Rightarrow> bool \<Rightarrow> auth \<Rightarrow> (string + string) \<times> auth" where
  "register V t wr tok json attestation r label require_empty a =
     (case take_challenge t tok Register a of
        (None, a1) \<Rightarrow> (Err ''unknown or expired challenge'', a1)
      | (Some challenge, a1) \<Rightarrow>
          (case verify_client_data V json ''webauthn.create'' challenge (au_origins a1) of
             Inl e \<Rightarrow> (Err e, a1)
           | Inr _ \<Rightarrow>
               (case parse_attestation_object V attestation (au_rp_id a1) of
                  Inl e \<Rightarrow> (Err e, a1)
                | Inr (cred_id, alg, key, counter) \<Rightarrow>
                    let i = wa_b64url V cred_id in
                    if require_empty \<and> au_creds a1 \<noteq> [] then (Err ''setup already completed'', a1)
                    else if i \<in> cr_id ` set (au_creds a1) then (Err ''credential already registered'', a1)
                    else
                      let a2 = a1\<lparr>au_creds := au_creds a1 @
                                 [\<lparr>cr_id = i, cr_alg = alg, cr_public_key = key, cr_counter = counter, cr_role = r, cr_label = label\<rparr>]\<rparr>
                      in case persist wr a2 of
                           (False, a3) \<Rightarrow> (Err ''cannot persist credential store'', a3)
                         | (True, a3) \<Rightarrow> (Ok i, if length (au_creds a3) = 1 then a3\<lparr>au_setup_file := False\<rparr> else a3))))"

fun set_counter :: "string \<Rightarrow> u32 \<Rightarrow> credential list \<Rightarrow> credential list" where
  "set_counter i counter [] = []"
| "set_counter i counter (c # cs) = (if cr_id c = i then c\<lparr>cr_counter := counter\<rparr> # cs else c # set_counter i counter cs)"

text \<open>
  \<open>login\<close> in its two parts: the verification under the lock of the credentials, and the session, which is
  created after that lock is released.
\<close>

definition login_verify ::
  "webauthn \<Rightarrow> instant \<Rightarrow> bool \<Rightarrow> string \<Rightarrow> string \<Rightarrow> bytes \<Rightarrow> bytes \<Rightarrow> bytes \<Rightarrow> auth \<Rightarrow> (string + string \<times> role) \<times> auth" where
  "login_verify V t wr tok i json data signature a =
     (case take_challenge t tok Login a of
        (None, a1) \<Rightarrow> (Err ''unknown or expired challenge'', a1)
      | (Some challenge, a1) \<Rightarrow>
          (case verify_client_data V json ''webauthn.get'' challenge (au_origins a1) of
             Inl e \<Rightarrow> (Err e, a1)
           | Inr _ \<Rightarrow>
               (case find (\<lambda>c. cr_id c = i) (au_creds a1) of
                  None \<Rightarrow> (Err ''unknown credential'', a1)
                | Some cred \<Rightarrow>
                    (case verify_assertion V data json signature (au_rp_id a1) (cr_alg cred) (cr_public_key cred) of
                       Inl e \<Rightarrow> (Err e, a1)
                     | Inr counter \<Rightarrow>
                         if (counter \<noteq> 0 \<or> cr_counter cred \<noteq> 0) \<and> counter \<le> cr_counter cred then
                           (Err ''authenticator counter regressed (possible cloned credential)'', a1)
                         else
                           let a2 = (if counter > cr_counter cred
                                     then snd (persist wr (a1\<lparr>au_creds := set_counter i counter (au_creds a1)\<rparr>))
                                     else a1)
                           in (Ok (cr_id cred, cr_role cred), a2)))))"

definition login_session :: "webauthn \<Rightarrow> instant \<Rightarrow> string \<Rightarrow> string \<Rightarrow> role \<Rightarrow> auth \<Rightarrow> auth" where
  "login_session V t fresh cred_id r a =
     (let live = filter (\<lambda>(_, s). ss_expires s > t) (au_sessions a);
          room = make_room V MAX_SESSIONS ss_expires live
      in a\<lparr>au_sessions := alist_put fresh \<lparr>ss_cred_id = cred_id, ss_role = r, ss_expires = t + SESSION_TTL\<rparr> room\<rparr>)"

definition login ::
  "webauthn \<Rightarrow> instant \<Rightarrow> bool \<Rightarrow> string \<Rightarrow> string \<Rightarrow> string \<Rightarrow> bytes \<Rightarrow> bytes \<Rightarrow> bytes \<Rightarrow> auth \<Rightarrow> (string + string \<times> role) \<times> auth" where
  "login V t wr fresh tok i json data signature a =
     (case login_verify V t wr tok i json data signature a of
        (Inl e, a1) \<Rightarrow> (Err e, a1)
      | (Inr (cred_id, r), a1) \<Rightarrow> (Ok (fresh, r), login_session V t fresh cred_id r a1))"

subsection \<open>Sessions and credentials\<close>

definition session_info :: "instant \<Rightarrow> string \<Rightarrow> auth \<Rightarrow> (string \<times> role) option \<times> auth" where
  "session_info t tok a =
     (case map_of (au_sessions a) tok of
        None \<Rightarrow> (None, a)
      | Some s \<Rightarrow>
          if ss_expires s > t then (Some (ss_cred_id s, ss_role s), a)
          else (None, a\<lparr>au_sessions := alist_del tok (au_sessions a)\<rparr>))"

definition session_role :: "instant \<Rightarrow> string \<Rightarrow> auth \<Rightarrow> role option \<times> auth" where
  "session_role t tok a =
     (case map_of (au_sessions a) tok of
        None \<Rightarrow> (None, a)
      | Some s \<Rightarrow>
          if ss_expires s > t then (Some (ss_role s), a)
          else (None, a\<lparr>au_sessions := alist_del tok (au_sessions a)\<rparr>))"

definition logout :: "string \<Rightarrow> auth \<Rightarrow> auth" where
  "logout tok a = a\<lparr>au_sessions := alist_del tok (au_sessions a)\<rparr>"

fun remove_first :: "string \<Rightarrow> credential list \<Rightarrow> credential list" where
  "remove_first i [] = []"
| "remove_first i (c # cs) = (if cr_id c = i then cs else c # remove_first i cs)"

definition remove_credential :: "bool \<Rightarrow> string \<Rightarrow> auth \<Rightarrow> (string + unit) \<times> auth" where
  "remove_credential wr i a =
     (case find (\<lambda>c. cr_id c = i) (au_creds a) of
        None \<Rightarrow> (Err ''unknown credential'', a)
      | Some c \<Rightarrow>
          let admins = length (filter (\<lambda>c. cr_role c = Administrator) (au_creds a)) in
          if cr_role c = Administrator \<and> admins = 1 then (Err ''refusing to delete the last administrator credential'', a)
          else
            let a1 = a\<lparr>au_creds := remove_first i (au_creds a),
                       au_sessions := filter (\<lambda>(_, s). ss_cred_id s \<noteq> i) (au_sessions a)\<rparr>
            in case persist wr a1 of
                 (True, a2) \<Rightarrow> (Ok (), a2)
               | (False, a2) \<Rightarrow> (Err ''cannot persist credential store'', a2))"

end
