(* ===== verification/Ui_Gate.thy ===== *)
theory Ui_Gate
  imports Ui_Auth "HOL-Library.List_Lexorder" "HOL-Library.Char_ord"
begin

text \<open>
  The request handlers of the web front end (\<open>src/relayfabric-ui/src/main.rs\<close>): the allow lists built at
  start-up, the Host, Origin and path guards, the role gate in front of the admin API, the \<open>/auth/*\<close>
  endpoints and the static files. A request is its method, path, headers and body; what is sent to the
  browser is a value of \<open>ui_response\<close>, where \<open>UForward\<close> stands for handing the request to the admin socket.
  JSON bodies and base64url are parameters.
\<close>

record request =
  rq_method :: string
  rq_path :: string
  rq_headers :: "(string \<times> string) list"
  rq_body :: bytes

record login_body =
  lb_challenge_token :: string
  lb_id :: string
  lb_client_data_json :: string
  lb_authenticator_data :: string
  lb_signature :: string

record register_body =
  rb_challenge_token :: string
  rb_client_data_json :: string
  rb_attestation_object :: string
  rb_role :: "role option"
  rb_label :: string

record bodies =
  bo_login :: "bytes \<Rightarrow> login_body option"
  bo_register :: "bytes \<Rightarrow> register_body option"
  bo_b64url_decode :: "string \<Rightarrow> bytes option"

record app_state =
  ap_hosts :: "string list"
  ap_origins :: "string list"
  ap_no_auth :: bool

datatype ui_response =
    UStatus nat string
  | USession "(string \<times> role) option" bool
  | UNoAuth
  | UChallenge string string
  | ULoggedIn string role bool
  | URegistered string role
  | ULoggedOut bool
  | UCredentials "(string \<times> role \<times> string) list"
  | UForward
  | UFile string

unbundle bit_operations_syntax

subsection \<open>Start-up\<close>

fun split_on :: "char \<Rightarrow> string \<Rightarrow> string list" where
  "split_on c [] = [[]]"
| "split_on c (b # bs) =
     (if b = c then [] # split_on c bs
      else case split_on c bs of [] \<Rightarrow> [[b]] | s # ss \<Rightarrow> (b # s) # ss)"

definition rsplit_once :: "char \<Rightarrow> string \<Rightarrow> (string \<times> string) option" where
  "rsplit_once c s = map_option (\<lambda>(a, b). (rev b, rev a)) (split_once c (rev s))"

definition host_of :: "string \<Rightarrow> string" where
  "host_of v =
     (let plain = (case rsplit_once (CHR '':'') v of
                     Some (h, p) \<Rightarrow> if p \<noteq> [] \<and> list_all is_digit_byte p then h else v
                   | None \<Rightarrow> v)
      in case strip_prefix v ''['' of
           Some rest \<Rightarrow> (case split_once (CHR '']'') rest of Some (lit, _) \<Rightarrow> ''['' @ lit @ '']'' | None \<Rightarrow> plain)
         | None \<Rightarrow> plain)"

definition allowed_hosts :: "string \<Rightarrow> string list \<Rightarrow> string list" where
  "allowed_hosts listen extra_hosts =
     remdups_adj (sort ([''localhost'', ''127.0.0.1'', ''::1'', ''[::1]'', to_ascii_lowercase (host_of listen)] @ extra_hosts))"

definition allowed_origins :: "string \<Rightarrow> string list \<Rightarrow> string list \<Rightarrow> string list" where
  "allowed_origins listen extra_hosts extra_origins =
     (let port = (case rsplit_once (CHR '':'') listen of Some (_, p) \<Rightarrow> p | None \<Rightarrow> ''80'');
          http_port = (if port = ''80'' then [] else '':'' @ port)
      in remdups_adj (sort (map (\<lambda>h. ''http://'' @ h @ http_port) [''localhost'', ''127.0.0.1'', ''[::1]''] @
           map (\<lambda>h. ''https://'' @ h) extra_hosts @ extra_origins)))"

definition default_rp_id :: "string list \<Rightarrow> string" where
  "default_rp_id hosts =
     (case find (\<lambda>h. list_ex (\<lambda>b. is_upper_byte b \<or> is_lower_byte b) h \<and> h \<noteq> ''localhost'') hosts of
        Some h \<Rightarrow> h | None \<Rightarrow> ''localhost'')"

subsection \<open>Guards\<close>

definition is_state_changing :: "string \<Rightarrow> bool" where
  "is_state_changing m \<longleftrightarrow> m \<in> {''POST'', ''PUT'', ''DELETE'', ''PATCH''}"

definition host_allowed :: "request \<Rightarrow> string list \<Rightarrow> bool" where
  "host_allowed rq allowed =
     (case map_of (rq_headers rq) ''host'' of Some h \<Rightarrow> to_ascii_lowercase (host_of h) \<in> set allowed | None \<Rightarrow> False)"

definition trim_end_slash :: "string \<Rightarrow> string" where
  "trim_end_slash s = rev (dropWhile (\<lambda>b. b = CHR ''/'') (rev s))"

definition origin_allowed :: "request \<Rightarrow> string list \<Rightarrow> bool" where
  "origin_allowed rq allowed =
     (if (case map_of (rq_headers rq) ''sec-fetch-site'' of Some site \<Rightarrow> site \<noteq> ''same-origin'' \<and> site \<noteq> ''none'' | None \<Rightarrow> False) then False
      else case map_of (rq_headers rq) ''origin'' of
             None \<Rightarrow> True
           | Some og \<Rightarrow> og \<noteq> ''null'' \<and> to_ascii_lowercase (trim_end_slash og) \<in> set allowed)"

definition cookie_secure :: "request \<Rightarrow> bool" where
  "cookie_secure rq =
     (case map_of (rq_headers rq) ''origin'' of Some og \<Rightarrow> \<not> starts_with (to_ascii_lowercase og) ''http://'' | None \<Rightarrow> True)"

definition session_token :: "request \<Rightarrow> string option" where
  "session_token rq =
     (case map_of (rq_headers rq) ''cookie'' of
        None \<Rightarrow> None
      | Some cookies \<Rightarrow>
          (case filter (\<lambda>kv. fst kv = ''rfui_session'') (List.map_filter (\<lambda>c. split_once (CHR ''='') (trim_chars c)) (split_on (CHR '';'') cookies)) of
             [] \<Rightarrow> None
           | (_, v) # _ \<Rightarrow> Some v))"

text \<open>The comparison of the setup token takes the same time for every content.\<close>

definition ct_eq :: "bytes \<Rightarrow> bytes \<Rightarrow> bool" where
  "ct_eq a b =
     (if length a \<noteq> length b then False
      else fold (\<lambda>(x, y) diff. diff OR (byte_val x XOR byte_val y)) (zip a b) 0 = 0)"

fun str_contains :: "string \<Rightarrow> string \<Rightarrow> bool" where
  "str_contains [] p = (p = [])"
| "str_contains (b # bs) p = (starts_with (b # bs) p \<or> str_contains bs p)"

definition canonical_path :: "string \<Rightarrow> bool" where
  "canonical_path p \<longleftrightarrow> \<not> (CHR ''%'' \<in> set p \<or> list_ex (\<lambda>seg. seg = ''..'' \<or> seg = ''.'') (split_on (CHR ''/'') p) \<or> str_contains p ''//'')"

text \<open>The reverse proxy up to the forwarding.\<close>

definition proxy :: "instant \<Rightarrow> app_state \<Rightarrow> request \<Rightarrow> auth \<Rightarrow> ui_response \<times> auth" where
  "proxy t st rq a =
     (if \<not> host_allowed rq (ap_hosts st) then (UStatus 403 ''host not allowed'', a)
      else if is_state_changing (rq_method rq) \<and> \<not> origin_allowed rq (ap_origins st) then (UStatus 403 ''cross-origin request refused'', a)
      else if \<not> canonical_path (rq_path rq) then (UStatus 400 ''non-canonical request path'', a)
      else if ap_no_auth st then (UForward, a)
      else case session_token rq of
             None \<Rightarrow> (UStatus 401 ''authentication required'', a)
           | Some tok \<Rightarrow>
               (case session_role t tok a of
                  (None, a1) \<Rightarrow> (UStatus 401 ''authentication required'', a1)
                | (Some r, a1) \<Rightarrow>
                    (if permits r (rq_method rq) (rq_path rq) then UForward else UStatus 403 ''role does not permit this action'', a1)))"

text \<open>Headers that reach the admin socket: the first loop drops the hop-by-hop and framing headers.\<close>

definition HOP_BY_HOP :: "string list" where
  "HOP_BY_HOP = [''connection'', ''keep-alive'', ''proxy-authenticate'', ''proxy-authorization'', ''te'', ''trailer'', ''transfer-encoding'',
     ''upgrade'', ''content-length'', ''host'']"

definition forward_headers :: "(string \<times> string) list \<Rightarrow> (string \<times> string) list" where
  "forward_headers hs =
     alist_put ''host'' ''localhost'' (fold (\<lambda>(k, v) m. if k \<in> set HOP_BY_HOP then m else alist_put k v m) hs [])"

subsection \<open>The auth endpoints\<close>

definition bootstrap :: "request \<Rightarrow> auth \<Rightarrow> bool" where
  "bootstrap rq a \<longleftrightarrow> \<not> has_credentials a \<and>
     (case map_of (rq_headers rq) ''x-setup-token'' of Some h \<Rightarrow> ct_eq h (au_setup_token a) | None \<Rightarrow> False)"

definition do_login :: "webauthn \<Rightarrow> bodies \<Rightarrow> instant \<Rightarrow> bool \<Rightarrow> string \<Rightarrow> request \<Rightarrow> auth \<Rightarrow> ui_response \<times> auth" where
  "do_login V B t wr fresh rq a =
     (case bo_login B (rq_body rq) of
        None \<Rightarrow> (UStatus 400 ''malformed login body'', a)
      | Some l \<Rightarrow>
          (case (bo_b64url_decode B (lb_client_data_json l), bo_b64url_decode B (lb_authenticator_data l), bo_b64url_decode B (lb_signature l)) of
             (Some cdj, Some ad, Some sig) \<Rightarrow>
               (case login V t wr fresh (lb_challenge_token l) (lb_id l) cdj ad sig a of
                  (Inr (tok, r), a1) \<Rightarrow> (ULoggedIn tok r (cookie_secure rq), a1)
                | (Inl e, a1) \<Rightarrow> (UStatus 401 e, a1))
           | _ \<Rightarrow> (UStatus 400 ''malformed base64url field'', a)))"

definition do_register :: "webauthn \<Rightarrow> bodies \<Rightarrow> instant \<Rightarrow> bool \<Rightarrow> bool \<Rightarrow> request \<Rightarrow> auth \<Rightarrow> ui_response \<times> auth" where
  "do_register V B t wr is_admin rq a =
     (if \<not> is_admin \<and> \<not> bootstrap rq a then (UStatus 403 ''registration requires administrator'', a)
      else case bo_register B (rq_body rq) of
        None \<Rightarrow> (UStatus 400 ''malformed register body'', a)
      | Some r \<Rightarrow>
          (case (bo_b64url_decode B (rb_client_data_json r), bo_b64url_decode B (rb_attestation_object r)) of
             (Some cdj, Some ao) \<Rightarrow>
               let rl = (if bootstrap rq a then Administrator else case rb_role r of Some x \<Rightarrow> x | None \<Rightarrow> Viewer)
               in (case register V t wr (rb_challenge_token r) cdj ao rl (rb_label r) (bootstrap rq a) a of
                     (Inr i, a1) \<Rightarrow> (URegistered i rl, a1)
                   | (Inl e, a1) \<Rightarrow> (UStatus 400 e, a1))
           | _ \<Rightarrow> (UStatus 400 ''malformed base64url field'', a)))"

function trim_prefix :: "string \<Rightarrow> string \<Rightarrow> string" where
  "trim_prefix p s = (if p \<noteq> [] \<and> starts_with s p then trim_prefix p (drop (length p) s) else s)"
  by pat_completeness auto

termination trim_prefix
proof (relation "measure (\<lambda>(p, s). length s)")
  fix p s :: string assume "p \<noteq> [] \<and> starts_with s p"
  then have "p \<noteq> []" "s \<noteq> []" by (auto simp: starts_with_def)
  then show "((p, drop (length p) s), (p, s)) \<in> measure (\<lambda>(p, s). length s)" by simp
qed simp

declare trim_prefix.simps [simp del]

definition do_remove :: "bool \<Rightarrow> bool \<Rightarrow> string \<Rightarrow> auth \<Rightarrow> ui_response \<times> auth" where
  "do_remove wr is_admin path a =
     (if \<not> is_admin then (UStatus 403 ''administrator only'', a)
      else case remove_credential wr (trim_prefix ''/auth/credentials/'' path) a of
        (Inr _, a1) \<Rightarrow> (UStatus 204 [], a1)
      | (Inl e, a1) \<Rightarrow>
          (if e = ''unknown credential'' then UStatus 404 []
           else if e = ''cannot persist credential store'' then UStatus 500 e
           else UStatus 409 e, a1))"

text \<open>
  \<open>rnd\<close> is the randomness of a challenge (token and bytes), \<open>fresh\<close> that of a session; \<open>body_ok\<close> says whether the
  body fits the limit of one MiB.
\<close>

definition auth_endpoint ::
  "webauthn \<Rightarrow> bodies \<Rightarrow> instant \<Rightarrow> bool \<Rightarrow> bool \<Rightarrow> string \<Rightarrow> string \<times> bytes \<Rightarrow> app_state \<Rightarrow> request \<Rightarrow> auth \<Rightarrow> ui_response \<times> auth" where
  "auth_endpoint V B t wr body_ok fresh rnd st rq a0 =
     (if \<not> host_allowed rq (ap_hosts st) then (UStatus 403 ''host not allowed'', a0)
      else if is_state_changing (rq_method rq) \<and> \<not> origin_allowed rq (ap_origins st) then (UStatus 403 ''cross-origin request refused'', a0)
      else if ap_no_auth st then (UNoAuth, a0)
      else
        case (case session_token rq of None \<Rightarrow> (None, a0) | Some tok \<Rightarrow> session_info t tok a0) of
          (session, a) \<Rightarrow>
            let is_admin = (case session of Some (_, Administrator) \<Rightarrow> True | _ \<Rightarrow> False);
                m = rq_method rq; p = rq_path rq
            in if \<not> body_ok then (UStatus 413 ''body too large'', a)
               else if m = ''GET'' \<and> p = ''/auth/session'' then
                 (USession session (session = None \<and> \<not> has_credentials a), a)
               else if m = ''POST'' \<and> p = ''/auth/login/options'' then
                 (case new_challenge V t (fst rnd) (snd rnd) Login a of ((tok, ch), a1) \<Rightarrow> (UChallenge tok ch, a1))
               else if m = ''POST'' \<and> p = ''/auth/login'' then do_login V B t wr fresh rq a
               else if m = ''POST'' \<and> p = ''/auth/register/options'' then
                 (if \<not> is_admin \<and> \<not> bootstrap rq a then (UStatus 403 ''registration requires administrator'', a)
                  else case new_challenge V t (fst rnd) (snd rnd) Register a of ((tok, ch), a1) \<Rightarrow> (UChallenge tok ch, a1))
               else if m = ''POST'' \<and> p = ''/auth/register'' then do_register V B t wr is_admin rq a
               else if m = ''POST'' \<and> p = ''/auth/logout'' then
                 (ULoggedOut (cookie_secure rq), case session_token rq of Some tok \<Rightarrow> logout tok a | None \<Rightarrow> a)
               else if m = ''GET'' \<and> p = ''/auth/credentials'' then
                 (if \<not> is_admin then UStatus 403 ''administrator only''
                  else UCredentials (map (\<lambda>c. (cr_id c, cr_role c, cr_label c)) (au_creds a)), a)
               else if m = ''DELETE'' \<and> starts_with p ''/auth/credentials/'' then do_remove wr is_admin p a
               else (UStatus 404 [], a))"

subsection \<open>Static files\<close>

text \<open>\<open>readable\<close> says which paths below the web directory can be read.\<close>

definition static_file :: "app_state \<Rightarrow> (string \<Rightarrow> bool) \<Rightarrow> request \<Rightarrow> ui_response" where
  "static_file st readable rq =
     (if \<not> host_allowed rq (ap_hosts st) then UStatus 403 ''host not allowed''
      else
        let rel = (if rq_path rq = ''/'' then ''index.html'' else dropWhile (\<lambda>b. b = CHR ''/'') (rq_path rq)) in
        if list_ex (\<lambda>seg. seg = ''..'' \<or> seg = []) (split_on (CHR ''/'') rel) then UStatus 400 []
        else if readable rel then UFile rel
        else if CHR ''.'' \<notin> set rel \<and> readable ''index.html'' then UFile ''index.html''
        else UStatus 404 [])"

end
