(* ===== verification/Ui_Props.thy ===== *)
theory Ui_Props
  imports Ui_Gate
begin

text \<open>
  The web front end: who gets a session, what a session may reach, and what the credential store keeps
  invariant over every sequence of requests; and where the code falls short of its comments.
\<close>

subsection \<open>Bounded maps\<close>

text \<open>What the code relies on of the standard library's map iteration: every entry is visited.\<close>

definition order_ok :: "webauthn \<Rightarrow> bool" where
  "order_ok V \<longleftrightarrow> (\<forall>xs. set (wa_order V xs) = set xs)"

lemma min_by_expiry_spec:
  "xs \<noteq> [] \<Longrightarrow> \<exists>k u. min_by_expiry xs = Some k \<and> (k, u) \<in> set xs \<and> (\<forall>(k', u') \<in> set xs. u \<le> u')"
proof (induction xs rule: min_by_expiry.induct)
  case (2 e) then show ?case by (cases e) auto
next
  case (3 e f es)
  let ?m = "if snd f < snd e then f else e"
  from 3 obtain k u where "min_by_expiry (?m # es) = Some k" "(k, u) \<in> set (?m # es)" "\<forall>(k', u') \<in> set (?m # es). u \<le> u'" by blast
  moreover have "?m \<in> {e, f}" "snd ?m \<le> snd e" "snd ?m \<le> snd f" by auto
  ultimately show ?case by (intro exI[of _ k] exI[of _ u]) (force split: if_splits)
qed simp

lemma make_room_cases:
  assumes "order_ok V" "0 < cap" "cap \<le> length m"
  obtains k v where "(k, v) \<in> set m" "\<forall>(k', v') \<in> set m. f v \<le> f v'" "make_room V cap f m = make_room V cap f (alist_del k m)"
proof -
  let ?xs = "map (\<lambda>(k, v). (k, f v)) m"
  have "?xs \<noteq> []" using assms(2,3) by auto
  then have "wa_order V ?xs \<noteq> []" using assms(1) by (metis order_ok_def set_empty)
  from min_by_expiry_spec[OF this] obtain k u where k: "min_by_expiry (wa_order V ?xs) = Some k" "(k, u) \<in> set ?xs" "\<forall>(k', u') \<in> set ?xs. u \<le> u'"
    using assms(1) unfolding order_ok_def by metis
  then obtain v where v: "(k, v) \<in> set m" "u = f v" by auto
  moreover have "make_room V cap f m = make_room V cap f (alist_del k m)"
    using k(1) v(1) assms(3) by (subst make_room.simps) (force simp: image_iff)
  moreover have "\<forall>(k', v') \<in> set m. f v \<le> f v'" using k(3) v(2) by fastforce
  ultimately show ?thesis using that[of k v] by blast
qed

lemma make_room_subset: "set (make_room V cap f m) \<subseteq> set m"
proof (induction V cap f m rule: make_room.induct)
  case (1 V cap f m)
  then show ?case by (subst make_room.simps) (auto simp: alist_del_def split: option.split)
qed

lemma make_room_length: "order_ok V \<Longrightarrow> 0 < cap \<Longrightarrow> length (make_room V cap f m) < cap"
proof (induction "length m" arbitrary: m rule: less_induct)
  case less
  show ?case
  proof (cases "length m < cap")
    case True then show ?thesis by (subst make_room.simps) simp
  next
    case False
    then have "cap \<le> length m" by simp
    from make_room_cases[OF less.prems this, of f] obtain k v where
      k: "(k, v) \<in> set m" "make_room V cap f m = make_room V cap f (alist_del k m)" by blast
    have "length (alist_del k m) < length m" using k(1) by (intro alist_del_shorter) force
    from less.hyps[OF this less.prems] show ?thesis by (simp add: k(2))
  qed
qed

lemma alist_put_length: "length (alist_put k v m) \<le> Suc (length m)"
  by (simp add: alist_put_def le_SucI)

subsection \<open>Who gets a session\<close>

definition client_data_ok :: "webauthn \<Rightarrow> bytes \<Rightarrow> string \<Rightarrow> bytes \<Rightarrow> string list \<Rightarrow> bool" where
  "client_data_ok V json ty challenge origins \<longleftrightarrow> (\<exists>cd. wa_client_data V json = Some cd \<and> cd_type cd = ty \<and>
     cd_challenge cd = wa_b64url V challenge \<and> cd_cross_origin cd \<noteq> Some True \<and> to_ascii_lowercase (cd_origin cd) \<in> set origins)"

definition user_verified :: "webauthn \<Rightarrow> bytes \<Rightarrow> string \<Rightarrow> bool" where
  "user_verified V data rp \<longleftrightarrow> 37 \<le> length data \<and> take 32 data = wa_sha256 V rp \<and> bit_set 0 (data ! 32) \<and> bit_set 2 (data ! 32)"

definition signed_by :: "webauthn \<Rightarrow> credential \<Rightarrow> bytes \<Rightarrow> bytes \<Rightarrow> bool" where
  "signed_by V c m signature \<longleftrightarrow>
     (cr_alg c = ALG_ES256 \<and> wa_p256_verify V (cr_public_key c) m signature) \<or>
     (cr_alg c = ALG_ED25519 \<and> wa_ed_verify V (cr_public_key c) m signature)"

lemma verify_client_data_ok: "verify_client_data V json ty ch og = Ok u \<Longrightarrow> client_data_ok V json ty ch og"
  by (auto simp: verify_client_data_def client_data_ok_def Let_def split: option.splits if_splits)

lemma verify_assertion_ok:
  assumes "verify_assertion V data json sg rp (cr_alg c) (cr_public_key c) = Ok n"
  shows "user_verified V data rp" "signed_by V c (data @ wa_sha256 V json) sg" "n = sign_count data"
  using assms by (auto simp: verify_assertion_def parse_auth_data_common_def user_verified_def signed_by_def Let_def split: sum.splits if_splits)

lemma take_challenge_some:
  "take_challenge t tok p a = (Some ch, a1) \<Longrightarrow>
   \<exists>ex. map_of (au_challenges a) tok = Some (ch, p, ex) \<and> t < ex \<and> a1 = a\<lparr>au_challenges := alist_del tok (au_challenges a)\<rparr>"
  by (auto simp: take_challenge_def split: option.splits if_splits)

text \<open>Everything a successful verification has established.\<close>

lemma login_verify_ok:
  assumes "login_verify V t wr tok i json data sg a = (Ok (cid, r), a1)"
  obtains ch ex c where "map_of (au_challenges a) tok = Some (ch, Login, ex)" "t < ex"
    "client_data_ok V json ''webauthn.get'' ch (au_origins a)" "find (\<lambda>c. cr_id c = i) (au_creds a) = Some c" "cid = i" "r = cr_role c"
    "user_verified V data (au_rp_id a)" "signed_by V c (data @ wa_sha256 V json) sg"
    "sign_count data > cr_counter c \<or> (sign_count data = 0 \<and> cr_counter c = 0)"
    "au_challenges a1 = alist_del tok (au_challenges a)" "au_sessions a1 = au_sessions a"
    "au_creds a1 = (if sign_count data > cr_counter c then set_counter i (sign_count data) (au_creds a) else au_creds a)"
proof -
  obtain ch ax where tc: "take_challenge t tok Login a = (Some ch, ax)"
    using assms by (auto simp: login_verify_def split: prod.splits option.splits)
  obtain ex where ex: "map_of (au_challenges a) tok = Some (ch, Login, ex)" "t < ex" "ax = a\<lparr>au_challenges := alist_del tok (au_challenges a)\<rparr>"
    using take_challenge_some[OF tc] by blast
  from assms obtain u c n where
    v: "verify_client_data V json ''webauthn.get'' ch (au_origins a) = Ok u" "find (\<lambda>c. cr_id c = i) (au_creds a) = Some c"
      "verify_assertion V data json sg (au_rp_id a) (cr_alg c) (cr_public_key c) = Ok n"
      "\<not> ((n \<noteq> 0 \<or> cr_counter c \<noteq> 0) \<and> n \<le> cr_counter c)" "cid = cr_id c" "r = cr_role c"
      "a1 = (if n > cr_counter c then snd (persist wr (ax\<lparr>au_creds := set_counter i n (au_creds a)\<rparr>)) else ax)"
    unfolding login_verify_def by (auto simp: tc ex(3) Let_def split: sum.splits option.splits if_splits)
  have "cr_id c = i" using v(2) by (auto simp: find_Some_iff)
  moreover have "n > cr_counter c \<or> (n = 0 \<and> cr_counter c = 0)" using v(4) by (auto simp: not_le)
  ultimately show ?thesis
    using that[OF ex(1,2) verify_client_data_ok[OF v(1)] v(2)] v verify_assertion_ok[OF v(3)] by (simp add: persist_def ex(3))
qed

text \<open>
  C26: A session is only for the holder of a passkey. When a login succeeds, the challenge it names was issued
  for logins, has not expired and cannot be used again; the browser's client data are for this challenge, of an
  allowed origin and not cross-origin; the credential is registered and its role is the session's; the authenticator
  reports the relying party, the user's presence and verification, under a signature by the registered
  key; and its counter grew, or is zero as it always was.
\<close>

theorem login_only_by_passkey:
  assumes "login V t wr fresh tok i json data sg a = (Ok (s, r), a')"
  shows "s = fresh \<and> (\<exists>ch ex c. map_of (au_challenges a) tok = Some (ch, Login, ex) \<and> t < ex \<and> map_of (au_challenges a') tok = None \<and>
    client_data_ok V json ''webauthn.get'' ch (au_origins a) \<and> find (\<lambda>c. cr_id c = i) (au_creds a) = Some c \<and> r = cr_role c \<and>
    user_verified V data (au_rp_id a) \<and> signed_by V c (data @ wa_sha256 V json) sg \<and>
    (sign_count data > cr_counter c \<or> (sign_count data = 0 \<and> cr_counter c = 0)))"
proof -
  obtain cid a1 where l: "login_verify V t wr tok i json data sg a = (Ok (cid, r), a1)" "s = fresh" "a' = login_session V t fresh cid r a1"
    using assms by (auto simp: login_def split: prod.splits sum.splits)
  show ?thesis by (rule login_verify_ok[OF l(1)]) (use l in \<open>auto simp: login_session_def Let_def\<close>)
qed

subsection \<open>The credential store over a run of requests\<close>

inductive ui_step :: "webauthn \<Rightarrow> bodies \<Rightarrow> app_state \<Rightarrow> auth \<Rightarrow> auth \<Rightarrow> bool" for V B st where
  ui_endpoint: "ui_step V B st a (snd (auth_endpoint V B t wr body_ok fresh rnd st rq a))"
| ui_proxied: "ui_step V B st a (snd (proxy t st rq a))"

definition session_backed :: "credential list \<Rightarrow> string \<times> session \<Rightarrow> bool" where
  "session_backed cs e \<longleftrightarrow> (\<exists>c \<in> set cs. cr_id c = ss_cred_id (snd e) \<and> cr_role c = ss_role (snd e))"

definition auth_inv :: "auth \<Rightarrow> bool" where
  "auth_inv a \<longleftrightarrow> distinct (map cr_id (au_creds a)) \<and>
     (au_creds a \<noteq> [] \<longrightarrow> list_ex (\<lambda>c. cr_role c = Administrator) (au_creds a)) \<and>
     list_all (session_backed (au_creds a)) (au_sessions a) \<and>
     length (au_sessions a) \<le> MAX_SESSIONS \<and> length (au_challenges a) \<le> MAX_CHALLENGES"

lemma auth_inv_fewer:
  assumes "auth_inv a" "au_creds a' = au_creds a" "set (au_sessions a') \<subseteq> set (au_sessions a)" "length (au_sessions a') \<le> length (au_sessions a)"
    and "length (au_challenges a') \<le> MAX_CHALLENGES"
  shows "auth_inv a'"
  using assms by (auto simp: auth_inv_def list_all_iff)

lemma alist_del_fewer: "set (alist_del k m) \<subseteq> set m" "length (alist_del k m) \<le> length m"
  by (auto simp: alist_del_def)

lemma drop_session_inv: "auth_inv a \<Longrightarrow> auth_inv (a\<lparr>au_sessions := alist_del tok (au_sessions a)\<rparr>)"
  by (rule auth_inv_fewer[of a]) (simp_all add: alist_del_fewer, simp add: auth_inv_def)

lemma session_info_inv: "auth_inv a \<Longrightarrow> auth_inv (snd (session_info t tok a))"
  by (simp add: session_info_def drop_session_inv split: option.split)

lemma session_role_inv: "auth_inv a \<Longrightarrow> auth_inv (snd (session_role t tok a))"
  by (simp add: session_role_def drop_session_inv split: option.split)

lemma logout_inv: "auth_inv a \<Longrightarrow> auth_inv (logout tok a)"
  by (simp add: logout_def drop_session_inv)

lemma put_room_length:
  assumes "order_ok V" "0 < cap"
  shows "length (alist_put k v (make_room V cap f m)) \<le> cap"
  using make_room_length[OF assms, of f m] alist_put_length[of k v "make_room V cap f m"] by linarith

lemma caps_pos: "0 < MAX_CHALLENGES" "0 < MAX_SESSIONS"
  by (simp_all add: MAX_CHALLENGES_def MAX_SESSIONS_def)

lemma new_challenge_inv: "order_ok V \<Longrightarrow> auth_inv a \<Longrightarrow> auth_inv (snd (new_challenge V t tok ch p a))"
  by (rule auth_inv_fewer[of a]) (simp_all add: new_challenge_def Let_def put_room_length caps_pos)

lemma take_challenge_frame:
  "au_creds (snd (take_challenge t tok p a)) = au_creds a" "au_sessions (snd (take_challenge t tok p a)) = au_sessions a"
  "length (au_challenges (snd (take_challenge t tok p a))) \<le> length (au_challenges a)"
  "au_origins (snd (take_challenge t tok p a)) = au_origins a" "au_rp_id (snd (take_challenge t tok p a)) = au_rp_id a"
  using alist_del_fewer(2)[of tok "au_challenges a"] by (auto simp: take_challenge_def split: option.split)

lemma take_challenge_inv: "auth_inv a \<Longrightarrow> auth_inv (snd (take_challenge t tok p a))"
  by (rule auth_inv_fewer[of a]) (auto simp: take_challenge_frame auth_inv_def intro: le_trans[OF take_challenge_frame(3)])

lemma persist_file_frame [simp]: "au_creds (snd (persist wr a)) = au_creds a" "au_sessions (snd (persist wr a)) = au_sessions a"
  "au_challenges (snd (persist wr a)) = au_challenges a" "fst (persist wr a) = wr"
  by (simp_all add: persist_def)

text \<open>A registered credential joins the ones before it, whether or not the store could be written.\<close>

lemma register_creds:
  assumes "register V t wr tok json att r label emp a = (res, a')"
  shows "au_sessions a' = au_sessions a" "length (au_challenges a') \<le> length (au_challenges a)"
    "au_creds a' = au_creds a \<or> (\<exists>c. au_creds a' = au_creds a @ [c] \<and> cr_role c = r \<and> cr_id c \<notin> cr_id ` set (au_creds a) \<and> (emp \<longrightarrow> au_creds a = []))"
proof -
  obtain ch a1 where tc: "take_challenge t tok Register a = (ch, a1)" by fastforce
  note f = take_challenge_frame[of t tok Register a, unfolded tc snd_conv]
  show "au_sessions a' = au_sessions a" "length (au_challenges a') \<le> length (au_challenges a)"
    "au_creds a' = au_creds a \<or> (\<exists>c. au_creds a' = au_creds a @ [c] \<and> cr_role c = r \<and> cr_id c \<notin> cr_id ` set (au_creds a) \<and> (emp \<longrightarrow> au_creds a = []))"
    using assms f by (auto simp: register_def tc persist_def Let_def split: option.splits sum.splits prod.splits if_splits)
qed

lemma register_inv:
  assumes "auth_inv a" "register V t wr tok json att r label emp a = (res, a')" "emp \<longrightarrow> r = Administrator" "au_creds a = [] \<longrightarrow> emp"
  shows "auth_inv a'"
proof -
  note rc = register_creds[OF assms(2)]
  have len: "length (au_challenges a') \<le> MAX_CHALLENGES" using rc(2) assms(1) by (simp add: auth_inv_def)
  from rc(3) show ?thesis
  proof (elim disjE exE conjE)
    assume "au_creds a' = au_creds a" then show ?thesis using auth_inv_fewer[OF assms(1), of a'] rc(1) len by simp
  next
    fix c assume c: "au_creds a' = au_creds a @ [c]" "cr_role c = r" "cr_id c \<notin> cr_id ` set (au_creds a)" "emp \<longrightarrow> au_creds a = []"
    then show ?thesis using assms rc(1) len by (auto simp: auth_inv_def list_all_iff session_backed_def)
  qed
qed

lemma set_counter_keys: "map cr_id (set_counter i n cs) = map cr_id cs" "map cr_role (set_counter i n cs) = map cr_role cs"
  by (induction cs) auto

lemma set_counter_nil: "set_counter i n cs = [] \<longleftrightarrow> cs = []"
  by (cases cs) auto

lemma set_counter_backed: "session_backed (set_counter i n cs) e = session_backed cs e"
  by (induction cs) (auto simp: session_backed_def)

lemma set_counter_admin: "list_ex (\<lambda>c. cr_role c = Administrator) (set_counter i n cs) = list_ex (\<lambda>c. cr_role c = Administrator) cs"
  by (induction cs) auto

lemma login_session_inv:
  assumes "order_ok V" "auth_inv a" "session_backed (au_creds a) (k, \<lparr>ss_cred_id = cid, ss_role = r, ss_expires = x\<rparr>)"
  shows "auth_inv (login_session V t fresh cid r a)"
proof -
  let ?live = "filter (\<lambda>(_, s). ss_expires s > t) (au_sessions a)"
  let ?room = "make_room V MAX_SESSIONS ss_expires ?live"
  have "set ?room \<subseteq> set (au_sessions a)" using make_room_subset[of V MAX_SESSIONS ss_expires ?live] by auto
  then have "list_all (session_backed (au_creds a)) ?room" using assms(2) by (auto simp: auth_inv_def list_all_iff)
  then have "list_all (session_backed (au_creds a)) (alist_put fresh \<lparr>ss_cred_id = cid, ss_role = r, ss_expires = t + SESSION_TTL\<rparr> ?room)"
    using assms(3) by (auto simp: alist_put_def list_all_iff) (simp add: session_backed_def)
  moreover have "length (alist_put fresh s ?room) \<le> MAX_SESSIONS" for s by (rule put_room_length[OF assms(1) caps_pos(2)])
  ultimately show ?thesis using assms(2) by (simp add: login_session_def Let_def auth_inv_def)
qed

lemma login_verify_inv:
  assumes "auth_inv a" "login_verify V t wr tok i json data sg a = (res, a1)"
  shows "auth_inv a1"
proof (cases res)
  case (Inl e)
  then have "a1 = snd (take_challenge t tok Login a)"
    using assms(2) by (auto simp: login_verify_def Let_def split: prod.splits option.splits sum.splits if_splits)
  then show ?thesis using take_challenge_inv[OF assms(1)] by simp
next
  case (Inr x)
  obtain cid r where x: "x = (cid, r)" by fastforce
  show ?thesis
    by (rule login_verify_ok[OF assms(2)[unfolded Inr x]])
      (use assms(1) alist_del_fewer(2)[of tok "au_challenges a"] in
        \<open>auto simp: auth_inv_def set_counter_keys set_counter_admin set_counter_backed[abs_def] list_all_iff set_counter_nil\<close>)
qed

lemma login_inv:
  assumes "order_ok V" "auth_inv a"
  shows "auth_inv (snd (login V t wr fresh tok i json data sg a))"
proof -
  obtain res a1 where lv: "login_verify V t wr tok i json data sg a = (res, a1)" by fastforce
  note inv = login_verify_inv[OF assms(2) lv]
  show ?thesis
  proof (cases res)
    case (Inl e) then show ?thesis using lv inv by (simp add: login_def)
  next
    case (Inr x)
    obtain cid r where x: "x = (cid, r)" by fastforce
    have "session_backed (au_creds a1) (k, \<lparr>ss_cred_id = cid, ss_role = r, ss_expires = y\<rparr>)" for k y
      by (rule login_verify_ok[OF lv[unfolded Inr x]]) (auto simp: set_counter_backed, auto simp: session_backed_def find_Some_iff)
    from login_session_inv[OF assms(1) inv this] show ?thesis using lv Inr x by (simp add: login_def)
  qed
qed

lemma remove_first_keys:
  "distinct (map cr_id cs) \<Longrightarrow> set (remove_first i cs) = {c \<in> set cs. cr_id c \<noteq> i}"
  "distinct (map cr_id cs) \<Longrightarrow> distinct (map cr_id (remove_first i cs))"
proof -
  show k: "distinct (map cr_id cs) \<Longrightarrow> set (remove_first i cs) = {c \<in> set cs. cr_id c \<noteq> i}" for cs
    by (induction cs) (auto simp: image_iff)
  show "distinct (map cr_id cs) \<Longrightarrow> distinct (map cr_id (remove_first i cs))"
    by (induction cs) (auto simp: k)
qed

lemma image_const: "\<forall>x \<in> A. f x = y \<Longrightarrow> A \<noteq> {} \<Longrightarrow> f ` A = {y}"
  by auto

lemma other_admin:
  assumes "distinct (map cr_id cs)" "c \<in> set cs" "cr_role c = Administrator" "length (filter (\<lambda>c. cr_role c = Administrator) cs) \<noteq> 1"
  shows "\<exists>d \<in> set cs. cr_role d = Administrator \<and> cr_id d \<noteq> cr_id c"
proof (rule ccontr)
  let ?A = "filter (\<lambda>c. cr_role c = Administrator) cs"
  assume "\<not> ?thesis"
  then have "\<forall>d \<in> set ?A. cr_id d = cr_id c" by auto
  moreover have "set ?A \<noteq> {}" using assms(2,3) by auto
  ultimately have "cr_id ` set ?A = {cr_id c}" by (rule image_const)
  then have "set (map cr_id ?A) = {cr_id c}" by (simp only: set_map)
  moreover have "distinct (map cr_id ?A)" using assms(1) by (rule distinct_map_filter)
  ultimately have "length (map cr_id ?A) = 1" using distinct_card[of "map cr_id ?A"] by simp
  then show False using assms(4) by simp
qed

lemma remove_credential_inv:
  assumes "auth_inv a" "remove_credential wr i a = (res, a')"
  shows "auth_inv a'"
proof (cases "au_creds a' = au_creds a \<and> au_sessions a' = au_sessions a \<and> au_challenges a' = au_challenges a")
  case True then show ?thesis using assms(1) by (simp add: auth_inv_def)
next
  case False
  then obtain c where c: "find (\<lambda>c. cr_id c = i) (au_creds a) = Some c"
    "\<not> (cr_role c = Administrator \<and> length (filter (\<lambda>c. cr_role c = Administrator) (au_creds a)) = 1)"
    "au_creds a' = remove_first i (au_creds a)" "au_sessions a' = filter (\<lambda>(_, s). ss_cred_id s \<noteq> i) (au_sessions a)"
    "au_challenges a' = au_challenges a"
    using assms(2) by (auto simp: remove_credential_def persist_def Let_def split: option.splits if_splits)
  have d: "distinct (map cr_id (au_creds a))" using assms(1) by (simp add: auth_inv_def)
  have i: "c \<in> set (au_creds a)" "cr_id c = i" using c(1) by (auto simp: find_Some_iff)
  have "list_ex (\<lambda>c. cr_role c = Administrator) (remove_first i (au_creds a))"
  proof (cases "cr_role c = Administrator")
    case True
    then show ?thesis using other_admin[OF d i(1)] c(2) i(2) by (auto simp: list_ex_iff remove_first_keys(1)[OF d])
  next
    case False
    then show ?thesis using assms(1) i d by (auto simp: auth_inv_def list_ex_iff remove_first_keys(1)[OF d] distinct_map inj_on_def)
  qed
  moreover have "list_all (session_backed (remove_first i (au_creds a))) (au_sessions a')"
    using assms(1) unfolding c(4) by (fastforce simp: auth_inv_def list_all_iff session_backed_def remove_first_keys(1)[OF d])
  moreover have "length (au_sessions a') \<le> MAX_SESSIONS"
    using assms(1) unfolding c(4) by (auto simp: auth_inv_def intro: le_trans[OF length_filter_le])
  ultimately show ?thesis using assms(1) remove_first_keys(2)[OF d] c(3,5) by (simp add: auth_inv_def)
qed

lemma endpoint_session_inv:
  assumes "auth_inv a" "(case tk of None \<Rightarrow> (None, a) | Some tok \<Rightarrow> session_info t tok a) = (session, a1)"
  shows "auth_inv a1" "session = Some (i, r) \<Longrightarrow> au_creds a1 \<noteq> []"
proof -
  show inv: "auth_inv a1" using assms session_info_inv[OF assms(1)] by (auto split: option.splits) (metis snd_conv)
  assume "session = Some (i, r)"
  with assms(2) obtain tok s where "map_of (au_sessions a1) tok = Some s"
    by (auto simp: session_info_def split: option.splits if_splits)
  then show "au_creds a1 \<noteq> []" using inv map_of_SomeD by (fastforce simp: auth_inv_def list_all_iff session_backed_def)
qed

lemma do_register_inv:
  assumes "auth_inv a" "is_admin \<Longrightarrow> au_creds a \<noteq> []"
  shows "auth_inv (snd (do_register V B t wr is_admin rq a))"
proof -
  have "bootstrap rq a \<Longrightarrow> au_creds a = []" by (simp add: bootstrap_def has_credentials_def)
  then show ?thesis using assms
    by (auto simp: do_register_def Let_def split: option.split sum.splits prod.splits intro: register_inv[OF assms(1)] elim!: register_inv[OF assms(1), rotated])
qed

lemma do_login_inv: "order_ok V \<Longrightarrow> auth_inv a \<Longrightarrow> auth_inv (snd (do_login V B t wr fresh rq a))"
  using login_inv[of V a t wr fresh] by (auto simp: do_login_def split: option.split sum.split prod.split) (metis snd_conv)+

lemma do_remove_inv: "auth_inv a \<Longrightarrow> auth_inv (snd (do_remove wr is_admin p a))"
  by (auto simp: do_remove_def split: sum.split prod.split intro: remove_credential_inv)

lemma auth_endpoint_inv:
  assumes "order_ok V" "auth_inv a"
  shows "auth_inv (snd (auth_endpoint V B t wr body_ok fresh rnd st rq a))"
proof -
  obtain session a1 where s: "(case session_token rq of None \<Rightarrow> (None, a) | Some tok \<Rightarrow> session_info t tok a) = (session, a1)" by fastforce
  note inv = endpoint_session_inv[OF assms(2) s]
  define is_admin where "is_admin \<longleftrightarrow> (case session of Some (_, Administrator) \<Rightarrow> True | _ \<Rightarrow> False)"
  have adm: "is_admin \<Longrightarrow> au_creds a1 \<noteq> []" using inv(2) unfolding is_admin_def by (auto split: option.splits)
  have ch: "auth_inv (snd (case new_challenge V t (fst rnd) (snd rnd) p a1 of ((tok, ch), a2) \<Rightarrow> (UChallenge tok ch, a2)))" for p
    using new_challenge_inv[OF assms(1) inv(1)] by (simp add: split_beta)
  have lo: "auth_inv (case session_token rq of Some tok \<Rightarrow> logout tok a1 | None \<Rightarrow> a1)"
    using logout_inv[OF inv(1)] inv(1) by (simp split: option.split)
  show ?thesis unfolding auth_endpoint_def s prod.case Let_def is_admin_def[symmetric]
    by (simp only: if_distrib[of snd] snd_conv split: if_split)
      (simp only: assms(2) inv(1) ch lo do_login_inv[OF assms(1) inv(1)] do_register_inv[OF inv(1) adm] do_remove_inv[OF inv(1)] simp_thms if_cancel snd_conv)
qed

lemma proxy_inv: "auth_inv a \<Longrightarrow> auth_inv (snd (proxy t st rq a))"
  using session_role_inv[of a t] by (auto simp: proxy_def split: option.split prod.split) (metis snd_conv)+

lemma permits_identities: "permits r m p \<Longrightarrow> starts_with p ''/v1/identities'' \<Longrightarrow> r \<in> {IdentityAdmin, Administrator}"
  by (auto simp: permits_def split: if_splits)

lemma permits_viewer: "permits r m p \<Longrightarrow> is_state_changing m \<Longrightarrow> r \<noteq> Viewer"
  by (auto simp: permits_def is_state_changing_def split: if_splits)

lemma ui_step_inv: "ui_step V B st a a' \<Longrightarrow> order_ok V \<Longrightarrow> auth_inv a \<Longrightarrow> auth_inv a'"
  by (induction rule: ui_step.cases) (simp_all add: auth_endpoint_inv proxy_inv)

interpretation ui_sys: invariant_system "ui_step V B st" "\<lambda>a. order_ok V \<and> auth_inv a" for V B st
  by unfold_locales (auto intro: ui_step_inv)

lemma reachable_inv: "(ui_step V B st)\<^sup>*\<^sup>* a a' \<Longrightarrow> order_ok V \<Longrightarrow> auth_inv a \<Longrightarrow> auth_inv a'"
  using ui_sys.reach_inv by blast

definition store_ok :: "credential list \<Rightarrow> bool" where
  "store_ok cs \<longleftrightarrow> distinct (map cr_id cs) \<and> (cs \<noteq> [] \<longrightarrow> list_ex (\<lambda>c. cr_role c = Administrator) cs)"

lemma auth_open_inv: "store_ok disk \<Longrightarrow> auth_inv (auth_open token rp og disk)"
  by (simp add: auth_inv_def auth_open_def store_ok_def)

text \<open>A concrete library and store: every reader accepts, digests are zero, every signature verifies.\<close>

definition zeros :: "nat \<Rightarrow> bytes" where "zeros n = replicate n (CHR 0x00)"

definition demo_webauthn :: webauthn where
  "demo_webauthn = \<lparr>wa_sha256 = (\<lambda>_. zeros 32),
     wa_client_data = (\<lambda>_. Some \<lparr>cd_type = ''webauthn.get'', cd_challenge = ''c'', cd_origin = ''https://ui.example'', cd_cross_origin = None\<rparr>),
     wa_cbor = (\<lambda>_. None), wa_b64url = (\<lambda>b. b), wa_p256_key = (\<lambda>_. True), wa_p256_sig = (\<lambda>_. True), wa_p256_verify = (\<lambda>_ _ _. True),
     wa_ed_key = (\<lambda>_. True), wa_ed_verify = (\<lambda>_ _ _. True), wa_order = (\<lambda>xs. xs)\<rparr>"

definition demo_cred :: "string \<Rightarrow> role \<Rightarrow> credential" where
  "demo_cred i r = \<lparr>cr_id = i, cr_alg = ALG_ES256, cr_public_key = ''k'', cr_counter = 0, cr_role = r, cr_label = i\<rparr>"

definition demo_auth :: auth where
  "demo_auth = (auth_open ''setup'' ''ui.example'' [''https://ui.example''] [demo_cred ''a'' Administrator, demo_cred ''o'' Operator])
     \<lparr>au_challenges := [(''t'', ''c'', Login, 100)]\<rparr>"

definition demo_data :: bytes where
  "demo_data = zeros 32 @ [CHR 0x05] @ zeros 4"

lemma demo_order_ok: "order_ok demo_webauthn"
  by (simp add: order_ok_def demo_webauthn_def)

lemma demo_login: "\<exists>a'. login demo_webauthn 50 True ''s'' ''t'' ''o'' ''j'' demo_data ''g'' demo_auth = (Ok (''s'', Operator), a')"
proof -
  have "fst (login_verify demo_webauthn 50 True ''t'' ''o'' ''j'' demo_data ''g'' demo_auth) = Ok (''o'', Operator)" by code_simp
  then show ?thesis by (auto simp: login_def split: prod.splits)
qed

theorem login_only_by_passkey_witness:
  "\<exists>a'. map_of (au_challenges a') ''t'' = None \<and> login demo_webauthn 50 True ''s'' ''t'' ''o'' ''j'' demo_data ''g'' demo_auth = (Ok (''s'', Operator), a')"
  using demo_login login_only_by_passkey by blast


definition demo_creds :: "credential list" where
  "demo_creds = [demo_cred ''a'' Administrator, demo_cred ''o'' Operator]"

definition demo_bodies :: bodies where
  "demo_bodies = \<lparr>bo_login = (\<lambda>_. Some \<lparr>lb_challenge_token = ''t'', lb_id = ''o'', lb_client_data_json = ''j'', lb_authenticator_data = demo_data, lb_signature = ''g''\<rparr>),
     bo_register = (\<lambda>_. None), bo_b64url_decode = Some\<rparr>"

definition demo_app :: app_state where
  "demo_app = \<lparr>ap_hosts = [''ui.example''], ap_origins = [''https://ui.example''], ap_no_auth = False\<rparr>"

definition demo_request :: "string \<Rightarrow> string \<Rightarrow> request" where
  "demo_request m p = \<lparr>rq_method = m, rq_path = p, rq_headers = [(''host'', ''ui.example''), (''origin'', ''https://ui.example''), (''cookie'', ''rfui_session=s'')], rq_body = []\<rparr>"

definition demo_run :: auth where
  "demo_run = snd (auth_endpoint demo_webauthn demo_bodies 50 True True ''s'' (''t'', ''c'') demo_app (demo_request ''POST'' ''/auth/login'')
     (snd (auth_endpoint demo_webauthn demo_bodies 40 True True ''s'' (''t'', ''c'') demo_app (demo_request ''POST'' ''/auth/login/options'')
       (auth_open ''setup'' ''ui.example'' [''https://ui.example''] demo_creds))))"

lemma demo_run_reachable: "(ui_step demo_webauthn demo_bodies demo_app)\<^sup>*\<^sup>* (auth_open ''setup'' ''ui.example'' [''https://ui.example''] demo_creds) demo_run"
  unfolding demo_run_def by (rule rtranclp.rtrancl_into_rtrancl[OF r_into_rtranclp]) (rule ui_endpoint)+

lemma demo_store_ok: "store_ok demo_creds"
  by (simp add: store_ok_def demo_creds_def demo_cred_def)


text \<open>The session behind a forwarded request.\<close>

lemma forwarded_session:
  assumes "order_ok V" "store_ok disk" "(ui_step V B st)\<^sup>*\<^sup>* (auth_open token rp og disk) a"
    and "proxy t st rq a = (UForward, a')" "\<not> ap_no_auth st"
  obtains tok s c where "host_allowed rq (ap_hosts st)" "is_state_changing (rq_method rq) \<longrightarrow> origin_allowed rq (ap_origins st)" "canonical_path (rq_path rq)"
    "session_token rq = Some tok" "map_of (au_sessions a) tok = Some s" "t < ss_expires s"
    "c \<in> set (au_creds a)" "cr_id c = ss_cred_id s" "permits (cr_role c) (rq_method rq) (rq_path rq)"
proof -
  have inv: "auth_inv a" by (rule reachable_inv[OF assms(3,1) auth_open_inv[OF assms(2)]])
  have g: "host_allowed rq (ap_hosts st)" "is_state_changing (rq_method rq) \<longrightarrow> origin_allowed rq (ap_origins st)" "canonical_path (rq_path rq)"
    using assms(4) by (auto simp: proxy_def split: if_splits)
  obtain tok s where s: "session_token rq = Some tok" "map_of (au_sessions a) tok = Some s" "t < ss_expires s" "permits (ss_role s) (rq_method rq) (rq_path rq)"
    using assms(4,5) g by (auto simp: proxy_def session_role_def split: option.splits if_splits)
  have "(tok, s) \<in> set (au_sessions a)" using s(2) by (rule map_of_SomeD)
  then obtain c where c: "c \<in> set (au_creds a)" "cr_id c = ss_cred_id s" "cr_role c = ss_role s"
    using inv by (force simp: auth_inv_def list_all_iff session_backed_def)
  then show ?thesis using that g s by metis
qed


lemmas demo_defs = demo_webauthn_def demo_cred_def demo_creds_def demo_bodies_def demo_app_def demo_request_def demo_data_def zeros_def

lemma demo_gate: "host_allowed (demo_request m p) (ap_hosts demo_app)" "origin_allowed (demo_request m p) (ap_origins demo_app)"
  "session_token (demo_request m p) = Some ''s''" "ap_no_auth demo_app = False" "rq_method (demo_request m p) = m" "rq_path (demo_request m p) = p"
proof -
  have "list_all (\<lambda>b. \<not> is_upper_byte b) ''https://ui.example''" "host_of ''ui.example'' = ''ui.example''"
    "to_ascii_lowercase ''ui.example'' = ''ui.example''" "to_ascii_lowercase (trim_end_slash ''https://ui.example'') = ''https://ui.example''"
    "List.map_filter (\<lambda>c. split_once (CHR ''='') (trim_chars c)) (split_on (CHR '';'') ''rfui_session=s'') = [(''rfui_session'', ''s'')]"
    by code_simp+
  then show "host_allowed (demo_request m p) (ap_hosts demo_app)" "origin_allowed (demo_request m p) (ap_origins demo_app)"
    "session_token (demo_request m p) = Some ''s''" "ap_no_auth demo_app = False" "rq_method (demo_request m p) = m" "rq_path (demo_request m p) = p"
    by (simp_all add: demo_request_def demo_app_def host_allowed_def origin_allowed_def session_token_def)
qed

lemma make_room_short: "length m < cap \<Longrightarrow> make_room V cap f m = m"
  by (simp add: make_room.simps)

lemma demo_challenge:
  "snd (auth_endpoint demo_webauthn demo_bodies 40 True True ''s'' (''t'', ''c'') demo_app (demo_request ''POST'' ''/auth/login/options'')
     (auth_open ''setup'' ''ui.example'' [''https://ui.example''] demo_creds)) =
   (auth_open ''setup'' ''ui.example'' [''https://ui.example''] demo_creds)\<lparr>au_challenges := [(''t'', ''c'', Login, 40 + CHALLENGE_TTL)]\<rparr>"
  unfolding auth_endpoint_def demo_gate Let_def
  by (simp add: demo_gate session_info_def auth_open_def new_challenge_def make_room_short caps_pos alist_put_def)

lemma demo_checks:
  "verify_client_data demo_webauthn j ''webauthn.get'' ''c'' [''https://ui.example''] = Ok ()"
  "verify_assertion demo_webauthn demo_data ''j'' ''g'' ''ui.example'' ALG_ES256 ''k'' = Ok 0"
proof -
  have "split_origin ''https://ui.example'' = Some (''https'', ''ui.example'')" "to_ascii_lowercase ''https://ui.example'' = ''https://ui.example''" by code_simp+
  then show "verify_client_data demo_webauthn j ''webauthn.get'' ''c'' [''https://ui.example''] = Ok ()"
    by (simp add: verify_client_data_def demo_webauthn_def)
  show "verify_assertion demo_webauthn demo_data ''j'' ''g'' ''ui.example'' ALG_ES256 ''k'' = Ok 0" by code_simp
qed

lemma demo_run_sessions: "au_sessions demo_run = [(''s'', \<lparr>ss_cred_id = ''o'', ss_role = Operator, ss_expires = 50 + SESSION_TTL\<rparr>)]"
proof -
  have t: "50 < 40 + CHALLENGE_TTL" by (simp add: CHALLENGE_TTL_def secs_def ns_per_sec_def)
  have find: "find (\<lambda>c. cr_id c = ''o'') demo_creds = Some (demo_cred ''o'' Operator)" by (simp add: demo_creds_def demo_cred_def)
  have "login demo_webauthn 50 True ''s'' ''t'' ''o'' ''j'' demo_data ''g''
      ((auth_open ''setup'' ''ui.example'' [''https://ui.example''] demo_creds)\<lparr>au_challenges := [(''t'', ''c'', Login, 40 + CHALLENGE_TTL)]\<rparr>) =
    (Ok (''s'', Operator), (auth_open ''setup'' ''ui.example'' [''https://ui.example''] demo_creds)
      \<lparr>au_sessions := [(''s'', \<lparr>ss_cred_id = ''o'', ss_role = Operator, ss_expires = 50 + SESSION_TTL\<rparr>)]\<rparr>)"
    using t demo_checks
    by (simp add: login_def login_verify_def login_session_def take_challenge_def auth_open_def find alist_del_def alist_put_def make_room_short caps_pos demo_cred_def)
  then show ?thesis unfolding demo_run_def demo_challenge
    by (simp add: auth_endpoint_def demo_gate session_info_def auth_open_def do_login_def demo_bodies_def)
qed

lemma demo_forward: "fst (proxy 60 demo_app (demo_request ''POST'' ''/v1/queue/x/requeue'') demo_run) = UForward"
proof -
  have "canonical_path ''/v1/queue/x/requeue''" "permits Operator ''POST'' ''/v1/queue/x/requeue''" by code_simp+
  then show ?thesis by (simp add: proxy_def demo_gate session_role_def demo_run_sessions SESSION_TTL_def secs_def ns_per_sec_def)
qed


subsection \<open>The bootstrap token and the static files\<close>

lemma xor_zero_nat: "(m XOR n = 0) \<longleftrightarrow> m = (n::nat)"
  by (auto simp: bit_eq_iff bit_simps)

lemma or_fold: "fold (\<lambda>(x, y) d. d OR (byte_val x XOR byte_val y)) xs d = (0::nat) \<longleftrightarrow> d = 0 \<and> (\<forall>(x, y) \<in> set xs. x = y)"
proof (induction xs arbitrary: d)
  case (Cons p xs)
  obtain x y where p: "p = (x, y)" by fastforce
  have "d OR (byte_val x XOR byte_val y) = 0 \<longleftrightarrow> d = 0 \<and> x = y"
    using xor_zero_nat[of "byte_val x" "byte_val y"] by (simp add: or_eq_0_iff byte_val_def)
  then show ?case by (simp add: p Cons.IH)
qed simp

text \<open>
  The constant-time comparison of the setup token is equality of the two byte strings.\<close>

theorem ct_eq_correct: "ct_eq a b \<longleftrightarrow> a = b"
proof (cases "length a = length b")
  case True
  then have "(\<forall>(x, y) \<in> set (zip a b). x = y) \<longleftrightarrow> a = b" by (induction a b rule: list_induct2) auto
  then show ?thesis by (simp add: ct_eq_def or_fold True)
next
  case False then show ?thesis by (auto simp: ct_eq_def)
qed

text \<open>
  A static file served is one the web directory holds, under a relative name without an empty or \<open>..\<close>
  segment, so that it stays below that directory, and only to an allowed host.
\<close>

theorem static_file_contained:
  assumes "static_file st readable rq = UFile rel"
  shows "readable rel \<and> host_allowed rq (ap_hosts st) \<and> rel \<noteq> [] \<and> hd rel \<noteq> CHR ''/'' \<and> ''..'' \<notin> set (split_on (CHR ''/'') rel) \<and> [] \<notin> set (split_on (CHR ''/'') rel)"
proof -
  have index: "''..'' \<notin> set (split_on (CHR ''/'') ''index.html'')" "[] \<notin> set (split_on (CHR ''/'') ''index.html'')" by code_simp+
  have hd: "rel \<noteq> [] \<and> hd rel \<noteq> CHR ''/''" if "[] \<notin> set (split_on (CHR ''/'') rel)" for rel
    using that by (cases rel) auto
  have "readable rel \<and> host_allowed rq (ap_hosts st) \<and> ''..'' \<notin> set (split_on (CHR ''/'') rel) \<and> [] \<notin> set (split_on (CHR ''/'') rel)"
    using assms index by (auto simp: static_file_def Let_def list_ex_iff split: if_splits simp del: split_on.simps)
  then show ?thesis using hd by blast
qed

theorem static_file_contained_witness:
  "static_file demo_app (\<lambda>f. f = ''app/main.js'') (demo_request ''GET'' ''/app/main.js'') = UFile ''app/main.js'' \<and> ''..'' \<notin> set (split_on (CHR ''/'') ''app/main.js'')"
proof -
  have "static_file demo_app (\<lambda>f. f = ''app/main.js'') (demo_request ''GET'' ''/app/main.js'') = UFile ''app/main.js''" by code_simp
  with static_file_contained[OF this] show ?thesis by blast
qed

end
