(* ===== verification/Ui_Races.thy ===== *)
theory Ui_Races
  imports Ui_Props
begin

text \<open>
  Three places where the web front end does less than its comments say: a login that overlaps the removal of its
  credential, a flood of challenges, and a registration whose store cannot be written.
\<close>

subsection \<open>A login that overlaps a removal\<close>

lemma find_remove_first: "distinct (map cr_id cs) \<Longrightarrow> cr_id ` set (remove_first i cs) = cr_id ` set cs - {i}"
  by (simp add: remove_first_keys) blast

lemma remove_credential_ok:
  assumes "auth_inv a" "remove_credential wr i a = (Ok (), a')"
  shows "i \<notin> cr_id ` set (au_creds a')"
proof -
  have "au_creds a' = remove_first i (au_creds a)"
    using assms(2) by (auto simp: remove_credential_def persist_def Let_def split: option.splits if_splits)
  then show ?thesis using assms(1) by (simp add: auth_inv_def find_remove_first)
qed

text \<open>
  \<open>login\<close> releases the lock of the credentials before it opens the session. When an administrator removes the
  credential in between, the removal succeeds and ends every session of that credential, and the login then opens
  a new one: for the whole session time the role of a credential that is no longer registered is granted, and no
  later removal can end it.
\<close>

theorem revoked_session_survives:
  assumes "auth_inv a" "login_verify V t wr tok i json data sg a = (Ok (cid, r), a1)" "remove_credential wr' cid a1 = (Ok (), a2)"
    and "t1 < t + SESSION_TTL"
  shows "cid \<notin> cr_id ` set (au_creds a2) \<and> fst (session_role t1 fresh (login_session V t fresh cid r a2)) = Some r \<and>
    fst (remove_credential wr'' cid (login_session V t fresh cid r a2)) = Err ''unknown credential''"
proof -
  have gone: "cid \<notin> cr_id ` set (au_creds a2)" by (rule remove_credential_ok[OF login_verify_inv[OF assms(1,2)] assms(3)])
  then have "find (\<lambda>c. cr_id c = cid) (au_creds a2) = None" by (auto simp: find_None_iff)
  then show ?thesis using gone assms(4) by (simp add: session_role_def login_session_def Let_def remove_credential_def)
qed

lemma demo_auth_inv: "auth_inv demo_auth"
proof -
  have "store_ok [demo_cred ''a'' Administrator, demo_cred ''o'' Operator]" using demo_store_ok by (simp add: demo_creds_def)
  from auth_open_inv[OF this] show ?thesis by (simp add: demo_auth_def auth_inv_def auth_open_def MAX_CHALLENGES_def)
qed

theorem revoked_session_survives_witness:
  "\<exists>a1 a2. remove_credential True ''o'' a1 = (Ok (), a2) \<and> fst (session_role 60 ''s'' (login_session demo_webauthn 50 ''s'' ''o'' Operator a2)) = Some Operator"
proof -
  let ?l = "login_verify demo_webauthn 50 True ''t'' ''o'' ''j'' demo_data ''g'' demo_auth"
  have l: "fst ?l = Ok (''o'', Operator)" "fst (remove_credential True ''o'' (snd ?l)) = Ok ()" by code_simp+
  obtain a1 where a1: "?l = (Ok (''o'', Operator), a1)" using l(1) by (metis prod.collapse)
  obtain a2 where a2: "remove_credential True ''o'' a1 = (Ok (), a2)" using l(2) a1 by (metis prod.collapse snd_conv)
  have "60 < 50 + SESSION_TTL" by (simp add: SESSION_TTL_def secs_def ns_per_sec_def)
  from revoked_session_survives[OF demo_auth_inv a1 a2 this] a2 show ?thesis by blast
qed

subsection \<open>A flood of challenges\<close>

definition flood :: "webauthn \<Rightarrow> (instant \<times> string \<times> bytes) list \<Rightarrow> auth \<Rightarrow> auth" where
  "flood V reqs a = fold (\<lambda>(t, tok, ch) a. snd (new_challenge V t tok ch Login a)) reqs a"

text \<open>An entry that expires later than one that stays is not evicted.\<close>

lemma make_room_keeps_later:
  "order_ok V \<Longrightarrow> 0 < cap \<Longrightarrow> distinct (map fst m) \<Longrightarrow> (k, v) \<in> set (make_room V cap f m) \<Longrightarrow> (j, w) \<in> set m \<Longrightarrow> f v < f w \<Longrightarrow>
   (j, w) \<in> set (make_room V cap f m)"
proof (induction "length m" arbitrary: m rule: less_induct)
  case less
  show ?case
  proof (cases "length m < cap")
    case True then show ?thesis using less.prems by (simp add: make_room_short)
  next
    case False
    then have "cap \<le> length m" by simp
    from make_room_cases[OF less.prems(1,2) this, of f] obtain o' u where
      o': "(o', u) \<in> set m" "\<forall>(k', v') \<in> set m. f u \<le> f v'" "make_room V cap f m = make_room V cap f (alist_del o' m)" by blast
    have "(k, v) \<in> set m" using less.prems(4) make_room_subset by blast
    then have "f u < f w" using o'(2) less.prems(6) by fastforce
    then have "j \<noteq> o'" using less.prems(3,5) o'(1) by (metis eq_key_imp_eq_value less_irrefl)
    then have "(j, w) \<in> set (alist_del o' m)" using less.prems(5) by (simp add: alist_del_def)
    moreover have "length (alist_del o' m) < length m" using o'(1) by (intro alist_del_shorter) force
    moreover have "distinct (map fst (alist_del o' m))" using less.prems(3) by (simp add: alist_del_def distinct_map_filter)
    ultimately show ?thesis using less.hyps[of "alist_del o' m"] less.prems o'(3) by simp
  qed
qed

lemma make_room_distinct: "distinct (map fst m) \<Longrightarrow> distinct (map fst (make_room V cap f m))"
proof (induction V cap f m rule: make_room.induct)
  case (1 V cap f m)
  then show ?case by (subst make_room.simps) (auto simp: alist_del_def distinct_map_filter split: option.split)
qed

text \<open>While the victim's challenge is there, every challenge of the flood is there too.\<close>

definition outlives :: "string \<Rightarrow> instant \<Rightarrow> string set \<Rightarrow> (string \<times> ui_challenge) list \<Rightarrow> bool" where
  "outlives tok ex K m \<longleftrightarrow> distinct (map fst m) \<and>
     (\<forall>c p e. (tok, c, p, e) \<in> set m \<longrightarrow> e = ex \<and> (\<forall>k \<in> K. \<exists>c p e. (k, c, p, e) \<in> set m \<and> ex < e))"

lemma new_challenge_outlives:
  assumes "order_ok V" "outlives tok ex K (au_challenges a)" "tok \<noteq> k" "ex < t + CHALLENGE_TTL"
  shows "outlives tok ex (insert k K) (au_challenges (snd (new_challenge V t k ch p a)))"
proof -
  let ?live = "filter (\<lambda>(_, _, _, ex). ex > t) (au_challenges a)"
  let ?room = "make_room V MAX_CHALLENGES (\<lambda>(_, _, ex). ex) ?live"
  have d: "distinct (map fst ?live)" using assms(2) by (simp add: outlives_def distinct_map_filter)
  have m: "au_challenges (snd (new_challenge V t k ch p a)) = alist_put k (ch, p, t + CHALLENGE_TTL) ?room" by (simp add: new_challenge_def)
  have kept: "\<exists>c p e. (j, c, p, e) \<in> set ?room \<and> ex < e" if "(tok, c', p', e') \<in> set ?room" "j \<in> K" for c' p' e' j
  proof -
    have v: "(tok, c', p', e') \<in> set ?live" using that(1) make_room_subset by blast
    then have "e' = ex" "t < ex" and "\<exists>c p e. (j, c, p, e) \<in> set (au_challenges a) \<and> ex < e"
      using assms(2) that(2) unfolding outlives_def by fastforce+
    then obtain c p e where j: "(j, c, p, e) \<in> set ?live" "ex < e" by fastforce
    have "(j, c, p, e) \<in> set ?room"
      by (rule make_room_keeps_later[OF assms(1) caps_pos(1) d that(1) j(1)]) (simp add: j(2) \<open>e' = ex\<close>)
    then show ?thesis using j(2) by blast
  qed
  have old: "e' = ex" if "(tok, c', p', e') \<in> set ?room" for c' p' e'
    using that make_room_subset[of V MAX_CHALLENGES "\<lambda>(_, _, ex). ex" ?live] assms(2) unfolding outlives_def by fastforce
  have "distinct (map fst (alist_put k (ch, p, t + CHALLENGE_TTL) ?room))"
    using make_room_distinct[OF d] by (auto simp: alist_put_def distinct_map_filter)
  moreover have "e' = ex \<and> (\<forall>j \<in> insert k K. \<exists>c q e. (j, c, q, e) \<in> set (alist_put k (ch, p, t + CHALLENGE_TTL) ?room) \<and> ex < e)"
    if "(tok, c', p', e') \<in> set (alist_put k (ch, p, t + CHALLENGE_TTL) ?room)" for c' p' e'
  proof (intro conjI ballI)
    have v: "(tok, c', p', e') \<in> set ?room" using that assms(3) by (simp add: alist_put_def)
    then show "e' = ex" by (rule old)
    fix j assume "j \<in> insert k K"
    then consider "j = k" | "j \<noteq> k" "j \<in> K" by blast
    then show "\<exists>c q e. (j, c, q, e) \<in> set (alist_put k (ch, p, t + CHALLENGE_TTL) ?room) \<and> ex < e"
    proof cases
      case 1 then show ?thesis using assms(4) by (simp add: alist_put_def)
    next
      case 2
      from kept[OF v 2(2)] obtain c q e where "(j, c, q, e) \<in> set ?room" "ex < e" by blast
      then have "(j, c, q, e) \<in> set (alist_put k (ch, p, t + CHALLENGE_TTL) ?room)" using 2(1) by (simp add: alist_put_def)
      then show ?thesis using \<open>ex < e\<close> by blast
    qed
  qed
  ultimately show ?thesis unfolding m outlives_def by blast
qed

lemma flood_outlives:
  assumes "order_ok V"
  shows "outlives tok ex K (au_challenges a) \<Longrightarrow> list_all (\<lambda>(t, k, _). k \<noteq> tok \<and> ex < t + CHALLENGE_TTL) reqs \<Longrightarrow>
    outlives tok ex (K \<union> (fst \<circ> snd) ` set reqs) (au_challenges (flood V reqs a))"
proof (induction reqs arbitrary: K a)
  case (Cons r reqs)
  obtain t k ch where r: "r = (t, k, ch)" by (rule prod_cases3)
  have "outlives tok ex (insert k K) (au_challenges (snd (new_challenge V t k ch Login a)))"
    using Cons.prems by (intro new_challenge_outlives[OF assms]) (auto simp: r)
  from Cons.IH[OF this] Cons.prems(2) show ?case by (simp add: flood_def r)
qed (simp add: flood_def)

lemma flood_inv: "order_ok V \<Longrightarrow> auth_inv a \<Longrightarrow> auth_inv (flood V reqs a)"
  by (induction reqs arbitrary: a) (auto simp: flood_def new_challenge_inv)

text \<open>
  A flood of unauthenticated requests for login options evicts the challenges of the users who came before it:
  after as many requests as the cap allows, each with a token of its own and made before the user's challenge expires,
  that challenge is gone and the user's ceremony fails, although its time has not passed.
\<close>

theorem challenge_flood_locks_out:
  assumes "order_ok V" "auth_inv a" "distinct (map fst (au_challenges a))" "map_of (au_challenges a) tok = Some (ch, p, ex)"
    and "MAX_CHALLENGES \<le> length reqs" "distinct (map (fst \<circ> snd) reqs)"
    and "list_all (\<lambda>(t, k, _). k \<noteq> tok \<and> ex < t + CHALLENGE_TTL) reqs"
  shows "fst (take_challenge now tok p (flood V reqs a)) = None"
proof (rule ccontr)
  let ?m = "au_challenges (flood V reqs a)"
  let ?K = "(fst \<circ> snd) ` set reqs"
  assume "fst (take_challenge now tok p (flood V reqs a)) \<noteq> None"
  then obtain c q e where v: "(tok, c, q, e) \<in> set ?m" by (auto simp: take_challenge_def dest: map_of_SomeD split: option.splits)
  have "outlives tok ex {} (au_challenges a)"
    using assms(3,4) by (auto simp: outlives_def dest: map_of_is_SomeI[OF assms(3)])
  from flood_outlives[OF assms(1) this assms(7)] have o: "outlives tok ex ?K ?m" by simp
  then have "\<forall>k \<in> ?K. \<exists>c q e. (k, c, q, e) \<in> set ?m" using v unfolding outlives_def by blast
  then have "insert tok ?K \<subseteq> set (map fst ?m)" using v by force
  then have "card (insert tok ?K) \<le> length ?m" by (metis List.finite_set card_length card_mono length_map le_trans)
  moreover have "tok \<notin> ?K" using assms(7) by (auto simp: list_all_iff)
  moreover have "card ?K = length reqs" using distinct_card[OF assms(6)] by simp
  ultimately have "MAX_CHALLENGES < length ?m" using assms(5) by simp
  then show False using flood_inv[OF assms(1,2)] by (simp add: auth_inv_def not_le[symmetric])
qed

definition demo_flood :: "(instant \<times> string \<times> bytes) list" where
  "demo_flood = map (\<lambda>n. (50, replicate n (CHR ''x''), ''c'')) [0..<MAX_CHALLENGES]"

theorem challenge_flood_locks_out_witness:
  "fst (take_challenge 60 ''t'' Login demo_auth) = Some ''c'' \<and> fst (take_challenge 60 ''t'' Login (flood demo_webauthn demo_flood demo_auth)) = None"
proof -
  have a: "au_challenges demo_auth = [(''t'', ''c'', Login, 100)]" by (simp add: demo_auth_def)
  have "inj (\<lambda>n. replicate n (CHR ''x''))" by (rule injI) (simp add: replicate_eq_replicate)
  then have "distinct (map (fst \<circ> snd) demo_flood)" by (simp add: demo_flood_def comp_def distinct_map inj_on_subset[OF _ subset_UNIV])
  moreover have "100 < 50 + CHALLENGE_TTL" by (simp add: CHALLENGE_TTL_def secs_def ns_per_sec_def)
  moreover have "replicate n (CHR ''x'') \<noteq> ''t''" for n by (cases n) auto
  ultimately show ?thesis
    using challenge_flood_locks_out[OF demo_order_ok demo_auth_inv, of "''t''" "''c''" Login 100 demo_flood 60] a
    by (simp add: demo_flood_def list_all_iff take_challenge_def)
qed

subsection \<open>A registration that cannot be stored\<close>

lemma find_new: "i \<notin> cr_id ` set cs \<Longrightarrow> cr_id c = i \<Longrightarrow> find (\<lambda>d. cr_id d = i) (cs @ [c]) = Some c"
  by (induction cs) auto

text \<open>
  The credential is added before the store is written. When the write fails the registration is reported as
  failed, yet the new key is active: it is found by every later login until a restart, and the file does not have it.
\<close>

theorem failed_registration_active:
  assumes "fst (register V t True tok json att r label emp a) = Ok i"
  shows "fst (register V t False tok json att r label emp a) = Err ''cannot persist credential store'' \<and>
    au_disk (snd (register V t False tok json att r label emp a)) = au_disk a \<and>
    (\<exists>c. find (\<lambda>c. cr_id c = i) (au_creds (snd (register V t False tok json att r label emp a))) = Some c \<and> cr_role c = r)"
proof -
  obtain ch a1 where tc: "take_challenge t tok Register a = (ch, a1)" by fastforce
  have disk: "au_disk a1 = au_disk a" using tc by (auto simp: take_challenge_def split: option.splits)
  show ?thesis using assms disk
    by (auto simp: register_def tc persist_def Let_def find_new split: option.splits sum.splits prod.splits if_splits)
qed

definition demo_registration :: webauthn where
  "demo_registration = demo_webauthn\<lparr>
     wa_client_data := (\<lambda>_. Some \<lparr>cd_type = ''webauthn.create'', cd_challenge = ''c'', cd_origin = ''https://ui.example'', cd_cross_origin = None\<rparr>),
     wa_cbor := (\<lambda>b. if b = ''att'' then Some (CMap [(CText ''authData'', CBytes (zeros 32 @ [CHR 0x45] @ zeros 21 @ [CHR 0x01] @ ''z''))])
       else Some (CMap [(CInteger 1, CInteger 1), (CInteger 3, CInteger (- 8)), (CInteger (- 1), CInteger 6), (CInteger (- 2), CBytes (zeros 32))]))\<rparr>"

theorem failed_registration_active_witness:
  "\<exists>a'. register demo_registration 50 False ''t'' ''j'' ''att'' Viewer ''new'' False (demo_auth\<lparr>au_challenges := [(''t'', ''c'', Register, 100)]\<rparr>) =
     (Err ''cannot persist credential store'', a') \<and> find (\<lambda>c. cr_id c = ''z'') (au_creds a') \<noteq> None"
proof -
  let ?a = "demo_auth\<lparr>au_challenges := [(''t'', ''c'', Register, 100)]\<rparr>"
  have "fst (register demo_registration 50 True ''t'' ''j'' ''att'' Viewer ''new'' False ?a) = Ok ''z''" by code_simp
  from failed_registration_active[OF this] show ?thesis by (metis option.distinct(1) prod.collapse)
qed

end
