(* ===== verification/Secrets.thy ===== *)
theory Secrets
  imports Config_Validate
begin

text \<open>
  Secret references and the loading of a configuration (\<open>src/switchyardd/src/secrets.rs\<close> and the loading
  part of \<open>src/switchyardd/src/config.rs\<close>). What the process reads from its surroundings is the record
  \<open>secret_world\<close>: an environment variable or a file is \<open>Some\<close> text when it can be read as UTF-8. The YAML parser
  is a parameter. Warnings go to the standard error stream and are returned where the code has a function for them.
\<close>

subsection \<open>References\<close>

datatype secret_ref = SEnv string | SFile string

record secret_world =
  sw_env :: "string \<Rightarrow> string option"
  sw_file :: "string \<Rightarrow> string option"
  sw_mode :: "string \<Rightarrow> nat option"

definition display_form :: "secret_ref \<Rightarrow> string" where
  "display_form r =
     (case r of SEnv name \<Rightarrow> ''${env:'' @ name @ ''}'' | SFile path \<Rightarrow> ''${file:'' @ path @ ''}'')"

definition strip_suffix :: "string \<Rightarrow> string \<Rightarrow> string option" where
  "strip_suffix s p = map_option rev (strip_prefix (rev s) (rev p))"

definition parse_ref :: "string \<Rightarrow> secret_ref option" where
  "parse_ref s =
     (case strip_prefix s ''${'' of
        None \<Rightarrow> None
      | Some rest \<Rightarrow>
          (case strip_suffix rest ''}'' of
             None \<Rightarrow> None
           | Some inner \<Rightarrow>
               if CHR ''}'' \<in> set inner \<or> CHR ''{'' \<in> set inner then None
               else case strip_prefix inner ''env:'' of
                      Some name \<Rightarrow> if name \<noteq> [] then Some (SEnv name) else None
                    | None \<Rightarrow>
                        (case strip_prefix inner ''file:'' of
                           Some path \<Rightarrow> if path \<noteq> [] then Some (SFile path) else None
                         | None \<Rightarrow> None)))"

definition resolve :: "secret_world \<Rightarrow> secret_ref \<Rightarrow> string + string" where
  "resolve w r =
     (case r of
        SEnv name \<Rightarrow>
          (case sw_env w name of
             Some v \<Rightarrow> if v \<noteq> [] then Ok v else Err (''secret reference '' @ display_form r @ '' is unset or empty'')
           | None \<Rightarrow> Err (''secret reference '' @ display_form r @ '' is unset or empty''))
      | SFile path \<Rightarrow>
          if \<not> starts_with path ''/'' then Err (''secret reference '' @ display_form r @ '' must use an absolute path'')
          else case sw_file w path of
                 None \<Rightarrow> Err (''secret reference '' @ display_form r @ '' could not be read'')
               | Some raw \<Rightarrow>
                   if trim_chars raw = [] then Err (''secret reference '' @ display_form r @ '' could not be read'')
                   else Ok (trim_chars raw))"

definition malformed_ref_warning :: "string \<Rightarrow> string option" where
  "malformed_ref_warning s =
     (if \<not> (starts_with s ''${'' \<and> s \<noteq> [] \<and> last s = CHR ''}'' \<and> length s \<ge> 3) then None
      else if parse_ref s \<noteq> None then None
      else Some (''config value '' @ s @ '' looks like a secret reference but matches neither supported scheme (${env:NAME} or ${file:/abs/path}); using it as a literal value''))"

fun oct_str :: "nat \<Rightarrow> string" where
  "oct_str n = (if n < 8 then [digit_char n] else oct_str (n div 8) @ [digit_char (n mod 8)])"

declare oct_str.simps [simp del]

definition permission_warning :: "secret_world \<Rightarrow> string \<Rightarrow> string option" where
  "permission_warning w path =
     (case sw_mode w path of
        None \<Rightarrow> None
      | Some mode \<Rightarrow>
          if mode mod 64 \<noteq> 0 then
            Some (''secret file '' @ path @ '' is group/world-readable (mode '' @ oct_str (mode mod 512) @ ''); consider chmod 600'')
          else None)"

subsection \<open>References in a configuration\<close>

lemma yaml_seq_size [termination_simp]: "x \<in> set xs \<Longrightarrow> size x < Suc (size_list size xs)"
  by (induction xs) auto

lemma yaml_map_size [termination_simp]: "(k, v) \<in> set m \<Longrightarrow> size v < Suc (size_list (size_prod size size) m)"
  by (induction m) auto

fun collect_secret_refs :: "yaml \<Rightarrow> string \<Rightarrow> (string \<times> string) set" where
  "collect_secret_refs (YString s) plugin = (case parse_ref s of Some r \<Rightarrow> {(plugin, display_form r)} | None \<Rightarrow> {})"
| "collect_secret_refs (YSequence items) plugin = (\<Union>i \<in> set items. collect_secret_refs i plugin)"
| "collect_secret_refs (YMapping m) plugin = (\<Union>(k, v) \<in> set m. collect_secret_refs v plugin)"
| "collect_secret_refs _ plugin = {}"

definition secret_refs :: "config \<Rightarrow> (string \<times> string) set" where
  "secret_refs c = (\<Union>(name, raw) \<in> set (cf_raw_plugin_configs c). collect_secret_refs raw name)"

text \<open>The errors of a value in the order the code pushes them, and the value with its references replaced.\<close>

fun resolve_value :: "secret_world \<Rightarrow> yaml \<Rightarrow> string list \<times> yaml" where
  "resolve_value w (YString s) =
     (case parse_ref s of
        Some r \<Rightarrow> (case resolve w r of Inr v \<Rightarrow> ([], YString v) | Inl e \<Rightarrow> ([e], YString s))
      | None \<Rightarrow> ([], YString s))"
| "resolve_value w (YSequence items) =
     (let rs = map (resolve_value w) items in (concat (map fst rs), YSequence (map snd rs)))"
| "resolve_value w (YMapping m) =
     (let rs = map (\<lambda>(k, v). (k, resolve_value w v)) m
      in (concat (map (\<lambda>(k, e, v). e) rs), YMapping (map (\<lambda>(k, e, v). (k, v)) rs)))"
| "resolve_value w other = ([], other)"

definition resolve_secrets :: "secret_world \<Rightarrow> config \<Rightarrow> string + config" where
  "resolve_secrets w c =
     (let rs = map (\<lambda>(name, p). (name, p, resolve_value w (pc_config p))) (cf_plugins c);
          errors = concat (map (\<lambda>(name, p, e, v). e) rs)
      in if errors = [] then
           Ok (c\<lparr>cf_plugins := map (\<lambda>(name, p, e, v). (name, p\<lparr>pc_config := v\<rparr>)) rs,
                 cf_raw_plugin_configs := map (\<lambda>(name, p). (name, pc_config p)) (cf_plugins c)\<rparr>)
         else Err (join_with ''; '' errors))"

datatype load_error = YamlError string | Invalid config_error | SecretErrors string

definition load_from_str :: "(string \<Rightarrow> string + config) \<Rightarrow> secret_world \<Rightarrow> string \<Rightarrow> load_error + config" where
  "load_from_str yaml_parse w raw =
     (case yaml_parse raw of
        Inl e \<Rightarrow> Err (YamlError e)
      | Inr c0 \<Rightarrow>
          let c = c0\<lparr>cf_raw_yaml := raw\<rparr> in
          (case validate c of
             Inl e \<Rightarrow> Err (Invalid e)
           | Inr _ \<Rightarrow> (case resolve_secrets w c of Inl e \<Rightarrow> Err (SecretErrors e) | Inr c1 \<Rightarrow> Ok c1)))"

subsection \<open>Validation and the text\<close>

lemma route_checks_raw:
  "require_enabled_plugin (c\<lparr>cf_raw_yaml := r\<rparr>) = require_enabled_plugin c"
  "validate_fed_destination (c\<lparr>cf_raw_yaml := r\<rparr>) = validate_fed_destination c"
  "validate_sealed_destination (c\<lparr>cf_raw_yaml := r\<rparr>) = validate_sealed_destination c"
  by (simp_all add: fun_eq_iff require_enabled_plugin_def validate_fed_destination_def validate_sealed_destination_def cong: option.case_cong)

lemma validate_route_raw: "validate_route (c\<lparr>cf_raw_yaml := r\<rparr>) seen rc = validate_route c seen rc"
  unfolding validate_route_def validate_sealed_route_def route_checks_raw by simp

lemma validate_routes_raw: "validate_routes (c\<lparr>cf_raw_yaml := r\<rparr>) seen rs = validate_routes c seen rs"
  by (induction c seen rs rule: validate_routes.induct) (simp_all add: validate_route_raw)

lemma validate_raw_yaml [simp]: "validate (c\<lparr>cf_raw_yaml := r\<rparr>) = validate c"
proof -
  have "validate_node (c\<lparr>cf_raw_yaml := r\<rparr>) = validate_node c" "validate_lifecycle (c\<lparr>cf_raw_yaml := r\<rparr>) = validate_lifecycle c"
    "validate_alerts (c\<lparr>cf_raw_yaml := r\<rparr>) = validate_alerts c" "validate_node_name (c\<lparr>cf_raw_yaml := r\<rparr>) = validate_node_name c"
    "validate_policies (c\<lparr>cf_raw_yaml := r\<rparr>) = validate_policies c" "validate_public (c\<lparr>cf_raw_yaml := r\<rparr>) = validate_public c"
    "validate_transports (c\<lparr>cf_raw_yaml := r\<rparr>) = validate_transports c" "validate_federation (c\<lparr>cf_raw_yaml := r\<rparr>) = validate_federation c"
    "validate_discovery (c\<lparr>cf_raw_yaml := r\<rparr>) = validate_discovery c" "validate_privacy (c\<lparr>cf_raw_yaml := r\<rparr>) = validate_privacy c"
    by (simp_all add: validate_node_def validate_lifecycle_def validate_alerts_def validate_node_name_def validate_policies_def validate_public_def
        validate_transports_def validate_federation_def validate_discovery_def validate_privacy_def route_checks_raw bound_socket_paths_def cong: if_cong option.case_cong)
  then show ?thesis by (simp add: validate_def validate_routes_raw)
qed

subsection \<open>What a reference is\<close>

lemma strip_prefix_Some: "strip_prefix s p = Some r \<longleftrightarrow> s = p @ r"
  by (auto simp: strip_prefix_def starts_with_iff)

lemma strip_suffix_Some: "strip_suffix s p = Some r \<longleftrightarrow> s = r @ p"
  by (auto simp: strip_suffix_def strip_prefix_Some) (metis rev_append rev_rev_ident)+

definition ref_ok :: "secret_ref \<Rightarrow> bool" where
  "ref_ok r = (case r of SEnv n \<Rightarrow> n \<noteq> [] \<and> CHR ''{'' \<notin> set n \<and> CHR ''}'' \<notin> set n | SFile p \<Rightarrow> p \<noteq> [] \<and> CHR ''{'' \<notin> set p \<and> CHR ''}'' \<notin> set p)"

lemma strip_prefix_append [simp]: "strip_prefix (p @ r) p = Some r"
  by (simp add: strip_prefix_Some)

lemma strip_suffix_append [simp]: "strip_suffix (r @ p) p = Some r"
  by (simp add: strip_suffix_Some)

lemma parse_ref_display: "ref_ok r \<Longrightarrow> parse_ref (display_form r) = Some r"
proof (cases r)
  case (SEnv n)
  assume "ref_ok r"
  moreover have "strip_prefix (''${env:'' @ n @ ''}'') ''${'' = Some ((''env:'' @ n) @ ''}'')" by (simp add: strip_prefix_Some)
  moreover have "strip_prefix (''env:'' @ n) ''env:'' = Some n" by (rule strip_prefix_append)
  ultimately show ?thesis unfolding SEnv display_form_def parse_ref_def secret_ref.case
    by (simp only: strip_suffix_append option.case) (simp add: ref_ok_def)
next
  case (SFile n)
  assume "ref_ok r"
  moreover have "strip_prefix (''${file:'' @ n @ ''}'') ''${'' = Some ((''file:'' @ n) @ ''}'')" by (simp add: strip_prefix_Some)
  moreover have "strip_prefix (''file:'' @ n) ''file:'' = Some n" "strip_prefix (''file:'' @ n) ''env:'' = None"
    by (rule strip_prefix_append) (simp add: strip_prefix_def starts_with_iff)
  ultimately show ?thesis unfolding SFile display_form_def parse_ref_def secret_ref.case
    by (simp only: strip_suffix_append option.case) (simp add: ref_ok_def)
qed

lemma parse_ref_ok: "parse_ref s = Some r \<Longrightarrow> ref_ok r \<and> s = display_form r"
  by (auto simp: parse_ref_def ref_ok_def display_form_def strip_prefix_Some strip_suffix_Some split: option.splits if_splits)

text \<open>
  A string is a secret reference exactly when it is the printed form of one: parsing the printed form of a
  well-formed reference gives it back, and whatever parses prints as the very string it was read from. So comparing
  printed forms, as the admin API does, compares the references themselves.
\<close>

theorem secret_ref_roundtrip: "parse_ref s = Some r \<longleftrightarrow> ref_ok r \<and> s = display_form r"
  using parse_ref_display parse_ref_ok by blast

subsection \<open>What resolution reads and says\<close>

text \<open>The references a value holds, in order.\<close>

fun refs_of :: "yaml \<Rightarrow> secret_ref list" where
  "refs_of (YString s) = (case parse_ref s of Some r \<Rightarrow> [r] | None \<Rightarrow> [])"
| "refs_of (YSequence items) = concat (map refs_of items)"
| "refs_of (YMapping m) = concat (map (\<lambda>(k, v). refs_of v) m)"
| "refs_of _ = []"

definition failures :: "secret_world \<Rightarrow> secret_ref list \<Rightarrow> string list" where
  "failures w rs = List.map_filter (\<lambda>r. case resolve w r of Inl e \<Rightarrow> Some e | Inr _ \<Rightarrow> None) rs"

lemma failures_append: "failures w (xs @ ys) = failures w xs @ failures w ys"
  by (simp add: failures_def List.map_filter_def)

lemma failures_concat: "failures w (concat xss) = concat (map (failures w) xss)"
  by (induction xss) (simp_all add: failures_append, simp add: failures_def List.map_filter_def)

lemma resolve_value_errors: "fst (resolve_value w v) = failures w (refs_of v)"
proof (induction v rule: refs_of.induct)
  case (2 items) then show ?case by (simp add: Let_def failures_concat comp_def cong: map_cong)
next
  case (3 m)
  then have "map (\<lambda>(k, v). fst (resolve_value w v)) m = map (\<lambda>(k, v). failures w (refs_of v)) m" by (auto intro!: map_cong)
  then show ?case by (simp add: Let_def failures_concat comp_def split_beta cong: map_cong)
qed (auto simp: failures_def List.map_filter_def split: option.split sum.split)

lemma collect_secret_refs_eq: "collect_secret_refs v plugin = (\<lambda>r. (plugin, display_form r)) ` set (refs_of v)"
proof (induction v rule: refs_of.induct)
  case (3 m) then show ?case by (simp add: split_beta image_UN) (force intro!: SUP_cong)
qed (auto split: option.split)

lemma resolve_secrets_eq:
  "resolve_secrets w c =
     (if list_all (\<lambda>(n, p). failures w (refs_of (pc_config p)) = []) (cf_plugins c) then
        Ok (c\<lparr>cf_plugins := map (\<lambda>(n, p). (n, p\<lparr>pc_config := snd (resolve_value w (pc_config p))\<rparr>)) (cf_plugins c),
              cf_raw_plugin_configs := map (\<lambda>(n, p). (n, pc_config p)) (cf_plugins c)\<rparr>)
      else Err (join_with ''; '' (concat (map (\<lambda>(n, p). failures w (refs_of (pc_config p))) (cf_plugins c)))))"
  by (simp add: resolve_secrets_def Let_def comp_def case_prod_unfold resolve_value_errors list_all_iff)

text \<open>The configuration with the values handed to the plugins left out: what everyone but a plugin may see.\<close>

definition redact :: "config \<Rightarrow> config" where
  "redact c = c\<lparr>cf_plugins := map (\<lambda>(n, p). (n, p\<lparr>pc_config := YNull\<rparr>)) (cf_plugins c)\<rparr>"

definition same_failures :: "secret_world \<Rightarrow> secret_world \<Rightarrow> bool" where
  "same_failures w1 w2 \<longleftrightarrow> (\<forall>r. isl (resolve w1 r) = isl (resolve w2 r))"

lemma failures_same: "same_failures w1 w2 \<Longrightarrow> failures w1 rs = failures w2 rs"
proof (induction rs)
  case (Cons r rs)
  have "isl (resolve w1 r) = isl (resolve w2 r)" using Cons.prems by (simp add: same_failures_def)
  moreover have "resolve w1 r = Inl e1 \<Longrightarrow> resolve w2 r = Inl e2 \<Longrightarrow> e1 = e2" for e1 e2
    by (auto simp: resolve_def split: secret_ref.splits option.splits if_splits)
  ultimately have "failures w1 [r] = failures w2 [r]"
    by (auto simp: failures_def List.map_filter_def split: sum.split)
  then show ?case using Cons by (metis append_Cons append_Nil failures_append)
qed (simp add: failures_def List.map_filter_def)

text \<open>Loading changes nothing but the blocks of the plugins, and keeps the text and the unresolved blocks.\<close>

lemma load_ok:
  assumes "load_from_str yp w raw = Ok c"
  obtains c0 where "yp raw = Ok c0" "validate (c0\<lparr>cf_raw_yaml := raw\<rparr>) = Ok ()" "redact c = redact (c0\<lparr>cf_raw_yaml := raw, cf_raw_plugin_configs := cf_raw_plugin_configs c\<rparr>)"
    "cf_raw_plugin_configs c = map (\<lambda>(n, p). (n, pc_config p)) (cf_plugins c0)" "cf_raw_yaml c = raw"
    "cf_plugins c = map (\<lambda>(n, p). (n, p\<lparr>pc_config := snd (resolve_value w (pc_config p))\<rparr>)) (cf_plugins c0)"
proof -
  from assms obtain c0 where c0: "yp raw = Ok c0" "validate (c0\<lparr>cf_raw_yaml := raw\<rparr>) = Ok ()" "resolve_secrets w (c0\<lparr>cf_raw_yaml := raw\<rparr>) = Ok c"
    by (auto simp: load_from_str_def Let_def split: sum.splits)
  show ?thesis by (rule that[OF c0(1,2)]) (use c0(3) in \<open>auto simp: resolve_secrets_eq redact_def comp_def split_beta split: if_splits\<close>)
qed

end
