(* ===== verification/Admin_Config.thy ===== *)
theory Admin_Config
  imports Secrets Engine_State "HOL-Library.Product_Lexorder"
begin

text \<open>
  The configuration endpoints of the admin API (\<open>src/switchyardd/src/admin.rs\<close>): validation, replacement with
  five retained revisions, and rollback. The files beside the configuration are an association list from path to
  content and mode; \<open>fs_fails\<close> says which file operations fail, a failing operation changes nothing, except that a
  write that breaks off leaves what \<open>fs_torn\<close> says. HTTP responses are the values of \<open>cfg_response\<close>, and the texts of
  their errors its constructors.
\<close>

subsection \<open>Files\<close>

datatype cfg_fs_op = OpenFile string | WriteFile string | RemoveFile string | RenameFile string string | ChmodFile string | ReadFile string

record cfg_fs =
  fs_files :: "(string \<times> string \<times> nat) list"
  fs_fails :: "cfg_fs_op \<Rightarrow> bool"
  fs_torn :: "string \<Rightarrow> string"

definition exists_file :: "string \<Rightarrow> cfg_fs \<Rightarrow> bool" where
  "exists_file p s \<longleftrightarrow> map_of (fs_files s) p \<noteq> None"

definition rename_file :: "string \<Rightarrow> string \<Rightarrow> cfg_fs \<Rightarrow> bool \<times> cfg_fs" where
  "rename_file src dst s =
     (case map_of (fs_files s) src of
        None \<Rightarrow> (False, s)
      | Some f \<Rightarrow>
          if fs_fails s (RenameFile src dst) then (False, s)
          else (True, s\<lparr>fs_files := alist_put dst f (alist_del src (fs_files s))\<rparr>))"

definition chmod_file :: "string \<Rightarrow> nat \<Rightarrow> cfg_fs \<Rightarrow> bool \<times> cfg_fs" where
  "chmod_file p mode s =
     (case map_of (fs_files s) p of
        None \<Rightarrow> (False, s)
      | Some (c, m) \<Rightarrow>
          if fs_fails s (ChmodFile p) then (False, s)
          else (True, s\<lparr>fs_files := alist_put p (c, mode) (fs_files s)\<rparr>))"

definition write_file :: "string \<Rightarrow> nat \<Rightarrow> string \<Rightarrow> cfg_fs \<Rightarrow> bool \<times> cfg_fs" where
  "write_file p create_mode content s =
     (if fs_fails s (OpenFile p) then (False, s)
      else
        let mode = (case map_of (fs_files s) p of Some (_, m) \<Rightarrow> m | None \<Rightarrow> create_mode) in
        if fs_fails s (WriteFile p) then (False, s\<lparr>fs_files := alist_put p (fs_torn s content, mode) (fs_files s)\<rparr>)
        else (True, s\<lparr>fs_files := alist_put p (content, mode) (fs_files s)\<rparr>))"

definition remove_file :: "string \<Rightarrow> cfg_fs \<Rightarrow> bool \<times> cfg_fs" where
  "remove_file p s =
     (if \<not> exists_file p s \<or> fs_fails s (RemoveFile p) then (False, s)
      else (True, s\<lparr>fs_files := alist_del p (fs_files s)\<rparr>))"

definition fs_then :: "(cfg_fs \<Rightarrow> bool \<times> cfg_fs) \<Rightarrow> (cfg_fs \<Rightarrow> bool \<times> cfg_fs) \<Rightarrow> cfg_fs \<Rightarrow> bool \<times> cfg_fs" where
  "fs_then m k s = (case m s of (ok, s1) \<Rightarrow> if ok then k s1 else (False, s1))"

definition CONFIG_HISTORY :: nat where "CONFIG_HISTORY = 5"
definition MODE_0600 :: nat where "MODE_0600 = 384"

definition prev_slot_path :: "string \<Rightarrow> nat \<Rightarrow> string" where
  "prev_slot_path path n = (if n \<le> 1 then path @ ''.prev'' else path @ ''.prev.'' @ nat_str n)"

definition prev_path_for :: "string \<Rightarrow> string" where
  "prev_path_for path = prev_slot_path path 1"

definition tmp_path_for :: "string \<Rightarrow> string" where
  "tmp_path_for path = path @ ''.tmp''"

fun rotate_history :: "string \<Rightarrow> nat list \<Rightarrow> cfg_fs \<Rightarrow> bool \<times> cfg_fs" where
  "rotate_history path [] s = (True, s)"
| "rotate_history path (n # ns) s =
     (if exists_file (prev_slot_path path n) s then
        fs_then (rename_file (prev_slot_path path n) (prev_slot_path path (n + 1)))
          (fs_then (chmod_file (prev_slot_path path (n + 1)) MODE_0600) (rotate_history path ns)) s
      else rotate_history path ns s)"

definition install_config :: "string \<Rightarrow> cfg_fs \<Rightarrow> bool \<times> cfg_fs" where
  "install_config path s =
     (let had_prev = exists_file path s;
          finish = fs_then (rename_file (tmp_path_for path) path)
                     (fs_then (if had_prev then chmod_file (prev_path_for path) MODE_0600 else Pair True)
                        (chmod_file path MODE_0600))
      in if had_prev then fs_then (rename_file path (prev_path_for path)) finish s else finish s)"

definition write_config_replacing_current :: "string \<Rightarrow> string \<Rightarrow> cfg_fs \<Rightarrow> bool \<times> cfg_fs" where
  "write_config_replacing_current path new_text =
     fs_then (write_file (tmp_path_for path) MODE_0600 new_text)
       (\<lambda>s. fs_then (rotate_history path (rev [1..<CONFIG_HISTORY])) (install_config path)
              (snd (remove_file (prev_slot_path path CONFIG_HISTORY) s)))"

definition swap_with_prev :: "string \<Rightarrow> cfg_fs \<Rightarrow> bool \<times> cfg_fs" where
  "swap_with_prev path =
     fs_then (rename_file path (tmp_path_for path))
       (fs_then (rename_file (prev_path_for path) path)
         (fs_then (rename_file (tmp_path_for path) (prev_path_for path))
           (fs_then (chmod_file path MODE_0600) (chmod_file (prev_path_for path) MODE_0600))))"

definition read_file :: "string \<Rightarrow> cfg_fs \<Rightarrow> string option" where
  "read_file p s =
     (case map_of (fs_files s) p of
        Some (c, _) \<Rightarrow> if fs_fails s (ReadFile p) \<or> \<not> valid_utf8 c then None else Some c
      | None \<Rightarrow> None)"

subsection \<open>Handlers\<close>

datatype cfg_problem = NotUtf8 | LoadFailed load_error | CommandsChanged "string list" | DataDirChanged | SecretRefsChanged "string list"

datatype cfg_response =
    ConfigValid
  | ConfigInvalid "cfg_problem list"
  | ConfigApplied "string list"
  | ConfigWriteFailed
  | NoPreviousConfig
  | PreviousUnreadable
  | PreviousInvalid load_error
  | SwapFailed
  | ConfigText string
  | NoRevision

fun cfg_status :: "cfg_response \<Rightarrow> nat" where
  "cfg_status ConfigValid = 200"
| "cfg_status (ConfigInvalid _) = 422"
| "cfg_status (ConfigApplied _) = 200"
| "cfg_status ConfigWriteFailed = 500"
| "cfg_status NoPreviousConfig = 404"
| "cfg_status PreviousUnreadable = 500"
| "cfg_status (PreviousInvalid _) = 409"
| "cfg_status SwapFailed = 500"
| "cfg_status (ConfigText _) = 200"
| "cfg_status NoRevision = 404"

record admin_state =
  ad_daemon :: daemon
  ad_config_path :: string
  ad_fs :: cfg_fs

definition config_yaml :: "admin_state \<Rightarrow> cfg_response" where
  "config_yaml a = ConfigText (cf_raw_yaml (dm_cfg (ad_daemon a)))"

definition config_prev :: "nat option \<Rightarrow> admin_state \<Rightarrow> cfg_response" where
  "config_prev q a =
     (let n = (case q of Some n \<Rightarrow> n | None \<Rightarrow> 1) in
      if n < 1 \<or> n > CONFIG_HISTORY then NoRevision
      else case read_file (prev_slot_path (ad_config_path a) n) (ad_fs a) of
             Some text \<Rightarrow> ConfigText text
           | None \<Rightarrow> NoRevision)"

definition config_validate :: "(string \<Rightarrow> string + config) \<Rightarrow> secret_world \<Rightarrow> bytes \<Rightarrow> cfg_response" where
  "config_validate yp w body =
     (if \<not> valid_utf8 body then ConfigInvalid [NotUtf8]
      else case load_from_str yp w body of
             Inr _ \<Rightarrow> ConfigValid
           | Inl e \<Rightarrow> ConfigInvalid [LoadFailed e])"

definition rejected_command_changes :: "config \<Rightarrow> config \<Rightarrow> string list" where
  "rejected_command_changes current new =
     sort (map fst (filter (\<lambda>(name, p). case pc_command p of
        None \<Rightarrow> False
      | Some cmd \<Rightarrow> Option.bind (map_of (cf_plugins current) name) pc_command \<noteq> Some cmd) (cf_plugins new)))"

definition rejected_secret_ref_changes :: "(string \<times> string) set \<Rightarrow> config \<Rightarrow> string list" where
  "rejected_secret_ref_changes current new =
     map (\<lambda>(plugin, r). plugin @ '': '' @ r) (sorted_list_of_set (secret_refs new - current))"

definition put_problems :: "config \<Rightarrow> config \<Rightarrow> cfg_problem list" where
  "put_problems current new =
     (let cs = rejected_command_changes current new; rs = rejected_secret_ref_changes (secret_refs current) new in
      (if cs \<noteq> [] then [CommandsChanged cs] else []) @
      (if nc_data_dir (cf_node new) \<noteq> nc_data_dir (cf_node current) then [DataDirChanged] else []) @
      (if rs \<noteq> [] then [SecretRefsChanged rs] else []))"

text \<open>
  \<open>config_put\<close> in its two parts: the checks, made against the running configuration before the write lock is
  taken, and the replacement under that lock.
\<close>

definition put_check :: "(string \<Rightarrow> string + config) \<Rightarrow> secret_world \<Rightarrow> bytes \<Rightarrow> admin_state \<Rightarrow> cfg_response + config" where
  "put_check yp w body a =
     (if \<not> valid_utf8 body then Err (ConfigInvalid [NotUtf8])
      else case load_from_str yp w body of
             Inl e \<Rightarrow> Err (ConfigInvalid [LoadFailed e])
           | Inr new_cfg \<Rightarrow>
               let errors = put_problems (dm_cfg (ad_daemon a)) new_cfg in
               if errors \<noteq> [] then Err (ConfigInvalid errors) else Ok new_cfg)"

definition put_commit :: "datetime \<Rightarrow> bytes \<Rightarrow> config \<Rightarrow> admin_state \<Rightarrow> cfg_response \<times> admin_state" where
  "put_commit now body new_cfg a =
     (case write_config_replacing_current (ad_config_path a) body (ad_fs a) of
        (False, fs) \<Rightarrow> (ConfigWriteFailed, a\<lparr>ad_fs := fs\<rparr>)
      | (True, fs) \<Rightarrow>
          (case apply_config now new_cfg (ad_daemon a) of
             (restart, d) \<Rightarrow> (ConfigApplied restart, a\<lparr>ad_fs := fs, ad_daemon := d\<rparr>)))"

definition config_put :: "(string \<Rightarrow> string + config) \<Rightarrow> secret_world \<Rightarrow> datetime \<Rightarrow> bytes \<Rightarrow> admin_state \<Rightarrow> cfg_response \<times> admin_state" where
  "config_put yp w now body a =
     (case put_check yp w body a of
        Inl r \<Rightarrow> (r, a)
      | Inr new_cfg \<Rightarrow> put_commit now body new_cfg a)"

definition config_rollback :: "(string \<Rightarrow> string + config) \<Rightarrow> secret_world \<Rightarrow> datetime \<Rightarrow> admin_state \<Rightarrow> cfg_response \<times> admin_state" where
  "config_rollback yp w now a =
     (let prev = prev_path_for (ad_config_path a) in
      if \<not> exists_file prev (ad_fs a) then (NoPreviousConfig, a)
      else case read_file prev (ad_fs a) of
             None \<Rightarrow> (PreviousUnreadable, a)
           | Some prev_text \<Rightarrow>
               (case load_from_str yp w prev_text of
                  Inl e \<Rightarrow> (PreviousInvalid e, a)
                | Inr new_cfg \<Rightarrow>
                    (case swap_with_prev (ad_config_path a) (ad_fs a) of
                       (False, fs) \<Rightarrow> (SwapFailed, a\<lparr>ad_fs := fs\<rparr>)
                     | (True, fs) \<Rightarrow>
                         (case apply_config now new_cfg (ad_daemon a) of
                            (restart, d) \<Rightarrow> (ConfigApplied restart, a\<lparr>ad_fs := fs, ad_daemon := d\<rparr>)))))"

end
