(* ===== verification/Admin_Config_Props.thy ===== *)
theory Admin_Config_Props
  imports Admin_Config Config_Props
begin

text \<open>
  The configuration endpoints: what a replacement does to the files and the daemon on every path, that a rollback
  undoes it, and that no sequence of requests gives a plugin a command or a secret reference the operator did not
  give it.
\<close>

subsection \<open>Files\<close>

abbreviation file_at :: "cfg_fs \<Rightarrow> string \<Rightarrow> (string \<times> nat) option" where
  "file_at s \<equiv> map_of (fs_files s)"

lemma slot_paths [simp]:
  "prev_slot_path p (Suc 0) = p @ ''.prev''" "prev_slot_path p 2 = p @ ''.prev.2''" "prev_slot_path p 3 = p @ ''.prev.3''"
  "prev_slot_path p 4 = p @ ''.prev.4''" "prev_slot_path p 5 = p @ ''.prev.5''"
proof -
  have "nat_str 2 = ''2''" "nat_str 3 = ''3''" "nat_str 4 = ''4''" "nat_str 5 = ''5''" by code_simp+
  then show "prev_slot_path p (Suc 0) = p @ ''.prev''" "prev_slot_path p 2 = p @ ''.prev.2''" "prev_slot_path p 3 = p @ ''.prev.3''"
    "prev_slot_path p 4 = p @ ''.prev.4''" "prev_slot_path p 5 = p @ ''.prev.5''" by (simp_all add: prev_slot_path_def)
qed

lemma slot_path_two [simp]: "prev_slot_path p (Suc (Suc 0)) = p @ ''.prev.2''"
  using slot_paths(2)[of p] by (simp add: numeral_2_eq_2)

lemma slot_not_live [simp]: "prev_slot_path p n \<noteq> p" "p \<noteq> prev_slot_path p n"
  "prev_slot_path p n \<noteq> p @ ''.tmp''" "p @ ''.tmp'' \<noteq> prev_slot_path p n"
  by (simp_all add: prev_slot_path_def)

lemma fs_then_ok: "fs_then m k s = (True, s') \<Longrightarrow> \<exists>s1. m s = (True, s1) \<and> k s1 = (True, s')"
  by (auto simp: fs_then_def split: prod.splits if_splits)

lemma fs_then_fail: "fs_then m k s = (False, s') \<Longrightarrow> m s = (False, s') \<or> (\<exists>s1. m s = (True, s1) \<and> k s1 = (False, s'))"
  by (auto simp: fs_then_def split: prod.splits if_splits)

lemma rename_ok: "rename_file a b s = (True, s') \<Longrightarrow> \<exists>f. file_at s a = Some f \<and> file_at s' = (file_at s)(a := None, b \<mapsto> f)"
  by (auto simp: rename_file_def split: option.splits if_splits)

lemma rename_fail: "rename_file a b s = (False, s') \<Longrightarrow> s' = s"
  by (auto simp: rename_file_def split: option.splits if_splits)

lemma chmod_ok: "chmod_file p m s = (True, s') \<Longrightarrow> \<exists>c n. file_at s p = Some (c, n) \<and> file_at s' = (file_at s)(p \<mapsto> (c, m))"
  by (auto simp: chmod_file_def split: option.splits if_splits)

lemma chmod_fail: "chmod_file p m s = (False, s') \<Longrightarrow> s' = s"
  by (auto simp: chmod_file_def split: option.splits if_splits)

text \<open>The content of one file moved to another name, with the mode the code gives it.\<close>

definition shift :: "string \<Rightarrow> string \<Rightarrow> (string \<rightharpoonup> string \<times> nat) \<Rightarrow> string \<rightharpoonup> string \<times> nat" where
  "shift a b m = (case m a of None \<Rightarrow> m | Some (c, n) \<Rightarrow> m(a := None, b \<mapsto> (c, MODE_0600)))"

lemma rotate_history_ok:
  "rotate_history p ns s = (True, s') \<Longrightarrow> file_at s' = foldl (\<lambda>m n. shift (prev_slot_path p n) (prev_slot_path p (n + 1)) m) (file_at s) ns"
proof (induction ns arbitrary: s)
  case (Cons n ns)
  let ?a = "prev_slot_path p n" and ?b = "prev_slot_path p (n + 1)"
  show ?case
  proof (cases "exists_file ?a s")
    case True
    with Cons.prems obtain s1 s2 where st: "rename_file ?a ?b s = (True, s1)" "chmod_file ?b MODE_0600 s1 = (True, s2)" "rotate_history p ns s2 = (True, s')"
      by (auto dest!: fs_then_ok)
    from rename_ok[OF st(1)] chmod_ok[OF st(2)] have "file_at s2 = shift ?a ?b (file_at s)"
      by (auto simp: shift_def split: option.split)
    with Cons.IH[OF st(3)] show ?thesis by simp
  next
    case False
    then have "shift ?a ?b (file_at s) = file_at s" by (auto simp: exists_file_def shift_def split: option.split)
    moreover have "rotate_history p ns s = (True, s')" using Cons.prems False by simp
    ultimately show ?thesis using Cons.IH by simp
  qed
qed simp

lemma rotate_history_frame:
  "rotate_history p ns s = (ok, s') \<Longrightarrow> (\<And>n. q \<noteq> prev_slot_path p n) \<Longrightarrow> file_at s' q = file_at s q"
proof (induction ns arbitrary: s)
  case (Cons n ns)
  let ?a = "prev_slot_path p n" and ?b = "prev_slot_path p (n + 1)"
  note q = Cons.prems(2)
  have r: "file_at s1 q = file_at s q" if "rename_file ?a ?b s = (o1, s1)" for o1 s1 and s :: cfg_fs
    using that q by (auto simp: rename_file_def split: option.splits if_splits)
  have c: "file_at s1 q = file_at s q" if "chmod_file ?b m s = (o1, s1)" for o1 m s1 and s :: cfg_fs
    using that q[of "n + 1"] by (auto simp: chmod_file_def split: option.splits if_splits)
  show ?case using Cons.prems(1) Cons.IH[OF _ q] r c
    by (auto simp: fs_then_def split: if_splits prod.splits)
qed simp

lemma write_file_ok: "write_file p m c s = (True, s') \<Longrightarrow> \<exists>n. file_at s' = (file_at s)(p \<mapsto> (c, n))"
  by (auto simp: write_file_def Let_def split: if_splits)

lemma write_file_fail: "write_file p m c s = (False, s') \<Longrightarrow> q \<noteq> p \<Longrightarrow> file_at s' q = file_at s q"
  by (auto simp: write_file_def Let_def split: if_splits)

lemma remove_file_frame: "q \<noteq> p \<Longrightarrow> file_at (snd (remove_file p s)) q = file_at s q"
  by (auto simp: remove_file_def)

lemma install_ok:
  assumes "install_config p s = (True, s')" "file_at s (tmp_path_for p) = Some (t, n)"
  shows "file_at s' = (case file_at s p of None \<Rightarrow> (file_at s)(tmp_path_for p := None, p \<mapsto> (t, MODE_0600))
    | Some (c, k) \<Rightarrow> (file_at s)(tmp_path_for p := None, p \<mapsto> (t, MODE_0600), prev_path_for p \<mapsto> (c, MODE_0600)))"
proof (cases "file_at s p")
  case None
  with assms obtain s1 where "rename_file (tmp_path_for p) p s = (True, s1)" "chmod_file p MODE_0600 s1 = (True, s')"
    by (auto simp: install_config_def exists_file_def Let_def dest!: fs_then_ok)
  from rename_ok[OF this(1)] chmod_ok[OF this(2)] show ?thesis using None assms(2) by auto
next
  case (Some f)
  obtain c k where f: "f = (c, k)" by fastforce
  from Some assms(1) obtain s0 s1 s2 where st: "rename_file p (prev_path_for p) s = (True, s0)" "rename_file (tmp_path_for p) p s0 = (True, s1)"
    "chmod_file (prev_path_for p) MODE_0600 s1 = (True, s2)" "chmod_file p MODE_0600 s2 = (True, s')"
    by (auto simp: install_config_def exists_file_def Let_def dest!: fs_then_ok)
  from rename_ok[OF st(1)] rename_ok[OF st(2)] chmod_ok[OF st(3)] chmod_ok[OF st(4)]
  show ?thesis using Some assms(2) by (auto simp: f tmp_path_for_def prev_path_for_def fun_upd_twist)
qed

text \<open>The revisions kept after a successful replacement.\<close>

definition aged :: "(string \<times> nat) option \<Rightarrow> (string \<times> nat) option" where
  "aged f = map_option (\<lambda>(c, n). (c, MODE_0600)) f"

lemma history_list: "rev [1..<CONFIG_HISTORY] = [4, 3, 2, Suc 0]"
  by (simp add: CONFIG_HISTORY_def upt_rec)

lemma shift_at:
  assumes "a \<noteq> b"
  shows "shift a b m a = None" "shift a b m b = (if m a = None then m b else aged (m a))" "q \<noteq> a \<Longrightarrow> q \<noteq> b \<Longrightarrow> shift a b m q = m q"
  using assms by (auto simp: shift_def aged_def split: option.split)

lemma shifted:
  fixes m :: "string \<rightharpoonup> string \<times> nat"
  assumes "distinct [a, b, c, d, e]"
  defines "m' \<equiv> shift a b (shift b c (shift c d (shift d e m)))"
  shows "m' a = None" "m' b = aged (m a)" "m' c = aged (m b)" "m' d = aged (m c)" "m' e = (if m d = None then m e else aged (m d))"
  using assms(1) unfolding m'_def by (auto simp: shift_at aged_def)

lemma rotated:
  assumes "m' = foldl (\<lambda>m n. shift (prev_slot_path p n) (prev_slot_path p (n + 1)) m) m [4, 3, 2, Suc 0]"
  shows "m' (prev_slot_path p 1) = None" "m' (prev_slot_path p 2) = aged (m (prev_slot_path p 1))" "m' (prev_slot_path p 3) = aged (m (prev_slot_path p 2))"
    "m' (prev_slot_path p 4) = aged (m (prev_slot_path p 3))"
    "m' (prev_slot_path p 5) = (if m (prev_slot_path p 4) = None then m (prev_slot_path p 5) else aged (m (prev_slot_path p 4)))"
  using shifted[of "p @ ''.prev''" "p @ ''.prev.2''" "p @ ''.prev.3''" "p @ ''.prev.4''" "p @ ''.prev.5''" m] unfolding assms by simp_all

lemma write_config_ok:
  assumes "write_config_replacing_current p t s = (True, s')"
  shows "file_at s' p = Some (t, MODE_0600)" "file_at s' (prev_slot_path p 1) = aged (file_at s p)"
    "\<forall>n \<in> {1..<4}. file_at s' (prev_slot_path p (n + 1)) = aged (file_at s (prev_slot_path p n))"
    "file_at s (prev_slot_path p 4) \<noteq> None \<longrightarrow> file_at s' (prev_slot_path p 5) = aged (file_at s (prev_slot_path p 4))"
proof -
  let ?tmp = "tmp_path_for p"
  from assms obtain s1 s2 where st: "write_file ?tmp MODE_0600 t s = (True, s1)"
    "rotate_history p (rev [1..<CONFIG_HISTORY]) (snd (remove_file (prev_slot_path p CONFIG_HISTORY) s1)) = (True, s2)" "install_config p s2 = (True, s')"
    unfolding write_config_replacing_current_def by (auto dest!: fs_then_ok)
  let ?r = "snd (remove_file (prev_slot_path p CONFIG_HISTORY) s1)"
  obtain k where w: "file_at s1 = (file_at s)(?tmp \<mapsto> (t, k))" using write_file_ok[OF st(1)] by blast
  have rm: "file_at ?r q = file_at s1 q" if "q \<noteq> prev_slot_path p 5" for q using that by (intro remove_file_frame) (simp add: CONFIG_HISTORY_def)
  note rot = rotated[OF rotate_history_ok[OF st(2), unfolded history_list]]
  have live: "file_at s2 p = file_at s p" "file_at s2 ?tmp = Some (t, k)"
    using rotate_history_frame[OF st(2)] by (simp_all add: rm w tmp_path_for_def)
  note inst = install_ok[OF st(3) live(2)]
  have slots: "file_at ?r (p @ ''.prev'') = file_at s (p @ ''.prev'')" "file_at ?r (p @ ''.prev.2'') = file_at s (p @ ''.prev.2'')"
    "file_at ?r (p @ ''.prev.3'') = file_at s (p @ ''.prev.3'')" "file_at ?r (p @ ''.prev.4'') = file_at s (p @ ''.prev.4'')"
    by (simp_all add: rm w tmp_path_for_def)
  show "file_at s' p = Some (t, MODE_0600)" by (simp add: inst live prev_path_for_def split: option.split)
  show "file_at s' (prev_slot_path p 1) = aged (file_at s p)"
    using rot(1) by (auto simp: inst live prev_path_for_def tmp_path_for_def aged_def split: option.split)
  have keep: "file_at s' q = file_at s2 q" if "q \<notin> {p, ?tmp, prev_slot_path p 1}" for q
    using that by (auto simp: inst live prev_path_for_def split: option.split)
  show "\<forall>n \<in> {1..<4}. file_at s' (prev_slot_path p (n + 1)) = aged (file_at s (prev_slot_path p n))"
  proof
    fix n :: nat assume "n \<in> {1..<4}"
    then consider "n = 1" | "n = 2" | "n = 3" by fastforce
    then show "file_at s' (prev_slot_path p (n + 1)) = aged (file_at s (prev_slot_path p n))"
      by cases (use rot slots keep[of "prev_slot_path p 2"] keep[of "prev_slot_path p 3"] keep[of "prev_slot_path p 4"] in \<open>simp_all add: tmp_path_for_def\<close>)
  qed
  show "file_at s (prev_slot_path p 4) \<noteq> None \<longrightarrow> file_at s' (prev_slot_path p 5) = aged (file_at s (prev_slot_path p 4))"
    using rot(5) slots keep[of "prev_slot_path p 5"] by (simp add: tmp_path_for_def)
qed

text \<open>What the two names that are read again hold after any outcome, failures included.\<close>

abbreviation text_at :: "cfg_fs \<Rightarrow> string \<Rightarrow> string option" where
  "text_at s q \<equiv> map_option fst (file_at s q)"

definition texts :: "string \<Rightarrow> cfg_fs \<Rightarrow> string set" where
  "texts p s = set_option (text_at s p) \<union> set_option (text_at s (p @ ''.prev''))"

lemma texts_files: "texts p s = fst ` (set_option (file_at s p) \<union> set_option (file_at s (p @ ''.prev'')))"
  by (auto simp: texts_def)

lemma chmod_texts: "chmod_file a m s = (ok, s') \<Longrightarrow> text_at s' q = text_at s q"
  by (auto simp: chmod_file_def split: option.splits if_splits)

lemma texts_chmod: "chmod_file a m s = (ok, s') \<Longrightarrow> texts p s' = texts p s"
  by (simp add: texts_def chmod_texts)

text \<open>A run of operations ends in success, or in the state before the first that fails.\<close>

lemma rename_then:
  assumes "fs_then (rename_file a b) k s = (ok, s')"
  shows "s' = s \<or> (\<exists>f s1. file_at s a = Some f \<and> file_at s1 = (file_at s)(a := None, b \<mapsto> f) \<and> k s1 = (ok, s'))"
  using assms by (auto simp: fs_then_def rename_file_def split: option.splits if_splits)

lemma chmods_texts: "fs_then (chmod_file a m) (chmod_file b m) s = (ok, s') \<Longrightarrow> texts p s' = texts p s"
  by (auto simp: fs_then_def dest: texts_chmod split: prod.splits if_splits)

lemma swap_texts: "swap_with_prev p s = (ok, s') \<Longrightarrow> texts p s' \<subseteq> texts p s"
proof -
  let ?tmp = "p @ ''.tmp''" and ?prev = "p @ ''.prev''"
  let ?chmods = "fs_then (chmod_file p MODE_0600) (chmod_file ?prev MODE_0600)"
  assume "swap_with_prev p s = (ok, s')"
  then have sw: "fs_then (rename_file p ?tmp) (fs_then (rename_file ?prev p) (fs_then (rename_file ?tmp ?prev) ?chmods)) s = (ok, s')"
    by (simp add: swap_with_prev_def tmp_path_for_def prev_path_for_def)
  consider "s' = s" | f s1 where "file_at s p = Some f" "file_at s1 = (file_at s)(p := None, ?tmp \<mapsto> f)" "s' = s1"
    | f g s1 s2 where "file_at s p = Some f" "file_at s ?prev = Some g" "file_at s2 = (file_at s)(p \<mapsto> g, ?tmp \<mapsto> f, ?prev := None)" "s' = s2"
    | f g s3 where "file_at s p = Some f" "file_at s ?prev = Some g" "file_at s3 = (file_at s)(p \<mapsto> g, ?tmp := None, ?prev \<mapsto> f)" "?chmods s3 = (ok, s')"
    using rename_then[OF sw]
  proof (elim disjE exE conjE)
    fix f s1 assume f: "file_at s p = Some f" "file_at s1 = (file_at s)(p := None, ?tmp \<mapsto> f)"
      and k1: "fs_then (rename_file ?prev p) (fs_then (rename_file ?tmp ?prev) ?chmods) s1 = (ok, s')"
    from rename_then[OF k1] show thesis
    proof (elim disjE exE conjE)
      fix g s2 assume g: "file_at s1 ?prev = Some g" "file_at s2 = (file_at s1)(?prev := None, p \<mapsto> g)"
        and k2: "fs_then (rename_file ?tmp ?prev) ?chmods s2 = (ok, s')"
      have s2: "file_at s2 = (file_at s)(p \<mapsto> g, ?tmp \<mapsto> f, ?prev := None)" "file_at s ?prev = Some g" using f g by (auto simp: fun_upd_twist)
      from rename_then[OF k2] show thesis
      proof (elim disjE exE conjE)
        fix h s3 assume h: "file_at s2 ?tmp = Some h" "file_at s3 = (file_at s2)(?tmp := None, ?prev \<mapsto> h)" "?chmods s3 = (ok, s')"
        have "file_at s3 = (file_at s)(p \<mapsto> g, ?tmp := None, ?prev \<mapsto> f)" using h s2 by (auto simp: fun_upd_twist)
        then show thesis using that(4) f(1) s2(2) h(3) by blast
      qed (use that(3) f(1) s2 in blast)
    qed (use that(2) f in blast)
  qed (use that(1) in blast)
  then show ?thesis
  proof cases
    case (4 f g s3)
    from chmods_texts[OF 4(4)] have "texts p s' = texts p s3" .
    then show ?thesis using 4 by (simp add: texts_files)
  qed (auto simp: texts_files)
qed

lemma swap_ok:
  assumes "swap_with_prev p s = (True, s')"
  shows "file_at s' p = aged (file_at s (p @ ''.prev''))" "file_at s' (p @ ''.prev'') = aged (file_at s p)"
proof -
  let ?tmp = "p @ ''.tmp''" and ?prev = "p @ ''.prev''"
  from assms obtain s1 s2 s3 s4 where st: "rename_file p ?tmp s = (True, s1)" "rename_file ?prev p s1 = (True, s2)" "rename_file ?tmp ?prev s2 = (True, s3)"
    "chmod_file p MODE_0600 s3 = (True, s4)" "chmod_file ?prev MODE_0600 s4 = (True, s')"
    unfolding swap_with_prev_def tmp_path_for_def prev_path_for_def by (auto dest!: fs_then_ok)
  from rename_ok[OF st(1)] rename_ok[OF st(2)] rename_ok[OF st(3)] chmod_ok[OF st(4)] chmod_ok[OF st(5)]
  show "file_at s' p = aged (file_at s ?prev)" "file_at s' ?prev = aged (file_at s p)"
    by (auto simp: aged_def)
qed

lemma rotate_prev:
  "rotate_history p ns s = (ok, s') \<Longrightarrow> \<forall>n \<in> set ns. 1 \<le> n \<Longrightarrow> file_at s' (p @ ''.prev'') \<in> {None, file_at s (p @ ''.prev'')}"
proof (induction ns arbitrary: s)
  case (Cons n ns)
  let ?a = "prev_slot_path p n" and ?b = "prev_slot_path p (n + 1)" and ?q = "p @ ''.prev''"
  have b: "?b \<noteq> ?q" using Cons.prems(2) by (auto simp: prev_slot_path_def)
  have r: "file_at s1 ?q \<in> {None, file_at s ?q}" if "rename_file ?a ?b s = (o1, s1)" for o1 s1 and s :: cfg_fs
    using that b by (auto simp: rename_file_def split: option.splits if_splits)
  have c: "file_at s1 ?q = file_at s ?q" if "chmod_file ?b m s = (o1, s1)" for o1 m s1 and s :: cfg_fs
    using that b by (auto simp: chmod_file_def split: option.splits if_splits)
  have IH: "file_at s' ?q \<in> {None, file_at s ?q}" if "rotate_history p ns s = (ok, s')" for s using Cons.IH[OF that] Cons.prems(2) by simp
  show ?case
  proof (cases "exists_file ?a s")
    case True
    obtain o1 s1 where 1: "rename_file ?a ?b s = (o1, s1)" by fastforce
    obtain o2 s2 where 2: "chmod_file ?b MODE_0600 s1 = (o2, s2)" by fastforce
    from Cons.prems(1) True 1 2 have "s' = s1 \<or> s' = s2 \<or> rotate_history p ns s2 = (ok, s')"
      by (auto simp: fs_then_def split: if_splits)
    then show ?thesis using r[OF 1] c[OF 2] IH[of s2] by auto
  next
    case False then show ?thesis using Cons.prems(1) IH by simp
  qed
qed simp

lemma install_texts:
  assumes "install_config p s = (ok, s')" "text_at s (p @ ''.tmp'') = Some t"
  shows "texts p s' \<subseteq> insert t (texts p s)" "set_option (text_at s p) \<subseteq> texts p s'"
proof -
  let ?tmp = "p @ ''.tmp''" and ?prev = "p @ ''.prev''"
  obtain g where g: "file_at s ?tmp = Some g" "fst g = t" using assms(2) by auto
  have chm: "texts p s2 = texts p s1" if "fs_then (if b then chmod_file ?prev MODE_0600 else Pair True) (chmod_file p MODE_0600) s1 = (ok, s2)" for b s1 s2
    using that by (cases b) (auto simp: fs_then_def dest: texts_chmod split: prod.splits if_splits)
  have "texts p s' \<subseteq> insert t (texts p s) \<and> set_option (text_at s p) \<subseteq> texts p s'"
  proof (cases "file_at s p")
    case None
    then have "fs_then (rename_file ?tmp p) (fs_then (Pair True) (chmod_file p MODE_0600)) s = (ok, s')"
      using assms(1) by (simp add: install_config_def exists_file_def tmp_path_for_def)
    from rename_then[OF this] show ?thesis
    proof (elim disjE exE conjE)
      fix f s1 assume 1: "file_at s ?tmp = Some f" "file_at s1 = (file_at s)(?tmp := None, p \<mapsto> f)" "fs_then (Pair True) (chmod_file p MODE_0600) s1 = (ok, s')"
      have "texts p s' = texts p s1" using chm[of False s1 s'] 1(3) by simp
      then show ?thesis using 1(1,2) g None by (auto simp: texts_files)
    qed (auto simp: texts_def None)
  next
    case (Some f)
    then have "fs_then (rename_file p ?prev) (fs_then (rename_file ?tmp p) (fs_then (chmod_file ?prev MODE_0600) (chmod_file p MODE_0600))) s = (ok, s')"
      using assms(1) by (simp add: install_config_def exists_file_def tmp_path_for_def prev_path_for_def)
    from rename_then[OF this] show ?thesis
    proof (elim disjE exE conjE)
      fix f' s1 assume 1: "file_at s p = Some f'" "file_at s1 = (file_at s)(p := None, ?prev \<mapsto> f')"
        and k1: "fs_then (rename_file ?tmp p) (fs_then (chmod_file ?prev MODE_0600) (chmod_file p MODE_0600)) s1 = (ok, s')"
      from rename_then[OF k1] show ?thesis
      proof (elim disjE exE conjE)
        fix h s2 assume 2: "file_at s1 ?tmp = Some h" "file_at s2 = (file_at s1)(?tmp := None, p \<mapsto> h)" "fs_then (chmod_file ?prev MODE_0600) (chmod_file p MODE_0600) s2 = (ok, s')"
        have "texts p s' = texts p s2" using chm[of True s2 s'] 2(3) by simp
        then show ?thesis using 1 2(1,2) g by (auto simp: texts_files)
      qed (use 1 in \<open>auto simp: texts_files\<close>)
    qed (auto simp: texts_def)
  qed
  then show "texts p s' \<subseteq> insert t (texts p s)" "set_option (text_at s p) \<subseteq> texts p s'" by blast+
qed

lemma write_config_texts:
  assumes "write_config_replacing_current p t s = (ok, s')"
  shows "texts p s' \<subseteq> insert t (texts p s)" "set_option (text_at s p) \<subseteq> texts p s'"
proof -
  let ?tmp = "p @ ''.tmp''" and ?prev = "p @ ''.prev''"
  let ?rm = "\<lambda>s. snd (remove_file (p @ ''.prev.5'') s)"
  obtain o1 s1 where w: "write_file ?tmp MODE_0600 t s = (o1, s1)" by fastforce
  obtain o2 s2 where r: "rotate_history p [4, 3, 2, Suc 0] (?rm s1) = (o2, s2)" by fastforce
  have s': "s' = (if \<not> o1 then s1 else if \<not> o2 then s2 else snd (install_config p s2))"
    using assms w r unfolding write_config_replacing_current_def history_list by (auto simp: fs_then_def tmp_path_for_def CONFIG_HISTORY_def split: if_splits)
  have keep1: "file_at s1 p = file_at s p" "file_at s1 ?prev = file_at s ?prev" "o1 \<Longrightarrow> text_at s1 ?tmp = Some t"
    using w by (auto simp: write_file_def Let_def split: if_splits)
  have rm: "file_at (?rm s1) q = file_at s1 q" if "q \<noteq> p @ ''.prev.5''" for q using that by (rule remove_file_frame)
  have keep2: "file_at s2 p = file_at s p" "file_at s2 ?prev \<in> {None, file_at s ?prev}" "o1 \<Longrightarrow> text_at s2 ?tmp = Some t"
    using rotate_history_frame[OF r, of p] rotate_history_frame[OF r, of ?tmp] rotate_prev[OF r] by (auto simp: rm keep1)
  have t2: "texts p s2 \<subseteq> texts p s" "set_option (text_at s p) \<subseteq> texts p s2" using keep2 by (auto simp: texts_files)
  obtain o3 s3 where i: "install_config p s2 = (o3, s3)" by fastforce
  have "texts p s' \<subseteq> insert t (texts p s) \<and> set_option (text_at s p) \<subseteq> texts p s'"
  proof (cases "o1 \<and> o2")
    case True
    then have "s' = s3" using s' i by simp
    then show ?thesis using install_texts[OF i keep2(3)] True t2 keep2(1) by auto
  next
    case False
    then have "s' = s1 \<or> s' = s2" using s' by auto
    then show ?thesis using keep1 t2 by (auto simp: texts_files)
  qed
  then show "texts p s' \<subseteq> insert t (texts p s)" "set_option (text_at s p) \<subseteq> texts p s'" by blast+
qed

subsection \<open>Without failing file operations\<close>

definition no_fail :: "cfg_fs \<Rightarrow> bool" where
  "no_fail s \<longleftrightarrow> (\<forall>x. \<not> fs_fails s x)"

lemma rename_runs:
  "no_fail s \<Longrightarrow> file_at s a = Some f \<Longrightarrow> \<exists>s'. rename_file a b s = (True, s') \<and> no_fail s' \<and> file_at s' = (file_at s)(a := None, b \<mapsto> f)"
  by (simp add: rename_file_def no_fail_def)

lemma chmod_runs:
  "no_fail s \<Longrightarrow> file_at s a = Some (c, n) \<Longrightarrow> \<exists>s'. chmod_file a m s = (True, s') \<and> no_fail s' \<and> file_at s' = (file_at s)(a \<mapsto> (c, m))"
  by (simp add: chmod_file_def no_fail_def)

lemma fs_then_run: "m s = (True, s1) \<Longrightarrow> fs_then m k s = k s1"
  by (simp add: fs_then_def)

lemma rotate_runs: "no_fail s \<Longrightarrow> \<exists>s'. rotate_history p ns s = (True, s') \<and> no_fail s'"
proof (induction ns arbitrary: s)
  case (Cons n ns)
  show ?case
  proof (cases "exists_file (prev_slot_path p n) s")
    case True
    then obtain c k where "file_at s (prev_slot_path p n) = Some (c, k)" by (auto simp: exists_file_def)
    from rename_runs[OF Cons.prems this, of "prev_slot_path p (n + 1)"] obtain s1 where
      s1: "rename_file (prev_slot_path p n) (prev_slot_path p (n + 1)) s = (True, s1)" "no_fail s1" "file_at s1 (prev_slot_path p (n + 1)) = Some (c, k)" by auto
    from chmod_runs[OF s1(2,3)] obtain s2 where "chmod_file (prev_slot_path p (n + 1)) MODE_0600 s1 = (True, s2)" "no_fail s2" by blast
    with Cons.IH[of s2] show ?thesis using True s1(1) by (simp add: fs_then_run)
  next
    case False then show ?thesis using Cons by simp
  qed
qed simp

lemma install_runs:
  assumes "no_fail s" "file_at s (p @ ''.tmp'') = Some f"
  shows "\<exists>s'. install_config p s = (True, s') \<and> no_fail s'"
proof -
  let ?tmp = "p @ ''.tmp''" and ?prev = "p @ ''.prev''"
  obtain t k where f: "f = (t, k)" by fastforce
  show ?thesis
  proof (cases "file_at s p")
    case None
    from rename_runs[OF assms, of p] obtain s1 where s1: "rename_file ?tmp p s = (True, s1)" "no_fail s1" "file_at s1 p = Some (t, k)" by (auto simp: f)
    from chmod_runs[OF s1(2,3)] obtain s2 where "chmod_file p MODE_0600 s1 = (True, s2)" "no_fail s2" by blast
    then show ?thesis using None s1(1) by (simp add: install_config_def exists_file_def tmp_path_for_def fs_then_def)
  next
    case (Some g)
    obtain u l where g: "g = (u, l)" by fastforce
    from rename_runs[OF assms(1) Some, of ?prev] obtain s1 where
      s1: "rename_file p ?prev s = (True, s1)" "no_fail s1" "file_at s1 = (file_at s)(p := None, ?prev \<mapsto> g)" by blast
    then have "file_at s1 ?tmp = Some f" using assms(2) by simp
    from rename_runs[OF s1(2) this, of p] obtain s2 where
      s2: "rename_file ?tmp p s1 = (True, s2)" "no_fail s2" "file_at s2 = (file_at s1)(?tmp := None, p \<mapsto> f)" by blast
    then have "file_at s2 ?prev = Some (u, l)" using s1(3) by (simp add: g)
    from chmod_runs[OF s2(2) this] obtain s3 where s3: "chmod_file ?prev MODE_0600 s2 = (True, s3)" "no_fail s3" "file_at s3 = (file_at s2)(?prev \<mapsto> (u, MODE_0600))" by blast
    then have "file_at s3 p = Some (t, k)" using s2(3) by (simp add: f)
    from chmod_runs[OF s3(2) this] obtain s4 where "chmod_file p MODE_0600 s3 = (True, s4)" "no_fail s4" by blast
    then show ?thesis using Some s1(1) s2(1) s3(1)
      by (simp add: install_config_def exists_file_def tmp_path_for_def prev_path_for_def fs_then_def)
  qed
qed

lemma write_config_runs:
  assumes "no_fail s"
  shows "\<exists>s'. write_config_replacing_current p t s = (True, s') \<and> no_fail s'"
proof -
  let ?tmp = "p @ ''.tmp''" and ?rm = "\<lambda>s. snd (remove_file (prev_slot_path p CONFIG_HISTORY) s)"
  have w: "\<exists>s1 n. write_file ?tmp MODE_0600 t s = (True, s1) \<and> no_fail s1 \<and> file_at s1 ?tmp = Some (t, n)"
    using assms by (simp add: write_file_def no_fail_def)
  then obtain s1 n where s1: "write_file ?tmp MODE_0600 t s = (True, s1)" "no_fail s1" "file_at s1 ?tmp = Some (t, n)" by blast
  then have "no_fail (?rm s1)" by (auto simp: remove_file_def no_fail_def)
  from rotate_runs[OF this] obtain s2 where s2: "rotate_history p (rev [1..<CONFIG_HISTORY]) (?rm s1) = (True, s2)" "no_fail s2" by blast
  have "file_at s2 ?tmp = Some (t, n)" using rotate_history_frame[OF s2(1), of ?tmp] s1(3) by (simp add: remove_file_frame)
  from install_runs[OF s2(2) this] s1(1) s2(1) show ?thesis
    by (simp add: write_config_replacing_current_def tmp_path_for_def fs_then_def)
qed

lemma swap_runs:
  assumes "no_fail s" "file_at s p = Some f" "file_at s (p @ ''.prev'') = Some g"
  shows "\<exists>s'. swap_with_prev p s = (True, s') \<and> no_fail s'"
proof -
  let ?tmp = "p @ ''.tmp''" and ?prev = "p @ ''.prev''"
  obtain t k where f: "f = (t, k)" by fastforce
  obtain u l where g: "g = (u, l)" by fastforce
  from rename_runs[OF assms(1,2), of ?tmp] obtain s1 where
    s1: "rename_file p ?tmp s = (True, s1)" "no_fail s1" "file_at s1 = (file_at s)(p := None, ?tmp \<mapsto> f)" by blast
  have "file_at s1 ?prev = Some g" using s1(3) assms(3) by simp
  from rename_runs[OF s1(2) this, of p] obtain s2 where
    s2: "rename_file ?prev p s1 = (True, s2)" "no_fail s2" "file_at s2 = (file_at s1)(?prev := None, p \<mapsto> g)" by blast
  have "file_at s2 ?tmp = Some f" using s2(3) s1(3) by simp
  from rename_runs[OF s2(2) this, of ?prev] obtain s3 where
    s3: "rename_file ?tmp ?prev s2 = (True, s3)" "no_fail s3" "file_at s3 = (file_at s2)(?tmp := None, ?prev \<mapsto> f)" by blast
  have "file_at s3 p = Some (u, l)" using s3(3) s2(3) by (simp add: g)
  from chmod_runs[OF s3(2) this] obtain s4 where s4: "chmod_file p MODE_0600 s3 = (True, s4)" "no_fail s4" "file_at s4 = (file_at s3)(p \<mapsto> (u, MODE_0600))" by blast
  have "file_at s4 ?prev = Some (t, k)" using s4(3) s3(3) by (simp add: f)
  from chmod_runs[OF s4(2) this] obtain s5 where "chmod_file ?prev MODE_0600 s4 = (True, s5)" "no_fail s5" by blast
  then show ?thesis using s1(1) s2(1) s3(1) s4(1) by (simp add: swap_with_prev_def tmp_path_for_def prev_path_for_def fs_then_def)
qed

subsection \<open>What a write may change\<close>

text \<open>The commands a configuration makes the daemon run.\<close>

definition grants :: "config \<Rightarrow> (string \<times> string) set" where
  "grants c = {(n, cmd). \<exists>p. (n, p) \<in> set (cf_plugins c) \<and> pc_command p = Some cmd}"

definition keeps_within :: "config \<Rightarrow> config \<Rightarrow> bool" where
  "keeps_within c d \<longleftrightarrow> grants c \<subseteq> grants d \<and> nc_data_dir (cf_node c) = nc_data_dir (cf_node d) \<and> secret_refs c \<subseteq> secret_refs d"

lemma finite_secret_refs: "finite (secret_refs c)"
  by (auto simp: secret_refs_def collect_secret_refs_eq)

lemma put_problems_within: "put_problems cur new = [] \<Longrightarrow> keeps_within new cur"
proof -
  assume "put_problems cur new = []"
  then have cs: "rejected_command_changes cur new = []" and dd: "nc_data_dir (cf_node new) = nc_data_dir (cf_node cur)"
    and rs: "rejected_secret_ref_changes (secret_refs cur) new = []"
    by (auto simp: put_problems_def Let_def split: if_splits)
  have "set (rejected_command_changes cur new) = {}" using cs by simp
  then have "(n, p) \<in> set (cf_plugins new) \<Longrightarrow> pc_command p = Some cmd \<Longrightarrow> Option.bind (map_of (cf_plugins cur) n) pc_command = Some cmd" for n p cmd
    unfolding rejected_command_changes_def set_sort set_map set_filter by (auto split: option.splits)
  then have "grants new \<subseteq> grants cur" by (fastforce simp: grants_def bind_eq_Some_conv dest: map_of_SomeD)
  moreover have "finite (secret_refs new - secret_refs cur)" using finite_secret_refs by blast
  then have "secret_refs new \<subseteq> secret_refs cur" using rs by (simp add: rejected_secret_ref_changes_def)
  ultimately show ?thesis using dd by (simp add: keeps_within_def)
qed

lemma put_check_ok: "put_check yp w body a = Ok c \<Longrightarrow> valid_utf8 body \<and> load_from_str yp w body = Ok c \<and> keeps_within c (dm_cfg (ad_daemon a))"
  by (auto simp: put_check_def Let_def dest: put_problems_within split: if_splits sum.splits)

lemma put_check_err: "put_check yp w body a = Err r \<Longrightarrow> \<exists>ps. r = ConfigInvalid ps \<and> ps \<noteq> []"
  by (auto simp: put_check_def Let_def split: if_splits sum.splits)

lemma put_applied:
  assumes "config_put yp w now body a = (ConfigApplied restart, a')"
  obtains c where "load_from_str yp w body = Ok c" "apply_config now c (ad_daemon a) = (restart, ad_daemon a')" "keeps_within c (dm_cfg (ad_daemon a))"
    "file_at (ad_fs a') (ad_config_path a) = Some (body, MODE_0600)"
    "file_at (ad_fs a') (prev_slot_path (ad_config_path a) 1) = aged (file_at (ad_fs a) (ad_config_path a))"
    "\<forall>n \<in> {1..<4}. file_at (ad_fs a') (prev_slot_path (ad_config_path a) (n + 1)) = aged (file_at (ad_fs a) (prev_slot_path (ad_config_path a) n))"
proof -
  from assms obtain c where c: "put_check yp w body a = Ok c" "put_commit now body c a = (ConfigApplied restart, a')"
    by (auto simp: config_put_def dest: put_check_err split: sum.splits)
  from c(2) obtain fs d where fs: "write_config_replacing_current (ad_config_path a) body (ad_fs a) = (True, fs)"
    "apply_config now c (ad_daemon a) = (restart, d)" "a' = a\<lparr>ad_fs := fs, ad_daemon := d\<rparr>"
    by (auto simp: put_commit_def split: prod.splits bool.splits)
  show ?thesis by (rule that[of c]) (use put_check_ok[OF c(1)] fs write_config_ok(1,2,3)[OF fs(1)] in simp_all)
qed


text \<open>A daemon and the files beside its configuration; every text parses as the same routes.\<close>

definition files_demo :: cfg_fs where
  "files_demo = \<lparr>fs_files = [(''c'', ''old'', 420)], fs_fails = (\<lambda>_. False), fs_torn = id\<rparr>"

definition admin_demo :: admin_state where
  "admin_demo = \<lparr>ad_daemon = daemon_demo cfg_valid (store_empty (\<lambda>_. False)), ad_config_path = ''c'', ad_fs = files_demo\<rparr>"

definition parse_demo :: "string \<Rightarrow> string + config" where
  "parse_demo t = Ok cfg_valid"

definition world_demo :: secret_world where
  "world_demo = \<lparr>sw_env = (\<lambda>_. None), sw_file = (\<lambda>_. None), sw_mode = (\<lambda>_. None)\<rparr>"

lemma load_demo:
  "load_from_str parse_demo w t = Ok (cfg_valid\<lparr>cf_raw_yaml := t, cf_raw_plugin_configs := [(''lora'', YNull), (''mqtt'', YNull)]\<rparr>)"
proof -
  have "cf_plugins cfg_valid = [(''lora'', plugin_on), (''mqtt'', plugin_on)]" by (simp add: cfg_valid_def)
  then have "resolve_secrets w (cfg_valid\<lparr>cf_raw_yaml := t\<rparr>) =
      Ok (cfg_valid\<lparr>cf_raw_yaml := t, cf_plugins := cf_plugins cfg_valid, cf_raw_plugin_configs := [(''lora'', YNull), (''mqtt'', YNull)]\<rparr>)"
    by (simp add: resolve_secrets_def plugin_on_def)
  then show ?thesis by (simp add: load_from_str_def parse_demo_def cfg_valid_ok)
qed

lemma put_demo: "\<exists>rr a'. config_put parse_demo world_demo 0 ''new'' admin_demo = (ConfigApplied rr, a')"
proof -
  let ?c = "cfg_valid\<lparr>cf_raw_yaml := ''new'', cf_raw_plugin_configs := [(''lora'', YNull), (''mqtt'', YNull)]\<rparr>"
  have "valid_utf8 ''new''" by code_simp
  moreover have "put_problems cfg_valid ?c = []"
    by (simp add: put_problems_def rejected_command_changes_def rejected_secret_ref_changes_def secret_refs_def cfg_valid_def plugin_on_def)
  ultimately have "put_check parse_demo world_demo ''new'' admin_demo = Ok ?c"
    by (simp add: put_check_def load_demo admin_demo_def daemon_demo_def)
  moreover have "no_fail files_demo" by (simp add: no_fail_def files_demo_def)
  from write_config_runs[OF this, of "''c''" "''new''"] have "\<exists>s'. write_config_replacing_current ''c'' ''new'' (ad_fs admin_demo) = (True, s')"
    by (auto simp: admin_demo_def)
  ultimately show ?thesis by (auto simp: config_put_def put_commit_def admin_demo_def split: prod.split)
qed


subsection \<open>Rollback\<close>

lemma apply_config_cfg: "apply_config now c d = (rr, d') \<Longrightarrow> dm_cfg d' = c"
  by (auto simp: apply_config_def Let_def emit_event_def)

lemma put_no_fail:
  assumes "config_put yp w now body a = (ConfigApplied rr, a')" "no_fail (ad_fs a)"
  shows "no_fail (ad_fs a') \<and> ad_config_path a' = ad_config_path a"
  using assms(1) write_config_runs[OF assms(2), of "ad_config_path a" body]
  by (auto simp: config_put_def put_commit_def split: sum.splits prod.splits bool.splits dest: put_check_err)

text \<open>
  A rollback undoes a write. When no file operation fails, after a document was applied over a live file that
  still loads, a rollback is applied: the live file has its old text again, the undone text is the previous revision, and the
  daemon runs the configuration the old text loads as.
\<close>

theorem put_rollback_roundtrip:
  assumes "no_fail (ad_fs a)" "file_at (ad_fs a) (ad_config_path a) = Some (old, n)" "valid_utf8 old" "load_from_str yp w old = Ok c"
    and "config_put yp w' now body a = (ConfigApplied rr, a')"
  shows "\<exists>rr' a''. config_rollback yp w now' a' = (ConfigApplied rr', a'') \<and> dm_cfg (ad_daemon a'') = c \<and>
    file_at (ad_fs a'') (ad_config_path a) = Some (old, MODE_0600) \<and> file_at (ad_fs a'') (prev_path_for (ad_config_path a)) = Some (body, MODE_0600)"
proof -
  let ?p = "ad_config_path a" and ?prev = "ad_config_path a @ ''.prev''"
  have nf: "no_fail (ad_fs a')" and p: "ad_config_path a' = ?p" using put_no_fail[OF assms(5,1)] by simp_all
  have live: "file_at (ad_fs a') ?p = Some (body, MODE_0600)" and prev: "file_at (ad_fs a') ?prev = Some (old, MODE_0600)"
    using put_applied[OF assms(5)] assms(2) by (auto simp: aged_def)
  from swap_runs[OF nf live prev] obtain fs where sw: "swap_with_prev ?p (ad_fs a') = (True, fs)" by blast
  obtain rr' d where ap: "apply_config now' c (ad_daemon a') = (rr', d)" by fastforce
  have "read_file ?prev (ad_fs a') = Some old" "exists_file ?prev (ad_fs a')"
    using prev assms(3) nf by (simp_all add: read_file_def exists_file_def no_fail_def)
  then have "config_rollback yp w now' a' = (ConfigApplied rr', a'\<lparr>ad_fs := fs, ad_daemon := d\<rparr>)"
    using assms(4) sw ap by (simp add: config_rollback_def p prev_path_for_def)
  then show ?thesis using swap_ok[OF sw] live prev apply_config_cfg[OF ap] by (simp add: prev_path_for_def aged_def)
qed

theorem put_rollback_roundtrip_witness:
  "\<exists>rr a' rr' a''. config_put parse_demo world_demo 0 ''new'' admin_demo = (ConfigApplied rr, a') \<and>
     config_rollback parse_demo world_demo 0 a' = (ConfigApplied rr', a'') \<and> file_at (ad_fs a'') ''c'' = Some (''old'', MODE_0600)"
proof -
  obtain rr a' where put: "config_put parse_demo world_demo 0 ''new'' admin_demo = (ConfigApplied rr, a')" using put_demo by blast
  have "no_fail (ad_fs admin_demo)" "file_at (ad_fs admin_demo) (ad_config_path admin_demo) = Some (''old'', 420)"
    by (simp_all add: admin_demo_def files_demo_def no_fail_def)
  moreover have "valid_utf8 ''old''" by code_simp
  ultimately show ?thesis using put_rollback_roundtrip[OF _ _ _ load_demo put, of "''old''" 420 world_demo 0] put by (simp add: admin_demo_def) blast
qed

subsection \<open>Sequences of requests\<close>

text \<open>
  Requests on the configuration, with the two parts of a write as steps of their own: candidates that passed the
  checks wait for the lock. \<open>cfg_other\<close> is everything else the daemon does.
\<close>

inductive cfg_step :: "(string \<Rightarrow> string + config) \<Rightarrow> admin_state \<times> (string \<times> config) list \<Rightarrow> admin_state \<times> (string \<times> config) list \<Rightarrow> bool" for yp where
  cfg_check: "put_check yp w body a = Ok c \<Longrightarrow> cfg_step yp (a, pend) (a, (body, c) # pend)"
| cfg_commit: "(body, c) \<in> set pend \<Longrightarrow> cfg_step yp (a, pend) (snd (put_commit now body c a), remove1 (body, c) pend)"
| cfg_rollback: "cfg_step yp (a, pend) (snd (config_rollback yp w now a), pend)"
| cfg_other: "dm_cfg d = dm_cfg (ad_daemon a) \<Longrightarrow> cfg_step yp (a, pend) (a\<lparr>ad_daemon := d\<rparr>, pend)"

text \<open>What the operator gave: the running configuration, and those the live file and the previous revision load as.\<close>

definition operator_configs :: "(string \<Rightarrow> string + config) \<Rightarrow> admin_state \<Rightarrow> config set" where
  "operator_configs yp a = insert (dm_cfg (ad_daemon a)) {c. \<exists>w t. t \<in> texts (ad_config_path a) (ad_fs a) \<and> load_from_str yp w t = Ok c}"

definition covered :: "config set \<Rightarrow> config \<Rightarrow> bool" where
  "covered C c \<longleftrightarrow> grants c \<subseteq> \<Union> (grants ` C) \<and> secret_refs c \<subseteq> \<Union> (secret_refs ` C) \<and> nc_data_dir (cf_node c) \<in> (\<lambda>c. nc_data_dir (cf_node c)) ` C"

lemma covered_within: "covered C d \<Longrightarrow> keeps_within c d \<Longrightarrow> covered C c"
  by (auto simp: covered_def keeps_within_def)

lemma covered_member: "c \<in> C \<Longrightarrow> covered C c"
  by (auto simp: covered_def)

text \<open>The surroundings in which a text is loaded do not change what it grants.\<close>

lemma load_same:
  assumes "load_from_str yp w t = Ok c" "load_from_str yp w' t = Ok d"
  shows "keeps_within c d"
proof -
  obtain c0 where c0: "yp t = Ok c0" "redact c = redact (c0\<lparr>cf_raw_yaml := t, cf_raw_plugin_configs := cf_raw_plugin_configs c\<rparr>)"
    "cf_raw_plugin_configs c = map (\<lambda>(n, p). (n, pc_config p)) (cf_plugins c0)"
    "cf_plugins c = map (\<lambda>(n, p). (n, p\<lparr>pc_config := snd (resolve_value w (pc_config p))\<rparr>)) (cf_plugins c0)"
    by (rule load_ok[OF assms(1)])
  obtain d0 where d0: "yp t = Ok d0" "redact d = redact (d0\<lparr>cf_raw_yaml := t, cf_raw_plugin_configs := cf_raw_plugin_configs d\<rparr>)"
    "cf_raw_plugin_configs d = map (\<lambda>(n, p). (n, pc_config p)) (cf_plugins d0)"
    "cf_plugins d = map (\<lambda>(n, p). (n, p\<lparr>pc_config := snd (resolve_value w' (pc_config p))\<rparr>)) (cf_plugins d0)"
    by (rule load_ok[OF assms(2)])
  have eq: "c0 = d0" using c0(1) d0(1) by simp
  have "cf_node (redact c) = cf_node (redact d)" unfolding c0(2) d0(2) eq by (simp add: redact_def)
  then have "cf_node c = cf_node d" by (simp add: redact_def)
  moreover have "grants c = grants d" unfolding grants_def c0(4) d0(4) eq by force
  ultimately show ?thesis using c0(3) d0(3) eq by (simp add: keeps_within_def secret_refs_def)
qed

definition text_covered :: "(string \<Rightarrow> string + config) \<Rightarrow> config set \<Rightarrow> string \<Rightarrow> bool" where
  "text_covered yp C t \<longleftrightarrow> (\<forall>w c. load_from_str yp w t = Ok c \<longrightarrow> covered C c)"

definition cfg_inv :: "(string \<Rightarrow> string + config) \<Rightarrow> config set \<Rightarrow> admin_state \<times> (string \<times> config) list \<Rightarrow> bool" where
  "cfg_inv yp C S \<longleftrightarrow> covered C (dm_cfg (ad_daemon (fst S))) \<and> Ball (texts (ad_config_path (fst S)) (ad_fs (fst S))) (text_covered yp C) \<and>
     (\<forall>(t, c) \<in> set (snd S). covered C c \<and> text_covered yp C t)"

lemma put_commit_inv:
  assumes "cfg_inv yp C (a, pend)" "(t, c) \<in> set pend"
  shows "cfg_inv yp C (snd (put_commit now t c a), remove1 (t, c) pend)"
proof -
  obtain ok fs where wr: "write_config_replacing_current (ad_config_path a) t (ad_fs a) = (ok, fs)" by fastforce
  obtain rr d where ap: "apply_config now c (ad_daemon a) = (rr, d)" by fastforce
  have a': "snd (put_commit now t c a) = (if ok then a\<lparr>ad_fs := fs, ad_daemon := d\<rparr> else a\<lparr>ad_fs := fs\<rparr>)"
    using wr ap by (simp add: put_commit_def)
  have tc: "covered C c" "text_covered yp C t" using assms by (auto simp: cfg_inv_def)
  have "Ball (texts (ad_config_path a) fs) (text_covered yp C)"
    using write_config_texts(1)[OF wr] assms(1) tc(2) by (auto simp: cfg_inv_def)
  moreover have "\<forall>e \<in> set (remove1 (t, c) pend). e \<in> set pend" using set_remove1_subset by fast
  ultimately show ?thesis using assms(1) tc(1) apply_config_cfg[OF ap] unfolding a' by (auto simp: cfg_inv_def)
qed

lemma rollback_inv:
  assumes "cfg_inv yp C (a, pend)"
  shows "cfg_inv yp C (snd (config_rollback yp w now a), pend)"
proof (cases "config_rollback yp w now a")
  case (Pair r a')
  let ?p = "ad_config_path a" and ?prev = "ad_config_path a @ ''.prev''"
  show ?thesis
  proof (cases "a' = a")
    case True then show ?thesis using assms Pair by simp
  next
    case False
    with Pair obtain t c where t: "read_file ?prev (ad_fs a) = Some t" "load_from_str yp w t = Ok c"
      by (auto simp: config_rollback_def prev_path_for_def Let_def split: if_splits option.splits sum.splits)
    obtain ok fs where sw: "swap_with_prev ?p (ad_fs a) = (ok, fs)" by fastforce
    obtain rr d where ap: "apply_config now c (ad_daemon a) = (rr, d)" by fastforce
    have a': "a' = (if ok then a\<lparr>ad_fs := fs, ad_daemon := d\<rparr> else a\<lparr>ad_fs := fs\<rparr>)"
      using Pair False t sw ap by (auto simp: config_rollback_def prev_path_for_def Let_def split: if_splits)
    have "t \<in> texts ?p (ad_fs a)" using t(1) by (auto simp: read_file_def texts_files split: option.splits if_splits)
    then have "covered C c" using assms t(2) by (auto simp: cfg_inv_def text_covered_def)
    then show ?thesis using assms swap_texts[OF sw] apply_config_cfg[OF ap] unfolding Pair snd_conv a' by (auto simp: cfg_inv_def)
  qed
qed

lemma cfg_step_inv: "cfg_step yp S S' \<Longrightarrow> cfg_inv yp C S \<Longrightarrow> cfg_inv yp C S'"
proof (induction rule: cfg_step.induct)
  case (cfg_check w body a c pend)
  from put_check_ok[OF cfg_check(1)] have c: "load_from_str yp w body = Ok c" "keeps_within c (dm_cfg (ad_daemon a))" by simp_all
  have "covered C c" using covered_within[OF _ c(2)] cfg_check(2) by (simp add: cfg_inv_def)
  moreover have "text_covered yp C body"
    unfolding text_covered_def using covered_within[OF calculation load_same[OF _ c(1)]] by blast
  ultimately show ?case using cfg_check(2) by (simp add: cfg_inv_def)
next
  case (cfg_commit body c pend a now) then show ?case by (simp add: put_commit_inv)
next
  case (cfg_rollback a pend w now) then show ?case by (rule rollback_inv)
next
  case (cfg_other d a pend) then show ?case by (simp add: cfg_inv_def)
qed

interpretation cfg_sys: invariant_system "cfg_step yp" "cfg_inv yp C" for yp C
  by unfold_locales (rule cfg_step_inv)

lemma operator_inv: "cfg_inv yp (operator_configs yp a) (a, [])"
  by (auto simp: cfg_inv_def text_covered_def operator_configs_def intro!: covered_member)

text \<open>
  C25: The admin API never gives a plugin a command. Over every interleaving of writes, rollbacks and whatever else
  the daemon does, with file operations failing at any point, the running configuration has only commands, secret references
  (each with its plugin) and a data directory of the configurations the operator left: the running one, the live file or
  its previous revision.
\<close>

theorem api_never_grants:
  assumes "(cfg_step yp)\<^sup>*\<^sup>* (a, []) (a', pend)"
  shows "covered (operator_configs yp a) (dm_cfg (ad_daemon a'))"
proof -
  have "cfg_inv yp (operator_configs yp a) (a', pend)"
    by (rule cfg_sys.reach_inv[OF assms operator_inv])
  then show ?thesis by (simp add: cfg_inv_def)
qed

theorem api_never_grants_witness:
  "\<exists>a' :: admin_state. dm_cfg (ad_daemon a') \<noteq> dm_cfg (ad_daemon admin_demo) \<and> covered (operator_configs parse_demo admin_demo) (dm_cfg (ad_daemon a'))"
proof -
  obtain rr a' where put: "config_put parse_demo world_demo 0 ''new'' admin_demo = (ConfigApplied rr, a')" using put_demo by blast
  then obtain c where c: "put_check parse_demo world_demo ''new'' admin_demo = Ok c" "put_commit 0 ''new'' c admin_demo = (ConfigApplied rr, a')"
    by (auto simp: config_put_def dest: put_check_err split: sum.splits)
  have "cfg_step parse_demo (admin_demo, []) (admin_demo, [(''new'', c)])" using c(1) by (rule cfg_check)
  moreover have "cfg_step parse_demo (admin_demo, [(''new'', c)]) (snd (put_commit 0 ''new'' c admin_demo), remove1 (''new'', c) [(''new'', c)])"
    by (rule cfg_commit) simp
  then have "cfg_step parse_demo (admin_demo, [(''new'', c)]) (a', [])" by (simp only: c(2) snd_conv remove1.simps simp_thms if_True)
  ultimately have "(cfg_step parse_demo)\<^sup>*\<^sup>* (admin_demo, []) (a', [])" by (rule converse_rtranclp_into_rtranclp[OF _ r_into_rtranclp])
  from api_never_grants[OF this] have "covered (operator_configs parse_demo admin_demo) (dm_cfg (ad_daemon a'))" .
  moreover have "cf_raw_yaml (dm_cfg (ad_daemon a')) = ''new''"
    by (rule put_applied[OF put]) (auto simp: load_demo dest: apply_config_cfg)
  then have "dm_cfg (ad_daemon a') \<noteq> dm_cfg (ad_daemon admin_demo)"
    by (intro notI) (simp add: admin_demo_def daemon_demo_def cfg_valid_def cfg_demo_def)
  ultimately show ?thesis by blast
qed

subsection \<open>Where the checks fall short\<close>

text \<open>
  Validation tells whether a file can be read. A document whose only secret reference is a file of the caller's choice
  is valid exactly when the daemon can read that file as text that is not blank: the error is the same for every cause
  of a failure, but success is not an error, and the references of a document that is only validated are not limited.
\<close>

theorem validate_probes_files:
  assumes "valid_utf8 body" "yp body = Ok c" "validate c = Ok ()" "concat (map (\<lambda>(n, p). refs_of (pc_config p)) (cf_plugins c)) = [SFile path]"
    and "starts_with path ''/''"
  shows "config_validate yp w body = ConfigValid \<longleftrightarrow> (\<exists>text. sw_file w path = Some text \<and> trim_chars text \<noteq> [])"
proof -
  have "list_all (\<lambda>(n, p). failures w (refs_of (pc_config p)) = []) (cf_plugins c) \<longleftrightarrow> failures w [SFile path] = []"
    unfolding assms(4)[symmetric] failures_concat by (auto simp: list_all_iff)
  moreover have "failures w [SFile path] = [] \<longleftrightarrow> (\<exists>text. sw_file w path = Some text \<and> trim_chars text \<noteq> [])"
    using assms(5) by (auto simp: failures_def List.map_filter_def resolve_def split: sum.splits option.splits)
  ultimately show ?thesis using assms(1-3)
    by (auto simp: config_validate_def load_from_str_def Let_def resolve_secrets_eq split: if_splits)
qed

definition cfg_probe :: config where
  "cfg_probe = cfg_demo\<lparr>cf_plugins := [(''mqtt'', plugin_on\<lparr>pc_config := YString ''${file:/k}''\<rparr>)], cf_routes := [],
     cf_discovery := \<lparr>dc_mode = ''federation'', dc_advert_ttl_secs = 600\<rparr>\<rparr>"

lemma cfg_probe_ok: "validate cfg_probe = Ok ()"
  by (simp add: validate_def validated_parts passes cfg_probe_def cfg_demo_def plugin_on_def bound_socket_paths_def path_join_def
      SOCKET_PATH_MAX_def FED_PROTOCOL_def MAX_LIFECYCLE_SECS_def name_shapes is_unsafe_advert_name_char_def is_control_def code_point_def Let_def)

theorem validate_probes_files_witness:
  "config_validate (\<lambda>_. Ok cfg_probe) (world_demo\<lparr>sw_file := (\<lambda>_. Some ''x'')\<rparr>) ''d'' = ConfigValid \<and>
   config_validate (\<lambda>_. Ok cfg_probe) world_demo ''d'' \<noteq> ConfigValid"
proof -
  have "valid_utf8 ''d''" "starts_with ''/k'' ''/''" "parse_ref ''${file:/k}'' = Some (SFile ''/k'')" "trim_chars ''x'' \<noteq> []" by code_simp+
  then show ?thesis using validate_probes_files[of "''d''" "\<lambda>_. Ok cfg_probe" cfg_probe "''/k''"] cfg_probe_ok
    by (simp add: cfg_probe_def world_demo_def)
qed

text \<open>
  Loading reveals of a secret only whether it can be read. Two surroundings in which the same references
  resolve give the same outcome with the same error text, and on success configurations that differ at most in the
  blocks handed to the plugins: the YAML text, the unresolved snapshot and everything else are the same.
\<close>

theorem load_hides_secrets:
  assumes "same_failures w1 w2"
  shows "map_sum id redact (load_from_str yp w1 raw) = map_sum id redact (load_from_str yp w2 raw)"
proof (cases "yp raw")
  case (Inr c0)
  let ?c = "c0\<lparr>cf_raw_yaml := raw\<rparr>"
  have f: "failures w1 = failures w2" using failures_same[OF assms] by (rule ext)
  have "map_sum id redact (resolve_secrets w1 ?c) = map_sum id redact (resolve_secrets w2 ?c)"
    by (simp add: resolve_secrets_eq f redact_def comp_def split_beta)
  moreover have "map_sum id redact (case x of Inl e \<Rightarrow> Inl (SecretErrors e) | Inr c \<Rightarrow> Inr c) =
      (case map_sum id redact x of Inl e \<Rightarrow> Inl (SecretErrors e) | Inr c \<Rightarrow> Inr c)" for x by (cases x) simp_all
  ultimately show ?thesis using Inr by (cases "validate ?c") (simp_all add: load_from_str_def)
qed (simp add: load_from_str_def)

theorem load_hides_secrets_witness:
  "\<exists>c1 c2. load_from_str (\<lambda>_. Ok cfg_probe) (world_demo\<lparr>sw_file := (\<lambda>_. Some ''alpha'')\<rparr>) ''d'' = Ok c1 \<and>
     load_from_str (\<lambda>_. Ok cfg_probe) (world_demo\<lparr>sw_file := (\<lambda>_. Some ''beta'')\<rparr>) ''d'' = Ok c2 \<and> c1 \<noteq> c2 \<and> redact c1 = redact c2"
proof -
  let ?w1 = "world_demo\<lparr>sw_file := (\<lambda>_. Some ''alpha'')\<rparr>" and ?w2 = "world_demo\<lparr>sw_file := (\<lambda>_. Some ''beta'')\<rparr>"
  have t: "trim_chars ''alpha'' = ''alpha''" "trim_chars ''beta'' = ''beta''" "parse_ref ''${file:/k}'' = Some (SFile ''/k'')" "starts_with ''/k'' ''/''" by code_simp+
  have r: "resolve ?w1 (SFile ''/k'') = Ok ''alpha''" "resolve ?w2 (SFile ''/k'') = Ok ''beta''" by (simp_all add: resolve_def t)
  have "same_failures ?w1 ?w2" by (auto simp: same_failures_def resolve_def t world_demo_def split: secret_ref.split)
  note same = load_hides_secrets[OF this, of "\<lambda>_. Ok cfg_probe" "''d''"]
  define c where "c v = cfg_probe\<lparr>cf_raw_yaml := ''d'', cf_plugins := [(''mqtt'', plugin_on\<lparr>pc_config := YString v\<rparr>)],
      cf_raw_plugin_configs := [(''mqtt'', YString ''${file:/k}'')]\<rparr>" for v
  have l: "load_from_str (\<lambda>_. Ok cfg_probe) w ''d'' = Ok (c v)" if "resolve w (SFile ''/k'') = Ok v" for w v
  proof -
    have "resolve_secrets w (cfg_probe\<lparr>cf_raw_yaml := ''d''\<rparr>) = Ok (c v)"
      by (simp add: resolve_secrets_def that t(3) cfg_probe_def c_def)
    then show ?thesis by (simp add: load_from_str_def cfg_probe_ok)
  qed
  have "cf_plugins (c ''alpha'') \<noteq> cf_plugins (c ''beta'')" by (simp add: c_def plugin_on_def)
  then have "c ''alpha'' \<noteq> c ''beta''" by auto
  then show ?thesis using same l[OF r(1)] l[OF r(2)] by simp
qed

text \<open>
  A reference that stays where it is can be pointed elsewhere. A write that changes only the host in the block of a
  plugin, and leaves its secret reference in place, passes every check, and the plugin is handed the secret together
  with the new host.
\<close>

definition mqtt_block :: "string \<Rightarrow> yaml \<Rightarrow> yaml" where
  "mqtt_block host password = YMapping [(YString ''host'', YString host), (YString ''password'', password)]"

definition mqtt_config :: "string \<Rightarrow> config" where
  "mqtt_config host = cfg_demo\<lparr>cf_plugins := [(''mqtt'', plugin_on\<lparr>pc_config := mqtt_block host (YString ''${file:/k}'')\<rparr>)],
     cf_raw_plugin_configs := [(''mqtt'', mqtt_block host (YString ''${file:/k}''))], cf_routes := []\<rparr>"

theorem put_repoints_secret:
  "put_problems (mqtt_config ''broker.internal'') (mqtt_config ''elsewhere.example'') = [] \<and>
   map_sum id (\<lambda>c. map_of (cf_plugins c) ''mqtt'') (resolve_secrets (world_demo\<lparr>sw_file := (\<lambda>_. Some ''s3cret'')\<rparr>) (mqtt_config ''elsewhere.example'')) =
     Ok (Some (plugin_on\<lparr>pc_config := mqtt_block ''elsewhere.example'' (YString ''s3cret'')\<rparr>))"
proof -
  have r: "parse_ref ''${file:/k}'' = Some (SFile ''/k'')" "parse_ref ''elsewhere.example'' = None" "parse_ref ''broker.internal'' = None" by code_simp+
  have w: "resolve (world_demo\<lparr>sw_file := (\<lambda>_. Some ''s3cret'')\<rparr>) (SFile ''/k'') = Ok ''s3cret''" by code_simp
  show ?thesis by (simp add: put_problems_def rejected_command_changes_def rejected_secret_ref_changes_def secret_refs_def
      mqtt_config_def mqtt_block_def plugin_on_def resolve_secrets_def r w)
qed

end
