(* ===== verification/Admin_Api.thy ===== *)
theory Admin_Api
  imports Fed_Conn Daemon_Sys Config_Validate
begin

text \<open>
  The endpoints of the admin API that report on the daemon or change identity links
  (\<open>src/switchyardd/src/admin.rs\<close>); the configuration endpoints are in \<open>Admin_Config\<close>, requeue and purge in
  \<open>Daemon_Sys\<close>. A response is its status and the value that is serialised; the JSON reader of a request body is a
  parameter.
\<close>

datatype 'a reply = Body nat 'a | Fail nat string

definition storage_error :: "'a reply" where
  "storage_error = Fail 500 ''storage error''"

subsection \<open>Status\<close>

definition queue_map :: "daemon \<Rightarrow> (string \<times> int) list" where
  "queue_map d = (case queue_counts (dm_store d) of Inr q \<Rightarrow> q | Inl _ \<Rightarrow> [])"

definition enabled_names :: "daemon \<Rightarrow> string list" where
  "enabled_names d = map fst (filter (\<lambda>(_, p). pc_enabled p) (cf_plugins (dm_cfg d)))"

definition handle_up :: "daemon \<Rightarrow> string \<Rightarrow> bool" where
  "handle_up d name = (case map_of (dm_plugins d) name of Some h \<Rightarrow> ph_connected h | None \<Rightarrow> False)"

definition plugin_state :: "daemon \<Rightarrow> (string \<times> bool) list" where
  "plugin_state d = map (\<lambda>name. (name, handle_up d name)) (enabled_names d)"

record status_response =
  sr_node :: string
  sr_node_id :: string
  sr_plugins :: "(string \<times> bool) list"
  sr_public :: bool
  sr_queue :: "(string \<times> int) list"

definition healthz :: "string reply" where
  "healthz = Body 200 ''ok''"

definition readyz :: "daemon \<Rightarrow> string reply" where
  "readyz d = (case queue_counts (dm_store d) of Inr _ \<Rightarrow> Body 200 ''ready'' | Inl _ \<Rightarrow> Body 503 ''unavailable'')"

definition status :: "ext \<Rightarrow> daemon \<Rightarrow> status_response reply" where
  "status X d = Body 200 \<lparr>sr_node = nc_name (cf_node (dm_cfg d)), sr_node_id = identity_node_id X (dm_identity d),
     sr_plugins = plugin_state d, sr_public = nc_public (cf_node (dm_cfg d)), sr_queue = queue_map d\<rparr>"

definition public :: "daemon \<Rightarrow> (bool \<times> public_service list) reply" where
  "public d = Body 200 (nc_public (cf_node (dm_cfg d)), cf_public_services (dm_cfg d))"

record limits_response =
  lr_cas_bytes_used :: nat
  lr_limits :: limits
  lr_transport_budgets :: "(string \<times> u32) list"

definition limits_endpoint :: "daemon \<Rightarrow> limits_response reply" where
  "limits_endpoint d = Body 200 \<lparr>lr_cas_bytes_used = cs_total (dm_cas d), lr_limits = cf_limits (dm_cfg d),
     lr_transport_budgets = cf_transport_budgets (dm_cfg d)\<rparr>"

record plugin_entry =
  pe_connected :: bool
  pe_capabilities :: "capabilities option"
  pe_gauges :: "(string \<times> f64 \<times> nat) list"

definition plugins_endpoint :: "instant \<Rightarrow> daemon \<Rightarrow> (string \<times> plugin_entry) list reply" where
  "plugins_endpoint t d = Body 200 (map (\<lambda>name. (name,
     \<lparr>pe_connected = handle_up d name, pe_capabilities = map_option ph_capabilities (map_of (dm_plugins d) name),
      pe_gauges = for_plugin name t (dm_gauges d)\<rparr>)) (enabled_names d))"

definition policies_for_route :: "route_config \<Rightarrow> policy list \<Rightarrow> string list" where
  "policies_for_route r ps =
     (let dest_protocols = set (map ep_protocol (rc_destinations r)) in
      map pol_name (filter (\<lambda>p. pol_destination_protocol p = [] \<or> list_ex (\<lambda>proto. proto \<in> dest_protocols) (pol_destination_protocol p)) ps))"

record route_item =
  ri_destinations :: "string list"
  ri_identity_mode :: string
  ri_name :: string
  ri_policies :: "string list"
  ri_render :: render_config
  ri_sources :: "string list"

definition routes_endpoint :: "daemon \<Rightarrow> route_item list reply" where
  "routes_endpoint d = Body 200 (map (\<lambda>r. \<lparr>ri_destinations = map endpoint_display (rc_destinations r),
     ri_identity_mode = rc_identity_mode r, ri_name = rc_name r, ri_policies = policies_for_route r (cf_policies (dm_cfg d)),
     ri_render = rc_render r, ri_sources = map endpoint_display (rc_sources r)\<rparr>) (cf_routes (dm_cfg d)))"

definition metrics_text :: "(f64 \<Rightarrow> string) \<Rightarrow> (u64 \<Rightarrow> string) \<Rightarrow> instant \<Rightarrow> daemon \<Rightarrow> string" where
  "metrics_text fmt fmt_secs t d =
     metrics_render fmt fmt_secs t (dm_metrics d) (dm_peers_up d) (dm_route_messages d) (queue_map d) (plugin_state d) (dm_gauges d)"

subsection \<open>Queue and trace\<close>

definition shown_destination :: "delivery \<Rightarrow> string" where
  "shown_destination del =
     (if dl_route del = IDENTITY_ROUTE
      then ep_protocol (dl_destination del) @ '':'' @ mask_ref (ep_endpoint (dl_destination del))
      else endpoint_display (dl_destination del))"

record queue_item =
  qi_id :: int
  qi_message_id :: uuid
  qi_route :: string
  qi_destination :: string
  qi_state :: string
  qi_reason :: "string option"
  qi_attempts :: nat
  qi_created_at :: datetime
  qi_updated_at :: datetime

datatype queue_response = QueueCountsOf "(string \<times> int) list" | Deliveries "queue_item list"

definition queue_item_of :: "delivery \<Rightarrow> queue_item" where
  "queue_item_of del = \<lparr>qi_id = dl_id del, qi_message_id = dl_message_id del, qi_route = dl_route del, qi_destination = shown_destination del,
     qi_state = state_name (dl_state del), qi_reason = dl_reason del, qi_attempts = dl_attempt_count del,
     qi_created_at = dl_created_at del, qi_updated_at = dl_updated_at del\<rparr>"

definition queue :: "string option \<Rightarrow> nat option \<Rightarrow> daemon \<Rightarrow> queue_response reply" where
  "queue state limit d =
     (case state of
        None \<Rightarrow> Body 200 (QueueCountsOf (queue_map d))
      | Some s \<Rightarrow>
          let n = max 1 (min 1000 (case limit of Some l \<Rightarrow> l | None \<Rightarrow> 100)) in
          (case list_deliveries (Some s) n (dm_store d) of
             Inl _ \<Rightarrow> storage_error
           | Inr ds \<Rightarrow> Body 200 (Deliveries (map queue_item_of ds))))"

record trace_item =
  ti_route :: string
  ti_destination :: string
  ti_priority :: nat
  ti_state :: string
  ti_attempts :: nat
  ti_reason :: "string option"
  ti_next_attempt :: datetime
  ti_expires_at :: datetime

record trace_response =
  tp_id :: uuid
  tp_source :: string
  tp_kind :: string
  tp_created_at :: datetime
  tp_received_at :: datetime
  tp_expires_at :: datetime
  tp_body_bytes :: nat
  tp_deliveries :: "trace_item list"

definition trace_item_of :: "delivery \<Rightarrow> trace_item" where
  "trace_item_of del = \<lparr>ti_route = dl_route del, ti_destination = shown_destination del, ti_priority = dl_priority del,
     ti_state = state_name (dl_state del), ti_attempts = dl_attempt_count del, ti_reason = dl_reason del,
     ti_next_attempt = dl_next_attempt del, ti_expires_at = dl_expires_at del\<rparr>"

definition trace :: "uuid \<Rightarrow> daemon \<Rightarrow> trace_response reply" where
  "trace i d =
     (case get_message i (dm_store d) of
        Inl _ \<Rightarrow> storage_error
      | Inr None \<Rightarrow> Fail 404 ''unknown message''
      | Inr (Some env) \<Rightarrow>
          (case deliveries_for i (dm_store d) of
             Inl _ \<Rightarrow> storage_error
           | Inr rows \<Rightarrow>
               Body 200 \<lparr>tp_id = env_id env, tp_source = endpoint_display (env_source env), tp_kind = env_kind env,
                 tp_created_at = env_created_at env, tp_received_at = env_received_at env, tp_expires_at = env_expires_at env,
                 tp_body_bytes = length (env_body env), tp_deliveries = map trace_item_of rows\<rparr>))"

subsection \<open>Identities\<close>

record link_item =
  li_a :: string
  li_b :: string
  li_display_name :: string
  li_id :: int
  li_verified_at :: datetime

definition link_item_of :: "link \<Rightarrow> link_item" where
  "link_item_of l = \<lparr>li_a = lk_a_protocol l @ '':'' @ mask_ref (lk_a_ref l), li_b = lk_b_protocol l @ '':'' @ mask_ref (lk_b_ref l),
     li_display_name = lk_display_name l, li_id = lk_id l, li_verified_at = lk_verified_at l\<rparr>"

definition identities :: "daemon \<Rightarrow> link_item list reply" where
  "identities d = (case list_links (dm_store d) of Inl _ \<Rightarrow> storage_error | Inr ls \<Rightarrow> Body 200 (map link_item_of ls))"

record link_request =
  lq_requester :: string
  lq_target :: string
  lq_display_name :: string

definition validate_display_name :: "string \<Rightarrow> string + unit" where
  "validate_display_name name =
     (if trim_chars name = [] then Err ''display_name must not be empty''
      else
        let len = length (rust_chars name) in
        if len > 64 then Err (''display_name is '' @ nat_str len @ '' characters, over the 64-character limit'')
        else if list_ex is_unsafe_advert_name_char (rust_chars name) then
          Err ''display_name contains an unsafe character: no control characters, newlines, or Unicode bidi-control/default-ignorable codepoints allowed''
        else Ok ())"

definition create_link ::
  "(bytes \<Rightarrow> link_request option) \<Rightarrow> (nat \<Rightarrow> uuid) \<Rightarrow> nat \<Rightarrow> datetime \<Rightarrow> bytes \<Rightarrow> daemon \<Rightarrow> int reply \<times> daemon" where
  "create_link read_json fresh code_num now body d =
     (case read_json body of
        None \<Rightarrow> (Fail 400 ''invalid request body'', d)
      | Some req \<Rightarrow>
          (case endpoint_from_str (lq_requester req) of
             Inl e \<Rightarrow> (Fail 400 e, d)
           | Inr requester \<Rightarrow>
               (case endpoint_from_str (lq_target req) of
                  Inl e \<Rightarrow> (Fail 400 e, d)
                | Inr target \<Rightarrow>
                    (case validate_display_name (lq_display_name req) of
                       Inl e \<Rightarrow> (Fail 400 e, d)
                     | Inr _ \<Rightarrow>
                         (case initiate_link fresh code_num now requester target (lq_display_name req) d of
                            (Inr challenge_id, d1) \<Rightarrow> (Body 202 challenge_id, d1)
                          | (Inl e, d1) \<Rightarrow> (Fail 409 e, d1))))))"

definition delete_link_endpoint :: "int \<Rightarrow> daemon \<Rightarrow> nat \<times> daemon" where
  "delete_link_endpoint i d =
     (case on_store (delete_link i) d of
        (Inr True, d1) \<Rightarrow> (204, d1)
      | (Inr False, d1) \<Rightarrow> (404, d1)
      | (Inl _, d1) \<Rightarrow> (500, d1))"

record challenge_item =
  ci_expires_at :: datetime
  ci_id :: int
  ci_target :: string

definition challenge_item_of :: "challenge \<Rightarrow> challenge_item" where
  "challenge_item_of c = \<lparr>ci_expires_at = ch_expires_at c, ci_id = ch_id c, ci_target = ch_target_protocol c @ '':'' @ mask_ref (ch_target_ref c)\<rparr>"

definition challenges :: "datetime \<Rightarrow> daemon \<Rightarrow> (challenge_item list \<times> nat) reply" where
  "challenges now d =
     (case list_challenges now (dm_store d) of
        Inl _ \<Rightarrow> storage_error
      | Inr cs \<Rightarrow> Body 200 (map challenge_item_of cs, length cs))"

subsection \<open>Federation\<close>

record federation_peer_item =
  fp_connected :: bool
  fp_last_seen :: "datetime option"
  fp_name :: "string option"
  fp_node_id :: string
  fp_trust :: string

text \<open>Collecting the connections by node id keeps the last of several, in the order the map is iterated.\<close>

definition live_conns :: "(string \<times> peer_conn) list \<Rightarrow> string \<Rightarrow> peer_conn option" where
  "live_conns conns = map_of (rev (map (\<lambda>(_, c). (cn_node_id c, c)) conns))"

definition federation_item :: "string option \<Rightarrow> string \<Rightarrow> (string \<times> string \<times> datetime \<times> datetime) list \<Rightarrow> peer_conn option \<Rightarrow> federation_peer_item" where
  "federation_item name node_id rows conn =
     (let row = find (\<lambda>(i, _). i = node_id) rows in
      \<lparr>fp_connected = (conn \<noteq> None),
       fp_last_seen = (case conn of Some c \<Rightarrow> Some (cn_connected_at c) | None \<Rightarrow> map_option (\<lambda>(_, _, _, u). u) row),
       fp_name = name, fp_node_id = node_id,
       fp_trust = (case row of Some (_, level, _) \<Rightarrow> level | None \<Rightarrow> ''unknown'')\<rparr>)"

definition federation :: "daemon \<Rightarrow> federation_peer_item list reply" where
  "federation d =
     (case dm_fed d of
        None \<Rightarrow> Body 200 []
      | Some conns \<Rightarrow>
          let configured = (case cf_federation (dm_cfg d) of Some f \<Rightarrow> fc_peers f | None \<Rightarrow> []) in
          (case list_trust (dm_store d) of
             Inl _ \<Rightarrow> storage_error
           | Inr rows \<Rightarrow>
               Body 200 (map (\<lambda>p. federation_item (Some (pe_name p)) (pe_node_id p) rows (live_conns conns (pe_node_id p))) configured @
                 map (\<lambda>(i, _). federation_item None i rows (live_conns conns i))
                   (filter (\<lambda>(i, _). i \<notin> pe_node_id ` set configured) rows))))"

record discovery_item =
  di_node_id :: string
  di_name :: string
  di_services :: "(string \<times> bool) list"
  di_protocols :: "(string \<times> proto_caps) list"
  di_security :: security_caps
  di_expires :: int
  di_received_at :: datetime

definition discovery_item_of :: "ext \<Rightarrow> string \<times> bytes \<times> datetime \<Rightarrow> discovery_item option" where
  "discovery_item_of X r =
     (case r of (node_id, cbor, received_at) \<Rightarrow>
        (case x_uncbor_advert X cbor of
           Some a \<Rightarrow>
             if advert_verify X a = Ok () \<and> ad_node_id a = node_id then
               Some \<lparr>di_node_id = node_id, di_name = sanitize_advert_name (ad_name a), di_services = ad_services a,
                     di_protocols = ad_protocols a, di_security = ad_security a, di_expires = ad_expires a, di_received_at = received_at\<rparr>
             else None
         | None \<Rightarrow> None))"

definition discovery :: "ext \<Rightarrow> datetime \<Rightarrow> daemon \<Rightarrow> (string \<times> advert option \<times> discovery_item list) reply" where
  "discovery X now d =
     (case list_peer_adverts now (dm_store d) of
        Inl _ \<Rightarrow> storage_error
      | Inr rows \<Rightarrow> Body 200 (dc_mode (cf_discovery (dm_cfg d)), build_signed_advert X now d, List.map_filter (discovery_item_of X) rows))"

end
