(* ===== verification/Admin_Api_Props.thy ===== *)
theory Admin_Api_Props
  imports Admin_Api Ingress_Props
begin

text \<open>
  What the reports of the admin API reveal: refs only in their masked form, messages without their content,
  challenges without their code, and adverts only as their node signed them.
\<close>

subsection \<open>Masking\<close>

text \<open>Two rows that differ only in what a report must not show.\<close>

definition delivery_alike :: "delivery \<Rightarrow> delivery \<Rightarrow> bool" where
  "delivery_alike d e \<longleftrightarrow> d\<lparr>dl_destination := dl_destination e\<rparr> = e \<and> ep_protocol (dl_destination d) = ep_protocol (dl_destination e) \<and>
     (if dl_route d = IDENTITY_ROUTE then mask_ref (ep_endpoint (dl_destination d)) = mask_ref (ep_endpoint (dl_destination e))
      else dl_destination d = dl_destination e)"

definition link_alike :: "link \<Rightarrow> link \<Rightarrow> bool" where
  "link_alike l k \<longleftrightarrow> l\<lparr>lk_a_ref := lk_a_ref k, lk_b_ref := lk_b_ref k\<rparr> = k \<and> mask_ref (lk_a_ref l) = mask_ref (lk_a_ref k) \<and> mask_ref (lk_b_ref l) = mask_ref (lk_b_ref k)"

definition challenge_alike :: "challenge \<Rightarrow> challenge \<Rightarrow> bool" where
  "challenge_alike c e \<longleftrightarrow> ch_id c = ch_id e \<and> ch_expires_at c = ch_expires_at e \<and> ch_target_protocol c = ch_target_protocol e \<and>
     mask_ref (ch_target_ref c) = mask_ref (ch_target_ref e)"

definition envelope_alike :: "envelope \<Rightarrow> envelope \<Rightarrow> bool" where
  "envelope_alike x y \<longleftrightarrow> env_id x = env_id y \<and> env_source x = env_source y \<and> env_kind x = env_kind y \<and> env_created_at x = env_created_at y \<and>
     env_received_at x = env_received_at y \<and> env_expires_at x = env_expires_at y \<and> length (env_body x) = length (env_body y)"

definition message_alike :: "message_row \<Rightarrow> message_row \<Rightarrow> bool" where
  "message_alike m n \<longleftrightarrow> mr_id m = mr_id n \<and> rel_option envelope_alike (mr_envelope m) (mr_envelope n)"

definition stores_alike :: "store \<Rightarrow> store \<Rightarrow> bool" where
  "stores_alike s t \<longleftrightarrow> sql_fails s = sql_fails t \<and> list_all2 delivery_alike (st_deliveries s) (st_deliveries t) \<and> list_all2 link_alike (st_links s) (st_links t) \<and>
     list_all2 challenge_alike (st_challenges s) (st_challenges t) \<and> list_all2 message_alike (st_messages s) (st_messages t)"

lemma alike_items:
  "delivery_alike d e \<Longrightarrow> queue_item_of d = queue_item_of e" "delivery_alike d e \<Longrightarrow> trace_item_of d = trace_item_of e"
  "link_alike l k \<Longrightarrow> link_item_of l = link_item_of k" "challenge_alike c f \<Longrightarrow> challenge_item_of c = challenge_item_of f"
proof -
  assume a: "delivery_alike d e"
  define x where "x = dl_destination e"
  have e: "e = d\<lparr>dl_destination := x\<rparr>" using a by (simp add: delivery_alike_def x_def)
  have "shown_destination d = shown_destination e" using a unfolding e by (simp add: delivery_alike_def shown_destination_def split: if_splits)
  then show "queue_item_of d = queue_item_of e" "trace_item_of d = trace_item_of e"
    unfolding e by (simp_all add: queue_item_of_def trace_item_of_def)
next
  assume a: "link_alike l k"
  define x y where "x = lk_a_ref k" and "y = lk_b_ref k"
  have "k = l\<lparr>lk_a_ref := x, lk_b_ref := y\<rparr>" using a by (simp add: link_alike_def x_def y_def)
  then show "link_item_of l = link_item_of k" using a by (simp add: link_alike_def link_item_of_def)
next
  assume "challenge_alike c f" then show "challenge_item_of c = challenge_item_of f" by (simp add: challenge_alike_def challenge_item_of_def)
qed

lemma alike_keys:
  "delivery_alike d e \<Longrightarrow> dl_state d = dl_state e" "delivery_alike d e \<Longrightarrow> dl_message_id d = dl_message_id e"
  by (metis (no_types, lifting) delivery_alike_def delivery.select_convs delivery.surjective delivery.update_convs(4))+

lemma alike_filter: "list_all2 R xs ys \<Longrightarrow> (\<And>x y. R x y \<Longrightarrow> P x = P y) \<Longrightarrow> list_all2 R (filter P xs) (filter P ys)"
  by (induction rule: list_all2_induct) auto

lemma alike_map: "list_all2 R xs ys \<Longrightarrow> (\<And>x y. R x y \<Longrightarrow> f x = f y) \<Longrightarrow> map f xs = map f ys"
  by (induction rule: list_all2_induct) auto

lemma alike_length: "list_all2 R xs ys \<Longrightarrow> (\<And>x y. R x y \<Longrightarrow> P x = P y) \<Longrightarrow> length (filter P xs) = length (filter P ys)"
  by (rule list_all2_lengthD) (rule alike_filter)

lemma alike_ex: "list_all2 R xs ys \<Longrightarrow> (\<And>x y. R x y \<Longrightarrow> P x = P y) \<Longrightarrow> list_ex P xs = list_ex P ys"
  by (induction rule: list_all2_induct) auto

lemma alike_find: "list_all2 R xs ys \<Longrightarrow> (\<And>x y. R x y \<Longrightarrow> P x = P y) \<Longrightarrow> rel_option R (find P xs) (find P ys)"
  by (induction rule: list_all2_induct) auto

lemma queue_counts_alike: "stores_alike s t \<Longrightarrow> queue_counts s = queue_counts t"
proof -
  assume a: "stores_alike s t"
  then have l: "list_all2 delivery_alike (st_deliveries s) (st_deliveries t)" by (simp add: stores_alike_def)
  have "length (filter (\<lambda>d. dl_state d = x) (st_deliveries s)) = length (filter (\<lambda>d. dl_state d = x) (st_deliveries t))"
    "list_ex (\<lambda>d. dl_state d = x) (st_deliveries s) = list_ex (\<lambda>d. dl_state d = x) (st_deliveries t)" for x
    by (rule alike_length[OF l], simp add: alike_keys) (rule alike_ex[OF l], simp add: alike_keys)
  then show ?thesis using a by (simp add: queue_counts_def stores_alike_def)
qed

lemma list_deliveries_alike:
  assumes "stores_alike s t"
  shows "map_sum id (map queue_item_of) (list_deliveries q n s) = map_sum id (map queue_item_of) (list_deliveries q n t)"
proof -
  let ?P = "\<lambda>d. case q of None \<Rightarrow> True | Some x \<Rightarrow> state_name (dl_state d) = x"
  have "list_all2 delivery_alike (filter ?P (st_deliveries s)) (filter ?P (st_deliveries t))"
    using assms by (intro alike_filter) (auto simp: stores_alike_def alike_keys split: option.split)
  then have "list_all2 delivery_alike (take n (rev (filter ?P (st_deliveries s)))) (take n (rev (filter ?P (st_deliveries t))))"
    by (simp add: list_all2_takeI)
  from alike_map[OF this alike_items(1)] show ?thesis using assms by (simp add: list_deliveries_def stores_alike_def)
qed

lemma trace_alike:
  assumes "stores_alike s t"
  shows "trace i (d\<lparr>dm_store := s\<rparr>) = trace i (d\<lparr>dm_store := t\<rparr>)"
proof -
  have f: "sql_fails s = sql_fails t" using assms by (simp add: stores_alike_def)
  have "rel_option message_alike (find (\<lambda>r. mr_id r = i) (st_messages s)) (find (\<lambda>r. mr_id r = i) (st_messages t))"
    using assms by (intro alike_find) (auto simp: stores_alike_def message_alike_def)
  then have m: "rel_option envelope_alike (case find (\<lambda>r. mr_id r = i) (st_messages s) of None \<Rightarrow> None | Some r \<Rightarrow> mr_envelope r)
      (case find (\<lambda>r. mr_id r = i) (st_messages t) of None \<Rightarrow> None | Some r \<Rightarrow> mr_envelope r)"
    by (auto simp: option_rel_Some1 option_rel_Some2 message_alike_def split: option.splits)
  have "list_all2 delivery_alike (filter (\<lambda>d. dl_message_id d = i) (st_deliveries s)) (filter (\<lambda>d. dl_message_id d = i) (st_deliveries t))"
    using assms by (intro alike_filter) (auto simp: stores_alike_def alike_keys)
  from alike_map[OF this alike_items(2)] m show ?thesis
    by (auto simp: trace_def get_message_def deliveries_for_def f envelope_alike_def elim!: option.rel_cases)
qed

text \<open>
  The reports of the admin API show no native ref in full, no message content and no verification code. Two stores
  that differ only in those, with identity deliveries, links and challenge targets that mask to the same text and bodies of
  the same length, give the same queue listing and counts, the same traces, links, challenges and readiness.
\<close>

theorem reports_mask_refs:
  assumes "stores_alike s t"
  shows "queue q n (d\<lparr>dm_store := s\<rparr>) = queue q n (d\<lparr>dm_store := t\<rparr>) \<and> trace i (d\<lparr>dm_store := s\<rparr>) = trace i (d\<lparr>dm_store := t\<rparr>) \<and>
    identities (d\<lparr>dm_store := s\<rparr>) = identities (d\<lparr>dm_store := t\<rparr>) \<and> challenges now (d\<lparr>dm_store := s\<rparr>) = challenges now (d\<lparr>dm_store := t\<rparr>) \<and>
    status X (d\<lparr>dm_store := s\<rparr>) = status X (d\<lparr>dm_store := t\<rparr>) \<and> readyz (d\<lparr>dm_store := s\<rparr>) = readyz (d\<lparr>dm_store := t\<rparr>)"
proof (intro conjI)
  have f: "sql_fails s = sql_fails t" using assms by (simp add: stores_alike_def)
  have qc: "queue_map (d\<lparr>dm_store := s\<rparr>) = queue_map (d\<lparr>dm_store := t\<rparr>)" using queue_counts_alike[OF assms] by (simp add: queue_map_def)
  have "(case list_deliveries (Some x) k s of Inl _ \<Rightarrow> storage_error | Inr ds \<Rightarrow> Body 200 (Deliveries (map queue_item_of ds))) =
      (case list_deliveries (Some x) k t of Inl _ \<Rightarrow> storage_error | Inr ds \<Rightarrow> Body 200 (Deliveries (map queue_item_of ds)))" for x k
    using list_deliveries_alike[OF assms, of "Some x" k] by (auto split: sum.splits)
  then show "queue q n (d\<lparr>dm_store := s\<rparr>) = queue q n (d\<lparr>dm_store := t\<rparr>)" by (simp add: queue_def qc Let_def split: option.split)
  show "trace i (d\<lparr>dm_store := s\<rparr>) = trace i (d\<lparr>dm_store := t\<rparr>)" by (rule trace_alike[OF assms])
  have "map link_item_of (st_links s) = map link_item_of (st_links t)" using assms alike_map alike_items(3) by (auto simp: stores_alike_def)
  then show "identities (d\<lparr>dm_store := s\<rparr>) = identities (d\<lparr>dm_store := t\<rparr>)" by (simp add: identities_def list_links_def f)
  have cs: "list_all2 challenge_alike (filter (\<lambda>c. ch_expires_at c > now) (st_challenges s)) (filter (\<lambda>c. ch_expires_at c > now) (st_challenges t))"
    using assms by (intro alike_filter) (auto simp: stores_alike_def challenge_alike_def)
  from alike_map[OF cs alike_items(4)] list_all2_lengthD[OF cs] show "challenges now (d\<lparr>dm_store := s\<rparr>) = challenges now (d\<lparr>dm_store := t\<rparr>)"
    by (simp add: challenges_def list_challenges_def f)
  show "status X (d\<lparr>dm_store := s\<rparr>) = status X (d\<lparr>dm_store := t\<rparr>)" using qc by (simp add: status_def plugin_state_def enabled_names_def handle_up_def)
  show "readyz (d\<lparr>dm_store := s\<rparr>) = readyz (d\<lparr>dm_store := t\<rparr>)" using queue_counts_alike[OF assms] by (simp add: readyz_def)
qed

definition link_demo :: "string \<Rightarrow> link" where
  "link_demo r = \<lparr>lk_id = 1, lk_a_protocol = ''lxmf'', lk_a_ref = r, lk_b_protocol = ''signal'', lk_b_ref = r, lk_display_name = ''n'', lk_verified_at = 0\<rparr>"

definition pending_demo :: "string \<Rightarrow> string \<Rightarrow> challenge" where
  "pending_demo code r = \<lparr>ch_id = 1, ch_code = code, ch_target_protocol = ''lxmf'', ch_target_ref = r, ch_requester_protocol = ''signal'',
     ch_requester_ref = r, ch_display_name = ''n'', ch_created_at = 0, ch_expires_at = 9\<rparr>"

definition store_demo :: "string \<Rightarrow> string \<Rightarrow> store" where
  "store_demo code r = (store_empty (\<lambda>_. False))\<lparr>st_links := [link_demo r], st_challenges := [pending_demo code r]\<rparr>"

theorem reports_mask_refs_witness:
  "identities ((daemon_demo cfg_demo (store_demo ''1'' ''ab1111wxyz''))) = identities (daemon_demo cfg_demo (store_demo ''2'' ''ab2222wxyz'')) \<and>
   challenges 0 ((daemon_demo cfg_demo (store_demo ''1'' ''ab1111wxyz''))) = challenges 0 (daemon_demo cfg_demo (store_demo ''2'' ''ab2222wxyz''))"
proof -
  have "mask_ref ''ab1111wxyz'' = mask_ref ''ab2222wxyz''" by code_simp
  then have alike: "stores_alike (store_demo ''1'' ''ab1111wxyz'') (store_demo ''2'' ''ab2222wxyz'')"
    by (simp add: stores_alike_def store_demo_def store_empty_def link_demo_def pending_demo_def link_alike_def challenge_alike_def)
  have dm: "(daemon_demo cfg_demo (store_demo ''1'' ''ab1111wxyz''))\<lparr>dm_store := st\<rparr> = daemon_demo cfg_demo st" for st by (simp add: daemon_demo_def)
  note r = reports_mask_refs[OF alike, where d = "daemon_demo cfg_demo (store_demo ''1'' ''ab1111wxyz'')" and now = 0, unfolded dm]
  show ?thesis using r by blast
qed

subsection \<open>Links\<close>

lemma insert_challenges:
  "st_challenges (snd (insert_message e st)) = st_challenges st" "st_challenges (snd (insert_dead_delivery now m r de x y z st)) = st_challenges st"
  "st_challenges (snd (insert_delivery now m r de x y k st)) = st_challenges st"
  by (auto simp: insert_message_def insert_dead_delivery_def insert_delivery_def Let_def)

lemma enqueue_challenges [simp]: "st_challenges (dm_store (snd (enqueue_identity_send f dest body now ex d))) = st_challenges (dm_store d)"
  by (auto simp: enqueue_identity_send_def Let_def on_store_eq case_prod_unfold emit_delivery_def insert_challenges split: sum.split)

lemma create_challenge_row:
  "create_challenge code tp tr rp rr name now ex st = (Ok i, st') \<Longrightarrow>
   \<exists>c \<in> set (st_challenges st'). ch_id c = i \<and> ch_target_protocol c = tp \<and> ch_target_ref c = tr \<and> ch_code c = code \<and> ch_display_name c = name \<and> ch_expires_at c = ex"
  by (auto simp: create_challenge_def split: prod.splits sum.splits if_splits)

lemma initiate_link_challenge:
  assumes "initiate_link fresh code now rq tg name d = (Ok i, d')"
  shows "\<exists>c \<in> set (st_challenges (dm_store d')). ch_id c = i \<and> ch_target_protocol c = ep_protocol tg \<and> ch_target_ref c = ep_endpoint tg \<and>
    ch_code c = format_code code \<and> ch_display_name c = name \<and> ch_expires_at c = now + csecs (15 * 60)"
proof -
  let ?d0 = "d\<lparr>dm_guesses := alist_del (ep_protocol tg @ ''|'' @ ep_endpoint tg) (dm_guesses d)\<rparr>"
  let ?cc = "create_challenge (format_code code) (ep_protocol tg) (ep_endpoint tg) (ep_protocol rq) (ep_endpoint rq) name now (now + csecs (15 * 60))"
  obtain r d1 where c: "on_store ?cc ?d0 = (r, d1)" by fastforce
  obtain body e d2 where e: "r = Ok i" "enqueue_identity_send (fresh 0) tg body now (now + csecs (15 * 60)) d1 = (Ok e, d2)" "d' = d2"
    using assms c by (auto simp: initiate_link_def Let_def split: if_splits sum.splits prod.splits)
  have "st_challenges (dm_store d') = st_challenges (dm_store d1)" by (metis enqueue_challenges e(2,3) snd_conv)
  moreover have "?cc (dm_store d) = (Ok i, dm_store d1)" using c e(1) by (auto simp: on_store_eq prod_eq_iff)
  ultimately show ?thesis using create_challenge_row by simp
qed

text \<open>
  A request to link two identities on every outcome. A refused request (400) changes nothing. An accepted one (202) has a display
  name that is not blank, has at most 64 characters and none that is invisible or controls the direction of text,
  names two well-formed endpoints, and has left the challenge it returns, for the named target and with the code sent to it.
\<close>

theorem create_link_outcome:
  assumes "create_link rj fresh code now body d = (r, d')"
  shows "case r of
      Fail n e \<Rightarrow> (n = 400 \<and> d' = d) \<or> n = 409
    | Body n i \<Rightarrow> n = 202 \<and> (\<exists>req rq tg. rj body = Some req \<and> endpoint_from_str (lq_requester req) = Ok rq \<and> endpoint_from_str (lq_target req) = Ok tg \<and>
        trim_chars (lq_display_name req) \<noteq> [] \<and> length (rust_chars (lq_display_name req)) \<le> 64 \<and>
        list_all (\<lambda>c. \<not> is_unsafe_advert_name_char c) (rust_chars (lq_display_name req)) \<and>
        (\<exists>c \<in> set (st_challenges (dm_store d')). ch_id c = i \<and> ch_target_protocol c = ep_protocol tg \<and> ch_target_ref c = ep_endpoint tg \<and>
          ch_code c = format_code code \<and> ch_display_name c = lq_display_name req))"
proof (cases r)
  case (Fail n e)
  then show ?thesis using assms by (auto simp: create_link_def split: option.splits sum.splits prod.splits)
next
  case (Body n i)
  with assms obtain req rq tg where q: "rj body = Some req" "endpoint_from_str (lq_requester req) = Ok rq" "endpoint_from_str (lq_target req) = Ok tg"
      "validate_display_name (lq_display_name req) = Ok ()" "n = 202" "initiate_link fresh code now rq tg (lq_display_name req) d = (Ok i, d')"
    by (auto simp: create_link_def split: option.splits sum.splits prod.splits)
  have "trim_chars (lq_display_name req) \<noteq> [] \<and> length (rust_chars (lq_display_name req)) \<le> 64 \<and>
      list_all (\<lambda>c. \<not> is_unsafe_advert_name_char c) (rust_chars (lq_display_name req))"
    using q(4) by (auto simp: validate_display_name_def Let_def list_all_iff list_ex_iff split: if_splits)
  then show ?thesis using q initiate_link_challenge[OF q(6)] Body by simp blast
qed

subsection \<open>Adverts\<close>

text \<open>
  An advert is served only as its node signed it. Every entry of the discovery report stands for a stored row whose advert
  verifies under the key of the node it is listed as, with that advert's services, protocols and keys.
\<close>

theorem discovery_serves_verified:
  assumes "discovery X now d = Body 200 (mode, own, items)" "it \<in> set items"
  shows "\<exists>r \<in> set (st_adverts (dm_store d)). di_node_id it = ar_node_id r \<and> di_received_at it = ar_received_at r \<and>
    (\<exists>a. x_uncbor_advert X (ar_advert_cbor r) = Some a \<and> advert_verify X a = Ok () \<and> ad_node_id a = di_node_id it \<and> di_services it = ad_services a \<and>
      di_protocols it = ad_protocols a \<and> di_security it = ad_security a \<and> di_expires it = ad_expires a \<and> di_name it = sanitize_advert_name (ad_name a))"
proof -
  obtain rows where rows: "list_peer_adverts now (dm_store d) = Ok rows" "items = List.map_filter (discovery_item_of X) rows"
    using assms(1) by (auto simp: discovery_def storage_error_def split: sum.splits)
  then obtain row where row: "row \<in> set rows" "discovery_item_of X row = Some it" using assms(2) by (force simp: List.map_filter_def)
  then obtain r where r: "r \<in> set (st_adverts (dm_store d))" "row = (ar_node_id r, ar_advert_cbor r, ar_received_at r)"
    using rows(1) by (auto simp: list_peer_adverts_def split: if_splits)
  show ?thesis using row(2) by (intro bexI[OF _ r(1)]) (auto simp: r(2) discovery_item_of_def split: option.splits if_splits)
qed

end
