(* ===== verification/Mqtt.thy ===== *)
theory Mqtt
  imports Relay_Ipc
begin

text \<open>
  The MQTT plugin (\<open>src/plugins/mqtt/src/main.rs\<close>): the broker address, the subscriptions, the tracker that pairs
  publishes with broker acknowledgements, the bridge that turns broker events into actions, and the two arms of the
  main loop. The MQTT client library is outside: its events are the values of \<open>mqtt_event\<close>, the result of enqueueing a publish
  and the size of a packet are parameters. \<open>order\<close> is the order in which the standard library iterates a map.
\<close>

subsection \<open>Addresses and subscriptions\<close>

definition MAX_PAYLOAD :: nat where "MAX_PAYLOAD = 64000"
definition MAX_PACKET_SIZE :: nat where "MAX_PACKET_SIZE = MAX_PAYLOAD + 16 * 1024"

definition dec_val :: "string \<Rightarrow> nat" where
  "dec_val s = foldl (\<lambda>n b. 10 * n + (byte_val b - 48)) 0 s"

text \<open>\<open>u16::from_str\<close>: an optional plus sign and decimal digits, at most 65535.\<close>

definition parse_u16 :: "string \<Rightarrow> nat option" where
  "parse_u16 s =
     (let ds = (case strip_prefix s ''+'' of Some r \<Rightarrow> r | None \<Rightarrow> s) in
      if ds \<noteq> [] \<and> list_all is_digit_byte ds \<and> dec_val ds < 65536 then Some (dec_val ds) else None)"

definition parse_broker :: "string \<Rightarrow> string + string \<times> nat \<times> bool" where
  "parse_broker url =
     (let parse = (\<lambda>rest tls default_port.
        case split_once (CHR '':'') rest of
          Some (host, port) \<Rightarrow> (case parse_u16 port of Some p \<Rightarrow> Ok (host, p, tls) | None \<Rightarrow> Err ''bad port'')
        | None \<Rightarrow> Ok (rest, default_port, tls))
      in case strip_prefix url ''mqtts://'' of
           Some rest \<Rightarrow> parse rest True 8883
         | None \<Rightarrow>
             (case strip_prefix url ''mqtt://'' of
                Some rest \<Rightarrow> parse rest False 1883
              | None \<Rightarrow> Err ''broker must be mqtt://host[:port] or mqtts://host[:port]''))"

record mqtt_filter =
  mf_path :: string
  mf_nolocal :: bool

definition subscription_filters :: "string list \<Rightarrow> mqtt_filter list" where
  "subscription_filters topics = map (\<lambda>t. \<lparr>mf_path = t, mf_nolocal = True\<rparr>) topics"

subsection \<open>Deliveries\<close>

type_synonym pkid = "16 word"

datatype mqtt_event =
    MqConnected bool "u32 option"
  | MqInbound string string
  | MqOutgoing pkid
  | MqPubAck pkid
  | MqError string

record tracker =
  tk_pending :: "int list"
  tk_awaiting :: "(pkid \<times> int) list"
  tk_connected :: bool
  tk_replay :: nat
  tk_skip :: nat

definition tracker_new :: tracker where
  "tracker_new = \<lparr>tk_pending = [], tk_awaiting = [], tk_connected = False, tk_replay = 0, tk_skip = 0\<rparr>"

definition on_enqueued :: "int \<Rightarrow> tracker \<Rightarrow> tracker" where
  "on_enqueued corr t = t\<lparr>tk_pending := tk_pending t @ [corr]\<rparr>"

definition on_outgoing_publish :: "((pkid \<times> int) list \<Rightarrow> (pkid \<times> int) list) \<Rightarrow> pkid \<Rightarrow> tracker \<Rightarrow> tracker" where
  "on_outgoing_publish order pk t =
     (if \<not> tk_connected t then t
      else if tk_skip t > 0 then t\<lparr>tk_skip := tk_skip t - 1\<rparr>
      else case tk_pending t of
        [] \<Rightarrow> t
      | corr # rest \<Rightarrow>
          let m = alist_put pk corr (tk_awaiting t);
              m1 = (if length m > 1024 then case order m of (stale, _) # _ \<Rightarrow> alist_del stale m | [] \<Rightarrow> m else m)
          in t\<lparr>tk_pending := rest, tk_awaiting := m1\<rparr>)"

definition on_puback :: "pkid \<Rightarrow> tracker \<Rightarrow> int option \<times> tracker" where
  "on_puback pk t = (map_of (tk_awaiting t) pk, t\<lparr>tk_awaiting := alist_del pk (tk_awaiting t)\<rparr>)"

definition on_disconnect :: "((pkid \<times> int) list \<Rightarrow> (pkid \<times> int) list) \<Rightarrow> tracker \<Rightarrow> int list \<times> tracker" where
  "on_disconnect order t =
     (if \<not> tk_connected t then ([], t)
      else (tk_pending t @ map snd (order (tk_awaiting t)),
            t\<lparr>tk_connected := False, tk_replay := length (tk_pending t) + length (tk_awaiting t), tk_pending := [], tk_awaiting := []\<rparr>))"

definition on_connect :: "bool \<Rightarrow> tracker \<Rightarrow> tracker" where
  "on_connect session_present t =
     t\<lparr>tk_connected := True, tk_skip := (if session_present then tk_replay t else 0), tk_replay := 0\<rparr>"

subsection \<open>The bridge\<close>

datatype mqtt_action = Subscribe "mqtt_filter list" | ActInbound string string | ActResult int bool "string option"

record bridge =
  br_filters :: "mqtt_filter list"
  br_tracker :: tracker
  br_max_packet :: "u32 option"

definition bridge_new :: "string list \<Rightarrow> bridge" where
  "bridge_new topics = \<lparr>br_filters = subscription_filters topics, br_tracker = tracker_new, br_max_packet = None\<rparr>"

definition on_mqtt :: "((pkid \<times> int) list \<Rightarrow> (pkid \<times> int) list) \<Rightarrow> mqtt_event \<Rightarrow> bridge \<Rightarrow> mqtt_action list \<times> bridge" where
  "on_mqtt order ev b =
     (case ev of
        MqConnected session_present max_packet \<Rightarrow>
          (if br_filters b = [] then [] else [Subscribe (br_filters b)],
           b\<lparr>br_tracker := on_connect session_present (br_tracker b), br_max_packet := max_packet\<rparr>)
      | MqInbound topic body \<Rightarrow> ([ActInbound topic body], b)
      | MqOutgoing pk \<Rightarrow> ([], b\<lparr>br_tracker := on_outgoing_publish order pk (br_tracker b)\<rparr>)
      | MqPubAck pk \<Rightarrow>
          (case on_puback pk (br_tracker b) of
             (r, t) \<Rightarrow> (case r of Some corr \<Rightarrow> [ActResult corr True None] | None \<Rightarrow> [], b\<lparr>br_tracker := t\<rparr>))
      | MqError e \<Rightarrow>
          (case on_disconnect order (br_tracker b) of
             (failed, t) \<Rightarrow>
               (map (\<lambda>corr. ActResult corr False (Some (''mqtt connection lost before broker ack: '' @ e))) failed, b\<lparr>br_tracker := t\<rparr>)))"

definition fits_broker :: "(string \<Rightarrow> string \<Rightarrow> nat) \<Rightarrow> string \<Rightarrow> string \<Rightarrow> bridge \<Rightarrow> string + unit" where
  "fits_broker psize topic body b =
     (case br_max_packet b of
        Some mx \<Rightarrow>
          if psize topic body > unat mx then
            Err (''publish of '' @ nat_str (psize topic body) @ '' bytes exceeds broker max packet size '' @ nat_str (unat mx))
          else Ok ()
      | None \<Rightarrow> Ok ())"

subsection \<open>The main loop\<close>

datatype mqtt_exit = ExitSuccess | ExitFailure

definition frame_of :: "datetime \<Rightarrow> mqtt_action \<Rightarrow> plugin_to_daemon option" where
  "frame_of now a =
     (case a of
        Subscribe _ \<Rightarrow> None
      | ActInbound topic body \<Rightarrow> Some (Inbound topic topic ''text'' body (Some now) [] None)
      | ActResult corr delivered detail \<Rightarrow> Some (DeliveryResult corr delivered detail))"

text \<open>The frames of one broker event in order; the first that cannot be written ends the process.\<close>

fun write_actions :: "datetime \<Rightarrow> (plugin_to_daemon \<Rightarrow> bool) \<Rightarrow> mqtt_action list \<Rightarrow> plugin_to_daemon list \<times> mqtt_exit option" where
  "write_actions now w [] = ([], None)"
| "write_actions now w (a # as) =
     (case frame_of now a of
        None \<Rightarrow> write_actions now w as
      | Some f \<Rightarrow> if w f then (case write_actions now w as of (fs, x) \<Rightarrow> (f # fs, x)) else ([], Some ExitFailure))"

definition mqtt_broker_arm ::
  "((pkid \<times> int) list \<Rightarrow> (pkid \<times> int) list) \<Rightarrow> datetime \<Rightarrow> (plugin_to_daemon \<Rightarrow> bool) \<Rightarrow> mqtt_event option \<Rightarrow> bridge \<Rightarrow>
   plugin_to_daemon list \<times> mqtt_exit option \<times> bridge" where
  "mqtt_broker_arm order now w ev b =
     (case ev of
        None \<Rightarrow> ([], Some ExitFailure, b)
      | Some e \<Rightarrow> (case on_mqtt order e b of (as, b1) \<Rightarrow> (case write_actions now w as of (fs, x) \<Rightarrow> (fs, x, b1))))"

definition mqtt_daemon_arm ::
  "(string \<Rightarrow> string \<Rightarrow> nat) \<Rightarrow> (string \<Rightarrow> string \<Rightarrow> string + unit) \<Rightarrow> (plugin_to_daemon \<Rightarrow> bool) \<Rightarrow> daemon_to_plugin option \<Rightarrow> bridge \<Rightarrow>
   plugin_to_daemon list \<times> mqtt_exit option \<times> bridge" where
  "mqtt_daemon_arm psize try_publish w frame b =
     (let reply = (\<lambda>f. if w f then ([f], None, b) else ([], Some ExitFailure, b)) in
      case frame of
        None \<Rightarrow> ([], Some ExitFailure, b)
      | Some (Send corr ep kind body atts) \<Rightarrow>
          (case (case fits_broker psize ep body b of Inl e \<Rightarrow> Err e | Inr _ \<Rightarrow> try_publish ep body) of
             Inr _ \<Rightarrow> ([], None, b\<lparr>br_tracker := on_enqueued corr (br_tracker b)\<rparr>)
           | Inl detail \<Rightarrow> reply (DeliveryResult corr False (Some detail)))
      | Some Shutdown \<Rightarrow> ([], Some ExitSuccess, b)
      | Some Ping \<Rightarrow> reply Pong
      | Some _ \<Rightarrow> ([], None, b))"

end
