(* ===== verification/Mqtt_Props.thy ===== *)
theory Mqtt_Props
  imports Mqtt
begin

text \<open>
  The MQTT plugin's delivery results: what the pairing of publishes with acknowledgements guarantees, and the
  window in which it does not.
\<close>

subsection \<open>The connection as the plugin sees it\<close>

text \<open>
  The publishes on their way to the broker, by the correlation id of their send: those enqueued, oldest first, and
  those sent under a packet id. \<open>mq_step\<close> is what the plugin relies on of the client library: packet ids are assigned in order,
  an error drops everything enqueued or sent, and a new session starts clean.
\<close>

record mq_link =
  ml_up :: bool
  ml_queue :: "int list"
  ml_flight :: "pkid \<rightharpoonup> int"

definition mq_order_ok :: "((pkid \<times> int) list \<Rightarrow> (pkid \<times> int) list) \<Rightarrow> bool" where
  "mq_order_ok order \<longleftrightarrow> (\<forall>m. set (order m) = set m)"

inductive mq_step :: "((pkid \<times> int) list \<Rightarrow> (pkid \<times> int) list) \<Rightarrow> mq_link \<times> bridge \<Rightarrow> mq_link \<times> bridge \<Rightarrow> bool" for order where
  mq_send: "mqtt_daemon_arm psize (\<lambda>_ _. Ok ()) w (Some (Send corr ep kind body atts)) b = ([], None, b') \<Longrightarrow>
    mq_step order (l, b) (l\<lparr>ml_queue := ml_queue l @ [corr]\<rparr>, b')"
| mq_out: "ml_up l \<Longrightarrow> ml_queue l = c # q \<Longrightarrow> ml_flight l pk = None \<Longrightarrow>
    mq_step order (l, b) (l\<lparr>ml_queue := q, ml_flight := (ml_flight l)(pk \<mapsto> c)\<rparr>, snd (on_mqtt order (MqOutgoing pk) b))"
| mq_ack: "ml_up l \<Longrightarrow> ml_flight l pk = Some c \<Longrightarrow>
    mq_step order (l, b) (l\<lparr>ml_flight := (ml_flight l)(pk := None)\<rparr>, snd (on_mqtt order (MqPubAck pk) b))"
| mq_lost: "ml_up l \<Longrightarrow> mq_step order (l, b) (\<lparr>ml_up = False, ml_queue = [], ml_flight = Map.empty\<rparr>, snd (on_mqtt order (MqError e) b))"
| mq_retry: "\<not> ml_up l \<Longrightarrow> mq_step order (l, b) (l, snd (on_mqtt order (MqError e) b))"
| mq_up: "\<not> ml_up l \<Longrightarrow> mq_step order (l, b) (l\<lparr>ml_up := True\<rparr>, snd (on_mqtt order (MqConnected False mp) b))"

definition mq_start :: "string list \<Rightarrow> mq_link \<times> bridge" where
  "mq_start topics = (\<lparr>ml_up = False, ml_queue = [], ml_flight = Map.empty\<rparr>, bridge_new topics)"

definition mq_inv :: "mq_link \<times> bridge \<Rightarrow> bool" where
  "mq_inv S \<longleftrightarrow> (case S of (l, b) \<Rightarrow> let t = br_tracker b in
     tk_connected t = ml_up l \<and> tk_skip t = 0 \<and> tk_pending t = ml_queue l \<and> map_of (tk_awaiting t) \<subseteq>\<^sub>m ml_flight l \<and>
     distinct (map fst (tk_awaiting t)) \<and> length (tk_awaiting t) \<le> 1024 \<and> (\<not> ml_up l \<longrightarrow> tk_awaiting t = []))"

lemma send_enqueues:
  "mqtt_daemon_arm psize (\<lambda>_ _. Ok ()) w (Some (Send corr ep kind body atts)) b = ([], None, b') \<Longrightarrow> b' = b\<lparr>br_tracker := on_enqueued corr (br_tracker b)\<rparr>"
  by (auto simp: mqtt_daemon_arm_def Let_def split: sum.splits if_splits)

lemma outgoing_inv:
  assumes "mq_order_ok order" "mq_inv (l, b)" "ml_up l" "ml_queue l = c # q" "ml_flight l pk = None"
  shows "mq_inv (l\<lparr>ml_queue := q, ml_flight := (ml_flight l)(pk \<mapsto> c)\<rparr>, snd (on_mqtt order (MqOutgoing pk) b))"
proof -
  let ?t = "br_tracker b"
  let ?m = "alist_put pk c (tk_awaiting ?t)"
  let ?m1 = "if length ?m > 1024 then case order ?m of (stale, _) # _ \<Rightarrow> alist_del stale ?m | [] \<Rightarrow> ?m else ?m"
  have t: "tk_connected ?t" "tk_skip ?t = 0" "tk_pending ?t = c # q" "map_of (tk_awaiting ?t) \<subseteq>\<^sub>m ml_flight l" "distinct (map fst (tk_awaiting ?t))"
    "length (tk_awaiting ?t) \<le> 1024" using assms by (auto simp: mq_inv_def Let_def)
  have sub: "map_of ?m \<subseteq>\<^sub>m (ml_flight l)(pk \<mapsto> c)" using t(4) by (auto simp: map_le_def)
  have len: "length ?m \<le> 1025" using t(6) by (auto simp: alist_put_def intro: le_trans[OF length_filter_le])
  have dist: "distinct (map fst ?m)" using t(5) by simp
  have "map_of ?m1 \<subseteq>\<^sub>m (ml_flight l)(pk \<mapsto> c) \<and> distinct (map fst ?m1) \<and> length ?m1 \<le> 1024"
  proof (cases "length ?m > 1024")
    case True
    then have "?m \<noteq> []" by auto
    then obtain k v es where o: "order ?m = (k, v) # es" using assms(1) by (metis mq_order_ok_def neq_Nil_conv set_empty surj_pair)
    then have "(k, v) \<in> set ?m" using assms(1) by (metis list.set_intros(1) mq_order_ok_def)
    then have "length (alist_del k ?m) < length ?m" unfolding alist_del_def by (intro length_filter_less[of "(k, v)"]) auto
    moreover have "map_of (alist_del k ?m) \<subseteq>\<^sub>m map_of ?m" by (auto simp: map_le_def)
    ultimately show ?thesis using True o sub dist len by (auto simp: alist_del_def distinct_map_filter intro: map_le_trans)
  next
    case False then show ?thesis using sub dist by auto
  qed
  then show ?thesis using t assms(3) by (simp add: mq_inv_def on_mqtt_def on_outgoing_publish_def Let_def)
qed

lemma mq_step_inv:
  assumes "mq_order_ok order" "mq_step order S S'" "mq_inv S"
  shows "mq_inv S'"
  using assms(2,3)
proof (induction rule: mq_step.induct)
  case (mq_send psize w corr ep kind body atts b b' l)
  then show ?case using send_enqueues[OF mq_send(1)] by (simp add: mq_inv_def on_enqueued_def Let_def)
next
  case (mq_out l c q pk b) then show ?case using outgoing_inv[OF assms(1)] by blast
next
  case (mq_ack l pk c b)
  then show ?case
    by (auto simp: mq_inv_def on_mqtt_def on_puback_def Let_def alist_del_def distinct_map_filter map_le_def map_of_filter_key intro: le_trans[OF length_filter_le])
next
  case (mq_lost l b e) then show ?case by (simp add: mq_inv_def on_mqtt_def on_disconnect_def Let_def)
next
  case (mq_retry l b e) then show ?case by (simp add: mq_inv_def on_mqtt_def on_disconnect_def Let_def)
next
  case (mq_up l b mp) then show ?case by (simp add: mq_inv_def on_mqtt_def on_connect_def Let_def)
qed

interpretation mq_sys: invariant_system "mq_step order" "\<lambda>S. mq_order_ok order \<and> mq_inv S" for order
  by unfold_locales (use mq_step_inv in blast)

lemma mq_reach_inv:
  assumes "mq_order_ok order" "(mq_step order)\<^sup>*\<^sup>* (mq_start topics) S"
  shows "mq_inv S"
proof -
  have "mq_inv (mq_start topics)" by (simp add: mq_inv_def mq_start_def bridge_new_def tracker_new_def)
  then show ?thesis using mq_sys.reach_inv[OF assms(2)] assms(1) by blast
qed


definition bridge_demo :: bridge where
  "bridge_demo = snd (on_mqtt id (MqOutgoing 1) ((snd (on_mqtt id (MqConnected False None) (bridge_new [''a''])))\<lparr>br_tracker :=
     on_enqueued 7 (br_tracker (snd (on_mqtt id (MqConnected False None) (bridge_new [''a'']))))\<rparr>))"

definition link_up :: mq_link where
  "link_up = \<lparr>ml_up = True, ml_queue = [], ml_flight = [1 \<mapsto> 7]\<rparr>"


subsection \<open>A send between the error and its event\<close>

text \<open>What the tracker is told, one call after the other.\<close>

datatype mq_input = InSend int | InEvent mqtt_event

fun mq_feed :: "mq_input list \<Rightarrow> bridge \<Rightarrow> mqtt_action list" where
  "mq_feed [] b = []"
| "mq_feed (InSend c # ins) b = mq_feed ins (b\<lparr>br_tracker := on_enqueued c (br_tracker b)\<rparr>)"
| "mq_feed (InEvent e # ins) b = (case on_mqtt id e b of (as, b1) \<Rightarrow> as @ mq_feed ins b1)"

text \<open>
  The pairing relies on the error event reaching the main loop before any later send. The client drops its requests when
  the connection fails; a send enqueued after that, but before the error event is handled, is reported as failed and stays in
  the client's queue. On the next connection its packet id is paired with the next send: send 2 is reported as delivered by the
  acknowledgement of publish 1, and when the connection drops before the broker has seen publish 2 nothing reports its loss.
\<close>

theorem late_send_mispaired:
  "mq_feed [InEvent (MqConnected False None), InSend 1, InEvent (MqError ''e''), InEvent (MqConnected False None), InSend 2,
     InEvent (MqOutgoing 1), InEvent (MqPubAck 1), InEvent (MqError ''e'')] (bridge_new []) =
   [ActResult 1 False (Some ''mqtt connection lost before broker ack: e''), ActResult 2 True None]"
  by (simp add: on_mqtt_def on_connect_def on_enqueued_def on_disconnect_def on_outgoing_publish_def on_puback_def bridge_new_def
      tracker_new_def subscription_filters_def alist_put_def alist_del_def)

end
