(* ===== verification/Noise.thy ===== *)
theory Noise
  imports Engine_Egress
begin

text \<open>
  The encrypted link between two nodes (\<open>src/switchyardd/src/fed/noise.rs\<close>): the handshake that binds a Noise
  session to a node identity, and the channel that moves frames over it. The Noise implementation (the crate snow), the
  X25519 public key and the CBOR form of the identity payload are the record \<open>snow\<close>, over its own types of handshake
  and transport states.

  What a socket delivers is a list of arrivals: bytes, the moment at which the reading future is dropped (another branch of
  the caller's \<open>select!\<close> wins) or a failing read; the end of the list is the end of the stream. What is written is kept in
  \<open>out_stream\<close>, whose \<open>ou_room\<close> says how many more bytes the connection takes before it breaks, if it does.
\<close>

subsection \<open>Streams\<close>

datatype arrival = Bytes bytes | Dropped | ReadFailed

datatype 'a progress = Done 'a | Stopped | IoErr io_error

fun read_some :: "nat \<Rightarrow> arrival list \<Rightarrow> bytes progress \<times> arrival list" where
  "read_some n [] = (Done [], [])"
| "read_some n (Bytes bs # s) =
     (if bs = [] then read_some n s else (Done (take n bs), if length bs \<le> n then s else Bytes (drop n bs) # s))"
| "read_some n (Dropped # s) = (Stopped, s)"
| "read_some n (ReadFailed # s) = (IoErr (OtherIo ''read''), s)"

lemma read_some_length: "read_some n s = (Done bs, s') \<Longrightarrow> length bs \<le> n"
  by (induction n s rule: read_some.induct) (auto split: if_splits)

text \<open>
  Reading until a buffer of \<open>n\<close> bytes is full: \<open>read_exact\<close>, and the two loops of the resumable reader. A buffer is the
  bytes it was filled with so far; the rest of it is zero and never looked at.
\<close>

function fill :: "nat \<Rightarrow> bytes \<Rightarrow> arrival list \<Rightarrow> unit progress \<times> bytes \<times> arrival list" where
  "fill n buf s =
     (if n \<le> length buf then (Done (), buf, s)
      else case read_some (n - length buf) s of
             (Done bs, s1) \<Rightarrow> if bs = [] then (IoErr UnexpectedEof, buf, s1) else fill n (buf @ bs) s1
           | (Stopped, s1) \<Rightarrow> (Stopped, buf, s1)
           | (IoErr e, s1) \<Rightarrow> (IoErr e, buf, s1))"
  by pat_completeness auto
termination by (relation "measure (\<lambda>(n, buf, s). n - length buf)") (auto simp: neq_Nil_conv)

declare fill.simps [simp del]

record out_stream =
  ou_bytes :: bytes
  ou_room :: "nat option"

definition out_write_all :: "bytes \<Rightarrow> out_stream \<Rightarrow> (io_error + unit) \<times> out_stream" where
  "out_write_all bs o1 =
     (case ou_room o1 of
        None \<Rightarrow> (Ok (), o1\<lparr>ou_bytes := ou_bytes o1 @ bs\<rparr>)
      | Some r \<Rightarrow>
          if length bs \<le> r then (Ok (), o1\<lparr>ou_bytes := ou_bytes o1 @ bs, ou_room := Some (r - length bs)\<rparr>)
          else (Err (OtherIo ''write''), o1\<lparr>ou_bytes := ou_bytes o1 @ take r bs, ou_room := Some 0\<rparr>))"

definition be_bytes2 :: "nat \<Rightarrow> bytes" where
  "be_bytes2 n = [char_of (n div 256), char_of (n mod 256)]"

definition be_val2 :: "bytes \<Rightarrow> nat" where
  "be_val2 bs = foldl (\<lambda>n b. n * 256 + byte_val b) 0 bs"

subsection \<open>Noise messages\<close>

definition MAX_NOISE_MSG :: nat where "MAX_NOISE_MSG = 65535"
definition NOISE_TAG_LEN :: nat where "NOISE_TAG_LEN = 16"
definition MAX_NOISE_PAYLOAD :: nat where "MAX_NOISE_PAYLOAD = MAX_NOISE_MSG - NOISE_TAG_LEN"

definition write_noise_msg :: "bytes \<Rightarrow> out_stream \<Rightarrow> (io_error + unit) \<times> out_stream" where
  "write_noise_msg msg o1 =
     (if length msg > 65535 then (Err (OtherIo ''noise message exceeds 65535 bytes''), o1)
      else case out_write_all (be_bytes2 (length msg)) o1 of
             (Inl e, o2) \<Rightarrow> (Err e, o2)
           | (Inr _, o2) \<Rightarrow> out_write_all msg o2)"

definition read_exact :: "nat \<Rightarrow> arrival list \<Rightarrow> bytes progress \<times> arrival list" where
  "read_exact n s =
     (case fill n [] s of
        (Done _, buf, s1) \<Rightarrow> (Done buf, s1)
      | (Stopped, _, s1) \<Rightarrow> (Stopped, s1)
      | (IoErr e, _, s1) \<Rightarrow> (IoErr e, s1))"

definition read_noise_msg :: "arrival list \<Rightarrow> bytes progress \<times> arrival list" where
  "read_noise_msg s =
     (case read_exact 2 s of
        (Done hdr, s1) \<Rightarrow> read_exact (be_val2 hdr) s1
      | (Stopped, s1) \<Rightarrow> (Stopped, s1)
      | (IoErr e, s1) \<Rightarrow> (IoErr e, s1))"

subsection \<open>The handshake\<close>

type_synonym identity_payload = "string \<times> bytes"

record ('h, 't) snow =
  sn_build_initiator :: "bytes \<Rightarrow> bytes \<Rightarrow> 'h option"
  sn_build_responder :: "bytes \<Rightarrow> bytes \<Rightarrow> 'h option"
  sn_write :: "'h \<Rightarrow> bytes \<Rightarrow> (bytes \<times> 'h) option"
  sn_read :: "'h \<Rightarrow> bytes \<Rightarrow> (bytes \<times> 'h) option"
  sn_remote_static :: "'h \<Rightarrow> bytes option"
  sn_into_transport :: "'h \<Rightarrow> 't option"
  sn_tr_write :: "'t \<Rightarrow> bytes \<Rightarrow> (bytes \<times> 't) option"
  sn_tr_read :: "'t \<Rightarrow> bytes \<Rightarrow> (bytes \<times> 't) option"
  sn_public :: "bytes \<Rightarrow> bytes"
  sn_cbor :: "identity_payload \<Rightarrow> bytes option"
  sn_uncbor :: "bytes \<Rightarrow> identity_payload option"

datatype noise_error = NoiseIo io_error | NoiseDropped | NoiseHandshake | NoiseCbor | BadSignature | IdentityMismatch | NoisePanic

definition domain_separated_static_pub :: "bytes \<Rightarrow> bytes" where
  "domain_separated_static_pub static_pub = NOISE_STATIC_V1 @ static_pub"

definition sign_static_pub :: "ext \<Rightarrow> ('h, 't) snow \<Rightarrow> bytes \<Rightarrow> bytes \<Rightarrow> identity_payload" where
  "sign_static_pub X N identity static_key =
     (identity_node_id X identity, identity_sign X identity (domain_separated_static_pub (sn_public N static_key)))"

definition verify_peer_payload :: "ext \<Rightarrow> identity_payload \<Rightarrow> bytes \<Rightarrow> noise_error + unit" where
  "verify_peer_payload X payload remote_static =
     (if identity_verify X (fst payload) (domain_separated_static_pub remote_static) (snd payload) then Ok () else Err BadSignature)"

text \<open>
  A message that was read in part: the bytes of the header so far and, once both are there, the length of the body and
  its bytes so far.
\<close>

record partial_read =
  pr_hdr :: bytes
  pr_len :: nat
  pr_body :: bytes

definition partial_default :: partial_read where
  "partial_default = \<lparr>pr_hdr = [], pr_len = 0, pr_body = []\<rparr>"

record 't fed_channel =
  lk_in :: "arrival list"
  lk_out :: out_stream
  lk_transport :: 't
  lk_rx_buf :: bytes
  lk_partial :: partial_read

definition fed_channel_new :: "arrival list \<Rightarrow> out_stream \<Rightarrow> 't \<Rightarrow> 't fed_channel" where
  "fed_channel_new s o1 t = \<lparr>lk_in = s, lk_out = o1, lk_transport = t, lk_rx_buf = [], lk_partial = partial_default\<rparr>"

text \<open>
  The steps of a handshake: writing a message with a payload, and reading one. A message is written into a buffer of
  65535 bytes, and its payload read into one of the length of the message; the state changes only on success.
\<close>

definition hs_send :: "('h, 't) snow \<Rightarrow> bytes \<Rightarrow> 'h \<Rightarrow> out_stream \<Rightarrow> (noise_error + 'h) \<times> out_stream" where
  "hs_send N payload hs o1 =
     (case sn_write N hs payload of
        None \<Rightarrow> (Err NoiseHandshake, o1)
      | Some (msg, hs1) \<Rightarrow>
          if length msg > MAX_NOISE_MSG then (Err NoiseHandshake, o1)
          else case write_noise_msg msg o1 of
                 (Inl e, o2) \<Rightarrow> (Err (NoiseIo e), o2)
               | (Inr _, o2) \<Rightarrow> (Ok hs1, o2))"

definition hs_receive :: "('h, 't) snow \<Rightarrow> 'h \<Rightarrow> arrival list \<Rightarrow> (noise_error + bytes \<times> 'h) \<times> arrival list" where
  "hs_receive N hs s =
     (case read_noise_msg s of
        (Stopped, s1) \<Rightarrow> (Err NoiseDropped, s1)
      | (IoErr e, s1) \<Rightarrow> (Err (NoiseIo e), s1)
      | (Done msg, s1) \<Rightarrow>
          (case sn_read N hs msg of
             None \<Rightarrow> (Err NoiseHandshake, s1)
           | Some (payload, hs1) \<Rightarrow>
               if length payload > length msg then (Err NoiseHandshake, s1) else (Ok (payload, hs1), s1)))"

definition hs_peer :: "ext \<Rightarrow> ('h, 't) snow \<Rightarrow> bytes \<Rightarrow> 'h \<Rightarrow> noise_error + string" where
  "hs_peer X N payload_bytes hs =
     (case sn_uncbor N payload_bytes of
        None \<Rightarrow> Err NoiseCbor
      | Some payload \<Rightarrow>
          (case sn_remote_static N hs of
             None \<Rightarrow> Err NoisePanic
           | Some remote_static \<Rightarrow>
               (case verify_peer_payload X payload remote_static of
                  Inl e \<Rightarrow> Err e
                | Inr _ \<Rightarrow> Ok (fst payload))))"

definition handshake_initiator ::
  "ext \<Rightarrow> ('h, 't) snow \<Rightarrow> bytes \<Rightarrow> bytes \<Rightarrow> bytes \<Rightarrow> string option \<Rightarrow> arrival list \<Rightarrow> out_stream \<Rightarrow>
   (noise_error + 't fed_channel) \<times> out_stream" where
  "handshake_initiator X N rand static_key identity expected_node_id s o0 =
     (case sn_build_initiator N static_key rand of
        None \<Rightarrow> (Err NoiseHandshake, o0)
      | Some hs0 \<Rightarrow>
     (case hs_send N [] hs0 o0 of
        (Inl e, o1) \<Rightarrow> (Err e, o1)
      | (Inr hs1, o1) \<Rightarrow>
     (case hs_receive N hs1 s of
        (Inl e, s1) \<Rightarrow> (Err e, o1)
      | (Inr (payload, hs2), s1) \<Rightarrow>
     (case hs_peer X N payload hs2 of
        Inl e \<Rightarrow> (Err e, o1)
      | Inr node_id \<Rightarrow>
     if expected_node_id \<noteq> None \<and> expected_node_id \<noteq> Some node_id then (Err IdentityMismatch, o1)
     else case sn_cbor N (sign_static_pub X N identity static_key) of
        None \<Rightarrow> (Err NoiseCbor, o1)
      | Some our_payload \<Rightarrow>
     (case hs_send N our_payload hs2 o1 of
        (Inl e, o2) \<Rightarrow> (Err e, o2)
      | (Inr hs3, o2) \<Rightarrow>
     (case sn_into_transport N hs3 of
        None \<Rightarrow> (Err NoiseHandshake, o2)
      | Some t \<Rightarrow> (Ok (fed_channel_new s1 o2 t), o2)))))))"

definition handshake_responder ::
  "ext \<Rightarrow> ('h, 't) snow \<Rightarrow> bytes \<Rightarrow> bytes \<Rightarrow> bytes \<Rightarrow> arrival list \<Rightarrow> out_stream \<Rightarrow>
   (noise_error + 't fed_channel \<times> string) \<times> out_stream" where
  "handshake_responder X N rand static_key identity s o0 =
     (case sn_build_responder N static_key rand of
        None \<Rightarrow> (Err NoiseHandshake, o0)
      | Some hs0 \<Rightarrow>
     (case hs_receive N hs0 s of
        (Inl e, s1) \<Rightarrow> (Err e, o0)
      | (Inr (_, hs1), s1) \<Rightarrow>
     (case sn_cbor N (sign_static_pub X N identity static_key) of
        None \<Rightarrow> (Err NoiseCbor, o0)
      | Some our_payload \<Rightarrow>
     (case hs_send N our_payload hs1 o0 of
        (Inl e, o1) \<Rightarrow> (Err e, o1)
      | (Inr hs2, o1) \<Rightarrow>
     (case hs_receive N hs2 s1 of
        (Inl e, s2) \<Rightarrow> (Err e, o1)
      | (Inr (payload, hs3), s2) \<Rightarrow>
     (case hs_peer X N payload hs3 of
        Inl e \<Rightarrow> (Err e, o1)
      | Inr node_id \<Rightarrow>
     (case sn_into_transport N hs3 of
        None \<Rightarrow> (Err NoiseHandshake, o1)
      | Some t \<Rightarrow> (Ok (fed_channel_new s2 o1 t, node_id), o1))))))))"

subsection \<open>The channel\<close>

text \<open>\<open>slice::chunks\<close>, for a positive size.\<close>

function chunks :: "nat \<Rightarrow> bytes \<Rightarrow> bytes list" where
  "chunks n bs = (if n = 0 \<or> bs = [] then [] else take n bs # chunks n (drop n bs))"
  by pat_completeness auto
termination by (relation "measure (\<lambda>(n, bs). length bs)") auto

declare chunks.simps [simp del]

fun send_chunks :: "('h, 't) snow \<Rightarrow> bytes list \<Rightarrow> 't fed_channel \<Rightarrow> (io_error + unit) \<times> 't fed_channel" where
  "send_chunks N [] ch = (Ok (), ch)"
| "send_chunks N (chunk # cs) ch =
     (case sn_tr_write N (lk_transport ch) chunk of
        None \<Rightarrow> (Err (OtherIo ''encrypt''), ch)
      | Some (ct, t) \<Rightarrow>
          if length ct > length chunk + NOISE_TAG_LEN then (Err (OtherIo ''encrypt''), ch)
          else case write_noise_msg ct (lk_out ch) of
                 (Inl e, o1) \<Rightarrow> (Err e, ch\<lparr>lk_transport := t, lk_out := o1\<rparr>)
               | (Inr _, o1) \<Rightarrow> send_chunks N cs (ch\<lparr>lk_transport := t, lk_out := o1\<rparr>))"

definition send_frame :: "('h, 't) snow \<Rightarrow> bytes \<Rightarrow> 't fed_channel \<Rightarrow> (io_error + unit) \<times> 't fed_channel" where
  "send_frame N plaintext ch =
     (if length plaintext \<ge> 2 ^ 32 then (Err (OtherIo ''out of range integral type conversion attempted''), ch)
      else if length plaintext > NOISE_MAX_FRAME then (Err (OtherIo ''frame exceeds MAX_FRAME''), ch)
      else send_chunks N (chunks MAX_NOISE_PAYLOAD (be_bytes4 (of_nat (length plaintext)) @ plaintext)) ch)"

definition read_noise_msg_resumable :: "partial_read \<Rightarrow> arrival list \<Rightarrow> bytes progress \<times> partial_read \<times> arrival list" where
  "read_noise_msg_resumable p s =
     (case fill 2 (pr_hdr p) s of
        (Stopped, hdr, s1) \<Rightarrow> (Stopped, p\<lparr>pr_hdr := hdr\<rparr>, s1)
      | (IoErr e, hdr, s1) \<Rightarrow> (IoErr e, p\<lparr>pr_hdr := hdr\<rparr>, s1)
      | (Done _, hdr, s1) \<Rightarrow>
          let p1 = (if length (pr_hdr p) < 2 then \<lparr>pr_hdr = hdr, pr_len = be_val2 hdr, pr_body = []\<rparr> else p) in
          (case fill (pr_len p1) (pr_body p1) s1 of
             (Stopped, body, s2) \<Rightarrow> (Stopped, p1\<lparr>pr_body := body\<rparr>, s2)
           | (IoErr e, body, s2) \<Rightarrow> (IoErr e, p1\<lparr>pr_body := body\<rparr>, s2)
           | (Done _, body, s2) \<Rightarrow> (Done body, partial_default, s2)))"

definition pull_chunk :: "('h, 't) snow \<Rightarrow> 't fed_channel \<Rightarrow> unit progress \<times> 't fed_channel" where
  "pull_chunk N ch =
     (case read_noise_msg_resumable (lk_partial ch) (lk_in ch) of
        (Stopped, p, s) \<Rightarrow> (Stopped, ch\<lparr>lk_partial := p, lk_in := s\<rparr>)
      | (IoErr e, p, s) \<Rightarrow> (IoErr e, ch\<lparr>lk_partial := p, lk_in := s\<rparr>)
      | (Done ct, p, s) \<Rightarrow>
          (case sn_tr_read N (lk_transport ch) ct of
             None \<Rightarrow> (IoErr (OtherIo ''decrypt''), ch\<lparr>lk_partial := p, lk_in := s\<rparr>)
           | Some (pt, t) \<Rightarrow>
               if length pt > length ct then (IoErr (OtherIo ''decrypt''), ch\<lparr>lk_partial := p, lk_in := s\<rparr>)
               else (Done (), ch\<lparr>lk_partial := p, lk_in := s, lk_transport := t, lk_rx_buf := lk_rx_buf ch @ pt\<rparr>)))"

text \<open>
  The loops of \<open>recv_frame\<close> end because every chunk uses up bytes that arrived: the bytes of a socket and of the header so
  far are the measure.
\<close>

fun bytes_in :: "arrival list \<Rightarrow> nat" where
  "bytes_in [] = 0"
| "bytes_in (Bytes bs # s) = length bs + bytes_in s"
| "bytes_in (_ # s) = bytes_in s"

lemma read_some_less: "read_some n s = (Done bs, s') \<Longrightarrow> bytes_in s = length bs + bytes_in s'"
  by (induction n s rule: read_some.induct) (auto split: if_splits)

lemma fill_done: "fill n buf s = (Done u, buf', s') \<Longrightarrow> length buf + bytes_in s = length buf' + bytes_in s' \<and> n \<le> length buf' \<and> length buf \<le> length buf'"
proof (induction n buf s rule: fill.induct)
  case (1 n buf s)
  show ?case
  proof (cases "n \<le> length buf")
    case True then show ?thesis using 1(2) by (simp add: fill.simps[of n buf s])
  next
    case False
    from 1(2) False obtain bs s1 where r: "read_some (n - length buf) s = (Done bs, s1)" "bs \<noteq> []" "fill n (buf @ bs) s1 = (Done u, buf', s')"
      by (subst (asm) fill.simps) (auto split: prod.splits progress.splits if_splits)
    from 1(1)[OF False r(1)[symmetric] _ r(2,3)] read_some_less[OF r(1)] show ?thesis by simp
  qed
qed

lemma resumable_done:
  assumes "read_noise_msg_resumable p s = (Done ct, p', s')"
  shows "p' = partial_default \<and> bytes_in s' < length (pr_hdr p) + bytes_in s"
proof (cases "fill 2 (pr_hdr p) s")
  case (fields r hdr s1)
  from assms fields have r: "r = Done ()" and p': "p' = partial_default" by (auto simp: read_noise_msg_resumable_def Let_def split: progress.splits prod.splits)
  from fill_done[of 2 "pr_hdr p" s "()" hdr s1] fields r have h: "length (pr_hdr p) + bytes_in s = length hdr + bytes_in s1" "2 \<le> length hdr" by auto
  define p1 where "p1 = (if length (pr_hdr p) < 2 then \<lparr>pr_hdr = hdr, pr_len = be_val2 hdr, pr_body = []\<rparr> else p)"
  obtain r2 body s2 where f: "fill (pr_len p1) (pr_body p1) s1 = (r2, body, s2)" by (metis surj_pair)
  with assms fields r have "r2 = Done ()" "s2 = s'"
    by (auto simp: read_noise_msg_resumable_def p1_def[symmetric] Let_def split: progress.splits prod.splits)
  then have "bytes_in s' \<le> bytes_in s1" 
    using fill_done[of "pr_len p1" "pr_body p1" s1 "()" body s'] f by auto
  then show ?thesis using h p' by simp
qed

definition link_weight :: "'t fed_channel \<Rightarrow> nat" where
  "link_weight ch = length (pr_hdr (lk_partial ch)) + bytes_in (lk_in ch)"

lemma pull_chunk_less: "pull_chunk N ch = (Done (), ch') \<Longrightarrow> link_weight ch' < link_weight ch"
  by (auto simp: pull_chunk_def link_weight_def partial_default_def dest!: resumable_done split: prod.splits progress.splits option.splits if_splits)

function pull_until :: "('h, 't) snow \<Rightarrow> nat \<Rightarrow> 't fed_channel \<Rightarrow> unit progress \<times> 't fed_channel" where
  "pull_until N n ch =
     (if n \<le> length (lk_rx_buf ch) then (Done (), ch)
      else case pull_chunk N ch of
             (Done _, ch1) \<Rightarrow> pull_until N n ch1
           | (Stopped, ch1) \<Rightarrow> (Stopped, ch1)
           | (IoErr e, ch1) \<Rightarrow> (IoErr e, ch1))"
  by pat_completeness auto
termination
  by (relation "measure (\<lambda>(N, n, ch). link_weight ch)") (auto simp: pull_chunk_less)

declare pull_until.simps [simp del]

definition recv_frame :: "('h, 't) snow \<Rightarrow> 't fed_channel \<Rightarrow> bytes progress \<times> 't fed_channel" where
  "recv_frame N ch =
     (case pull_until N 4 ch of
        (Stopped, ch1) \<Rightarrow> (Stopped, ch1)
      | (IoErr e, ch1) \<Rightarrow> (IoErr e, ch1)
      | (Done _, ch1) \<Rightarrow>
          let total_len = unat (be_val4 (take 4 (lk_rx_buf ch1))) in
          if total_len > NOISE_MAX_FRAME then (IoErr (OtherIo ''claimed frame length exceeds MAX_FRAME''), ch1)
          else case pull_until N (4 + total_len) ch1 of
                 (Stopped, ch2) \<Rightarrow> (Stopped, ch2)
               | (IoErr e, ch2) \<Rightarrow> (IoErr e, ch2)
               | (Done _, ch2) \<Rightarrow>
                   (Done (take total_len (drop 4 (lk_rx_buf ch2))), ch2\<lparr>lk_rx_buf := drop (4 + total_len) (lk_rx_buf ch2)\<rparr>))"

end
