(* ===== verification/Noise_Props.thy ===== *)
theory Noise_Props
  imports Noise Fed_Props "HOL-Library.Sublist"
begin

text \<open>
  What the encrypted link promises: frames arrive as they were sent whatever pieces the socket delivers and wherever a read is
  abandoned, nothing but a prefix of what was sent is ever received from a tampered stream, the receive buffer is bounded, and a
  completed handshake names a node that signed the key of this very session.
\<close>

subsection \<open>A connection that keeps receiving\<close>

lemma read_some_size:
  "read_some n s = (r, s') \<Longrightarrow> (case r of Done bs \<Rightarrow> length bs | _ \<Rightarrow> 0) + bytes_in s' = bytes_in s \<and> length s' \<le> length s \<and> (r = Stopped \<longrightarrow> length s' < length s)"
  by (induction n s rule: read_some.induct) (auto split: if_splits)

lemma fill_full [simp]: "n \<le> length buf \<Longrightarrow> fill n buf s = (Done (), buf, s)"
  by (simp add: fill.simps)

lemma fill_size:
  "fill n buf s = (r, buf', s') \<Longrightarrow>
   length buf' + bytes_in s' = length buf + bytes_in s \<and> length s' \<le> length s \<and> (r = Stopped \<longrightarrow> length s' < length s)"
proof (induction n buf s rule: fill.induct)
  case (1 n buf s)
  show ?case
  proof (cases "n \<le> length buf")
    case True then show ?thesis using 1(2) by auto
  next
    case False
    obtain q s1 where q: "read_some (n - length buf) s = (q, s1)" by fastforce
    note z = read_some_size[OF q]
    show ?thesis
    proof (cases "\<exists>bs. q = Done bs \<and> bs \<noteq> []")
      case True
      then obtain bs where bs: "q = Done bs" "bs \<noteq> []" by blast
      then have "fill n (buf @ bs) s1 = (r, buf', s')" using 1(2) False q by (simp add: fill.simps[of n buf s])
      from 1(1)[OF False q[symmetric] bs(1) bs(2) this] z bs(1) show ?thesis by auto
    next
      case no: False
      then show ?thesis using 1(2) False q z by (subst (asm) fill.simps) (auto split: progress.splits if_splits)
    qed
  qed
qed

definition link_size :: "'t fed_channel \<Rightarrow> nat" where
  "link_size ch = length (lk_rx_buf ch) + length (pr_hdr (lk_partial ch)) + length (pr_body (lk_partial ch)) + bytes_in (lk_in ch) + length (lk_in ch)"

lemma resumable_size:
  assumes "read_noise_msg_resumable p s = (r, p', s')"
  shows "(case r of Done ct \<Rightarrow> length ct | _ \<Rightarrow> 0) + length (pr_hdr p') + length (pr_body p') + bytes_in s' + length s' \<le>
      length (pr_hdr p) + length (pr_body p) + bytes_in s + length s \<and>
    (r = Stopped \<longrightarrow> length (pr_hdr p') + length (pr_body p') + bytes_in s' + length s' < length (pr_hdr p) + length (pr_body p) + bytes_in s + length s)"
  using assms
  by (cases "length (pr_hdr p) < 2")
    (auto simp: read_noise_msg_resumable_def Let_def partial_default_def dest!: fill_size split: progress.splits prod.splits)

lemma pull_chunk_size:
  "pull_chunk N ch = (r, ch') \<Longrightarrow> link_size ch' \<le> link_size ch \<and> (r = Stopped \<longrightarrow> link_size ch' < link_size ch)"
  by (auto simp: pull_chunk_def link_size_def dest!: resumable_size split: prod.splits progress.splits option.splits if_splits)

lemma pull_until_size:
  "pull_until N n ch = (r, ch') \<Longrightarrow> link_size ch' \<le> link_size ch \<and> (r = Stopped \<longrightarrow> link_size ch' < link_size ch) \<and> (\<forall>u. r = Done u \<longrightarrow> n \<le> length (lk_rx_buf ch'))"
proof (induction N n ch rule: pull_until.induct)
  case (1 N n ch)
  show ?case
  proof (cases "n \<le> length (lk_rx_buf ch)")
    case True then show ?thesis using 1(2) by (auto simp: pull_until.simps[of N n ch])
  next
    case False
    obtain q ch1 where q: "pull_chunk N ch = (q, ch1)" by fastforce
    show ?thesis
    proof (cases q)
      case (Done u)
      then have "pull_until N n ch1 = (r, ch')" using 1(2) False q by (simp add: pull_until.simps[of N n ch])
      from 1(1)[OF False q[symmetric] Done this] pull_chunk_size[OF q] show ?thesis by auto
    qed (use 1(2) False q pull_chunk_size[OF q] in \<open>auto simp: pull_until.simps[of N n ch]\<close>)
  qed
qed

lemma recv_frame_size:
  "recv_frame N ch = (r, ch') \<Longrightarrow> (case r of Done f \<Rightarrow> link_size ch' < link_size ch | Stopped \<Rightarrow> link_size ch' < link_size ch | IoErr e \<Rightarrow> True)"
  by (auto simp: recv_frame_def Let_def link_size_def dest!: pull_until_size split: prod.splits progress.splits if_splits)

text \<open>
  The frames a connection receives when it calls \<open>recv_frame\<close> again after every frame and after every read that was
  abandoned, until one fails (\<open>fed::conn::run_conn\<close>).
\<close>

function recv_run :: "('h, 't) snow \<Rightarrow> 't fed_channel \<Rightarrow> bytes list" where
  "recv_run N ch =
     (case recv_frame N ch of
        (Done f, ch1) \<Rightarrow> f # recv_run N ch1
      | (Stopped, ch1) \<Rightarrow> recv_run N ch1
      | (IoErr e, ch1) \<Rightarrow> [])"
  by pat_completeness auto
termination
  by (relation "measure (\<lambda>(N, ch). link_size ch)") (auto dest: recv_frame_size[OF sym])

declare recv_run.simps [simp del]

subsection \<open>The stream as a whole\<close>

text \<open>All bytes a socket delivers, cut into Noise messages, decrypted in order and cut into frames.\<close>

fun flat :: "arrival list \<Rightarrow> bytes" where
  "flat [] = []"
| "flat (Bytes bs # s) = bs @ flat s"
| "flat (Dropped # s) = flat s"
| "flat (ReadFailed # s) = []"

function split_msgs :: "bytes \<Rightarrow> bytes list" where
  "split_msgs bs =
     (if length bs < 2 \<or> length bs < 2 + be_val2 (take 2 bs) then []
      else take (be_val2 (take 2 bs)) (drop 2 bs) # split_msgs (drop (2 + be_val2 (take 2 bs)) bs))"
  by pat_completeness auto
termination by (relation "measure length") auto

declare split_msgs.simps [simp del]

fun decrypt :: "('h, 't) snow \<Rightarrow> 't \<Rightarrow> bytes list \<Rightarrow> bytes" where
  "decrypt N t [] = []"
| "decrypt N t (ct # cts) =
     (case sn_tr_read N t ct of
        None \<Rightarrow> []
      | Some (pt, t1) \<Rightarrow> if length pt > length ct then [] else pt @ decrypt N t1 cts)"

definition frame_len :: "bytes \<Rightarrow> nat" where
  "frame_len bs = unat (be_val4 (take 4 bs))"

function frames_in :: "bytes \<Rightarrow> bytes list" where
  "frames_in bs =
     (if length bs < 4 \<or> frame_len bs > NOISE_MAX_FRAME \<or> length bs < 4 + frame_len bs then []
      else take (frame_len bs) (drop 4 bs) # frames_in (drop (4 + frame_len bs) bs))"
  by pat_completeness auto
termination by (relation "measure length") auto

declare frames_in.simps [simp del]

subsection \<open>Reading in pieces\<close>

lemma read_some_flat:
  "0 < n \<Longrightarrow> read_some n s = (r, s') \<Longrightarrow>
   (case r of Done bs \<Rightarrow> flat s = bs @ flat s' \<and> (bs = [] \<longrightarrow> flat s = []) \<and> length bs \<le> n | Stopped \<Rightarrow> flat s' = flat s | IoErr e \<Rightarrow> flat s = [])"
  by (induction n s rule: read_some.induct) (auto split: if_splits progress.splits)

lemma fill_flat:
  "fill n buf s = (r, buf', s') \<Longrightarrow> length buf \<le> n \<Longrightarrow>
   (case r of Done u \<Rightarrow> buf @ flat s = buf' @ flat s' \<and> length buf' = n
    | Stopped \<Rightarrow> buf @ flat s = buf' @ flat s' \<and> length buf' < n
    | IoErr e \<Rightarrow> length (buf @ flat s) < n)"
proof (induction n buf s rule: fill.induct)
  case (1 n buf s)
  show ?case
  proof (cases "n \<le> length buf")
    case True then show ?thesis using 1(2,3) by auto
  next
    case False
    obtain q s1 where q: "read_some (n - length buf) s = (q, s1)" by fastforce
    note z = read_some_flat[OF _ q]
    show ?thesis
    proof (cases "\<exists>bs. q = Done bs \<and> bs \<noteq> []")
      case True
      then obtain bs where bs: "q = Done bs" "bs \<noteq> []" by blast
      then have "fill n (buf @ bs) s1 = (r, buf', s')" using 1(2) False q by (simp add: fill.simps[of n buf s])
      from 1(1)[OF False q[symmetric] bs(1) bs(2) this] z bs(1) False show ?thesis by (auto split: progress.splits)
    next
      case no: False
      then show ?thesis using 1(2) False q z by (subst (asm) fill.simps) (auto split: progress.splits if_splits)
    qed
  qed
qed

text \<open>What is still to be read, with the part of a message that was read already in front.\<close>

definition partial_ok :: "partial_read \<Rightarrow> bool" where
  "partial_ok p \<longleftrightarrow>
     (if length (pr_hdr p) < 2 then pr_body p = []
      else length (pr_hdr p) = 2 \<and> pr_len p = be_val2 (pr_hdr p) \<and> length (pr_body p) \<le> pr_len p)"

definition pending :: "partial_read \<Rightarrow> arrival list \<Rightarrow> bytes" where
  "pending p s = pr_hdr p @ pr_body p @ flat s"

lemma split_msgs_cons:
  "length h = 2 \<Longrightarrow> be_val2 h = length ct \<Longrightarrow> split_msgs (h @ ct @ rest) = ct # split_msgs rest"
  by (subst split_msgs.simps) simp

lemma split_msgs_short: "length bs < 2 \<or> length h = 2 \<and> bs = h @ body \<and> length body < be_val2 h \<Longrightarrow> split_msgs bs = []"
  by (subst split_msgs.simps) auto

lemma resumable_pending:
  assumes "partial_ok p" "read_noise_msg_resumable p s = (r, p', s')"
  shows "case r of Done ct \<Rightarrow> p' = partial_default \<and> split_msgs (pending p s) = ct # split_msgs (flat s')
    | Stopped \<Rightarrow> partial_ok p' \<and> pending p' s' = pending p s
    | IoErr e \<Rightarrow> split_msgs (pending p s) = []"
proof -
  obtain q hdr s1 where q: "fill 2 (pr_hdr p) s = (q, hdr, s1)" by (metis surj_pair)
  have small: "length (pr_hdr p) \<le> 2" using assms(1) by (auto simp: partial_ok_def split: if_splits)
  note h = fill_flat[OF q small]
  show ?thesis
  proof (cases q)
    case (Done u)
    define p1 where "p1 = (if length (pr_hdr p) < 2 then \<lparr>pr_hdr = hdr, pr_len = be_val2 hdr, pr_body = []\<rparr> else p)"
    have p1: "length (pr_hdr p1) = 2" "pr_len p1 = be_val2 (pr_hdr p1)" "length (pr_body p1) \<le> pr_len p1" "pending p1 s1 = pending p s"
      using assms(1) h q Done by (auto simp: p1_def partial_ok_def pending_def split: if_splits)
    obtain q2 body s2 where q2: "fill (pr_len p1) (pr_body p1) s1 = (q2, body, s2)" by (metis surj_pair)
    note b = fill_flat[OF q2 p1(3)]
    have eq: "(r, p', s') = (case q2 of Stopped \<Rightarrow> (Stopped, p1\<lparr>pr_body := body\<rparr>, s2) | IoErr e \<Rightarrow> (IoErr e, p1\<lparr>pr_body := body\<rparr>, s2) | Done _ \<Rightarrow> (Done body, partial_default, s2))"
      using assms(2) q Done q2 unfolding p1_def by (cases q2) (auto simp: read_noise_msg_resumable_def Let_def)
    show ?thesis
    proof (cases q2)
      case (Done u)
      then have "pending p s = pr_hdr p1 @ body @ flat s2" using b p1(4) by (simp add: pending_def)
      then show ?thesis using eq Done b p1 by (simp add: split_msgs_cons)
    next
      case Stopped
      then show ?thesis using eq b p1 by (simp add: partial_ok_def pending_def)
    next
      case (IoErr e)
      then have "split_msgs (pending p1 s1) = []" using b p1 by (intro split_msgs_short[of _ "pr_hdr p1" "pr_body p1 @ flat s1"]) (simp add: pending_def)
      then show ?thesis using eq IoErr p1(4) by simp
    qed
  next
    case Stopped
    then have "length (pr_hdr p) < 2" using q by (cases "length (pr_hdr p) < 2") simp_all
    then show ?thesis using assms h q Stopped by (auto simp: read_noise_msg_resumable_def partial_ok_def pending_def split: if_splits)
  next
    case (IoErr e)
    then have "length (pr_hdr p) < 2" using q by (cases "length (pr_hdr p) < 2") simp_all
    then have "split_msgs (pending p s) = []" using h IoErr assms(1) by (intro split_msgs_short) (simp add: pending_def partial_ok_def)
    then show ?thesis using assms(2) q IoErr by (auto simp: read_noise_msg_resumable_def)
  qed
qed

definition link_ok :: "'t fed_channel \<Rightarrow> bool" where
  "link_ok ch \<longleftrightarrow> partial_ok (lk_partial ch)"

text \<open>The plaintext a channel holds or will get.\<close>

definition plain :: "('h, 't) snow \<Rightarrow> 't fed_channel \<Rightarrow> bytes" where
  "plain N ch = lk_rx_buf ch @ decrypt N (lk_transport ch) (split_msgs (pending (lk_partial ch) (lk_in ch)))"

lemma default_ok [simp]: "partial_ok partial_default" "pending partial_default s = flat s"
  by (simp_all add: partial_ok_def partial_default_def pending_def)

lemma pull_chunk_plain:
  assumes "link_ok ch" "pull_chunk N ch = (r, ch')"
  shows "case r of IoErr e \<Rightarrow> plain N ch = lk_rx_buf ch | _ \<Rightarrow> link_ok ch' \<and> plain N ch' = plain N ch"
proof -
  obtain q p s where q: "read_noise_msg_resumable (lk_partial ch) (lk_in ch) = (q, p, s)" by (metis surj_pair)
  from resumable_pending[OF assms(1)[unfolded link_ok_def] q] show ?thesis
    using assms(2) q by (auto simp: pull_chunk_def plain_def link_ok_def split: progress.splits option.splits if_splits)
qed

lemma pull_until_plain:
  "pull_until N n ch = (r, ch') \<Longrightarrow> link_ok ch \<Longrightarrow>
   (case r of Done u \<Rightarrow> link_ok ch' \<and> plain N ch' = plain N ch \<and> n \<le> length (lk_rx_buf ch')
    | Stopped \<Rightarrow> link_ok ch' \<and> plain N ch' = plain N ch
    | IoErr e \<Rightarrow> length (plain N ch) < n)"
proof (induction N n ch rule: pull_until.induct)
  case (1 N n ch)
  show ?case
  proof (cases "n \<le> length (lk_rx_buf ch)")
    case True then show ?thesis using 1(2,3) by (auto simp: pull_until.simps[of N n ch])
  next
    case False
    obtain q ch1 where q: "pull_chunk N ch = (q, ch1)" by fastforce
    note z = pull_chunk_plain[OF 1(3) q]
    show ?thesis
    proof (cases q)
      case (Done u)
      then have "pull_until N n ch1 = (r, ch')" using 1(2) False q by (simp add: pull_until.simps[of N n ch])
      from 1(1)[OF False q[symmetric] Done this] z Done show ?thesis by (auto split: progress.splits)
    qed (use 1(2) False q z in \<open>auto simp: pull_until.simps[of N n ch]\<close>)
  qed
qed

lemma plain_rx: "take n (plain N ch) = take n (lk_rx_buf ch)" if "n \<le> length (lk_rx_buf ch)"
  using that by (simp add: plain_def)

lemma plain_split: "n \<le> length (lk_rx_buf ch) \<Longrightarrow> plain N (ch\<lparr>lk_rx_buf := drop n (lk_rx_buf ch)\<rparr>) = drop n (plain N ch)"
  by (simp add: plain_def)

lemma recv_frame_plain:
  assumes "link_ok ch" "recv_frame N ch = (r, ch')"
  shows "case r of Done f \<Rightarrow> link_ok ch' \<and> frames_in (plain N ch) = f # frames_in (plain N ch')
    | Stopped \<Rightarrow> link_ok ch' \<and> plain N ch' = plain N ch
    | IoErr e \<Rightarrow> frames_in (plain N ch) = []"
proof -
  obtain q ch1 where q: "pull_until N 4 ch = (q, ch1)" by fastforce
  note z = pull_until_plain[OF q assms(1)]
  show ?thesis
  proof (cases q)
    case (Done u)
    let ?n = "unat (be_val4 (take 4 (lk_rx_buf ch1)))"
    have z1: "link_ok ch1" "plain N ch1 = plain N ch" "4 \<le> length (lk_rx_buf ch1)" using z Done by auto
    have n: "frame_len (plain N ch) = ?n" using plain_rx[OF z1(3), of N] z1(2) by (simp add: frame_len_def)
    show ?thesis
    proof (cases "?n > NOISE_MAX_FRAME")
      case True
      then show ?thesis using assms(2) q Done n by (auto simp: recv_frame_def Let_def frames_in.simps[of "plain N ch"])
    next
      case False
      obtain q2 ch2 where q2: "pull_until N (4 + ?n) ch1 = (q2, ch2)" by fastforce
      note z2 = pull_until_plain[OF q2 z1(1)]
      have eq: "(r, ch') = (case q2 of Stopped \<Rightarrow> (Stopped, ch2) | IoErr e \<Rightarrow> (IoErr e, ch2)
          | Done _ \<Rightarrow> (Done (take ?n (drop 4 (lk_rx_buf ch2))), ch2\<lparr>lk_rx_buf := drop (4 + ?n) (lk_rx_buf ch2)\<rparr>))"
        using assms(2) q Done False q2 by (cases q2) (auto simp: recv_frame_def Let_def)
      show ?thesis
      proof (cases q2)
        case (Done u2)
        then have rx: "4 + ?n \<le> length (lk_rx_buf ch2)" "plain N ch2 = plain N ch" "link_ok ch2" using z2 z1(2) by auto
        then have "4 + ?n \<le> length (plain N ch)" unfolding rx(2)[symmetric] by (simp add: plain_def)
        moreover have "take ?n (drop 4 (plain N ch)) = take ?n (drop 4 (lk_rx_buf ch2))"
          using plain_rx[OF rx(1), of N] rx(2) by (metis take_drop add.commute)
        ultimately have "frames_in (plain N ch) = take ?n (drop 4 (lk_rx_buf ch2)) # frames_in (drop (4 + ?n) (plain N ch))"
          using False n by (simp add: frames_in.simps[of "plain N ch"])
        moreover have "plain N ch' = drop (4 + ?n) (plain N ch)" using eq Done plain_split[OF rx(1), of N] rx(2) by simp
        ultimately show ?thesis using eq Done rx(3) by (simp add: link_ok_def)
      next
        case Stopped then show ?thesis using eq z2 z1(2) by simp
      next
        case (IoErr e)
        then have "length (plain N ch) < 4 + frame_len (plain N ch)" using z2 z1(2) n by simp
        then show ?thesis using eq IoErr by (simp add: frames_in.simps[of "plain N ch"])
      qed
    qed
  next
    case Stopped then show ?thesis using assms(2) q z by (simp add: recv_frame_def)
  next
    case (IoErr e) then show ?thesis using assms(2) q z by (auto simp: recv_frame_def frames_in.simps[of "plain N ch"])
  qed
qed

lemma recv_run_plain: "link_ok ch \<Longrightarrow> recv_run N ch = frames_in (plain N ch)"
proof (induction N ch rule: recv_run.induct)
  case (1 N ch)
  obtain r ch1 where r: "recv_frame N ch = (r, ch1)" by fastforce
  note z = recv_frame_plain[OF 1(3) r]
  show ?case by (cases r) (use r z 1(1,2) in \<open>auto simp: recv_run.simps[of N ch]\<close>)
qed

text \<open>
  C19: Reading in pieces is reading at once. The frames a connection receives depend only on the bytes that arrive, in order:
  however they are split into reads, at whatever byte a read is abandoned for another branch of the loop and resumed later, the
  result is that of cutting the whole stream into messages, decrypting them one after the other and cutting the plaintext into
  frames.
\<close>

theorem recv_independent_of_schedule:
  "recv_run N (fed_channel_new s o1 t) = frames_in (decrypt N t (split_msgs (flat s)))"
  by (subst recv_run_plain) (simp_all add: link_ok_def fed_channel_new_def plain_def)

subsection \<open>Sending\<close>

definition framed :: "bytes \<Rightarrow> bytes" where
  "framed f = be_bytes4 (of_nat (length f)) @ f"

definition sent_chunks :: "bytes list \<Rightarrow> bytes list" where
  "sent_chunks fs = concat (map (\<lambda>f. chunks MAX_NOISE_PAYLOAD (framed f)) fs)"

fun send_frames :: "('h, 't) snow \<Rightarrow> bytes list \<Rightarrow> 't fed_channel \<Rightarrow> (io_error + unit) \<times> 't fed_channel" where
  "send_frames N [] ch = (Ok (), ch)"
| "send_frames N (f # fs) ch =
     (case send_frame N f ch of
        (Inl e, ch1) \<Rightarrow> (Err e, ch1)
      | (Inr _, ch1) \<Rightarrow> send_frames N fs ch1)"

text \<open>The messages a transport state produces for a list of chunks, each with its chunk.\<close>

fun transcript :: "('h, 't) snow \<Rightarrow> 't \<Rightarrow> bytes list \<Rightarrow> (bytes \<times> bytes) list" where
  "transcript N t [] = []"
| "transcript N t (p # ps) = (case sn_tr_write N t p of None \<Rightarrow> [] | Some (c, t1) \<Rightarrow> (c, p) # transcript N t1 ps)"

definition wire_msg :: "bytes \<Rightarrow> bytes" where
  "wire_msg ct = be_bytes2 (length ct) @ ct"

lemma concat_chunks: "0 < n \<Longrightarrow> concat (chunks n bs) = bs"
  by (induction n bs rule: chunks.induct) (subst chunks.simps, simp)

lemma concat_sent_chunks: "concat (sent_chunks fs) = concat (map framed fs)"
  by (induction fs) (simp_all add: sent_chunks_def concat_chunks MAX_NOISE_PAYLOAD_def MAX_NOISE_MSG_def NOISE_TAG_LEN_def)

lemma out_write_ok: "out_write_all bs o1 = (Ok (), o2) \<Longrightarrow> ou_bytes o2 = ou_bytes o1 @ bs"
  by (auto simp: out_write_all_def split: option.splits if_splits)

lemma write_noise_ok: "write_noise_msg m o1 = (Ok (), o2) \<Longrightarrow> ou_bytes o2 = ou_bytes o1 @ wire_msg m \<and> length m \<le> 65535"
  by (auto simp: write_noise_msg_def wire_msg_def dest!: out_write_ok split: if_splits prod.splits sum.splits)

lemma send_chunks_ok:
  "send_chunks N ps ch = (Ok (), ch') \<Longrightarrow>
   map snd (transcript N (lk_transport ch) ps) = ps \<and> list_all (\<lambda>(c, p). length c \<le> 65535) (transcript N (lk_transport ch) ps) \<and>
   ou_bytes (lk_out ch') = ou_bytes (lk_out ch) @ concat (map (wire_msg \<circ> fst) (transcript N (lk_transport ch) ps)) \<and>
   (\<forall>qs. transcript N (lk_transport ch) (ps @ qs) = transcript N (lk_transport ch) ps @ transcript N (lk_transport ch') qs)"
proof (induction ps arbitrary: ch)
  case (Cons p ps)
  from Cons.prems obtain c t o1 where c: "sn_tr_write N (lk_transport ch) p = Some (c, t)" "write_noise_msg c (lk_out ch) = (Ok (), o1)"
    "send_chunks N ps (ch\<lparr>lk_transport := t, lk_out := o1\<rparr>) = (Ok (), ch')"
    by (auto split: option.splits prod.splits if_splits sum.splits)
  from Cons.IH[OF c(3)] c(1) write_noise_ok[OF c(2)] show ?case by simp
qed simp

lemma send_frames_ok:
  "send_frames N fs ch = (Ok (), ch') \<Longrightarrow>
   list_all (\<lambda>f. length f \<le> NOISE_MAX_FRAME) fs \<and>
   map snd (transcript N (lk_transport ch) (sent_chunks fs)) = sent_chunks fs \<and>
   list_all (\<lambda>(c, p). length c \<le> 65535) (transcript N (lk_transport ch) (sent_chunks fs)) \<and>
   ou_bytes (lk_out ch') = ou_bytes (lk_out ch) @ concat (map (wire_msg \<circ> fst) (transcript N (lk_transport ch) (sent_chunks fs)))"
proof (induction fs arbitrary: ch)
  case (Cons f fs)
  from Cons.prems obtain ch1 where f: "send_frame N f ch = (Ok (), ch1)" "send_frames N fs ch1 = (Ok (), ch')"
    by (auto split: prod.splits sum.splits)
  from f(1) have s: "length f \<le> NOISE_MAX_FRAME" "send_chunks N (chunks MAX_NOISE_PAYLOAD (framed f)) ch = (Ok (), ch1)"
    by (auto simp: send_frame_def framed_def split: if_splits)
  from send_chunks_ok[OF s(2)] Cons.IH[OF f(2)] s(1) show ?case by (auto simp: sent_chunks_def comp_def)
qed (simp add: sent_chunks_def)

subsection \<open>What the receiver makes of it\<close>

lemma be_val2_bytes [simp]: "n < 65536 \<Longrightarrow> be_val2 (be_bytes2 n) = n"
  by (simp add: be_val2_def be_bytes2_def byte_val_char_of less_mult_imp_div_less)

lemma length_be_bytes2 [simp]: "length (be_bytes2 n) = 2"
  by (simp add: be_bytes2_def)

lemma split_wire: "list_all (\<lambda>c. length c \<le> 65535) cs \<Longrightarrow> split_msgs (concat (map wire_msg cs)) = cs"
proof (induction cs)
  case Nil show ?case by (simp add: split_msgs.simps)
next
  case (Cons c cs)
  then have "split_msgs (be_bytes2 (length c) @ c @ concat (map wire_msg cs)) = c # split_msgs (concat (map wire_msg cs))"
    by (intro split_msgs_cons) simp_all
  then show ?case using Cons by (simp add: wire_msg_def[of c])
qed

lemma framed_len: "length f \<le> NOISE_MAX_FRAME \<Longrightarrow> frame_len (framed f @ rest) = length f"
  by (simp add: frame_len_def framed_def be_roundtrip4 unat_of_nat NOISE_MAX_FRAME_def)

lemma frames_framed: "list_all (\<lambda>f. length f \<le> NOISE_MAX_FRAME) fs \<Longrightarrow> frames_in (concat (map framed fs)) = fs"
proof (induction fs)
  case Nil show ?case by (simp add: frames_in.simps)
next
  case (Cons f fs)
  then have "frames_in (framed f @ concat (map framed fs)) = f # frames_in (concat (map framed fs))"
    using framed_len[of f "concat (map framed fs)"] by (subst frames_in.simps) (simp add: framed_def)
  then show ?case using Cons by simp
qed

lemma frames_mono: "prefix bs cs \<Longrightarrow> prefix (frames_in bs) (frames_in cs)"
proof (induction bs arbitrary: cs rule: frames_in.induct)
  case (1 bs)
  from 1(2) obtain zs where cs: "cs = bs @ zs" by (auto simp: prefix_def)
  show ?case
  proof (cases "length bs < 4 \<or> frame_len bs > NOISE_MAX_FRAME \<or> length bs < 4 + frame_len bs")
    case True then show ?thesis by (simp add: frames_in.simps[of bs])
  next
    case False
    then have l: "frame_len cs = frame_len bs" by (simp add: cs frame_len_def)
    have "prefix (frames_in (drop (4 + frame_len bs) bs)) (frames_in (drop (4 + frame_len bs) cs))"
      using 1(1)[OF False] by (simp add: cs)
    then show ?thesis using False l by (simp add: frames_in.simps[of bs] frames_in.simps[of cs]) (simp add: cs)
  qed
qed

lemma split_mono: "prefix bs cs \<Longrightarrow> prefix (split_msgs bs) (split_msgs cs)"
proof (induction bs arbitrary: cs rule: split_msgs.induct)
  case (1 bs)
  from 1(2) obtain zs where cs: "cs = bs @ zs" by (auto simp: prefix_def)
  show ?case
  proof (cases "length bs < 2 \<or> length bs < 2 + be_val2 (take 2 bs)")
    case True then show ?thesis by (simp add: split_msgs.simps[of bs])
  next
    case False
    then have l: "take 2 cs = take 2 bs" by (simp add: cs)
    have "prefix (split_msgs (drop (2 + be_val2 (take 2 bs)) bs)) (split_msgs (drop (2 + be_val2 (take 2 bs)) cs))"
      using 1(1)[OF False] by (simp add: cs)
    then show ?thesis using False l by (simp add: split_msgs.simps[of bs] split_msgs.simps[of cs]) (simp add: cs)
  qed
qed

lemma decrypt_mono: "prefix cs ds \<Longrightarrow> prefix (decrypt N t cs) (decrypt N t ds)"
proof (induction cs arbitrary: ds t)
  case (Cons c cs)
  then obtain es where "ds = c # es" "prefix cs es" by (auto simp: prefix_def)
  then show ?case using Cons.IH by (simp split: option.split)
qed simp

text \<open>
  Two transport states belong together, as after a handshake: what one encrypts the other decrypts, and they stay together.
\<close>

definition transport_pair :: "('h, 't) snow \<Rightarrow> ('t \<Rightarrow> 't \<Rightarrow> bool) \<Rightarrow> bool" where
  "transport_pair N R \<longleftrightarrow>
     (\<forall>s r p c s'. R s r \<and> sn_tr_write N s p = Some (c, s') \<longrightarrow> length p \<le> length c \<and> (\<exists>r'. sn_tr_read N r c = Some (p, r') \<and> R s' r'))"

lemma decrypt_transcript:
  "transport_pair N R \<Longrightarrow> R s r \<Longrightarrow> decrypt N r (map fst (transcript N s ps)) = concat (map snd (transcript N s ps))"
proof (induction ps arbitrary: s r)
  case (Cons p ps)
  show ?case
  proof (cases "sn_tr_write N s p")
    case (Some z)
    obtain c s' where z: "z = (c, s')" by fastforce
    with Cons.prems Some obtain r' where "length p \<le> length c" "sn_tr_read N r c = Some (p, r')" "R s' r'"
      unfolding transport_pair_def by blast
    then show ?thesis using Cons.IH[OF Cons.prems(1), of s' r'] Some z by simp
  qed simp
qed simp

text \<open>
  C20: Frames survive the link. After a list of frames was sent without an error, a peer whose transport state belongs to the
  sender's receives exactly these frames once all bytes are there, and a prefix of them before that, however the bytes arrive.
\<close>

theorem noise_frames_roundtrip:
  assumes "transport_pair N R" "R (lk_transport a) t" "ou_bytes (lk_out a) = []"
    and "send_frames N fs a = (Ok (), a')" "prefix (flat s) (ou_bytes (lk_out a'))"
  shows "prefix (recv_run N (fed_channel_new s o1 t)) fs \<and> (flat s = ou_bytes (lk_out a') \<longrightarrow> recv_run N (fed_channel_new s o1 t) = fs)"
proof -
  let ?tr = "transcript N (lk_transport a) (sent_chunks fs)"
  note k = send_frames_ok[OF assms(4)]
  have "split_msgs (ou_bytes (lk_out a')) = map fst ?tr"
    using split_wire[of "map fst ?tr"] k assms(3) by (simp add: list_all_iff split_beta)
  moreover have "decrypt N t (map fst ?tr) = concat (map framed fs)"
    using decrypt_transcript[OF assms(1,2), of "sent_chunks fs"] k by (simp add: concat_sent_chunks)
  ultimately have all: "frames_in (decrypt N t (split_msgs (ou_bytes (lk_out a')))) = fs" using frames_framed k by simp
  have "prefix (frames_in (decrypt N t (split_msgs (flat s)))) (frames_in (decrypt N t (split_msgs (ou_bytes (lk_out a')))))"
    by (intro frames_mono decrypt_mono split_mono assms(5))
  then show ?thesis using all by (auto simp: recv_independent_of_schedule)
qed

text \<open>A state that accepts nothing but the next message of a transcript: the authenticity of the cipher.\<close>

fun accepts_only :: "('h, 't) snow \<Rightarrow> 't \<Rightarrow> (bytes \<times> bytes) list \<Rightarrow> bool" where
  "accepts_only N t [] \<longleftrightarrow> (\<forall>c. sn_tr_read N t c = None)"
| "accepts_only N t ((c, p) # rest) \<longleftrightarrow> (\<forall>c' p' t'. sn_tr_read N t c' = Some (p', t') \<longrightarrow> c' = c \<and> p' = p \<and> accepts_only N t' rest)"

lemma decrypt_accepts: "accepts_only N t tr \<Longrightarrow> prefix (decrypt N t cs) (concat (map snd tr))"
proof (induction cs arbitrary: t tr)
  case (Cons c cs)
  show ?case
  proof (cases "sn_tr_read N t c")
    case (Some z)
    obtain p t' where z: "z = (p, t')" by fastforce
    show ?thesis
    proof (cases tr)
      case Nil then show ?thesis using Cons.prems Some by simp
    next
      case (Cons x rest)
      then obtain c0 where "x = (c0, p)" "accepts_only N t' rest" using Cons.prems Some z by (cases x) auto
      then show ?thesis using Cons.IH[of t' rest] Cons Some z by simp
    qed
  qed simp
qed simp

lemma transcript_prefix: "prefix (map snd (transcript N t ps)) ps"
  by (induction ps arbitrary: t) (auto split: option.split)

lemma concat_mono: "prefix xs ys \<Longrightarrow> prefix (concat xs) (concat ys)"
  by (auto simp: prefix_def)

text \<open>
  C21: Nothing can be slipped in. When the cipher is authentic, so that the receiver's state accepts only the sender's next message,
  then whatever bytes an attacker lets arrive (changed, replayed, reordered, dropped or invented ones), the frames received are
  the first frames that were sent, unchanged and in order.
\<close>

theorem noise_integrity:
  assumes "list_all (\<lambda>f. length f \<le> NOISE_MAX_FRAME) fs" "accepts_only N t (transcript N ta (sent_chunks fs))"
  shows "prefix (recv_run N (fed_channel_new s o1 t)) fs"
proof -
  have "prefix (decrypt N t (split_msgs (flat s))) (concat (map snd (transcript N ta (sent_chunks fs))))"
    by (rule decrypt_accepts[OF assms(2)])
  also have "prefix \<dots> (concat (map framed fs))" unfolding concat_sent_chunks[symmetric] by (rule concat_mono[OF transcript_prefix])
  finally have "prefix (frames_in (decrypt N t (split_msgs (flat s)))) (frames_in (concat (map framed fs)))" by (rule frames_mono)
  then show ?thesis by (simp add: recv_independent_of_schedule frames_framed[OF assms(1)])
qed

subsection \<open>The receive buffer\<close>

definition RX_MAX :: nat where "RX_MAX = 4 + NOISE_MAX_FRAME + MAX_NOISE_MSG"

lemma be_val2_max: "length h = 2 \<Longrightarrow> be_val2 h \<le> 65535"
proof -
  assume "length h = 2"
  then obtain a b where h: "h = [a, b]" by (auto simp: numeral_2_eq_2 length_Suc_conv)
  have "byte_val a * 256 + byte_val b \<le> 65535" using byte_val_less[of a] byte_val_less[of b] by linarith
  then show ?thesis by (simp add: h be_val2_def)
qed

lemma resumable_length:
  assumes "partial_ok p" "read_noise_msg_resumable p s = (Done ct, p', s')"
  shows "length ct \<le> 65535"
proof -
  have small: "length (pr_hdr p) \<le> 2" "2 \<le> length (pr_hdr p) \<Longrightarrow> pr_len p \<le> 65535 \<and> length (pr_body p) \<le> pr_len p"
    using assms(1) be_val2_max[of "pr_hdr p"] by (auto simp: partial_ok_def split: if_splits)
  obtain q hdr s1 where q: "fill 2 (pr_hdr p) s = (q, hdr, s1)" by (metis surj_pair)
  with assms(2) have Done: "q = Done ()" by (auto simp: read_noise_msg_resumable_def Let_def split: progress.splits prod.splits)
  then have "be_val2 hdr \<le> 65535" using fill_flat[OF q small(1)] be_val2_max by simp
  then show ?thesis using assms(2) q Done small
    by (cases "length (pr_hdr p) < 2") (auto simp: read_noise_msg_resumable_def Let_def dest: fill_flat split: progress.splits prod.splits)
qed

lemma pull_chunk_rx: "link_ok ch \<Longrightarrow> pull_chunk N ch = (r, ch') \<Longrightarrow> length (lk_rx_buf ch') \<le> length (lk_rx_buf ch) + MAX_NOISE_MSG"
  by (auto simp: pull_chunk_def link_ok_def MAX_NOISE_MSG_def dest!: resumable_length split: prod.splits progress.splits option.splits if_splits)

lemma pull_until_rx:
  "pull_until N n ch = (r, ch') \<Longrightarrow> link_ok ch \<Longrightarrow> length (lk_rx_buf ch') \<le> max (length (lk_rx_buf ch)) (n + MAX_NOISE_MSG)"
proof (induction N n ch rule: pull_until.induct)
  case (1 N n ch)
  show ?case
  proof (cases "n \<le> length (lk_rx_buf ch)")
    case True then show ?thesis using 1(2) by (auto simp: pull_until.simps[of N n ch])
  next
    case False
    obtain q ch1 where q: "pull_chunk N ch = (q, ch1)" by fastforce
    note z = pull_chunk_plain[OF 1(3) q] pull_chunk_rx[OF 1(3) q]
    show ?thesis
    proof (cases q)
      case (Done u)
      then have "pull_until N n ch1 = (r, ch')" using 1(2) False q by (simp add: pull_until.simps[of N n ch])
      from 1(1)[OF False q[symmetric] Done this] z Done False show ?thesis by auto
    qed (use 1(2) False q z in \<open>auto simp: pull_until.simps[of N n ch]\<close>)
  qed
qed

text \<open>
  A peer cannot make the buffer grow: between calls, and whatever the peer sends, the buffer of a channel holds at most one
  frame of the maximum size, its length and one Noise message.
\<close>

theorem recv_buffer_bounded:
  assumes "link_ok ch" "length (lk_rx_buf ch) \<le> RX_MAX" "recv_frame N ch = (r, ch')"
  shows "length (lk_rx_buf ch') \<le> RX_MAX"
proof -
  obtain q ch1 where q: "pull_until N 4 ch = (q, ch1)" by fastforce
  have 1: "length (lk_rx_buf ch1) \<le> RX_MAX" using pull_until_rx[OF q assms(1)] assms(2) by (auto simp: RX_MAX_def)
  show ?thesis
  proof (cases "q = Done () \<and> unat (be_val4 (take 4 (lk_rx_buf ch1))) \<le> NOISE_MAX_FRAME")
    case True
    obtain q2 ch2 where q2: "pull_until N (4 + unat (be_val4 (take 4 (lk_rx_buf ch1)))) ch1 = (q2, ch2)" by fastforce
    have "link_ok ch1" using pull_until_plain[OF q assms(1)] True by simp
    from pull_until_rx[OF q2 this] 1 True have "length (lk_rx_buf ch2) \<le> RX_MAX" by (auto simp: RX_MAX_def)
    then show ?thesis using assms(3) q q2 True by (cases q2) (auto simp: recv_frame_def Let_def)
  next
    case False then show ?thesis using assms(3) q 1 by (cases q) (auto simp: recv_frame_def Let_def split: if_splits)
  qed
qed

subsection \<open>The handshake\<close>

lemma hs_peer_ok:
  assumes "hs_peer X N payload hs = Ok n"
  obtains remote sig where "sn_remote_static N hs = Some remote" "identity_verify X n (NOISE_STATIC_V1 @ remote) sig"
  using assms by (auto simp: hs_peer_def verify_peer_payload_def domain_separated_static_pub_def split: option.splits sum.splits if_splits)

text \<open>
  The messages a node with transport key \<open>k\<close> signs: the envelopes it originates, attestations, its adverts and the public part of its
  own transport key.
\<close>

definition node_messages :: "ext \<Rightarrow> ('h, 't) snow \<Rightarrow> envelope set \<Rightarrow> bytes \<Rightarrow> bytes set" where
  "node_messages X N E k =
     origin_bytes X ` E \<union> {m. \<exists>d p t. m = attestation_bytes X d p t} \<union> {m. \<exists>a. m = ADVERT_V1 @ a} \<union> {NOISE_STATIC_V1 @ sn_public N k}"

lemma signed_static:
  assumes "\<forall>m sig. identity_verify X n m sig \<longrightarrow> m \<in> node_messages X N E k" "identity_verify X n (NOISE_STATIC_V1 @ remote) sig"
  shows "remote = sn_public N k"
proof -
  have "NOISE_STATIC_V1 @ remote \<in> node_messages X N E k" using assms by blast
  then show ?thesis unfolding node_messages_def using domains_disjoint by (auto simp: image_iff) metis+
qed

text \<open>
  C22: A link is with the node it names. Suppose a signature under a node's identity verifies only for messages that node signed: its
  envelopes, attestations, adverts and its own transport key. When a handshake completes, the node that the responder learns,
  and the node the initiator expected, is one whose transport key is the remote key of this very session. A node that presents
  another's payload, or a signature made for another purpose, does not get a channel.
\<close>

theorem handshake_names_key_holder:
  assumes "\<forall>m sig. identity_verify X n m sig \<longrightarrow> m \<in> node_messages X N E k"
  shows "(handshake_responder X N rnd key seed s o0 = (Ok (ch, n), o1) \<longrightarrow>
      (\<exists>hs. sn_into_transport N hs = Some (lk_transport ch) \<and> sn_remote_static N hs = Some (sn_public N k))) \<and>
    (handshake_initiator X N rnd key seed (Some n) s o0 = (Ok ch, o1) \<longrightarrow>
      (\<exists>hs payload msg hs'. sn_remote_static N hs = Some (sn_public N k) \<and> sn_write N hs payload = Some (msg, hs') \<and>
        sn_into_transport N hs' = Some (lk_transport ch)))"
proof (intro conjI impI)
  assume "handshake_responder X N rnd key seed s o0 = (Ok (ch, n), o1)"
  then obtain hs payload where h: "hs_peer X N payload hs = Ok n" "sn_into_transport N hs = Some (lk_transport ch)"
    by (auto simp: handshake_responder_def fed_channel_new_def split: option.splits sum.splits prod.splits)
  from h(1) obtain remote sig where "sn_remote_static N hs = Some remote" "identity_verify X n (NOISE_STATIC_V1 @ remote) sig"
    by (rule hs_peer_ok)
  then show "\<exists>hs. sn_into_transport N hs = Some (lk_transport ch) \<and> sn_remote_static N hs = Some (sn_public N k)"
    using signed_static[OF assms] h(2) by blast
next
  assume "handshake_initiator X N rnd key seed (Some n) s o0 = (Ok ch, o1)"
  then obtain hs payload ours hs' o1' where h: "hs_peer X N payload hs = Ok n" "hs_send N ours hs o1' = (Ok hs', o1)" "sn_into_transport N hs' = Some (lk_transport ch)"
    by (auto simp: handshake_initiator_def fed_channel_new_def split: option.splits sum.splits prod.splits if_splits)
  from h(1) obtain remote sig where "sn_remote_static N hs = Some remote" "identity_verify X n (NOISE_STATIC_V1 @ remote) sig"
    by (rule hs_peer_ok)
  moreover obtain msg where "sn_write N hs ours = Some (msg, hs')" using h(2) by (auto simp: hs_send_def split: option.splits prod.splits sum.splits if_splits)
  ultimately show "\<exists>hs payload msg hs'. sn_remote_static N hs = Some (sn_public N k) \<and> sn_write N hs payload = Some (msg, hs') \<and> sn_into_transport N hs' = Some (lk_transport ch)"
    using signed_static[OF assms] h(3) by blast
qed

lemma read_wire:
  assumes "length m \<le> MAX_NOISE_MSG"
  shows "read_noise_msg (Bytes (wire_msg m) # s) = (Done m, s)"
proof -
  have "read_exact 2 (Bytes (wire_msg m) # s) = (Done (be_bytes2 (length m)), if m = [] then s else Bytes m # s)"
    by (simp add: read_exact_def wire_msg_def fill.simps[of 2] split: list.split)
      (auto simp: be_bytes2_def)
  moreover have "read_exact (length m) (if m = [] then s else Bytes m # s) = (Done m, s)"
    by (cases m) (simp_all add: read_exact_def fill.simps[of "Suc n" "[]" for n])
  ultimately show ?thesis using assms by (simp add: read_noise_msg_def MAX_NOISE_MSG_def)
qed

text \<open>
  What the documentation of the pattern XX says of a handshake between an initiator with key \<open>ka\<close> and a responder with key \<open>kb\<close>: each
  message is read by the other side with its payload, each side learns the other's static key, and the transport states belong together.
\<close>

definition xx_pair :: "('h, 't) snow \<Rightarrow> ('t \<Rightarrow> 't \<Rightarrow> bool) \<Rightarrow> bytes \<Rightarrow> bytes \<Rightarrow> bytes \<Rightarrow> bytes \<Rightarrow> bool" where
  "xx_pair N R ka ra kb rb \<longleftrightarrow>
     (\<exists>i0 r0 m1 i1 r1. sn_build_initiator N ka ra = Some i0 \<and> sn_build_responder N kb rb = Some r0 \<and>
        sn_write N i0 [] = Some (m1, i1) \<and> length m1 \<le> MAX_NOISE_MSG \<and> sn_read N r0 m1 = Some ([], r1) \<and>
        (\<forall>p2. length p2 \<le> 1024 \<longrightarrow> (\<exists>m2 r2 i2. sn_write N r1 p2 = Some (m2, r2) \<and> length m2 \<le> MAX_NOISE_MSG \<and> length p2 \<le> length m2 \<and>
           sn_read N i1 m2 = Some (p2, i2) \<and> sn_remote_static N i2 = Some (sn_public N kb) \<and>
           (\<forall>p3. length p3 \<le> 1024 \<longrightarrow> (\<exists>m3 i3 r3 ti tr. sn_write N i2 p3 = Some (m3, i3) \<and> length m3 \<le> MAX_NOISE_MSG \<and> length p3 \<le> length m3 \<and>
              sn_read N r2 m3 = Some (p3, r3) \<and> sn_remote_static N r3 = Some (sn_public N ka) \<and>
              sn_into_transport N i3 = Some ti \<and> sn_into_transport N r3 = Some tr \<and> R ti tr \<and> R tr ti)))))"

definition payload_codec :: "ext \<Rightarrow> ('h, 't) snow \<Rightarrow> bool" where
  "payload_codec X N \<longleftrightarrow>
     (\<forall>seed key. \<exists>b. sn_cbor N (sign_static_pub X N seed key) = Some b \<and> length b \<le> 1024 \<and> sn_uncbor N b = Some (sign_static_pub X N seed key))"

definition out_open :: out_stream where
  "out_open = \<lparr>ou_bytes = [], ou_room = None\<rparr>"

lemma hs_send_open:
  "sn_write N hs p = Some (m, hs') \<Longrightarrow> length m \<le> MAX_NOISE_MSG \<Longrightarrow> ou_room o1 = None \<Longrightarrow>
   hs_send N p hs o1 = (Ok hs', o1\<lparr>ou_bytes := ou_bytes o1 @ wire_msg m\<rparr>)"
  by (simp add: hs_send_def write_noise_msg_def out_write_all_def wire_msg_def MAX_NOISE_MSG_def)

lemma hs_receive_wire:
  "sn_read N hs m = Some (p, hs') \<Longrightarrow> length m \<le> MAX_NOISE_MSG \<Longrightarrow> length p \<le> length m \<Longrightarrow>
   hs_receive N hs (Bytes (wire_msg m) # s) = (Ok (p, hs'), s)"
  by (simp add: hs_receive_def read_wire)

lemma hs_peer_own:
  assumes "ed25519_correct X" "sn_uncbor N b = Some (sign_static_pub X N seed key)" "sn_remote_static N hs = Some (sn_public N key)"
  shows "hs_peer X N b hs = Ok (identity_node_id X seed)"
  using assms by (simp add: hs_peer_def verify_peer_payload_def sign_static_pub_def identity_verify_own ed25519_correct_def identity_sign_def)

text \<open>
  Two honest nodes get a link. Run against each other, the two sides of the handshake complete: the initiator with the peer it
  expected, the responder with the initiator's node id, and with transport states that belong together, so that frames
  survive it in both directions.
\<close>

theorem noise_handshake_completes:
  assumes "ed25519_correct X" "payload_codec X N" "xx_pair N R ka ra kb rb"
  shows "\<exists>m1 m2 m3 ci cr oi or. handshake_initiator X N ra ka sa (Some (identity_node_id X sb)) [Bytes (wire_msg m2)] out_open = (Ok ci, oi) \<and>
    handshake_responder X N rb kb sb [Bytes (wire_msg m1), Bytes (wire_msg m3)] out_open = (Ok (cr, identity_node_id X sa), or) \<and>
    ou_bytes oi = wire_msg m1 @ wire_msg m3 \<and> ou_bytes or = wire_msg m2 \<and> R (lk_transport ci) (lk_transport cr) \<and> R (lk_transport cr) (lk_transport ci)"
proof -
  obtain pa where pa: "sn_cbor N (sign_static_pub X N sa ka) = Some pa" "length pa \<le> 1024" "sn_uncbor N pa = Some (sign_static_pub X N sa ka)"
    using assms(2) unfolding payload_codec_def by blast
  obtain pb where pb: "sn_cbor N (sign_static_pub X N sb kb) = Some pb" "length pb \<le> 1024" "sn_uncbor N pb = Some (sign_static_pub X N sb kb)"
    using assms(2) unfolding payload_codec_def by blast
  obtain i0 r0 m1 i1 r1 where 1: "sn_build_initiator N ka ra = Some i0" "sn_build_responder N kb rb = Some r0"
    "sn_write N i0 [] = Some (m1, i1)" "length m1 \<le> MAX_NOISE_MSG" "sn_read N r0 m1 = Some ([], r1)"
    and rest: "\<forall>p2. length p2 \<le> 1024 \<longrightarrow> (\<exists>m2 r2 i2. sn_write N r1 p2 = Some (m2, r2) \<and> length m2 \<le> MAX_NOISE_MSG \<and> length p2 \<le> length m2 \<and>
           sn_read N i1 m2 = Some (p2, i2) \<and> sn_remote_static N i2 = Some (sn_public N kb) \<and>
           (\<forall>p3. length p3 \<le> 1024 \<longrightarrow> (\<exists>m3 i3 r3 ti tr. sn_write N i2 p3 = Some (m3, i3) \<and> length m3 \<le> MAX_NOISE_MSG \<and> length p3 \<le> length m3 \<and>
              sn_read N r2 m3 = Some (p3, r3) \<and> sn_remote_static N r3 = Some (sn_public N ka) \<and>
              sn_into_transport N i3 = Some ti \<and> sn_into_transport N r3 = Some tr \<and> R ti tr \<and> R tr ti)))"
    using assms(3) unfolding xx_pair_def by blast
  obtain m2 r2 i2 where 2: "sn_write N r1 pb = Some (m2, r2)" "length m2 \<le> MAX_NOISE_MSG" "length pb \<le> length m2"
    "sn_read N i1 m2 = Some (pb, i2)" "sn_remote_static N i2 = Some (sn_public N kb)"
    and rest2: "\<forall>p3. length p3 \<le> 1024 \<longrightarrow> (\<exists>m3 i3 r3 ti tr. sn_write N i2 p3 = Some (m3, i3) \<and> length m3 \<le> MAX_NOISE_MSG \<and> length p3 \<le> length m3 \<and>
              sn_read N r2 m3 = Some (p3, r3) \<and> sn_remote_static N r3 = Some (sn_public N ka) \<and>
              sn_into_transport N i3 = Some ti \<and> sn_into_transport N r3 = Some tr \<and> R ti tr \<and> R tr ti)"
    using rest pb(2) by blast
  obtain m3 i3 r3 ti tr where 3: "sn_write N i2 pa = Some (m3, i3)" "length m3 \<le> MAX_NOISE_MSG" "length pa \<le> length m3"
    "sn_read N r2 m3 = Some (pa, r3)" "sn_remote_static N r3 = Some (sn_public N ka)"
    "sn_into_transport N i3 = Some ti" "sn_into_transport N r3 = Some tr" "R ti tr" "R tr ti"
    using rest2 pa(2) by blast
  have i: "handshake_initiator X N ra ka sa (Some (identity_node_id X sb)) [Bytes (wire_msg m2)] out_open =
      (Ok (fed_channel_new [] (out_open\<lparr>ou_bytes := wire_msg m1 @ wire_msg m3\<rparr>) ti), out_open\<lparr>ou_bytes := wire_msg m1 @ wire_msg m3\<rparr>)"
    by (simp add: handshake_initiator_def 1 2 3 pa hs_send_open hs_receive_wire hs_peer_own[OF assms(1) pb(3) 2(5)] out_open_def)
  have r: "handshake_responder X N rb kb sb [Bytes (wire_msg m1), Bytes (wire_msg m3)] out_open =
      (Ok (fed_channel_new [] (out_open\<lparr>ou_bytes := wire_msg m2\<rparr>) tr, identity_node_id X sa), out_open\<lparr>ou_bytes := wire_msg m2\<rparr>)"
    by (simp add: handshake_responder_def 1 2 3 pb hs_send_open hs_receive_wire hs_peer_own[OF assms(1) pa(3) 3(5)] out_open_def)
  show ?thesis by (intro exI[of _ m1] exI[of _ m2] exI[of _ m3]) (simp add: i r 3(8,9) fed_channel_new_def)
qed

subsection \<open>Examples\<close>

text \<open>
  A stand-in for the Noise implementation: a message carries the sender's static key, the payload and sixteen more bytes, and a transport
  state is the list of the messages still to come, each with its plaintext.
\<close>

definition tag16 :: bytes where "tag16 = replicate 16 (CHR ''t'')"

definition dec_str :: "bytes \<Rightarrow> string \<times> bytes" where
  "dec_str b = (let n = length (takeWhile (\<lambda>c. c = CHR ''1'') b) in (take n (drop (Suc n) b), drop (Suc (2 * n)) b))"

definition snow_demo :: "(bytes \<times> bytes) list \<Rightarrow> (bytes \<times> bytes option, (bytes \<times> bytes) list) snow" where
  "snow_demo script =
     \<lparr>sn_build_initiator = (\<lambda>k r. Some (k, None)), sn_build_responder = (\<lambda>k r. Some (k, None)),
      sn_write = (\<lambda>(k, r) p. Some (pad32 k @ p @ tag16, (k, r))),
      sn_read = (\<lambda>(k, r) m. if length m < 48 then None else Some (take (length m - 48) (drop 32 m), (k, Some (take 32 m)))),
      sn_remote_static = snd, sn_into_transport = (\<lambda>_. Some script),
      sn_tr_write = (\<lambda>l p. case l of (c, q) # l' \<Rightarrow> if p = q then Some (c, l') else None | [] \<Rightarrow> None),
      sn_tr_read = (\<lambda>l c. case l of (c', q) # l' \<Rightarrow> if c = c' then Some (q, l') else None | [] \<Rightarrow> None),
      sn_public = pad32, sn_cbor = (\<lambda>(n, sig). Some (enc_strs [n, sig])),
      sn_uncbor = (\<lambda>b. case dec_str b of (n, b1) \<Rightarrow> Some (n, fst (dec_str b1)))\<rparr>"

lemma dec_enc: "dec_str (enc_str s @ r) = (s, r)"
proof -
  have "takeWhile (\<lambda>c. c = CHR ''1'') (replicate n (CHR ''1'') @ CHR ''0'' # x) = replicate n (CHR ''1'')" for n x
    by (induction n) simp_all
  then show ?thesis by (simp add: dec_str_def enc_str_def mult_2)
qed

lemma dec_enc_last: "dec_str (enc_str s) = (s, [])"
  using dec_enc[of s "[]"] by simp

definition script_demo :: "(bytes \<times> bytes) list" where
  "script_demo = [(framed ''hi'' @ tag16, framed ''hi''), (framed [] @ tag16, framed [])]"

definition pair_demo :: "(bytes \<times> bytes) list \<Rightarrow> (bytes \<times> bytes) list \<Rightarrow> bool" where
  "pair_demo s r \<longleftrightarrow> s = r \<and> list_all (\<lambda>(c, p). length p \<le> length c) s"

lemma snow_demo_pair: "transport_pair (snow_demo sc) pair_demo"
  by (auto simp: transport_pair_def snow_demo_def pair_demo_def split: list.splits if_splits)

lemma snow_demo_codec: "payload_codec ext_demo (snow_demo sc)"
proof -
  have d: "sn_uncbor (snow_demo sc) (enc_strs [n, sig]) = Some (n, sig)" "sn_cbor (snow_demo sc) (n, sig) = Some (enc_strs [n, sig])" for n sig
    by (simp_all add: snow_demo_def enc_strs_def dec_enc dec_enc_last)
  have "length (identity_node_id ext_demo seed) = 67" "length (identity_sign ext_demo seed (domain_separated_static_pub (sn_public (snow_demo sc) key))) = 92" for seed key
    by (simp_all add: identity_node_id_def identity_sign_def ext_demo_def hex_encode_def domain_separated_static_pub_def NOISE_STATIC_V1_def snow_demo_def length_concat comp_def sum_list_triv)
  then have "length (enc_strs [fst (sign_static_pub ext_demo (snow_demo sc) seed key), snd (sign_static_pub ext_demo (snow_demo sc) seed key)]) \<le> 1024" for seed key
    by (simp add: sign_static_pub_def enc_strs_def enc_str_def)
  then show ?thesis unfolding payload_codec_def using d by (metis prod.collapse)
qed

lemma snow_demo_xx: "pair_demo sc sc \<Longrightarrow> xx_pair (snow_demo sc) pair_demo ka ra kb rb"
  by (auto simp: xx_pair_def snow_demo_def tag16_def MAX_NOISE_MSG_def)

lemma chunks_one: "bs \<noteq> [] \<Longrightarrow> length bs \<le> n \<Longrightarrow> chunks n bs = [bs]"
  by (cases n) (simp_all add: chunks.simps[of n bs] chunks.simps[of "Suc m" "[]" for m], simp add: chunks.simps)

lemma demo_chunks: "chunks MAX_NOISE_PAYLOAD (framed ''hi'') = [framed ''hi'']" "chunks MAX_NOISE_PAYLOAD (framed []) = [framed []]"
  by (rule chunks_one; simp add: framed_def MAX_NOISE_PAYLOAD_def MAX_NOISE_MSG_def NOISE_TAG_LEN_def be_bytes4_def)+

lemma send_small: "length f < 100 \<Longrightarrow> send_frame N f ch = send_chunks N (chunks MAX_NOISE_PAYLOAD (framed f)) ch"
  by (simp add: send_frame_def framed_def NOISE_MAX_FRAME_def)

lemma demo_sends:
  "\<exists>a'. send_frames (snow_demo script_demo) [''hi'', []] (fed_channel_new [] out_open script_demo) = (Ok (), a')"
proof -
  have l: "length (framed f) = 4 + length f" for f by (simp add: framed_def)
  show ?thesis
    by (simp add: send_small demo_chunks snow_demo_def script_demo_def fed_channel_new_def out_open_def write_noise_msg_def out_write_all_def tag16_def NOISE_TAG_LEN_def l)
qed

theorem noise_frames_roundtrip_witness:
  "\<exists>a'. send_frames (snow_demo script_demo) [''hi'', []] (fed_channel_new [] out_open script_demo) = (Ok (), a') \<and>
     recv_run (snow_demo script_demo) (fed_channel_new [Bytes (take 3 (ou_bytes (lk_out a'))), Dropped, Bytes (drop 3 (ou_bytes (lk_out a')))] out_open script_demo) =
       [''hi'', []]"
proof -
  obtain a' where a': "send_frames (snow_demo script_demo) [''hi'', []] (fed_channel_new [] out_open script_demo) = (Ok (), a')"
    using demo_sends by blast
  have "pair_demo script_demo script_demo" by (simp add: pair_demo_def script_demo_def)
  then show ?thesis
    using noise_frames_roundtrip[OF snow_demo_pair[of script_demo] _ _ a', of script_demo "[Bytes (take 3 (ou_bytes (lk_out a'))), Dropped, Bytes (drop 3 (ou_bytes (lk_out a')))]" out_open] a'
    by (simp add: fed_channel_new_def out_open_def)
qed

theorem noise_integrity_witness:
  "prefix (recv_run (snow_demo script_demo) (fed_channel_new [Bytes (wire_msg (framed [] @ tag16)), Bytes ''junk''] out_open script_demo)) [''hi'', []]"
proof (rule noise_integrity)
  show "list_all (\<lambda>f. length f \<le> NOISE_MAX_FRAME) [''hi'', []]" by (simp add: NOISE_MAX_FRAME_def)
  show "accepts_only (snow_demo script_demo) script_demo (transcript (snow_demo script_demo) script_demo (sent_chunks [''hi'', []]))"
    by (simp add: sent_chunks_def demo_chunks) (simp add: snow_demo_def script_demo_def)
qed

theorem noise_handshake_completes_witness:
  "\<exists>m1 m2 m3 ci cr oi or. handshake_initiator ext_demo (snow_demo script_demo) ''r'' ''ka'' ''sa'' (Some (identity_node_id ext_demo ''sb'')) [Bytes (wire_msg m2)] out_open = (Ok ci, oi) \<and>
    handshake_responder ext_demo (snow_demo script_demo) ''q'' ''kb'' ''sb'' [Bytes (wire_msg m1), Bytes (wire_msg m3)] out_open = (Ok (cr, identity_node_id ext_demo ''sa''), or) \<and>
    ou_bytes oi = wire_msg m1 @ wire_msg m3"
proof -
  have "pair_demo script_demo script_demo" by (simp add: pair_demo_def script_demo_def)
  from noise_handshake_completes[OF ed25519_demo snow_demo_codec snow_demo_xx[OF this], where ka = "''ka''" and ra = "''r''" and kb = "''kb''" and rb = "''q''" and sa = "''sa''" and sb = "''sb''"]
  show ?thesis by blast
qed

text \<open>A signature scheme under which the identity \<open>sa\<close> has signed nothing but the transport key \<open>ka\<close>.\<close>

definition ext_bound :: ext where
  "ext_bound = ext_demo\<lparr>x_ed_verify := (\<lambda>pk m sig. sig = pk @ m \<and> m = NOISE_STATIC_V1 @ pad32 ''ka'')\<rparr>"

theorem handshake_names_key_holder_witness:
  "\<exists>s ch o1. handshake_responder ext_bound (snow_demo script_demo) ''q'' ''kb'' ''sb'' s out_open = (Ok (ch, identity_node_id ext_bound ''sa''), o1) \<and>
     (\<exists>hs. sn_into_transport (snow_demo script_demo) hs = Some (lk_transport ch) \<and> sn_remote_static (snow_demo script_demo) hs = Some (pad32 ''ka''))"
proof -
  let ?N = "snow_demo script_demo" and ?n = "identity_node_id ext_bound ''sa''"
  define pa where "pa = enc_strs [?n, identity_sign ext_bound ''sa'' (NOISE_STATIC_V1 @ pad32 ''ka'')]"
  obtain pb where pb: "sn_cbor ?N (sign_static_pub ext_demo ?N ''sb'' ''kb'') = Some pb" "length pb \<le> 1024"
    using snow_demo_codec[of script_demo] unfolding payload_codec_def by blast
  have same: "sign_static_pub ext_bound ?N a b = sign_static_pub ext_demo ?N a b" for a b
    by (simp add: sign_static_pub_def ext_bound_def identity_node_id_def identity_sign_def)
  obtain pa' where "sn_cbor ?N (sign_static_pub ext_demo ?N ''sa'' ''ka'') = Some pa'" "length pa' \<le> 1024"
    using snow_demo_codec[of script_demo] unfolding payload_codec_def by blast
  then have la: "length pa \<le> 1024" 
    using same[of "''sa''" "''ka''"] by (simp add: pa_def sign_static_pub_def snow_demo_def domain_separated_static_pub_def)
  let ?m1 = "pad32 ''ka'' @ tag16" and ?m2 = "pad32 ''kb'' @ pb @ tag16" and ?m3 = "pad32 ''ka'' @ pa @ tag16"
  have l: "length tag16 = 16" "length ?m1 \<le> MAX_NOISE_MSG" "length ?m2 \<le> MAX_NOISE_MSG" "length ?m3 \<le> MAX_NOISE_MSG"
    using la pb(2) by (simp_all add: tag16_def MAX_NOISE_MSG_def)
  have r: "sn_read ?N (k, x) (pad32 j @ p @ tag16) = Some (p, (k, Some (pad32 j)))" for k x j p by (simp add: snow_demo_def l(1))
  have 1: "hs_receive ?N (''kb'', None) (Bytes (wire_msg ?m1) # s) = (Ok ([], (''kb'', Some (pad32 ''ka''))), s)" for s
    by (rule hs_receive_wire) (use r[of "''kb''" None "''ka''" "[]"] l in simp_all)
  have 2: "hs_send ?N pb (''kb'', Some (pad32 ''ka'')) out_open = (Ok (''kb'', Some (pad32 ''ka'')), out_open\<lparr>ou_bytes := wire_msg ?m2\<rparr>)"
    using hs_send_open[of ?N "(''kb'', Some (pad32 ''ka''))" pb ?m2 _ out_open] l(3) by (simp add: snow_demo_def out_open_def)
  have 3: "hs_receive ?N (''kb'', Some (pad32 ''ka'')) [Bytes (wire_msg ?m3)] = (Ok (pa, (''kb'', Some (pad32 ''ka''))), [])"
    by (rule hs_receive_wire) (use r[of "''kb''" _ "''ka''" pa] l in simp_all)
  have "sn_uncbor ?N pa = Some (?n, identity_sign ext_bound ''sa'' (NOISE_STATIC_V1 @ pad32 ''ka''))"
    by (simp add: pa_def snow_demo_def enc_strs_def dec_enc dec_enc_last)
  then have 4: "hs_peer ext_bound ?N pa (''kb'', Some (pad32 ''ka'')) = Ok ?n"
    by (simp add: hs_peer_def verify_peer_payload_def domain_separated_static_pub_def identity_verify_own ext_bound_def identity_sign_def snow_demo_def ext_demo_def)
  have b: "sn_build_responder ?N k x = Some (k, None)" "sn_into_transport ?N hs = Some script_demo" for k x hs by (simp_all add: snow_demo_def)
  have run: "handshake_responder ext_bound ?N ''q'' ''kb'' ''sb'' [Bytes (wire_msg ?m1), Bytes (wire_msg ?m3)] out_open =
      (Ok (fed_channel_new [] (out_open\<lparr>ou_bytes := wire_msg ?m2\<rparr>) script_demo, ?n), out_open\<lparr>ou_bytes := wire_msg ?m2\<rparr>)"
    using 1 2 3 4 pb(1) by (simp add: handshake_responder_def same b)
  have "\<forall>m sig. identity_verify ext_bound ?n m sig \<longrightarrow> m \<in> node_messages ext_bound ?N {} ''ka''"
    by (auto simp: identity_verify_own ext_bound_def node_messages_def snow_demo_def ext_demo_def)
  note key = handshake_names_key_holder[OF this, THEN conjunct1, rule_format, OF run]
  have "sn_public ?N ''ka'' = pad32 ''ka''" by (simp add: snow_demo_def)
  note key = key[unfolded this]
  show ?thesis by (rule exI, rule exI, rule exI, rule conjI[OF run key])
qed

end
