(* ===== verification/Data_Dir.thy ===== *)
theory Data_Dir
  imports Admin_Config
begin

text \<open>
  What a node keeps in its data directory beside the database: the key files (\<open>src/switchyardd/src/keyfile.rs\<close> and the loaders
  in \<open>alias.rs\<close>, \<open>node_identity.rs\<close>, \<open>fed/sealkey.rs\<close>, \<open>fed/noise.rs\<close>), and the backup and restore of the directory (\<open>backup.rs\<close>).
  Key files live in the file map of \<open>Admin_Config\<close>. Backup and restore work on trees: a directory with its mode and entries,
  regular files, sockets and other special files, and symbolic links, each with the node it resolves to if any. Which file
  operations fail, what a failed copy leaves, and the result of SQLite's \<open>VACUUM INTO\<close> on a database with its
  write-ahead log are the record \<open>dir_world\<close>.
\<close>

subsection \<open>Key files\<close>

datatype key_error = KeyDir | KeyCreate | KeyWrite | KeyRead | KeyHex | KeyLength string

definition load_or_create_key32 :: "bytes \<Rightarrow> string \<Rightarrow> string \<Rightarrow> cfg_fs \<Rightarrow> (key_error + bytes) \<times> cfg_fs" where
  "load_or_create_key32 random path what fs =
     (let created =
        (if exists_file path fs then (Ok (), fs)
         else if fs_fails fs (OpenFile path) then (Err KeyCreate, fs)
         else case write_file path MODE_0600 (hex_encode random) fs of
                (True, fs1) \<Rightarrow> (Ok (), fs1)
              | (False, fs1) \<Rightarrow> (Err KeyWrite, fs1)) in
      case created of
        (Inl e, fs1) \<Rightarrow> (Err e, fs1)
      | (Inr _, fs1) \<Rightarrow>
          (case read_file path fs1 of
             None \<Rightarrow> (Err KeyRead, fs1)
           | Some raw \<Rightarrow>
               (case hex_decode (trim_chars raw) of
                  None \<Rightarrow> (Err KeyHex, fs1)
                | Some b \<Rightarrow> if length b = 32 then (Ok b, fs1) else (Err (KeyLength what), fs1))))"

record node_keys =
  nk_alias :: bytes
  nk_identity :: bytes
  nk_sealed :: bytes

text \<open>The keys \<open>Daemon::new\<close> loads, in its order, from \<open>dir\<close>; \<open>dir_ok\<close> says whether the directory of the identity is there or can be made.\<close>

definition load_node_keys :: "bool \<Rightarrow> bytes \<times> bytes \<times> bytes \<Rightarrow> string \<Rightarrow> cfg_fs \<Rightarrow> (key_error + node_keys) \<times> cfg_fs" where
  "load_node_keys dir_ok random dir fs =
     (case random of (r1, r2, r3) \<Rightarrow>
     (case load_or_create_key32 r1 (dir @ ''/alias.key'') ''alias key'' fs of
        (Inl e, fs1) \<Rightarrow> (Err e, fs1)
      | (Inr a, fs1) \<Rightarrow>
     if \<not> dir_ok then (Err KeyDir, fs1)
     else (case load_or_create_key32 r2 (dir @ ''/identity/node.key'') ''node.key'' fs1 of
        (Inl e, fs2) \<Rightarrow> (Err e, fs2)
      | (Inr i, fs2) \<Rightarrow>
     (case load_or_create_key32 r3 (dir @ ''/sealed.key'') ''sealed key'' fs2 of
        (Inl e, fs3) \<Rightarrow> (Err e, fs3)
      | (Inr s, fs3) \<Rightarrow> (Ok \<lparr>nk_alias = a, nk_identity = i, nk_sealed = s\<rparr>, fs3)))))"

subsection \<open>Trees\<close>

datatype fnode = FFile bytes nat | FDir nat "(string \<times> fnode) list" | FSpecial | FLink "fnode option"

datatype dir_op = MakeDir "string list" | ListDir "string list" | NextEntry "string list" | CopyTo "string list" | OpenDb | Vacuum | ChmodDb | WriteManifest | ChmodDir
  | RemoveSidecar string | RemoveOut

record dir_world =
  dw_fails :: "dir_op \<Rightarrow> bool"
  dw_torn :: "string list \<Rightarrow> fnode option"
  dw_dir_mode :: nat
  dw_file_mode :: nat
  dw_vacuum :: "bytes \<Rightarrow> bytes option \<Rightarrow> bytes option"

datatype backup_error = NoDataDir | CreateFailed "string list" | InsideDataDir | ReadFailed "string list" | EntryFailed "string list" | CopyFailed "string list"
  | DbOpenFailed | VacuumFailed | ChmodFailed | ManifestFailed | NotABackup | RemoveFailed string | DaemonRunning | BadConfig load_error

definition DB_FILE :: string where "DB_FILE = ''relayfabric.db''"
definition MANIFEST :: string where "MANIFEST = ''BACKUP_MANIFEST''"

definition is_excluded :: "string \<Rightarrow> bool" where
  "is_excluded name \<longleftrightarrow> name \<in> {DB_FILE, ''relayfabric.db-wal'', ''relayfabric.db-shm'', ''admin.sock'', ''plugins.d''}"

text \<open>A regular file as reading through links sees it.\<close>

fun file_of :: "fnode \<Rightarrow> (bytes \<times> nat) option" where
  "file_of (FFile c m) = Some (c, m)"
| "file_of (FLink (Some n)) = file_of n"
| "file_of _ = None"

text \<open>The entries of a directory, through links, with the way to put changed entries back; a missing directory is created.\<close>

fun dir_of :: "dir_world \<Rightarrow> fnode option \<Rightarrow> ((string \<times> fnode) list \<times> ((string \<times> fnode) list \<Rightarrow> fnode)) option" where
  "dir_of w None = Some ([], FDir (dw_dir_mode w))"
| "dir_of w (Some (FDir m es)) = Some (es, FDir m)"
| "dir_of w (Some (FLink (Some (FDir m es)))) = Some (es, \<lambda>es'. FLink (Some (FDir m es')))"
| "dir_of w _ = None"

text \<open>\<open>fs::copy\<close>: content and mode go to the destination, through a link that is there.\<close>

fun put_file :: "bytes \<Rightarrow> nat \<Rightarrow> fnode option \<Rightarrow> fnode option" where
  "put_file c m None = Some (FFile c m)"
| "put_file c m (Some (FFile _ _)) = Some (FFile c m)"
| "put_file c m (Some (FLink None)) = Some (FLink (Some (FFile c m)))"
| "put_file c m (Some (FLink (Some (FFile _ _)))) = Some (FLink (Some (FFile c m)))"
| "put_file c m (Some _) = None"

definition set_entry :: "string \<Rightarrow> fnode option \<Rightarrow> (string \<times> fnode) list \<Rightarrow> (string \<times> fnode) list" where
  "set_entry name n es = (case n of Some n \<Rightarrow> alist_put name n es | None \<Rightarrow> alist_del name es)"

definition copy_file :: "dir_world \<Rightarrow> string list \<Rightarrow> string \<Rightarrow> fnode \<Rightarrow> (string \<times> fnode) list \<Rightarrow> (backup_error + unit) \<times> (string \<times> fnode) list" where
  "copy_file w path name n ds =
     (case file_of n of
        None \<Rightarrow> (Err (CopyFailed (path @ [name])), ds)
      | Some (c, m) \<Rightarrow>
          if dw_fails w (CopyTo (path @ [name])) then (Err (CopyFailed (path @ [name])), set_entry name (dw_torn w (path @ [name])) ds)
          else case put_file c m (map_of ds name) of
                 None \<Rightarrow> (Err (CopyFailed (path @ [name])), ds)
               | Some n' \<Rightarrow> (Ok (), alist_put name n' ds))"

subsection \<open>Backup\<close>

function copy_tree ::
  "dir_world \<Rightarrow> bool \<Rightarrow> string list \<Rightarrow> (string \<times> fnode) list \<Rightarrow> fnode option \<Rightarrow> (backup_error + unit) \<times> fnode option"
  and copy_entries ::
  "dir_world \<Rightarrow> bool \<Rightarrow> string list \<Rightarrow> (string \<times> fnode) list \<Rightarrow> (string \<times> fnode) list \<Rightarrow> (backup_error + unit) \<times> (string \<times> fnode) list"
where
  "copy_tree w outer path es dst =
     (if dw_fails w (MakeDir path) then (Err (CreateFailed path), dst)
      else case dir_of w dst of
             None \<Rightarrow> (Err (CreateFailed path), dst)
           | Some (ds, back) \<Rightarrow>
               if dw_fails w (ListDir path) then (Err (ReadFailed path), Some (back ds))
               else case copy_entries w outer path es ds of (r, ds1) \<Rightarrow> (r, Some (back ds1)))"
| "copy_entries w outer path [] ds = (Ok (), ds)"
| "copy_entries w outer path ((name, n) # es) ds =
     (if dw_fails w (NextEntry (path @ [name])) then (Err (EntryFailed (path @ [name])), ds)
      else if outer \<and> is_excluded name then copy_entries w outer path es ds
      else case n of
             FSpecial \<Rightarrow> copy_entries w outer path es ds
           | FDir m sub \<Rightarrow>
               (case copy_tree w False (path @ [name]) sub (map_of ds name) of
                  (Inl e, dn) \<Rightarrow> (Err e, set_entry name dn ds)
                | (Inr _, dn) \<Rightarrow> copy_entries w outer path es (set_entry name dn ds))
           | _ \<Rightarrow>
               (case copy_file w path name n ds of
                  (Inl e, ds1) \<Rightarrow> (Err e, ds1)
                | (Inr _, ds1) \<Rightarrow> copy_entries w outer path es ds1))"
  by pat_completeness auto
termination
  by (relation "measure (\<lambda>x. case x of Inl (w, outer, path, es, dst) \<Rightarrow> Suc (size_list (size_prod (\<lambda>_. 0) size) es)
      | Inr (w, outer, path, es, ds) \<Rightarrow> size_list (size_prod (\<lambda>_. 0) size) es)") auto

declare copy_tree.simps [simp del] copy_entries.simps [simp del]

text \<open>The entries of an existing directory, through a link.\<close>

fun dir_entries :: "fnode option \<Rightarrow> (string \<times> fnode) list option" where
  "dir_entries (Some (FDir _ es)) = Some es"
| "dir_entries (Some (FLink (Some (FDir _ es)))) = Some es"
| "dir_entries _ = None"

fun set_mode :: "nat \<Rightarrow> fnode \<Rightarrow> fnode" where
  "set_mode m (FFile c _) = FFile c m"
| "set_mode m (FDir _ es) = FDir m es"
| "set_mode m (FLink (Some n)) = FLink (Some (set_mode m n))"
| "set_mode m n = n"

definition MODE_0700 :: nat where "MODE_0700 = 448"

text \<open>\<open>out_real.starts_with(&data_real)\<close> on canonical paths, when both can be had.\<close>

definition inside :: "string list option \<Rightarrow> string list option \<Rightarrow> bool" where
  "inside out_real data_real =
     (case (out_real, data_real) of (Some out_path, Some d) \<Rightarrow> take (length d) out_path = d | _ \<Rightarrow> False)"

text \<open>The database, written by SQLite into the backup: an output file that is there and not empty is an error.\<close>

definition vacuum_into :: "dir_world \<Rightarrow> (string \<times> fnode) list \<Rightarrow> (string \<times> fnode) list \<Rightarrow> (backup_error + unit) \<times> (string \<times> fnode) list" where
  "vacuum_into w es ds =
     (case Option.bind (map_of es DB_FILE) file_of of
        None \<Rightarrow> (Ok (), ds)
      | Some (db, _) \<Rightarrow>
          if dw_fails w OpenDb then (Err DbOpenFailed, ds)
          else if map_of ds DB_FILE \<noteq> None \<and> map_option fst (Option.bind (map_of ds DB_FILE) file_of) \<noteq> Some [] then (Err VacuumFailed, ds)
          else if dw_fails w Vacuum then (Err VacuumFailed, set_entry DB_FILE (dw_torn w [DB_FILE]) ds)
          else case dw_vacuum w db (map_option fst (Option.bind (map_of es ''relayfabric.db-wal'') file_of)) of
                 None \<Rightarrow> (Err VacuumFailed, ds)
               | Some c \<Rightarrow>
                   (case put_file c (dw_file_mode w) (map_of ds DB_FILE) of
                      None \<Rightarrow> (Err VacuumFailed, ds)
                    | Some n \<Rightarrow>
                        if dw_fails w ChmodDb then (Err ChmodFailed, alist_put DB_FILE n ds)
                        else (Ok (), alist_put DB_FILE (set_mode MODE_0600 n) ds)))"

text \<open>\<open>fs::write\<close> keeps the mode of a file that is there.\<close>

definition write_manifest :: "dir_world \<Rightarrow> string \<Rightarrow> (string \<times> fnode) list \<Rightarrow> (backup_error + unit) \<times> (string \<times> fnode) list" where
  "write_manifest w manifest ds =
     (if dw_fails w WriteManifest then (Err ManifestFailed, set_entry MANIFEST (dw_torn w [MANIFEST]) ds)
      else let m = (case Option.bind (map_of ds MANIFEST) file_of of Some (_, m) \<Rightarrow> m | None \<Rightarrow> dw_file_mode w) in
           case put_file manifest m (map_of ds MANIFEST) of
             None \<Rightarrow> (Err ManifestFailed, ds)
           | Some n \<Rightarrow> (Ok (), alist_put MANIFEST n ds))"

definition snapshot ::
  "dir_world \<Rightarrow> string \<Rightarrow> string list option \<Rightarrow> string list option \<Rightarrow> fnode option \<Rightarrow> fnode option \<Rightarrow> (backup_error + unit) \<times> fnode option" where
  "snapshot w manifest out_real data_real data_dir out =
     (case dir_entries data_dir of
        None \<Rightarrow> (Err NoDataDir, out)
      | Some es \<Rightarrow>
     if dw_fails w (MakeDir []) then (Err (CreateFailed []), out)
     else case dir_of w out of
        None \<Rightarrow> (Err (CreateFailed []), out)
      | Some (ds0, back) \<Rightarrow>
     if inside out_real data_real then
       (Err InsideDataDir, case back ds0 of FDir _ [] \<Rightarrow> if dw_fails w RemoveOut then Some (back ds0) else None | n \<Rightarrow> Some n)
     else
       let mode = (if dw_fails w ChmodDir then id else set_mode MODE_0700) in
       case vacuum_into w es ds0 of
         (Inl e, ds1) \<Rightarrow> (Err e, Some (mode (back ds1)))
       | (Inr _, ds1) \<Rightarrow>
       (case copy_tree w True [] es (Some (mode (back ds1))) of
          (Inl e, out1) \<Rightarrow> (Err e, out1)
        | (Inr _, out1) \<Rightarrow>
       (case dir_of w out1 of
          None \<Rightarrow> (Err ManifestFailed, out1)
        | Some (ds2, back2) \<Rightarrow>
            (case write_manifest w manifest ds2 of (r, ds3) \<Rightarrow> (r, Some (back2 ds3))))))"

subsection \<open>Restore\<close>

fun remove_sidecars :: "dir_world \<Rightarrow> string list \<Rightarrow> (string \<times> fnode) list \<Rightarrow> (backup_error + unit) \<times> (string \<times> fnode) list" where
  "remove_sidecars w [] ds = (Ok (), ds)"
| "remove_sidecars w (name # names) ds =
     (case map_of ds name of
        None \<Rightarrow> remove_sidecars w names ds
      | Some (FDir _ _) \<Rightarrow> (Err (RemoveFailed name), ds)
      | Some _ \<Rightarrow>
          if dw_fails w (RemoveSidecar name) then (Err (RemoveFailed name), ds)
          else remove_sidecars w names (alist_del name ds))"

fun restore_entries :: "dir_world \<Rightarrow> (string \<times> fnode) list \<Rightarrow> (string \<times> fnode) list \<Rightarrow> (backup_error + unit) \<times> (string \<times> fnode) list" where
  "restore_entries w [] ds = (Ok (), ds)"
| "restore_entries w ((name, n) # es) ds =
     (if dw_fails w (NextEntry [name]) then (Err (EntryFailed [name]), ds)
      else if name = MANIFEST then restore_entries w es ds
      else case n of
             FDir _ sub \<Rightarrow>
               (case copy_tree w False [name] sub (map_of ds name) of
                  (Inl e, dn) \<Rightarrow> (Err e, set_entry name dn ds)
                | (Inr _, dn) \<Rightarrow> restore_entries w es (set_entry name dn ds))
           | _ \<Rightarrow>
               (case copy_file w [] name n ds of
                  (Inl e, ds1) \<Rightarrow> (Err e, ds1)
                | (Inr _, ds1) \<Rightarrow> restore_entries w es ds1))"

definition restore_into :: "dir_world \<Rightarrow> fnode option \<Rightarrow> fnode option \<Rightarrow> (backup_error + unit) \<times> fnode option" where
  "restore_into w input data_dir =
     (case dir_entries input of
        None \<Rightarrow> (Err NotABackup, data_dir)
      | Some es \<Rightarrow>
     if Option.bind (map_of es MANIFEST) file_of = None then (Err NotABackup, data_dir)
     else if dw_fails w (MakeDir []) then (Err (CreateFailed []), data_dir)
     else case dir_of w data_dir of
        None \<Rightarrow> (Err (CreateFailed []), data_dir)
      | Some (ds0, back) \<Rightarrow>
       let mode = (if dw_fails w ChmodDir then id else set_mode MODE_0700) in
       case remove_sidecars w [''relayfabric.db-wal'', ''relayfabric.db-shm''] ds0 of
         (Inl e, ds1) \<Rightarrow> (Err e, Some (mode (back ds1)))
       | (Inr _, ds1) \<Rightarrow>
           if dw_fails w (ListDir []) then (Err (ReadFailed []), Some (mode (back ds1)))
           else case restore_entries w es ds1 of (r, ds2) \<Rightarrow> (r, Some (mode (back ds2))))"

text \<open>The two subcommands: \<open>loaded\<close> is what loading the configuration gave, and the trees are those at the data directory it
  names. A directory with a live admin socket is not restored into.\<close>

definition run_backup ::
  "load_error + config \<Rightarrow> dir_world \<Rightarrow> string \<Rightarrow> string list option \<Rightarrow> string list option \<Rightarrow> fnode option \<Rightarrow> fnode option \<Rightarrow> (backup_error + unit) \<times> fnode option" where
  "run_backup loaded w manifest out_real data_real data_dir out =
     (case loaded of
        Inl e \<Rightarrow> (Err (BadConfig e), out)
      | Inr _ \<Rightarrow> snapshot w manifest out_real data_real data_dir out)"

definition run_restore :: "load_error + config \<Rightarrow> dir_world \<Rightarrow> bool \<Rightarrow> fnode option \<Rightarrow> fnode option \<Rightarrow> (backup_error + unit) \<times> fnode option" where
  "run_restore loaded w daemon_running input data_dir =
     (case loaded of
        Inl e \<Rightarrow> (Err (BadConfig e), data_dir)
      | Inr _ \<Rightarrow> if daemon_running then (Err DaemonRunning, data_dir) else restore_into w input data_dir)"

end
