(* ===== verification/Data_Dir_Props.thy ===== *)
theory Data_Dir_Props
  imports Data_Dir Admin_Config_Props
begin

text \<open>
  The data directory: a key, once made, is the key of the node for good, and a backup that succeeds can be restored to the same
  files.
\<close>

subsection \<open>What a tree holds\<close>

text \<open>The content and mode of the regular file at a path, through links.\<close>

fun look :: "fnode \<Rightarrow> string list \<Rightarrow> (bytes \<times> nat) option" where
  "look n [] = file_of n"
| "look n (p # ps) =
     (case dir_entries (Some n) of
        None \<Rightarrow> None
      | Some es \<Rightarrow> (case map_of es p of None \<Rightarrow> None | Some n' \<Rightarrow> look n' ps))"

definition look_opt :: "fnode option \<Rightarrow> string list \<Rightarrow> (bytes \<times> nat) option" where
  "look_opt n ps = Option.bind n (\<lambda>n. look n ps)"

lemma look_opt_simps [simp]: "look_opt None ps = None" "look_opt (Some n) ps = look n ps"
  by (simp_all add: look_opt_def)

fun look_in :: "(string \<times> fnode) list \<Rightarrow> string list \<Rightarrow> (bytes \<times> nat) option" where
  "look_in es [] = None"
| "look_in es (p # ps) = look_opt (map_of es p) ps"

text \<open>Names in a directory are distinct.\<close>

fun wf_node :: "fnode \<Rightarrow> bool" where
  "wf_node (FDir m es) \<longleftrightarrow> distinct (map fst es) \<and> list_all (\<lambda>(name, n). wf_node n) es"
| "wf_node (FLink (Some n)) \<longleftrightarrow> wf_node n"
| "wf_node _ \<longleftrightarrow> True"

definition wf_entries :: "(string \<times> fnode) list \<Rightarrow> bool" where
  "wf_entries es \<longleftrightarrow> distinct (map fst es) \<and> list_all (\<lambda>(name, n). wf_node n) es"

definition keep :: "bool \<Rightarrow> (string \<times> fnode) list \<Rightarrow> string list \<Rightarrow> (bytes \<times> nat) option" where
  "keep outer es ps = (if outer \<and> ps \<noteq> [] \<and> is_excluded (hd ps) then None else look_in es ps)"

lemma dir_of_look:
  assumes "dir_of w dst = Some (ds, back)"
  shows "look (back ds') ps = look_in ds' ps" "look_opt dst ps = look_in ds ps"
  using assms by (induction w dst rule: dir_of.induct; cases ps; auto simp: look_opt_def split: option.splits)+

lemma put_file_look: "put_file c m n = Some n' \<Longrightarrow> look n' ps = (if ps = [] then Some (c, m) else None) \<and> (ps \<noteq> [] \<longrightarrow> look_opt n ps = None)"
  by (induction c m n rule: put_file.induct; cases ps; auto simp: look_opt_def)

lemma look_in_put: "look_in (alist_put name n ds) (p # ps) = (if p = name then look n ps else look_in ds (p # ps))"
  by (simp add: map_of_alist_put look_opt_def)

lemma file_entries: "file_of n = Some f \<Longrightarrow> dir_entries (Some n) = None"
  by (cases "Some n" rule: dir_entries.cases) auto

lemma file_look: "file_of n = Some f \<Longrightarrow> look n ps = (if ps = [] then Some f else None)"
  by (cases ps) (auto simp: file_entries)

lemma copy_file_look:
  assumes "copy_file w path name n ds = (Ok (), ds')"
  shows "look_in ds' (p # ps) = (if p = name then (case look n ps of Some f \<Rightarrow> Some f | None \<Rightarrow> look_in ds (p # ps)) else look_in ds (p # ps))"
proof -
  from assms obtain c m n' where f: "file_of n = Some (c, m)" "put_file c m (map_of ds name) = Some n'" "ds' = alist_put name n' ds"
    by (auto simp: copy_file_def split: option.splits if_splits)
  show ?thesis unfolding f(3) look_in_put using file_look[OF f(1)] put_file_look[OF f(2)] by (auto split: option.split)
qed

lemma look_in_skip: "p \<notin> fst ` set es \<Longrightarrow> look_in es (p # ps) = None"
  by (simp add: look_opt_def map_of_eq_None_iff[THEN iffD2])

lemma look_special [simp]: "look FSpecial ps = None"
  by (cases ps) simp_all

lemma copy_spec:
  "copy_tree w outer path es dst = (Ok (), dst') \<Longrightarrow> wf_entries es \<Longrightarrow>
     look_opt dst' ps = (case keep outer es ps of Some f \<Rightarrow> Some f | None \<Rightarrow> look_opt dst ps)"
  "copy_entries w outer path es ds = (Ok (), ds') \<Longrightarrow> wf_entries es \<Longrightarrow>
     look_in ds' ps = (case keep outer es ps of Some f \<Rightarrow> Some f | None \<Rightarrow> look_in ds ps)"
proof (induction w outer path es dst and w outer path es ds arbitrary: dst' ps and ds' ps rule: copy_tree_copy_entries.induct)
  case (1 w outer path es dst)
  from 1(2) obtain ds bk ds1 where d: "dir_of w dst = Some (ds, bk)" "copy_entries w outer path es ds = (Ok (), ds1)" "dst' = Some (bk ds1)"
    "\<not> dw_fails w (MakeDir path)" "\<not> dw_fails w (ListDir path)"
    by (auto simp: copy_tree.simps[of w outer path es dst] split: if_splits option.splits prod.splits)
  from 1(1)[OF d(4,1) refl d(5,2) 1(3), where ps = ps] show ?case using dir_of_look[OF d(1)] by (simp add: d(3) look_opt_def[of "Some n" for n] split: option.split)
next
  case (2 w outer path ds) then show ?case by (cases ps) (auto simp: copy_entries.simps keep_def look_opt_def)
next
  case (3 w outer path name n es ds)
  have wf: "wf_entries es" "name \<notin> fst ` set es" "wf_node n" using 3(8) by (auto simp: wf_entries_def)
  note run = 3(7)[unfolded copy_entries.simps(2)[of w outer path name n es ds]]
  have ne: "\<not> dw_fails w (NextEntry (path @ [name]))" using run by (auto split: if_splits)
  have cons: "keep outer ((name, n) # es) (p # ps) = (if outer \<and> is_excluded p then None else if p = name then look n ps else look_in es (p # ps))" for p ps
    by (simp add: keep_def look_opt_def)
  show ?case
  proof (cases ps)
    case Nil then show ?thesis by (simp add: keep_def)
  next
    case (Cons p qs)
    show ?thesis
    proof (cases "outer \<and> is_excluded name")
      case True
      with run ne have "copy_entries w outer path es ds = (Ok (), ds')" by auto
      from 3(1)[OF ne True this wf(1), where ps = ps] show ?thesis using True look_in_skip[OF wf(2)] by (auto simp: Cons cons keep_def)
    next
      case out: False
      have rest: ?thesis if ih: "look_in ds' ps = (case keep outer es ps of Some f \<Rightarrow> Some f | None \<Rightarrow> look_in ds1 ps)"
        and l: "look_in ds1 (p # qs) = (if p = name then (case look n qs of Some f \<Rightarrow> Some f | None \<Rightarrow> look_in ds (p # qs)) else look_in ds (p # qs))" for ds1
        using ih[unfolded Cons l] out look_in_skip[OF wf(2), of qs] by (auto simp: Cons cons keep_def split: option.splits)
      show ?thesis
      proof (cases n)
        case (FDir m sub)
        obtain dn where t: "copy_tree w False (path @ [name]) sub (map_of ds name) = (Ok (), dn)" "copy_entries w outer path es (set_entry name dn ds) = (Ok (), ds')"
          using run ne out FDir by (auto split: prod.splits sum.splits if_splits)
        have sub: "wf_entries sub" using wf(3) FDir by (simp add: wf_entries_def)
        have tl: "look_opt dn qs = (case look_in sub qs of Some f \<Rightarrow> Some f | None \<Rightarrow> look_opt (map_of ds name) qs)"
          using 3(3)[OF ne out FDir t(1) sub, where ps = qs] by (simp add: keep_def)
        have "look n qs = look_in sub qs" by (cases qs) (simp_all add: FDir look_opt_def split: option.split)
        moreover obtain n' where "dn = Some n'" using t(1) by (auto simp: copy_tree.simps split: if_splits option.splits prod.splits)
        ultimately have "look_in (set_entry name dn ds) (p # qs) = (if p = name then (case look n qs of Some f \<Rightarrow> Some f | None \<Rightarrow> look_in ds (p # qs)) else look_in ds (p # qs))"
          using tl by (auto simp: set_entry_def look_in_put look_opt_def simp del: look_in.simps split: option.splits) (simp_all add: look_opt_def)
        then show ?thesis using rest[OF 3(4)[OF ne out FDir t(1)[symmetric] refl t(2) wf(1)]] by blast
      next
        case FSpecial
        then have c: "copy_entries w outer path es ds = (Ok (), ds')" using run ne out by auto
        show ?thesis by (rule rest[OF 3(5)[OF ne out FSpecial c wf(1)]]) (simp add: FSpecial)
      next
        case (FFile c m)
        then obtain ds1 where c: "copy_file w path name n ds = (Ok (), ds1)" "copy_entries w outer path es ds1 = (Ok (), ds')"
          using run ne out by (auto split: prod.splits sum.splits)
        show ?thesis by (rule rest[OF 3(2)[OF ne out FFile c(1)[symmetric] refl c(2) wf(1)] copy_file_look[OF c(1)]])
      next
        case (FLink l)
        then obtain ds1 where c: "copy_file w path name n ds = (Ok (), ds1)" "copy_entries w outer path es ds1 = (Ok (), ds')"
          using run ne out by (auto split: prod.splits sum.splits)
        show ?thesis by (rule rest[OF 3(6)[OF ne out FLink c(1)[symmetric] refl c(2) wf(1)] copy_file_look[OF c(1)]])
      qed
    qed
  qed
qed

subsection \<open>Backup and restore\<close>

lemma set_entry_Some [simp]: "set_entry name (Some n) ds = alist_put name n ds"
  by (simp add: set_entry_def)

lemma look_dir: "look (FDir m es) ps = look_in es ps"
  by (cases ps) (simp_all add: look_opt_def split: option.split)

lemma set_mode_dir: "dir_of w dst = Some (ds, bk) \<Longrightarrow> look (set_mode m (bk ds')) ps = look_in ds' ps \<and> dir_entries (Some (set_mode m (bk ds'))) = Some ds'"
  by (induction w dst rule: dir_of.induct; cases ps; auto simp: look_opt_def split: option.splits)

lemma copy_tree_node: "copy_tree w outer path es dst = (Ok (), dst') \<Longrightarrow> \<exists>n. dst' = Some n"
  by (auto simp: copy_tree.simps split: if_splits option.splits prod.splits)

text \<open>A backup that reports success holds every regular file outside the excluded names, and the vacuumed database.\<close>

lemma vacuum_ok:
  assumes "vacuum_into w es [] = (Ok (), ds)"
  shows "ds = (case Option.bind (map_of es DB_FILE) file_of of None \<Rightarrow> []
    | Some (db, _) \<Rightarrow> [(DB_FILE, FFile (the (dw_vacuum w db (map_option fst (Option.bind (map_of es ''relayfabric.db-wal'') file_of)))) MODE_0600)]) \<and>
    (\<forall>db m. Option.bind (map_of es DB_FILE) file_of = Some (db, m) \<longrightarrow> dw_vacuum w db (map_option fst (Option.bind (map_of es ''relayfabric.db-wal'') file_of)) \<noteq> None)"
  using assms by (auto simp: vacuum_into_def alist_put_def split: option.splits if_splits)

lemma manifest_ok:
  assumes "write_manifest w man ds = (Ok (), ds')"
  shows "Option.bind (map_of ds' MANIFEST) file_of = Some (man, snd (the (Option.bind (map_of ds' MANIFEST) file_of)))"
    and "p \<noteq> MANIFEST \<Longrightarrow> look_in ds' (p # ps) = look_in ds (p # ps)"
  using assms put_file_look[of man _ "map_of ds MANIFEST" _ "[]"]
  by (auto simp: write_manifest_def Let_def look_in_put simp del: look_in.simps split: if_splits option.splits)

lemma snapshot_ok:
  assumes "snapshot w man ro rd (Some (FDir m es)) None = (Ok (), out)" "wf_entries es"
  obtains os where "dir_entries out = Some os" "Option.bind (map_of os MANIFEST) file_of \<noteq> None"
    "\<And>p ps. p \<noteq> MANIFEST \<Longrightarrow> look_in os (p # ps) = (if p = DB_FILE then if ps = [] then
        (case Option.bind (map_of es DB_FILE) file_of of None \<Rightarrow> None
         | Some (db, _) \<Rightarrow> map_option (\<lambda>c. (c, MODE_0600)) (dw_vacuum w db (map_option fst (Option.bind (map_of es ''relayfabric.db-wal'') file_of)))) else None
      else if is_excluded p then None else look_in es (p # ps))"
proof -
  from assms(1) obtain ds1 n1 ds2 bk ds3 where v: "vacuum_into w es [] = (Ok (), ds1)"
    and c: "copy_tree w True [] es (Some ((if dw_fails w ChmodDir then id else set_mode MODE_0700) (FDir (dw_dir_mode w) ds1))) = (Ok (), n1)"
    and d: "dir_of w n1 = Some (ds2, bk)" "write_manifest w man ds2 = (Ok (), ds3)" "out = Some (bk ds3)"
    by (auto simp: snapshot_def Let_def split: if_splits sum.splits prod.splits option.splits)
  have src: "look ((if dw_fails w ChmodDir then id else set_mode MODE_0700) (FDir (dw_dir_mode w) ds1)) ps = look_in ds1 ps" for ps
    by (simp add: look_dir)
  have l2: "look_in ds2 ps = (case keep True es ps of Some f \<Rightarrow> Some f | None \<Rightarrow> look_in ds1 ps)" for ps
    using copy_spec(1)[OF c assms(2), of ps, unfolded look_opt_simps src] dir_of_look(2)[OF d(1), of ps] by simp
  have l1: "look_in ds1 (p # ps) = (if p = DB_FILE \<and> ps = [] then
      (case Option.bind (map_of es DB_FILE) file_of of None \<Rightarrow> None
         | Some (db, _) \<Rightarrow> map_option (\<lambda>c. (c, MODE_0600)) (dw_vacuum w db (map_option fst (Option.bind (map_of es ''relayfabric.db-wal'') file_of)))) else None)" for p ps
    using vacuum_ok[OF v] by (cases ps) (auto split: option.splits)
  show ?thesis
  proof (rule that)
    show "dir_entries out = Some ds3" using d(1,3) by (induction w n1 rule: dir_of.induct) auto
    show "Option.bind (map_of ds3 MANIFEST) file_of \<noteq> None" using manifest_ok(1)[OF d(2)] by (metis option.distinct(1))
    fix p ps assume "p \<noteq> MANIFEST"
    from manifest_ok(2)[OF d(2) this] show "look_in ds3 (p # ps) = (if p = DB_FILE then if ps = [] then
        (case Option.bind (map_of es DB_FILE) file_of of None \<Rightarrow> None
         | Some (db, _) \<Rightarrow> map_option (\<lambda>c. (c, MODE_0600)) (dw_vacuum w db (map_option fst (Option.bind (map_of es ''relayfabric.db-wal'') file_of)))) else None
      else if is_excluded p then None else look_in es (p # ps))"
      unfolding l2 keep_def l1 by (auto simp: is_excluded_def split: option.split)
  qed
qed

text \<open>What a copy writes has distinct names again.\<close>

definition wf_opt :: "fnode option \<Rightarrow> bool" where
  "wf_opt n \<longleftrightarrow> pred_option wf_node n"

lemma wf_put: "wf_entries ds \<Longrightarrow> wf_node n \<Longrightarrow> wf_entries (alist_put name n ds)"
  using alist_put_keys(1)[of ds name n] by (auto simp: wf_entries_def list_all_iff) (auto simp: alist_put_def)

lemma wf_dir [simp]: "wf_node (FDir m es) = wf_entries es"
  by (simp add: wf_entries_def)

declare wf_node.simps(1) [simp del]

lemma wf_get: "wf_entries ds \<Longrightarrow> wf_opt (map_of ds name)"
  by (auto simp: wf_entries_def wf_opt_def list_all_iff pred_option_def dest: map_of_SomeD)

lemma dir_of_wf: "dir_of w dst = Some (ds, bk) \<Longrightarrow> wf_opt dst \<Longrightarrow> wf_entries ds \<and> (wf_entries ds' \<longrightarrow> wf_node (bk ds'))"
  by (induction w dst rule: dir_of.induct) (auto simp: wf_opt_def simp: wf_entries_def)

lemma put_file_wf: "put_file c m n = Some n' \<Longrightarrow> wf_node n'"
  by (induction c m n rule: put_file.induct) auto

lemma copy_file_wf: "copy_file w path name n ds = (Ok (), ds') \<Longrightarrow> wf_entries ds \<Longrightarrow> wf_entries ds'"
  by (auto simp: copy_file_def intro!: wf_put put_file_wf split: option.splits if_splits)

lemma copy_wf:
  "copy_tree w outer path es dst = (Ok (), dst') \<Longrightarrow> wf_opt dst \<Longrightarrow> wf_opt dst'"
  "copy_entries w outer path es ds = (Ok (), ds') \<Longrightarrow> wf_entries ds \<Longrightarrow> wf_entries ds'"
proof (induction w outer path es dst and w outer path es ds arbitrary: dst' and ds' rule: copy_tree_copy_entries.induct)
  case (1 w outer path es dst)
  from 1(2) obtain ds bk ds1 where d: "dir_of w dst = Some (ds, bk)" "copy_entries w outer path es ds = (Ok (), ds1)" "dst' = Some (bk ds1)"
    "\<not> dw_fails w (MakeDir path)" "\<not> dw_fails w (ListDir path)"
    by (auto simp: copy_tree.simps[of w outer path es dst] split: if_splits option.splits prod.splits)
  show ?case using 1(1)[OF d(4,1) refl d(5,2)] dir_of_wf[OF d(1) 1(3)] by (simp add: d(3) wf_opt_def)
next
  case (2 w outer path ds) then show ?case by (simp add: copy_entries.simps)
next
  case (3 w outer path name n es ds)
  note run = 3(7)[unfolded copy_entries.simps(2)[of w outer path name n es ds]]
  have ne: "\<not> dw_fails w (NextEntry (path @ [name]))" using run by (auto split: if_splits)
  show ?case
  proof (cases "outer \<and> is_excluded name")
    case True
    with run ne have c: "copy_entries w outer path es ds = (Ok (), ds')" by auto
    show ?thesis by (rule 3(1)[OF ne True c 3(8)])
  next
    case out: False
    show ?thesis
    proof (cases n)
      case (FDir m sub)
      obtain dn where t: "copy_tree w False (path @ [name]) sub (map_of ds name) = (Ok (), dn)" "copy_entries w outer path es (set_entry name dn ds) = (Ok (), ds')"
        using run ne out FDir by (auto split: prod.splits sum.splits if_splits)
      obtain n' where "dn = Some n'" using copy_tree_node[OF t(1)] by blast
      then have "wf_entries (set_entry name dn ds)" using 3(3)[OF ne out FDir t(1) wf_get[OF 3(8)]] wf_put[OF 3(8)] by (simp add: wf_opt_def)
      then show ?thesis by (rule 3(4)[OF ne out FDir t(1)[symmetric] refl t(2)])
    next
      case FSpecial
      then have c: "copy_entries w outer path es ds = (Ok (), ds')" using run ne out by auto
      show ?thesis by (rule 3(5)[OF ne out FSpecial c 3(8)])
    next
      case (FFile c m)
      then obtain ds1 where c: "copy_file w path name n ds = (Ok (), ds1)" "copy_entries w outer path es ds1 = (Ok (), ds')"
        using run ne out by (auto split: prod.splits sum.splits)
      show ?thesis by (rule 3(2)[OF ne out FFile c(1)[symmetric] refl c(2) copy_file_wf[OF c(1) 3(8)]])
    next
      case (FLink l)
      then obtain ds1 where c: "copy_file w path name n ds = (Ok (), ds1)" "copy_entries w outer path es ds1 = (Ok (), ds')"
        using run ne out by (auto split: prod.splits sum.splits)
      show ?thesis by (rule 3(6)[OF ne out FLink c(1)[symmetric] refl c(2) copy_file_wf[OF c(1) 3(8)]])
    qed
  qed
qed

lemma snapshot_wf:
  assumes "snapshot w man ro rd (Some (FDir m es)) None = (Ok (), out)" "dir_entries out = Some os"
  shows "wf_entries os"
proof -
  from assms(1) obtain ds1 n1 ds2 bk ds3 where v: "vacuum_into w es [] = (Ok (), ds1)"
    and c: "copy_tree w True [] es (Some ((if dw_fails w ChmodDir then id else set_mode MODE_0700) (FDir (dw_dir_mode w) ds1))) = (Ok (), n1)"
    and d: "dir_of w n1 = Some (ds2, bk)" "write_manifest w man ds2 = (Ok (), ds3)" "out = Some (bk ds3)"
    by (auto simp: snapshot_def Let_def split: if_splits sum.splits prod.splits option.splits)
  have "wf_entries ds1" using vacuum_ok[OF v] by (auto simp: wf_entries_def split: option.splits)
  then have "wf_opt n1" by (intro copy_wf(1)[OF c]) (simp add: wf_opt_def)
  then have "wf_entries ds2" using dir_of_wf[OF d(1)] by blast
  then have "wf_entries ds3" using d(2) by (auto simp: write_manifest_def Let_def intro!: wf_put put_file_wf split: if_splits option.splits)
  moreover have "dir_entries out = Some ds3" using d(1,3) by (induction w n1 rule: dir_of.induct) auto
  ultimately show ?thesis using assms(2) by simp
qed

lemma restore_spec:
  assumes "restore_entries w es ds = (Ok (), ds')" "wf_entries es" "p \<noteq> MANIFEST"
  shows "look_in ds' (p # ps) = (case look_in es (p # ps) of Some f \<Rightarrow> Some f | None \<Rightarrow> look_in ds (p # ps))"
  using assms(1,2)
proof (induction w es ds rule: restore_entries.induct)
  case (1 w ds) then show ?case by simp
next
  case (2 w name n es ds)
  have wf: "wf_entries es" "name \<notin> fst ` set es" "wf_node n" using 2(7) by (auto simp: wf_entries_def)
  have ne: "\<not> dw_fails w (NextEntry [name])" using 2(6) by (auto split: if_splits)
  show ?case
  proof (cases "name = MANIFEST")
    case True
    then show ?thesis using 2(1)[OF ne True _ wf(1)] 2(6) ne assms(3) by simp
  next
    case nm: False
    have step: ?thesis if ih: "look_in ds' (p # ps) = (case look_in es (p # ps) of Some f \<Rightarrow> Some f | None \<Rightarrow> look_in ds1 (p # ps))"
      and l: "look_in ds1 (p # ps) = (if p = name then (case look n ps of Some f \<Rightarrow> Some f | None \<Rightarrow> look_in ds (p # ps)) else look_in ds (p # ps))" for ds1
      using ih[unfolded l] look_in_skip[OF wf(2), of ps] by (auto split: option.splits)
    show ?thesis
    proof (cases n)
      case (FDir m sub)
      obtain dn where t: "copy_tree w False [name] sub (map_of ds name) = (Ok (), dn)" "restore_entries w es (set_entry name dn ds) = (Ok (), ds')"
        using 2(6) ne nm FDir by (auto split: prod.splits sum.splits if_splits)
      obtain n' where n': "dn = Some n'" using copy_tree_node[OF t(1)] by blast
      have "wf_entries sub" using wf(3) FDir by simp
      from copy_spec(1)[OF t(1) this, of ps] have "look_in (set_entry name dn ds) (p # ps) =
          (if p = name then (case look n ps of Some f \<Rightarrow> Some f | None \<Rightarrow> look_in ds (p # ps)) else look_in ds (p # ps))"
        by (auto simp: FDir look_dir n' keep_def split: option.split)
      then show ?thesis by (rule step[OF 2(3)[OF ne nm FDir t(1)[symmetric] refl t(2) wf(1)]])
    next
      case FSpecial then show ?thesis using 2(6) ne nm by (simp add: copy_file_def)
    next
      case (FFile c m)
      then obtain ds1 where c: "copy_file w [] name n ds = (Ok (), ds1)" "restore_entries w es ds1 = (Ok (), ds')"
        using 2(6) ne nm by (auto split: prod.splits sum.splits)
      show ?thesis by (rule step[OF 2(2)[OF ne nm FFile c(1)[symmetric] refl c(2) wf(1)] copy_file_look[OF c(1)]])
    next
      case (FLink l)
      then obtain ds1 where c: "copy_file w [] name n ds = (Ok (), ds1)" "restore_entries w es ds1 = (Ok (), ds')"
        using 2(6) ne nm by (auto split: prod.splits sum.splits)
      show ?thesis by (rule step[OF 2(5)[OF ne nm FLink c(1)[symmetric] refl c(2) wf(1)] copy_file_look[OF c(1)]])
    qed
  qed
qed

lemma sidecars_gone:
  assumes "remove_sidecars w names ds = (Ok (), ds')"
  shows "look_in ds' (p # ps) = (if p \<in> set names then None else look_in ds (p # ps))"
  using assms
proof (induction w names ds rule: remove_sidecars.induct)
  case (2 w name names ds)
  from 2(5) show ?case using 2(1) 2(2-4) by (auto split: option.splits fnode.splits if_splits)
qed simp


text \<open>A data directory with a database and its log, a key, an attachment and a socket, backed up and restored over a directory
  that holds a stale log.\<close>

definition sample_dir :: "(string \<times> fnode) list" where
  "sample_dir = [(''relayfabric.db'', FFile ''pages'' 420), (''relayfabric.db-wal'', FFile ''log'' 420), (''alias.key'', FFile ''k'' 384),
     (''attachments'', FDir 493 [(''ab'', FFile ''blob'' 420)]), (''admin.sock'', FSpecial)]"

definition sample_world :: dir_world where
  "sample_world = \<lparr>dw_fails = \<lambda>_. False, dw_torn = \<lambda>_. None, dw_dir_mode = 493, dw_file_mode = 420, dw_vacuum = \<lambda>db wal. Some (db @ (case wal of None \<Rightarrow> [] | Some l \<Rightarrow> l))\<rparr>"

definition sample_backup :: "fnode option" where
  "sample_backup = snd (snapshot sample_world ''m'' None None (Some (FDir 448 sample_dir)) None)"

definition sample_restored :: fnode where
  "sample_restored = the (snd (restore_into sample_world sample_backup (Some (FDir 448 [(''relayfabric.db-wal'', FFile ''stale'' 420)]))))"

lemma sample_backup_ok: "run_backup (Ok cfg_valid) sample_world ''m'' None None (Some (FDir 448 sample_dir)) None = (Ok (), sample_backup)"
  unfolding run_backup_def sum.case sample_backup_def by code_simp

lemma sample_restore_ok: "run_restore (Ok cfg_valid) sample_world False sample_backup (Some (FDir 448 [(''relayfabric.db-wal'', FFile ''stale'' 420)])) = (Ok (), Some sample_restored)"
  unfolding run_restore_def sum.case if_False sample_restored_def by code_simp


subsection \<open>Key files\<close>

lemma rust_chars_printable:
  assumes "list_all (\<lambda>c. 32 < byte_val c \<and> byte_val c < 127) s"
  shows "rust_chars s = map (\<lambda>c. [c]) s"
proof -
  have "rust_chars (concat (map (\<lambda>c. [c]) s)) = map (\<lambda>c. [c]) s"
    by (rule rust_chars_concat_shape) (use assms in \<open>auto simp: list_all_iff char_shape_def is_cont_def\<close>)
  then show ?thesis by simp
qed

lemma printable_trim: "list_all (\<lambda>c. 32 < byte_val c \<and> byte_val c < 127) s \<Longrightarrow> trim_chars s = s \<and> valid_utf8 s"
proof -
  assume s: "list_all (\<lambda>c. 32 < byte_val c \<and> byte_val c < 127) s"
  have d: "dropWhile white_char (map (\<lambda>c. [c]) u) = map (\<lambda>c. [c]) u" if "list_all (\<lambda>c. 32 < byte_val c \<and> byte_val c < 127) u" for u
    using that by (cases u) (auto simp: white_char_def)
  show ?thesis using s d[OF s] d[of "rev s"] by (auto simp: trim_chars_def rust_chars_printable[OF s] rev_map valid_utf8_def list_all_iff utf8_char_def)
qed

lemma hex_encode_printable: "list_all (\<lambda>c. 32 < byte_val c \<and> byte_val c < 127) (hex_encode b)"
proof (induction b)
  case (Cons a b)
  have "byte_val a div 16 < 16" using byte_val_less[of a] by (intro less_mult_imp_div_less) simp
  moreover have "32 < byte_val (hex_digit 97 n) \<and> byte_val (hex_digit 97 n) < 127" if "n < 16" for n using that by (auto simp: hex_digit_def)
  ultimately show ?case using Cons by (simp add: hex_encode_def)
qed (simp add: hex_encode_def)

lemma load_existing:
  assumes "exists_file path fs"
  shows "load_or_create_key32 r path what fs = (case read_file path fs of None \<Rightarrow> Err KeyRead
    | Some raw \<Rightarrow> (case hex_decode (trim_chars raw) of None \<Rightarrow> Err KeyHex | Some b \<Rightarrow> if length b = 32 then Ok b else Err (KeyLength what)), fs)"
  using assms by (simp add: load_or_create_key32_def split: option.split)

lemma load_fresh:
  assumes "load_or_create_key32 r path what fs = (Ok k, fs')" "\<not> exists_file path fs"
  shows "k = r \<and> length r = 32 \<and> fs' = fs\<lparr>fs_files := alist_put path (hex_encode r, MODE_0600) (fs_files fs)\<rparr>"
  using assms printable_trim[OF hex_encode_printable, of r]
  by (auto simp: load_or_create_key32_def write_file_def read_file_def exists_file_def Let_def split: if_splits option.splits prod.splits sum.splits)

lemma load_again:
  assumes "load_or_create_key32 r path what fs = (Ok k, fs')"
    and "map_of (fs_files fs2) path = map_of (fs_files fs') path" "\<not> fs_fails fs2 (ReadFile path)"
  shows "load_or_create_key32 r2 path what2 fs2 = (Ok k, fs2)"
proof (cases "exists_file path fs")
  case True
  then have "fs' = fs" "exists_file path fs2" using assms(1,2) load_existing[OF True, of r what] by (auto simp: exists_file_def)
  then show ?thesis using assms load_existing[OF True, of r what] load_existing[of path fs2 r2 what2]
    by (auto simp: read_file_def split: option.splits if_splits)
next
  case False
  from load_fresh[OF assms(1) False] assms(2,3) have "exists_file path fs2" "read_file path fs2 = Some (hex_encode k)" "length k = 32"
    using printable_trim[OF hex_encode_printable] by (auto simp: exists_file_def read_file_def)
  then show ?thesis using printable_trim[OF hex_encode_printable, of k] by (simp add: load_existing)
qed

lemma load_frame: "load_or_create_key32 r path what fs = (res, fs') \<Longrightarrow> q \<noteq> path \<Longrightarrow> map_of (fs_files fs') q = map_of (fs_files fs) q"
  by (auto simp: load_or_create_key32_def write_file_def Let_def split: if_splits option.splits prod.splits sum.splits)

text \<open>
  A key, once loaded, stays the key: a first start makes it from the random bytes it drew, readable by its owner only; no start
  changes a key file that is there; and every later start that can read the files gets the same keys, whatever the random
  numbers and whatever else of the file system has changed.\<close>

theorem node_keys_stable:
  assumes "load_node_keys dir_ok random dir fs = (Ok keys, fs1)"
  shows "(\<forall>path f. map_of (fs_files fs) path = Some f \<longrightarrow> map_of (fs_files fs1) path = Some f) \<and>
    (fs_files fs = [] \<longrightarrow> random = (nk_alias keys, nk_identity keys, nk_sealed keys) \<and>
       (\<forall>path f. map_of (fs_files fs1) path = Some f \<longrightarrow> snd f = MODE_0600)) \<and>
    length (nk_alias keys) = 32 \<and> length (nk_identity keys) = 32 \<and> length (nk_sealed keys) = 32 \<and>
    (\<forall>random2 fs2. (\<forall>path \<in> {dir @ ''/alias.key'', dir @ ''/identity/node.key'', dir @ ''/sealed.key''}.
         map_of (fs_files fs2) path = map_of (fs_files fs1) path \<and> \<not> fs_fails fs2 (ReadFile path)) \<longrightarrow>
       load_node_keys True random2 dir fs2 = (Ok keys, fs2))"
proof -
  obtain r1 r2 r3 where r: "random = (r1, r2, r3)" by (cases random)
  let ?a = "dir @ ''/alias.key''" and ?i = "dir @ ''/identity/node.key''" and ?s = "dir @ ''/sealed.key''"
  from assms obtain f1 f2 where l: "load_or_create_key32 r1 ?a ''alias key'' fs = (Ok (nk_alias keys), f1)"
      "load_or_create_key32 r2 ?i ''node.key'' f1 = (Ok (nk_identity keys), f2)" "load_or_create_key32 r3 ?s ''sealed key'' f2 = (Ok (nk_sealed keys), fs1)"
      and k: "keys = \<lparr>nk_alias = nk_alias keys, nk_identity = nk_identity keys, nk_sealed = nk_sealed keys\<rparr>"
    by (auto simp: load_node_keys_def r split: prod.splits sum.splits if_splits)
  have ne: "?a \<noteq> ?i" "?a \<noteq> ?s" "?i \<noteq> ?s" by simp_all
  have fr: "map_of (fs_files fs1) ?a = map_of (fs_files f1) ?a" "map_of (fs_files fs1) ?i = map_of (fs_files f2) ?i"
    using load_frame[OF l(2), of ?a] load_frame[OF l(3)] ne by auto
  have stays: "map_of (fs_files fs') path = Some f" if "load_or_create_key32 x q what g = (res, fs')" "map_of (fs_files g) path = Some f" for x q what g res fs' path f
    using that load_frame[OF that(1), of path] load_existing[of path g x what] by (cases "path = q") (auto simp: exists_file_def)
  have keep: "map_of (fs_files fs1) path = Some f" if "map_of (fs_files fs) path = Some f" for path f
    using stays[OF l(3) stays[OF l(2) stays[OF l(1) that]]] .
  have len: "length k' = 32" if "load_or_create_key32 x q what g = (Ok k', g')" for x q what g k' g'
    using that load_existing[of q g x what] load_fresh[OF that] by (cases "exists_file q g") (auto split: option.splits if_splits)
  have fresh: "random = (nk_alias keys, nk_identity keys, nk_sealed keys) \<and> (\<forall>path f. map_of (fs_files fs1) path = Some f \<longrightarrow> snd f = MODE_0600)" if "fs_files fs = []"
  proof -
    have 1: "nk_alias keys = r1 \<and> f1 = fs\<lparr>fs_files := alist_put ?a (hex_encode r1, MODE_0600) []\<rparr>" using load_fresh[OF l(1)] that by (simp add: exists_file_def)
    have 2: "nk_identity keys = r2 \<and> f2 = f1\<lparr>fs_files := alist_put ?i (hex_encode r2, MODE_0600) (fs_files f1)\<rparr>" using load_fresh[OF l(2)] 1 ne by (simp add: exists_file_def)
    have 3: "nk_sealed keys = r3 \<and> fs1 = f2\<lparr>fs_files := alist_put ?s (hex_encode r3, MODE_0600) (fs_files f2)\<rparr>" using load_fresh[OF l(3)] 1 2 ne by (simp add: exists_file_def)
    from 1 2 3 show ?thesis by (auto simp: r split: if_splits)
  qed
  have again: "load_node_keys True random2 dir fs2 = (Ok keys, fs2)"
    if "\<forall>path \<in> {?a, ?i, ?s}. map_of (fs_files fs2) path = map_of (fs_files fs1) path \<and> \<not> fs_fails fs2 (ReadFile path)" for random2 fs2
  proof -
    obtain q1 q2 q3 where q: "random2 = (q1, q2, q3)" by (cases random2)
    show ?thesis using load_again[OF l(1), of fs2 q1 "''alias key''"] load_again[OF l(2), of fs2 q2 "''node.key''"] load_again[OF l(3), of fs2 q3 "''sealed key''"] that fr k
      by (simp add: load_node_keys_def q)
  qed
  show ?thesis using keep fresh len[OF l(1)] len[OF l(2)] len[OF l(3)] again by blast
qed

definition sample_random :: "bytes \<times> bytes \<times> bytes" where
  "sample_random = (replicate 32 CHR ''a'', replicate 32 CHR ''b'', replicate 32 CHR ''c'')"

theorem node_keys_stable_witness:
  "\<exists>keys fs1. load_node_keys True sample_random ''/d'' \<lparr>fs_files = [], fs_fails = \<lambda>_. False, fs_torn = id\<rparr> = (Ok keys, fs1) \<and>
     sample_random = (nk_alias keys, nk_identity keys, nk_sealed keys) \<and>
     load_node_keys True (''x'', ''y'', ''z'') ''/d'' (fs1\<lparr>fs_fails := \<lambda>op. op = OpenFile ''/d/alias.key''\<rparr>) = (Ok keys, fs1\<lparr>fs_fails := \<lambda>op. op = OpenFile ''/d/alias.key''\<rparr>)"
proof -
  let ?fs = "\<lparr>fs_files = [], fs_fails = \<lambda>_. False, fs_torn = id\<rparr> :: cfg_fs"
  have pt: "trim_chars (hex_encode b) = hex_encode b" "valid_utf8 (hex_encode b)" for b using printable_trim[OF hex_encode_printable] by auto
  obtain keys fs1 where run: "load_node_keys True sample_random ''/d'' ?fs = (Ok keys, fs1)" and ff: "fs_fails fs1 = (\<lambda>_. False)"
    by (simp add: load_node_keys_def sample_random_def load_or_create_key32_def write_file_def read_file_def exists_file_def pt)
  show ?thesis using node_keys_stable[OF run] run by auto
qed

end
