(* ===== verification/Admin_Server.thy ===== *)
theory Admin_Server
  imports Admin_Api Admin_Config
begin

text \<open>
  The admin server as one function from a request to its answer (\<open>src/switchyardd/src/admin.rs\<close>: \<open>admin_routes\<close>, \<open>router\<close>, the
  event stream, the OpenAPI document and the documentation pages), over the handlers of \<open>Admin_Api\<close>, \<open>Admin_Config\<close> and
  \<open>Daemon_Sys\<close>. What axum does is a parameter: which path matches a pattern and what it captures, the readers of path segments,
  query strings and bodies, the limit on bodies. So are the embedded pages of the Swagger UI.
\<close>

subsection \<open>Requests and answers\<close>

record admin_request =
  aq_method :: string
  aq_path :: string
  aq_query :: string
  aq_body :: bytes

record admin_http =
  ah_match :: "string \<Rightarrow> string \<Rightarrow> string list option"
  ah_uuid :: "string \<Rightarrow> uuid option"
  ah_i64 :: "string \<Rightarrow> int option"
  ah_queue_params :: "string \<Rightarrow> (string option \<times> nat option) option"
  ah_prev_query :: "string \<Rightarrow> nat option option"
  ah_body_fits :: "bytes \<Rightarrow> bool"
  ah_link_request :: "bytes \<Rightarrow> link_request option"
  ah_swagger :: "string \<Rightarrow> string + bytes option"
  ah_openapi :: string

text \<open>What else a handler reads: the clock, randomness, the environment and files behind secret references, the YAML parser.\<close>

record admin_env =
  ae_ext :: ext
  ae_http :: admin_http
  ae_now :: datetime
  ae_instant :: instant
  ae_fresh :: "nat \<Rightarrow> uuid"
  ae_code :: nat
  ae_yaml :: "string \<Rightarrow> string + config"
  ae_secrets :: secret_world
  ae_fmt :: "f64 \<Rightarrow> string"
  ae_fmt_secs :: "u64 \<Rightarrow> string"

datatype admin_handler = HStatus | HPlugins | HRoutes | HConfigYaml | HConfigPut | HConfigPrev | HConfigValidate | HConfigRollback
  | HQueue | HQueuePurge | HQueueRequeue | HTrace | HPublic | HLimits | HIdentities | HCreateLink | HDeleteLink | HChallenges
  | HFederation | HDiscovery | HEvents | HHealthz | HReadyz | HMetrics | HOpenapi | HDocsIndex | HDocsAsset

datatype admin_answer =
    AText "string reply"
  | AStatus "status_response reply"
  | APlugins "(string \<times> plugin_entry) list reply"
  | ARoutes "route_item list reply"
  | AConfig cfg_response
  | AQueue "queue_response reply"
  | APurge nat "nat option"
  | ACode nat
  | ATrace "trace_response reply"
  | APublic "(bool \<times> public_service list) reply"
  | ALimits "limits_response reply"
  | AIdentities "link_item list reply"
  | ALink "int reply"
  | AChallenges "(challenge_item list \<times> nat) reply"
  | AFederation "federation_peer_item list reply"
  | ADiscovery "(string \<times> advert option \<times> discovery_item list) reply"
  | AEvents
  | ARefused nat

fun reply_status :: "'a reply \<Rightarrow> nat" where
  "reply_status (Body n _) = n"
| "reply_status (Fail n _) = n"

fun answer_status :: "admin_answer \<Rightarrow> nat" where
  "answer_status (AText r) = reply_status r"
| "answer_status (AStatus r) = reply_status r"
| "answer_status (APlugins r) = reply_status r"
| "answer_status (ARoutes r) = reply_status r"
| "answer_status (AConfig r) = cfg_status r"
| "answer_status (AQueue r) = reply_status r"
| "answer_status (APurge n _) = n"
| "answer_status (ACode n) = n"
| "answer_status (ATrace r) = reply_status r"
| "answer_status (APublic r) = reply_status r"
| "answer_status (ALimits r) = reply_status r"
| "answer_status (AIdentities r) = reply_status r"
| "answer_status (ALink r) = reply_status r"
| "answer_status (AChallenges r) = reply_status r"
| "answer_status (AFederation r) = reply_status r"
| "answer_status (ADiscovery r) = reply_status r"
| "answer_status AEvents = 200"
| "answer_status (ARefused n) = n"

subsection \<open>Routes\<close>

definition admin_routes :: "(string \<times> (string \<times> admin_handler) list) list" where
  "admin_routes =
     [(''/v1/status'', [(''GET'', HStatus)]),
      (''/v1/plugins'', [(''GET'', HPlugins)]),
      (''/v1/routes'', [(''GET'', HRoutes)]),
      (''/v1/config'', [(''GET'', HConfigYaml), (''PUT'', HConfigPut)]),
      (''/v1/config/prev'', [(''GET'', HConfigPrev)]),
      (''/v1/config/validate'', [(''POST'', HConfigValidate)]),
      (''/v1/config/rollback'', [(''POST'', HConfigRollback)]),
      (''/v1/queue'', [(''GET'', HQueue)]),
      (''/v1/queue/purge'', [(''POST'', HQueuePurge)]),
      (''/v1/queue/{id}/requeue'', [(''POST'', HQueueRequeue)]),
      (''/v1/messages/{id}'', [(''GET'', HTrace)]),
      (''/v1/public'', [(''GET'', HPublic)]),
      (''/v1/limits'', [(''GET'', HLimits)]),
      (''/v1/identities'', [(''GET'', HIdentities)]),
      (''/v1/identities/link'', [(''POST'', HCreateLink)]),
      (''/v1/identities/link/{id}'', [(''DELETE'', HDeleteLink)]),
      (''/v1/identities/challenges'', [(''GET'', HChallenges)]),
      (''/v1/federation'', [(''GET'', HFederation)]),
      (''/v1/discovery'', [(''GET'', HDiscovery)]),
      (''/v1/events'', [(''GET'', HEvents)]),
      (''/healthz'', [(''GET'', HHealthz)]),
      (''/readyz'', [(''GET'', HReadyz)]),
      (''/metrics'', [(''GET'', HMetrics)]),
      (''/v1/openapi.json'', [(''GET'', HOpenapi)])]"

definition admin_router :: "(string \<times> (string \<times> admin_handler) list) list" where
  "admin_router = admin_routes @ [(''/docs'', [(''GET'', HDocsIndex)]), (''/docs/'', [(''GET'', HDocsIndex)]), (''/docs/{*rest}'', [(''GET'', HDocsAsset)])]"

fun route_of :: "(string \<Rightarrow> string \<Rightarrow> string list option) \<Rightarrow> (string \<times> 'h) list \<Rightarrow> string \<Rightarrow> ('h \<times> string list) option" where
  "route_of mt [] path = None"
| "route_of mt ((pat, h) # rs) path = (case mt pat path of Some caps \<Rightarrow> Some (h, caps) | None \<Rightarrow> route_of mt rs path)"

text \<open>A handler for GET also serves HEAD.\<close>

definition method_handler :: "(string \<times> admin_handler) list \<Rightarrow> string \<Rightarrow> admin_handler option" where
  "method_handler hs m = (case map_of hs m of Some h \<Rightarrow> Some h | None \<Rightarrow> if m = ''HEAD'' then map_of hs ''GET'' else None)"

subsection \<open>The event stream and the pages\<close>

fun event_name :: "event \<Rightarrow> string" where
  "event_name (EvIngress _ _ _ _ _) = ''ingress''"
| "event_name (EvDelivery _ _ _ _) = ''delivery''"
| "event_name (EvPlugin _ _ _) = ''plugin''"
| "event_name (EvLinkVerified _ _) = ''link_verified''"
| "event_name (EvConfigApplied _ _) = ''config_applied''"
| "event_name (EvFederation _ _ _) = ''federation''"
| "event_name (EvAdvert _ _ _) = ''advert''"

text \<open>A receiver gets events, or learns how many it missed when it was too slow (\<open>Inl\<close>); the stream has the events only.\<close>

definition events_stream_from :: "(event \<Rightarrow> string option) \<Rightarrow> (nat + event) list \<Rightarrow> (string \<times> string) list" where
  "events_stream_from to_json items =
     List.map_filter (\<lambda>item. case item of Inl _ \<Rightarrow> None
       | Inr e \<Rightarrow> Some (event_name e, case to_json e of Some s \<Rightarrow> s | None \<Rightarrow> [])) items"

definition serve_swagger_asset :: "admin_http \<Rightarrow> string \<Rightarrow> string reply" where
  "serve_swagger_asset H path =
     (case ah_swagger H path of
        Inr (Some b) \<Rightarrow> Body 200 b
      | Inr None \<Rightarrow> Fail 404 []
      | Inl e \<Rightarrow> Fail 500 e)"

subsection \<open>Dispatch\<close>

text \<open>The path segment an extractor reads: a segment that is not of the type is answered with 400.\<close>

definition with_capture :: "(string \<Rightarrow> 'v option) \<Rightarrow> string list \<Rightarrow> ('v \<Rightarrow> admin_answer \<times> admin_state) \<Rightarrow> admin_state \<Rightarrow> admin_answer \<times> admin_state" where
  "with_capture rd caps k a =
     (case caps of
        [] \<Rightarrow> (ARefused 500, a)
      | s # _ \<Rightarrow> (case rd s of Some v \<Rightarrow> k v | None \<Rightarrow> (ARefused 400, a)))"

definition with_body :: "admin_http \<Rightarrow> bytes \<Rightarrow> (bytes \<Rightarrow> admin_answer \<times> admin_state) \<Rightarrow> admin_state \<Rightarrow> admin_answer \<times> admin_state" where
  "with_body H body k a = (if ah_body_fits H body then k body else (ARefused 413, a))"

definition on_daemon :: "('r \<Rightarrow> admin_answer) \<Rightarrow> 'r \<times> daemon \<Rightarrow> admin_state \<Rightarrow> admin_answer \<times> admin_state" where
  "on_daemon f rd a = (f (fst rd), a\<lparr>ad_daemon := snd rd\<rparr>)"

definition on_config :: "cfg_response \<times> admin_state \<Rightarrow> admin_answer \<times> admin_state" where
  "on_config ra = (AConfig (fst ra), snd ra)"

fun admin_handle :: "admin_env \<Rightarrow> admin_handler \<Rightarrow> string list \<Rightarrow> admin_request \<Rightarrow> admin_state \<Rightarrow> admin_answer \<times> admin_state" where
  "admin_handle E HStatus caps q a = (AStatus (status (ae_ext E) (ad_daemon a)), a)"
| "admin_handle E HPlugins caps q a = (APlugins (plugins_endpoint (ae_instant E) (ad_daemon a)), a)"
| "admin_handle E HRoutes caps q a = (ARoutes (routes_endpoint (ad_daemon a)), a)"
| "admin_handle E HConfigYaml caps q a = (AConfig (config_yaml a), a)"
| "admin_handle E HConfigPut caps q a = with_body (ae_http E) (aq_body q) (\<lambda>b. on_config (config_put (ae_yaml E) (ae_secrets E) (ae_now E) b a)) a"
| "admin_handle E HConfigPrev caps q a =
     (case ah_prev_query (ae_http E) (aq_query q) of Some n \<Rightarrow> (AConfig (config_prev n a), a) | None \<Rightarrow> (ARefused 400, a))"
| "admin_handle E HConfigValidate caps q a = with_body (ae_http E) (aq_body q) (\<lambda>b. (AConfig (config_validate (ae_yaml E) (ae_secrets E) b), a)) a"
| "admin_handle E HConfigRollback caps q a = on_config (config_rollback (ae_yaml E) (ae_secrets E) (ae_now E) a)"
| "admin_handle E HQueue caps q a =
     (case ah_queue_params (ae_http E) (aq_query q) of
        Some (state, limit) \<Rightarrow> (AQueue (queue state limit (ad_daemon a)), a)
      | None \<Rightarrow> (ARefused 400, a))"
| "admin_handle E HQueuePurge caps q a = on_daemon (\<lambda>(n, removed). APurge n removed) (queue_purge (ad_daemon a)) a"
| "admin_handle E HQueueRequeue caps q a = with_capture (ah_i64 (ae_http E)) caps (\<lambda>i. on_daemon ACode (queue_requeue (ae_now E) i (ad_daemon a)) a) a"
| "admin_handle E HTrace caps q a = with_capture (ah_uuid (ae_http E)) caps (\<lambda>i. (ATrace (trace i (ad_daemon a)), a)) a"
| "admin_handle E HPublic caps q a = (APublic (public (ad_daemon a)), a)"
| "admin_handle E HLimits caps q a = (ALimits (limits_endpoint (ad_daemon a)), a)"
| "admin_handle E HIdentities caps q a = (AIdentities (identities (ad_daemon a)), a)"
| "admin_handle E HCreateLink caps q a = with_body (ae_http E) (aq_body q)
     (\<lambda>b. on_daemon ALink (create_link (ah_link_request (ae_http E)) (ae_fresh E) (ae_code E) (ae_now E) b (ad_daemon a)) a) a"
| "admin_handle E HDeleteLink caps q a = with_capture (ah_i64 (ae_http E)) caps (\<lambda>i. on_daemon ACode (delete_link_endpoint i (ad_daemon a)) a) a"
| "admin_handle E HChallenges caps q a = (AChallenges (challenges (ae_now E) (ad_daemon a)), a)"
| "admin_handle E HFederation caps q a = (AFederation (federation (ad_daemon a)), a)"
| "admin_handle E HDiscovery caps q a = (ADiscovery (discovery (ae_ext E) (ae_now E) (ad_daemon a)), a)"
| "admin_handle E HEvents caps q a = (AEvents, a)"
| "admin_handle E HHealthz caps q a = (AText healthz, a)"
| "admin_handle E HReadyz caps q a = (AText (readyz (ad_daemon a)), a)"
| "admin_handle E HMetrics caps q a = (AText (Body 200 (metrics_text (ae_fmt E) (ae_fmt_secs E) (ae_instant E) (ad_daemon a))), a)"
| "admin_handle E HOpenapi caps q a = (AText (Body 200 (ah_openapi (ae_http E))), a)"
| "admin_handle E HDocsIndex caps q a = (AText (serve_swagger_asset (ae_http E) []), a)"
| "admin_handle E HDocsAsset caps q a = with_capture Some caps (\<lambda>rest. (AText (serve_swagger_asset (ae_http E) rest), a)) a"

definition admin_serve :: "admin_env \<Rightarrow> admin_request \<Rightarrow> admin_state \<Rightarrow> admin_answer \<times> admin_state" where
  "admin_serve E q a =
     (case route_of (ah_match (ae_http E)) admin_router (aq_path q) of
        None \<Rightarrow> (ARefused 404, a)
      | Some (hs, caps) \<Rightarrow>
          (case method_handler hs (aq_method q) of
             None \<Rightarrow> (ARefused 405, a)
           | Some h \<Rightarrow> admin_handle E h caps q a))"

end
