(* ===== verification/Ctl.thy ===== *)
theory Ctl
  imports Admin_Server Ui_Gate
begin

text \<open>
  The command-line client of the admin API (\<open>src/switchyardctl/src/main.rs\<close>): the request of each subcommand, the text sent over the
  socket, the reading of the response, and the printing of the event stream. The files of the machine, the socket, and JSON are
  parameters; what the tool prints and its exit code are the result.
\<close>

definition CRLF :: string where
  "CRLF = [CHR 0x0D, CHR 0x0A]"

subsection \<open>Requests\<close>

type_synonym ctl_request = "string \<times> string \<times> string option"

definition read_config_file :: "(string \<Rightarrow> string + string) \<Rightarrow> string \<Rightarrow> string + string" where
  "read_config_file files path =
     (case files path of Inr text \<Rightarrow> Ok text | Inl e \<Rightarrow> Err (''cannot read '' @ path @ '': '' @ e))"

definition ctl_link :: "(link_request \<Rightarrow> string) \<Rightarrow> string list \<Rightarrow> string + ctl_request" where
  "ctl_link to_json args =
     (case args of
        _ # requester # target # part # parts \<Rightarrow>
          Ok (''POST'', ''/v1/identities/link'',
              Some (to_json \<lparr>lq_requester = requester, lq_target = target, lq_display_name = join_with '' '' (part # parts)\<rparr>))
      | _ \<Rightarrow> Err ''usage: switchyardctl link <requester> <target> <display_name...>'')"

definition ctl_config :: "(string \<Rightarrow> string + string) \<Rightarrow> string list \<Rightarrow> string + ctl_request" where
  "ctl_config files args =
     (case args of
        _ # sub # rest \<Rightarrow>
          if sub = ''show'' then Ok (''GET'', ''/v1/config'', None)
          else if sub = ''validate'' then
            (case rest of
               file # _ \<Rightarrow> (case read_config_file files file of Inl e \<Rightarrow> Err e | Inr text \<Rightarrow> Ok (''POST'', ''/v1/config/validate'', Some text))
             | [] \<Rightarrow> Err ''usage: switchyardctl config validate <file>'')
          else if sub = ''apply'' then
            (case rest of
               file # _ \<Rightarrow> (case read_config_file files file of Inl e \<Rightarrow> Err e | Inr text \<Rightarrow> Ok (''PUT'', ''/v1/config'', Some text))
             | [] \<Rightarrow> Err ''usage: switchyardctl config apply <file>'')
          else if sub = ''rollback'' then Ok (''POST'', ''/v1/config/rollback'', None)
          else Err ''usage: switchyardctl config show|validate <file>|apply <file>|rollback''
      | _ \<Rightarrow> Err ''usage: switchyardctl config show|validate <file>|apply <file>|rollback'')"

definition ctl_usage :: string where
  "ctl_usage = ''usage: switchyardctl [--socket <path>] status|health|plugins|routes|queue|trace <id>|requeue <id>|purge-dlq|identities|federation|discovery|'' @
     ''link <requester> <target> <display_name...>|unlink <id>|config show|validate <file>|apply <file>|rollback|events|openapi|docs''"

definition with_id :: "(string \<Rightarrow> ctl_request) \<Rightarrow> string \<Rightarrow> string list \<Rightarrow> string + ctl_request" where
  "with_id k usage args = (case args of _ # i # _ \<Rightarrow> Ok (k i) | _ \<Rightarrow> Err usage)"

definition request_for :: "(string \<Rightarrow> string + string) \<Rightarrow> (link_request \<Rightarrow> string) \<Rightarrow> string list \<Rightarrow> string + ctl_request" where
  "request_for files to_json args =
     (case args of
        [] \<Rightarrow> Err ctl_usage
      | cmd # _ \<Rightarrow>
          if cmd = ''status'' then Ok (''GET'', ''/v1/status'', None)
          else if cmd = ''plugins'' then Ok (''GET'', ''/v1/plugins'', None)
          else if cmd = ''routes'' then Ok (''GET'', ''/v1/routes'', None)
          else if cmd = ''queue'' then Ok (''GET'', ''/v1/queue'', None)
          else if cmd = ''trace'' then with_id (\<lambda>i. (''GET'', ''/v1/messages/'' @ i, None)) ''usage: switchyardctl trace <message-id>'' args
          else if cmd = ''identities'' then Ok (''GET'', ''/v1/identities'', None)
          else if cmd = ''federation'' then Ok (''GET'', ''/v1/federation'', None)
          else if cmd = ''discovery'' then Ok (''GET'', ''/v1/discovery'', None)
          else if cmd = ''requeue'' then with_id (\<lambda>i. (''POST'', ''/v1/queue/'' @ i @ ''/requeue'', None)) ''usage: switchyardctl requeue <delivery-id>'' args
          else if cmd = ''purge-dlq'' then Ok (''POST'', ''/v1/queue/purge'', None)
          else if cmd = ''openapi'' then Ok (''GET'', ''/v1/openapi.json'', None)
          else if cmd = ''health'' then Ok (''GET'', ''/readyz'', None)
          else if cmd = ''link'' then ctl_link to_json args
          else if cmd = ''unlink'' then with_id (\<lambda>i. (''DELETE'', ''/v1/identities/link/'' @ i, None)) ''usage: switchyardctl unlink <id>'' args
          else if cmd = ''config'' then ctl_config files args
          else Err ctl_usage)"

definition ends_with :: "string \<Rightarrow> string \<Rightarrow> bool" where
  "ends_with s p \<longleftrightarrow> starts_with (rev s) (rev p)"

definition expected_status :: "string \<Rightarrow> string \<Rightarrow> string" where
  "expected_status m path =
     (if m = ''POST'' \<and> path = ''/v1/identities/link'' then ''202''
      else if m = ''POST'' \<and> ends_with path ''/requeue'' then ''204''
      else if m = ''DELETE'' then ''204''
      else ''200'')"

definition content_type_for :: "string \<Rightarrow> string" where
  "content_type_for path = (if path = ''/v1/config'' \<or> path = ''/v1/config/validate'' then ''text/yaml'' else ''application/json'')"

definition request_text :: "ctl_request \<Rightarrow> string" where
  "request_text r =
     (case r of (m, path, body) \<Rightarrow>
        m @ '' '' @ path @ '' HTTP/1.0'' @ CRLF @ ''host: localhost'' @ CRLF @
        (case body of
           Some b \<Rightarrow> ''content-type: '' @ content_type_for path @ CRLF @ ''content-length: '' @ nat_str (length b) @ CRLF @ CRLF @ b
         | None \<Rightarrow> CRLF))"

subsection \<open>Responses\<close>

text \<open>\<open>str::split_once\<close> on a string.\<close>

fun split_at_str :: "string \<Rightarrow> string \<Rightarrow> (string \<times> string) option" where
  "split_at_str sep [] = (if sep = [] then Some ([], []) else None)"
| "split_at_str sep (b # bs) =
     (if starts_with (b # bs) sep then Some ([], drop (length sep) (b # bs))
      else map_option (\<lambda>(x, y). (b # x, y)) (split_at_str sep bs))"

text \<open>\<open>split_whitespace\<close>: the runs of characters between white space.\<close>

fun words_from :: "string \<Rightarrow> string list \<Rightarrow> string list" where
  "words_from cur [] = (if cur = [] then [] else [cur])"
| "words_from cur (c # cs) =
     (if white_char c then (if cur = [] then words_from [] cs else cur # words_from [] cs)
      else words_from (cur @ c) cs)"

definition split_whitespace :: "string \<Rightarrow> string list" where
  "split_whitespace s = words_from [] (rust_chars s)"

definition body_of :: "string \<Rightarrow> string \<Rightarrow> string + string" where
  "body_of raw expected =
     (case split_at_str (CRLF @ CRLF) raw of
        None \<Rightarrow> Err ''malformed HTTP response''
      | Some (head, body) \<Rightarrow>
          let status = (case split_whitespace head of _ # s # _ \<Rightarrow> s | _ \<Rightarrow> ''0'') in
          if status \<noteq> expected then Err (''HTTP '' @ status @ '': '' @ body) else Ok body)"

text \<open>The socket: what the daemon at the other end answers to a text, or why it could not be asked.\<close>

definition fetch :: "(string \<Rightarrow> string \<Rightarrow> string + string) \<Rightarrow> string \<Rightarrow> ctl_request \<Rightarrow> string \<Rightarrow> string + string" where
  "fetch ask socket r expected =
     (case ask socket (request_text r) of Inl e \<Rightarrow> Err e | Inr raw \<Rightarrow> body_of raw expected)"

subsection \<open>The event stream\<close>

text \<open>\<open>read_line\<close>: a line with its newline if it has one, or what is left; text that is not UTF-8 is an error.\<close>

fun cut_line :: "string \<Rightarrow> string \<times> string" where
  "cut_line [] = ([], [])"
| "cut_line (b # bs) = (if b = CHR 0x0A then ([b], bs) else (case cut_line bs of (l, rest) \<Rightarrow> (b # l, rest)))"

lemma cut_line_shorter: "cut_line s = (l, rest) \<Longrightarrow> length s = length l + length rest \<and> (s \<noteq> [] \<longrightarrow> l \<noteq> [])"
  by (induction s arbitrary: l) (auto split: if_splits prod.splits)

definition read_line :: "string \<Rightarrow> (unit + string) \<times> string" where
  "read_line s = (case cut_line s of (l, rest) \<Rightarrow> (if valid_utf8 l then Inr l else Inl (), rest))"

lemma read_line_shorter:
  "read_line s = (r, rest) \<Longrightarrow> r \<noteq> Inr [] \<Longrightarrow> length rest < length s" "(r, rest) = read_line s \<Longrightarrow> r \<noteq> Inr [] \<Longrightarrow> length rest < length s"
proof -
  show a: "length rest < length s" if r: "read_line s = (r, rest)" "r \<noteq> Inr []" for r
  proof -
    have "s \<noteq> []" using r by (auto simp: read_line_def valid_utf8_def)
    moreover obtain l where "cut_line s = (l, rest)" using r(1) by (cases "cut_line s") (simp add: read_line_def)
    ultimately show ?thesis using cut_line_shorter[of s l rest] by (cases l) auto
  qed
  show "(r, rest) = read_line s \<Longrightarrow> r \<noteq> Inr [] \<Longrightarrow> length rest < length s" using a by metis
qed

function skip_http_headers :: "string \<Rightarrow> (unit + unit) \<times> string" where
  "skip_http_headers s =
     (case read_line s of
        (Inl e, rest) \<Rightarrow> (Inl e, rest)
      | (Inr l, rest) \<Rightarrow> if l = [] \<or> l = CRLF \<or> l = newline then (Inr (), rest) else skip_http_headers rest)"
  by pat_completeness auto
termination
  by (relation "measure length") (auto dest: read_line_shorter)

definition trim_eol :: "string \<Rightarrow> string" where
  "trim_eol s = rev (dropWhile (\<lambda>b. b \<in> set CRLF) (rev s))"

definition trim_start :: "string \<Rightarrow> string" where
  "trim_start s = concat (dropWhile white_char (rust_chars s))"

function emit_data_lines :: "string \<Rightarrow> string \<Rightarrow> (unit + unit) \<times> string" where
  "emit_data_lines s out =
     (case read_line s of
        (Inl e, rest) \<Rightarrow> (Inl e, out)
      | (Inr l, rest) \<Rightarrow>
          if l = [] then (Inr (), out)
          else case strip_prefix (trim_eol l) ''data:'' of
                 Some d \<Rightarrow> emit_data_lines rest (out @ trim_start d @ newline)
               | None \<Rightarrow> emit_data_lines rest out)"
  by pat_completeness auto
termination
  by (relation "measure (\<lambda>(s, out). length s)") (auto dest: read_line_shorter)

declare skip_http_headers.simps [simp del] emit_data_lines.simps [simp del]

definition stream_events :: "(string \<Rightarrow> string \<Rightarrow> string + string) \<Rightarrow> string \<Rightarrow> (string + unit) \<times> string" where
  "stream_events ask socket =
     (case ask socket (''GET /v1/events HTTP/1.0'' @ CRLF @ ''host: localhost'' @ CRLF @ CRLF) of
        Inl e \<Rightarrow> (Inl e, [])
      | Inr raw \<Rightarrow>
          (case skip_http_headers raw of
             (Inl _, _) \<Rightarrow> (Inl ''stream did not contain valid UTF-8'', [])
           | (Inr _, rest) \<Rightarrow>
               (case emit_data_lines rest [] of
                  (Inl _, out) \<Rightarrow> (Inl ''stream did not contain valid UTF-8'', out)
                | (Inr _, out) \<Rightarrow> (Inr (), out))))"

subsection \<open>The subcommands\<close>

definition docs_message :: "string \<Rightarrow> string" where
  "docs_message socket = join_with newline
     [''Admin socket: '' @ socket, [],
      ''The admin API (including /docs) is served only over that Unix socket --'',
      ''there is no TCP listener to browse it directly.'', [],
      ''Browse locally by forwarding a TCP port to the socket:'', [],
      ''  socat TCP-LISTEN:8099,fork UNIX-CONNECT:'' @ socket @ '' &'',
      ''  xdg-open http://localhost:8099/docs'', [],
      ''On a remote host, tunnel the socket over SSH instead (no socat needed there):'', [],
      ''  ssh -L 8099:'' @ socket @ '' <user>@<host>'',
      ''  xdg-open http://localhost:8099/docs'', [],
      ''Headless (no browser): switchyardctl openapi > relayfabric-openapi.json'']"

text \<open>An option with its value is taken out of the arguments; without a value only the option goes.\<close>

definition take_option :: "string \<Rightarrow> string \<Rightarrow> string list \<Rightarrow> string \<times> string list" where
  "take_option opt_name dflt args =
     (let before = takeWhile (\<lambda>x. x \<noteq> opt_name) args; rest = drop (length before) args in
      case rest of
        [] \<Rightarrow> (dflt, args)
      | [_] \<Rightarrow> (dflt, before)
      | _ # v # others \<Rightarrow> (v, before @ others))"

record ctl_world =
  cw_files :: "string \<Rightarrow> string + string"
  cw_ask :: "string \<Rightarrow> string \<Rightarrow> string + string"
  cw_link_json :: "link_request \<Rightarrow> string"
  cw_pretty :: "string \<Rightarrow> string option"
  cw_conformance :: "string \<Rightarrow> string \<Rightarrow> string \<Rightarrow> nat \<times> string"

text \<open>The exit code, what is printed, and the text of an error.\<close>

definition ctl_plugin_test :: "ctl_world \<Rightarrow> string list \<Rightarrow> nat \<times> string \<times> string" where
  "ctl_plugin_test W args =
     (case take_option ''--config'' ''{}'' args of (config, rest1) \<Rightarrow>
      case take_option ''--endpoint'' ''test'' rest1 of (endpoint, rest) \<Rightarrow>
        if rest = [] then (2, [], ''usage: switchyardctl plugin test [--config JSON] [--endpoint NAME] <command...>'')
        else case cw_conformance W (join_with '' '' rest) config endpoint of (code, out) \<Rightarrow> (code, out, []))"

definition ctl_main :: "ctl_world \<Rightarrow> string list \<Rightarrow> nat \<times> string \<times> string" where
  "ctl_main W args0 =
     (case (case args0 of
              x # rest \<Rightarrow>
                if x = ''--socket'' then (case rest of s # args \<Rightarrow> (s, args) | [] \<Rightarrow> (''/var/lib/relayfabric/admin.sock'', []))
                else (''/var/lib/relayfabric/admin.sock'', args0)
            | [] \<Rightarrow> (''/var/lib/relayfabric/admin.sock'', [])) of
        (socket, args) \<Rightarrow>
          if args \<noteq> [] \<and> hd args = ''events'' then
            (case stream_events (cw_ask W) socket of (Inl e, out) \<Rightarrow> (1, out, e) | (Inr _, out) \<Rightarrow> (0, out, []))
          else if take 2 args = [''plugin'', ''test''] then ctl_plugin_test W (drop 2 args)
          else if args \<noteq> [] \<and> hd args = ''docs'' then (0, docs_message socket @ newline, [])
          else case request_for (cw_files W) (cw_link_json W) args of
                 Inl e \<Rightarrow> (2, [], e)
               | Inr (m, path, body) \<Rightarrow>
                   (case fetch (cw_ask W) socket (m, path, body) (expected_status m path) of
                      Inl e \<Rightarrow> (1, [], e)
                    | Inr b \<Rightarrow>
                        if hd args = ''openapi'' then (0, b, [])
                        else if trim_chars b = [] then (0, ''ok'' @ newline, [])
                        else (0, (case cw_pretty W b of Some p \<Rightarrow> p | None \<Rightarrow> b) @ newline, [])))"

end
