(* ===== verification/Ui_Admin.thy ===== *)
theory Ui_Admin
  imports Admin_Server Ui_Props Admin_Config_Props Admin_Api_Props Daemon_Safety
begin

text \<open>
  The web front end in front of the admin server: \<open>forward\<close> of \<open>src/relayfabric-ui/src/main.rs\<close> joins the gate of \<open>Ui_Gate\<close> to the
  router of \<open>Admin_Server\<close>. A role confines what a request of its holder can change in the daemon.
\<close>

definition forward_request :: "string \<Rightarrow> request \<Rightarrow> admin_request" where
  "forward_request query rq = \<lparr>aq_method = rq_method rq, aq_path = rq_path rq, aq_query = query, aq_body = rq_body rq\<rparr>"

text \<open>A request to the proxied part of the front end: the gate answers itself or the admin server does.\<close>

definition ui_api :: "admin_env \<Rightarrow> instant \<Rightarrow> app_state \<Rightarrow> string \<Rightarrow> request \<Rightarrow> auth \<times> admin_state \<Rightarrow> (ui_response + admin_answer) \<times> auth \<times> admin_state" where
  "ui_api E t st query rq s =
     (case proxy t st rq (fst s) of
        (UForward, au) \<Rightarrow> (case admin_serve E (forward_request query rq) (snd s) of (ans, a) \<Rightarrow> (Inr ans, au, a))
      | (r, au) \<Rightarrow> (Inl r, au, snd s))"

subsection \<open>Paths and handlers\<close>

text \<open>
  What axum documents of its paths: the segments between slashes are compared one by one, and \<open>{id}\<close> stands for one segment that is
  not empty.
\<close>

definition path_fits :: "string \<Rightarrow> string \<Rightarrow> bool" where
  "path_fits pat path \<longleftrightarrow> list_all2 (\<lambda>p s. if p = ''{id}'' then s \<noteq> [] else s = p) (split_on (CHR ''/'') pat) (split_on (CHR ''/'') path)"

definition axum_paths :: "(string \<Rightarrow> string \<Rightarrow> string list option) \<Rightarrow> bool" where
  "axum_paths mt \<longleftrightarrow> (\<forall>pat \<in> fst ` set admin_routes. \<forall>path. mt pat path \<noteq> None \<longleftrightarrow> path_fits pat path)"

lemma route_of_member: "route_of mt rs path = Some (h, caps) \<Longrightarrow> \<exists>pat. (pat, h) \<in> set rs \<and> mt pat path = Some caps"
  by (induction mt rs path rule: route_of.induct) (auto split: option.splits)

lemma split_on_ne [simp]: "split_on c s \<noteq> []"
  by (induction s) (auto split: list.splits)

lemma split_on_join: "join_with [c] (split_on c s) = s"
proof (induction s)
  case (Cons b s)
  then show ?case by (cases "split_on c s") (auto, (metis split_on_ne)?, (cases "tl (split_on c s)"; simp)?)
qed simp

lemma path_fits_join: "path_fits pat path \<Longrightarrow> \<exists>segs. list_all2 (\<lambda>p s. if p = ''{id}'' then s \<noteq> [] else s = p) (split_on (CHR ''/'') pat) segs \<and> path = join_with ''/'' segs"
  unfolding path_fits_def by (intro exI[of _ "split_on (CHR ''/'') path"]) (simp add: split_on_join)

lemma fits_prefix:
  "path_fits ''/v1/config'' p \<Longrightarrow> starts_with p ''/v1/config''"
  "path_fits ''/v1/config/rollback'' p \<Longrightarrow> starts_with p ''/v1/config''"
  "path_fits ''/v1/queue/purge'' p \<Longrightarrow> starts_with p ''/v1/queue''"
  "path_fits ''/v1/queue/{id}/requeue'' p \<Longrightarrow> starts_with p ''/v1/queue''"
  "path_fits ''/v1/identities/link'' p \<Longrightarrow> starts_with p ''/v1/identities''"
  "path_fits ''/v1/identities/link/{id}'' p \<Longrightarrow> starts_with p ''/v1/identities''"
  by (drule path_fits_join, auto simp: list_all2_Cons1 starts_with_def)+

text \<open>The handlers that change state, with the part of the API each is in.\<close>

fun mutator_area :: "admin_handler \<Rightarrow> string option" where
  "mutator_area HConfigPut = Some ''/v1/config''"
| "mutator_area HConfigRollback = Some ''/v1/config''"
| "mutator_area HQueuePurge = Some ''/v1/queue''"
| "mutator_area HQueueRequeue = Some ''/v1/queue''"
| "mutator_area HCreateLink = Some ''/v1/identities''"
| "mutator_area HDeleteLink = Some ''/v1/identities''"
| "mutator_area _ = None"

lemma reader_same: "mutator_area h = None \<Longrightarrow> snd (admin_handle E h caps q a) = a"
  by (cases h) (auto simp: with_body_def with_capture_def split: option.splits list.splits)

lemma mutator_routes:
  assumes "(pat, hs) \<in> set admin_router" "method_handler hs m = Some h" "mutator_area h = Some area"
  shows "pat \<in> fst ` set admin_routes \<and> m \<notin> {''GET'', ''HEAD''} \<and> (\<forall>p. path_fits pat p \<longrightarrow> starts_with p area)"
proof -
  have "list_all (\<lambda>(pat, hs). \<forall>(m, h) \<in> set hs. mutator_area h \<noteq> None \<longrightarrow> m \<noteq> ''GET'' \<and> m \<noteq> ''HEAD'' \<and> (pat, h) \<in>
      {(''/v1/config'', HConfigPut), (''/v1/config/rollback'', HConfigRollback), (''/v1/queue/purge'', HQueuePurge), (''/v1/queue/{id}/requeue'', HQueueRequeue),
       (''/v1/identities/link'', HCreateLink), (''/v1/identities/link/{id}'', HDeleteLink)}) admin_router"
    by (simp add: admin_router_def admin_routes_def)
  moreover have "\<exists>m'. (m', h) \<in> set hs \<and> (m' = m \<or> m = ''HEAD'' \<and> m' = ''GET'')"
    using assms(2) by (auto simp: method_handler_def split: option.splits if_splits dest: map_of_SomeD)
  ultimately have k: "m \<notin> {''GET'', ''HEAD''}" "(pat, h) \<in>
      {(''/v1/config'', HConfigPut), (''/v1/config/rollback'', HConfigRollback), (''/v1/queue/purge'', HQueuePurge), (''/v1/queue/{id}/requeue'', HQueueRequeue),
       (''/v1/identities/link'', HCreateLink), (''/v1/identities/link/{id}'', HDeleteLink)}"
    using assms(1,3) by (fastforce simp: list_all_iff)+
  have "pat \<in> fst ` set admin_routes" using k(2) by (auto simp: admin_routes_def)
  then show ?thesis using k assms(3) fits_prefix by auto
qed

lemma serve_changes:
  assumes "axum_paths (ah_match (ae_http E))" "snd (admin_serve E q a) \<noteq> a"
  obtains h caps area where "admin_serve E q a = admin_handle E h caps q a" "mutator_area h = Some area"
    "aq_method q \<notin> {''GET'', ''HEAD''}" "starts_with (aq_path q) area"
proof -
  from assms(2) obtain hs caps h where r: "route_of (ah_match (ae_http E)) admin_router (aq_path q) = Some (hs, caps)"
      "method_handler hs (aq_method q) = Some h" "admin_serve E q a = admin_handle E h caps q a"
    by (auto simp: admin_serve_def split: option.splits)
  then obtain area where area: "mutator_area h = Some area" using assms(2) reader_same[of h] by (cases "mutator_area h") auto
  obtain pat where pat: "(pat, hs) \<in> set admin_router" "ah_match (ae_http E) pat (aq_path q) = Some caps" using route_of_member[OF r(1)] by blast
  note m = mutator_routes[OF pat(1) r(2) area]
  have "path_fits pat (aq_path q)" using assms(1) m pat(2) unfolding axum_paths_def by (metis option.distinct(1))
  then show ?thesis using that r(3) area m by blast
qed

subsection \<open>What each part of the API can change\<close>

lemma purge_dead_frame:
  "st_links (snd (purge_dead_letters st)) = st_links st" "st_challenges (snd (purge_dead_letters st)) = st_challenges st"
  "st_trust (snd (purge_dead_letters st)) = st_trust st"
  "st_deliveries (snd (purge_dead_letters st)) = (if sql_fails st PurgeDead then st_deliveries st else filter (\<lambda>d. dl_state d \<noteq> DeadLetter) (st_deliveries st))"
  by (simp_all add: purge_dead_snd prune_orphans_rows) (auto simp: prune_orphans_def delete_deliveries_def Let_def)

lemma queue_effect:
  assumes "mutator_area h = Some ''/v1/queue''"
  shows "ad_fs (snd (admin_handle E h caps q a)) = ad_fs a \<and> dm_cfg (ad_daemon (snd (admin_handle E h caps q a))) = dm_cfg (ad_daemon a) \<and>
    st_links (dm_store (ad_daemon (snd (admin_handle E h caps q a)))) = st_links (dm_store (ad_daemon a)) \<and>
    st_challenges (dm_store (ad_daemon (snd (admin_handle E h caps q a)))) = st_challenges (dm_store (ad_daemon a)) \<and>
    st_trust (dm_store (ad_daemon (snd (admin_handle E h caps q a)))) = st_trust (dm_store (ad_daemon a)) \<and>
    (\<forall>row \<in> set (st_deliveries (dm_store (ad_daemon a))). dl_state row \<notin> {DeadLetter, Failed, Expired} \<longrightarrow>
       row \<in> set (st_deliveries (dm_store (ad_daemon (snd (admin_handle E h caps q a))))))"
proof -
  have r: "dm_cfg (snd (queue_requeue now i d)) = dm_cfg d" "dm_store (snd (queue_requeue now i d)) = snd (requeue now i (dm_store d))" for now i d
    by (auto simp: queue_requeue_def on_store_eq split: sum.split bool.split)
  have p: "dm_cfg (snd (queue_purge d)) = dm_cfg d" "dm_store (snd (queue_purge d)) = snd (purge_dead_letters (dm_store d))" for d
    by (auto simp: queue_purge_def on_store_eq split: sum.split prod.split)
  from assms consider "h = HQueuePurge" | "h = HQueueRequeue" by (cases h) auto
  then show ?thesis
  proof cases
    case 1 then show ?thesis by (auto simp: on_daemon_def p purge_dead_frame)
  next
    case 2 then show ?thesis
      by (auto simp: on_daemon_def with_capture_def r requeue_def update_deliveries_def Let_def split: list.split option.split)
  qed
qed

lemma config_effect:
  assumes "mutator_area h = Some ''/v1/config''"
  shows "dm_store (ad_daemon (snd (admin_handle E h caps q a))) = dm_store (ad_daemon a) \<and> dm_cas (ad_daemon (snd (admin_handle E h caps q a))) = dm_cas (ad_daemon a)"
proof -
  have ap: "dm_store d' = dm_store d \<and> dm_cas d' = dm_cas d" if "apply_config now c d = (rr, d')" for now c d rr d'
    using that by (auto simp: apply_config_def Let_def)
  from assms consider "h = HConfigPut" | "h = HConfigRollback" by (cases h) auto
  then show ?thesis
    by cases (auto simp: on_config_def with_body_def config_put_def put_commit_def config_rollback_def Let_def dest: ap split: sum.split prod.split bool.split option.split)
qed

lemma enqueue_identity_cfg [simp]: "dm_cfg (snd (enqueue_identity_send f dest body now ex d)) = dm_cfg d"
  by (auto simp: enqueue_identity_send_def Let_def on_store_eq split: sum.split)

lemma initiate_link_cfg: "dm_cfg (snd (initiate_link fresh code now rq tg name d)) = dm_cfg d"
proof -
  have "dm_cfg d2 = dm_cfg d1" if "enqueue_identity_send f dest body nw ex d1 = (r, d2)" for f dest body nw ex d1 r d2
    using enqueue_identity_cfg[of f dest body nw ex d1] that by simp
  then show ?thesis by (auto simp: initiate_link_def Let_def on_store_eq split: sum.split prod.split)
qed

lemma identities_effect:
  assumes "mutator_area h = Some ''/v1/identities''"
  shows "ad_fs (snd (admin_handle E h caps q a)) = ad_fs a \<and> dm_cfg (ad_daemon (snd (admin_handle E h caps q a))) = dm_cfg (ad_daemon a) \<and>
    grows (dm_store (ad_daemon a)) (dm_store (ad_daemon (snd (admin_handle E h caps q a))))"
proof -
  have i: "dm_cfg d' = dm_cfg d \<and> grows (dm_store d) (dm_store d')" if "initiate_link fresh code now rq tg name d = (r, d')" for fresh code now rq tg name d r d'
    using initiate_link_cfg[of fresh code now rq tg name d] ingress_steps_grow[OF initiate_link_steps[of d fresh code now rq tg name]] that by simp
  have c: "dm_cfg (snd (create_link rd fresh code now body d)) = dm_cfg d \<and> grows (dm_store d) (dm_store (snd (create_link rd fresh code now body d)))" for rd fresh code now body d
    by (auto simp: create_link_def dest: i split: option.split sum.split prod.split)
  have l: "dm_cfg (snd (delete_link_endpoint j d)) = dm_cfg d \<and> grows (dm_store d) (dm_store (snd (delete_link_endpoint j d)))" for j d
    by (auto simp: delete_link_endpoint_def on_store_eq delete_link_def grows_def split: sum.split bool.split)
  from assms consider "h = HCreateLink" | "h = HDeleteLink" by (cases h) auto
  then show ?thesis
    by cases (auto simp: on_daemon_def with_capture_def with_body_def c l split: list.split option.split)
qed


subsection \<open>An operator requeues a row\<close>

definition demo_match :: "string \<Rightarrow> string \<Rightarrow> string list option" where
  "demo_match pat path = (if path_fits pat path then
     Some (map snd (filter (\<lambda>(p, s). p = ''{id}'') (zip (split_on (CHR ''/'') pat) (split_on (CHR ''/'') path)))) else None)"

definition demo_http :: admin_http where
  "demo_http = \<lparr>ah_match = demo_match, ah_uuid = Some, ah_i64 = \<lambda>s. Some (int (length s)), ah_queue_params = \<lambda>_. Some (None, None), ah_prev_query = \<lambda>_. Some None,
     ah_body_fits = \<lambda>b. length b \<le> 2097152, ah_link_request = \<lambda>_. None, ah_swagger = \<lambda>_. Inr None, ah_openapi = ''{}''\<rparr>"

definition demo_env :: admin_env where
  "demo_env = \<lparr>ae_ext = ext_demo, ae_http = demo_http, ae_now = 9, ae_instant = 60, ae_fresh = \<lambda>_. ''id-9'', ae_code = 7, ae_yaml = parse_demo, ae_secrets = world_demo,
     ae_fmt = \<lambda>_. ''0'', ae_fmt_secs = \<lambda>_. ''0''\<rparr>"

definition demo_admin :: admin_state where
  "demo_admin = \<lparr>ad_daemon = daemon_demo cfg_demo (store_done\<lparr>st_deliveries := map (\<lambda>d. d\<lparr>dl_state := Failed\<rparr>) (st_deliveries store_done)\<rparr>),
     ad_config_path = ''/c'', ad_fs = \<lparr>fs_files = [], fs_fails = \<lambda>_. False, fs_torn = id\<rparr>\<rparr>"

lemma demo_axum: "axum_paths (ah_match (ae_http demo_env))"
  by (simp add: axum_paths_def demo_env_def demo_http_def demo_match_def)

lemma demo_requeue:
  "st_deliveries (dm_store (ad_daemon (snd (snd (ui_api demo_env 60 demo_app [] (demo_request ''POST'' ''/v1/queue/x/requeue'') (demo_run, demo_admin)))))) \<noteq>
   st_deliveries (dm_store (ad_daemon demo_admin))"
proof -
  have r: "route_of demo_match admin_router ''/v1/queue/x/requeue'' = Some ([(''POST'', HQueueRequeue)], [''x''])" by code_simp
  obtain au where p: "proxy 60 demo_app (demo_request ''POST'' ''/v1/queue/x/requeue'') demo_run = (UForward, au)" using demo_forward by (metis prod.collapse)
  show ?thesis
    by (simp add: ui_api_def p admin_serve_def forward_request_def demo_gate demo_env_def demo_http_def r method_handler_def with_capture_def on_daemon_def
        demo_admin_def daemon_demo_def queue_requeue_def on_store_eq requeue_def update_deliveries_def store_done_rows store_done_tables no_fails_def)
qed


end
