(* ===== verification/Ctl_Props.thy ===== *)
theory Ctl_Props
  imports Ctl Ui_Admin
begin

text \<open>
  The control tool against the admin server: every subcommand reaches the handler it is named after, and the tool reports success
  exactly when the daemon did.
\<close>

subsection \<open>Success\<close>

text \<open>The status a handler answers when it succeeds; every other answer is an error.\<close>

fun handler_success :: "admin_handler \<Rightarrow> nat" where
  "handler_success HCreateLink = 202"
| "handler_success HDeleteLink = 204"
| "handler_success HQueueRequeue = 204"
| "handler_success _ = 200"

definition error_statuses :: "nat set" where
  "error_statuses = {400, 404, 405, 409, 413, 422, 500, 503}"

definition ok_status :: "nat \<Rightarrow> nat \<Rightarrow> bool" where
  "ok_status s n \<longleftrightarrow> n = s \<or> n \<in> error_statuses"

lemma ok_status_simps [simp]: "ok_status s s" "ok_status s 400" "ok_status s 404" "ok_status s 409" "ok_status s 413" "ok_status s 422" "ok_status s 500" "ok_status s 503"
  by (simp_all add: ok_status_def error_statuses_def)

lemma storage_error_status [simp]: "reply_status storage_error = 500"
  by (simp add: storage_error_def)

lemma cfg_status_ok [simp]: "ok_status 200 (cfg_status r)"
  by (cases r) simp_all

lemma link_status_ok [simp]: "ok_status 202 (reply_status (fst (create_link rd fresh code now b d)))"
  by (simp add: create_link_def split: option.split sum.split prod.split)

lemma code_status_ok [simp]: "ok_status 204 (fst (delete_link_endpoint i d))" "ok_status 204 (fst (queue_requeue now i d))" "ok_status 200 (fst (fst (queue_purge d)))"
  by (simp_all add: delete_link_endpoint_def queue_requeue_def queue_purge_def split: sum.split prod.split bool.split)

lemma report_status_ok [simp]: "ok_status 200 (reply_status (serve_swagger_asset H p))" "ok_status 200 (reply_status (queue s l d))"
  "ok_status 200 (reply_status (trace i d))" "ok_status 200 (reply_status (readyz d))" "ok_status 200 (reply_status (identities d))"
  "ok_status 200 (reply_status (challenges now d))" "ok_status 200 (reply_status (federation d))" "ok_status 200 (reply_status (discovery X now d))"
  by (simp_all add: serve_swagger_asset_def queue_def trace_def readyz_def identities_def challenges_def federation_def discovery_def Let_def split: option.split sum.split)

lemma handler_status: "ok_status (handler_success h) (answer_status (fst (admin_handle E h caps q a)))"
  by (cases h) (simp_all add: with_body_def with_capture_def on_config_def on_daemon_def status_def plugins_endpoint_def routes_endpoint_def
      public_def limits_endpoint_def healthz_def case_prod_beta split: option.split list.split)

subsection \<open>Which status belongs to which request\<close>

lemma fits_static:
  "path_fits ''/v1/config/validate'' p \<Longrightarrow> p = ''/v1/config/validate''"
  "path_fits ''/v1/config/rollback'' p \<Longrightarrow> p = ''/v1/config/rollback''"
  "path_fits ''/v1/queue/purge'' p \<Longrightarrow> p = ''/v1/queue/purge''"
  "path_fits ''/v1/identities/link'' p \<Longrightarrow> p = ''/v1/identities/link''"
  by (drule path_fits_join, auto simp: list_all2_Cons1)+

lemma fits_requeue:
  assumes "path_fits ''/v1/queue/{id}/requeue'' p"
  shows "ends_with p ''/requeue''" "p \<noteq> ''/v1/identities/link''"
proof -
  from path_fits_join[OF assms] obtain i where p: "p = ''/v1/queue/'' @ i @ ''/requeue''" by (auto simp: list_all2_Cons1)
  show "ends_with p ''/requeue''" "p \<noteq> ''/v1/identities/link''" by (simp_all add: p ends_with_def starts_with_def)
qed

lemma expected_of_route:
  assumes "(pat, hs) \<in> set admin_router" "method_handler hs m = Some h" "pat \<in> fst ` set admin_routes \<longrightarrow> path_fits pat p"
  shows "expected_status m p = nat_str (handler_success h)"
proof -
  let ?P = "\<lambda>pat m h. m = ''GET'' \<and> handler_success h = 200 \<or> m = ''PUT'' \<and> handler_success h = 200 \<or> m = ''DELETE'' \<and> handler_success h = 204 \<or>
      m = ''POST'' \<and> pat \<in> fst ` set admin_routes \<and> (pat \<in> {''/v1/config/validate'', ''/v1/config/rollback'', ''/v1/queue/purge''} \<and> handler_success h = 200 \<or>
        pat = ''/v1/queue/{id}/requeue'' \<and> handler_success h = 204 \<or> pat = ''/v1/identities/link'' \<and> handler_success h = 202)"
  have all: "\<forall>x \<in> set admin_router. \<forall>y \<in> set (snd x). ?P (fst x) (fst y) (snd y)"
    by (simp add: admin_router_def admin_routes_def)
  obtain m' where m': "(m', h) \<in> set hs" "m' = m \<or> m = ''HEAD'' \<and> m' = ''GET''"
    using assms(2) by (auto simp: method_handler_def split: option.splits if_splits dest: map_of_SomeD)
  have k: "?P pat m' h" using all[rule_format, OF assms(1)] m'(1) by force
  have n: "nat_str 200 = ''200''" "nat_str 202 = ''202''" "nat_str 204 = ''204''" by code_simp+
  have e: "\<not> ends_with ''/v1/config/validate'' ''/requeue''" "\<not> ends_with ''/v1/config/rollback'' ''/requeue''" "\<not> ends_with ''/v1/queue/purge'' ''/requeue''" by code_simp+
  show ?thesis
  proof (cases "m' = ''POST''")
    case True
    then have m: "m = ''POST''" using m'(2) by auto
    from k True have pat: "pat \<in> fst ` set admin_routes" and "pat \<in> {''/v1/config/validate'', ''/v1/config/rollback'', ''/v1/queue/purge''} \<and> handler_success h = 200 \<or>
        pat = ''/v1/queue/{id}/requeue'' \<and> handler_success h = 204 \<or> pat = ''/v1/identities/link'' \<and> handler_success h = 202" by simp_all
    moreover have "path_fits pat p" using assms(3) pat by blast
    ultimately show ?thesis using fits_static[of p] fits_requeue[of p] e n m by (elim disjE conjE insertE emptyE) (simp_all add: expected_status_def)
  next
    case False
    with k m'(2) have "m \<noteq> ''POST''" "m = ''DELETE'' \<longleftrightarrow> handler_success h = 204" "handler_success h = 200 \<or> handler_success h = 204" by auto
    then show ?thesis using n by (auto simp: expected_status_def)
  qed
qed

text \<open>
  The statuses of the tool are those of the API: for every request, known to the tool or not, the status the tool expects is the one
  the daemon answers if and only if the daemon answers with success.
\<close>

lemma expected_status_holds:
  assumes "axum_paths (ah_match (ae_http E))"
  shows "answer_status (fst (admin_serve E q a)) < 400 \<longleftrightarrow> nat_str (answer_status (fst (admin_serve E q a))) = expected_status (aq_method q) (aq_path q)"
proof -
  have err: "nat_str n \<noteq> expected_status m p \<and> \<not> n < 400" if "n \<in> error_statuses" for n m p
  proof -
    have e: "expected_status m p \<in> {''200'', ''202'', ''204''}" by (simp add: expected_status_def)
    have d: "nat_str 400 = ''400''" "nat_str 404 = ''404''" "nat_str 405 = ''405''" "nat_str 409 = ''409''" "nat_str 413 = ''413''" "nat_str 422 = ''422''"
      "nat_str 500 = ''500''" "nat_str 503 = ''503''" by code_simp+
    from that have "n = 400 \<or> n = 404 \<or> n = 405 \<or> n = 409 \<or> n = 413 \<or> n = 422 \<or> n = 500 \<or> n = 503" by (simp add: error_statuses_def)
    then have "nat_str n \<notin> {''200'', ''202'', ''204''} \<and> \<not> n < 400" by (elim disjE; hypsubst; simp only: d; simp)
    then show ?thesis using e by metis
  qed
  have good: "handler_success h < 400" for h by (cases h) simp_all
  show ?thesis
  proof (cases "route_of (ah_match (ae_http E)) admin_router (aq_path q)")
    case None then show ?thesis using err[of 404] by (simp add: admin_serve_def error_statuses_def)
  next
    case (Some r)
    obtain hs caps where r: "r = (hs, caps)" by fastforce
    obtain pat where pat: "(pat, hs) \<in> set admin_router" "ah_match (ae_http E) pat (aq_path q) = Some caps" using route_of_member Some r by metis
    show ?thesis
    proof (cases "method_handler hs (aq_method q)")
      case None then show ?thesis using Some r err[of 405] by (simp add: admin_serve_def error_statuses_def)
    next
      case h: (Some h)
      have "pat \<in> fst ` set admin_routes \<longrightarrow> path_fits pat (aq_path q)" using assms pat(2) unfolding axum_paths_def by (metis option.distinct(1))
      from expected_of_route[OF pat(1) h this] have ex: "expected_status (aq_method q) (aq_path q) = nat_str (handler_success h)" .
      have sv: "admin_serve E q a = admin_handle E h caps q a" using Some r h by (simp add: admin_serve_def)
      from handler_status[of h E caps q a] show ?thesis unfolding sv ok_status_def ex[symmetric]
        using err[of _ "aq_method q" "aq_path q"] good[of h] ex by auto
    qed
  qed
qed

subsection \<open>Which handler a request reaches\<close>

text \<open>No path fits two patterns of the API, so the order of the routes does not matter.\<close>

definition overlap :: "string list \<Rightarrow> string list \<Rightarrow> bool" where
  "overlap xs ys \<longleftrightarrow> list_all2 (\<lambda>x y. x = y \<or> x = ''{id}'' \<or> y = ''{id}'') xs ys"

lemma fits_overlap:
  assumes "list_all2 (\<lambda>p s. if p = ''{id}'' then s \<noteq> [] else s = p) xs ss" "list_all2 (\<lambda>p s. if p = ''{id}'' then s \<noteq> [] else s = p) ys ss"
  shows "overlap xs ys"
  using assms unfolding overlap_def list_all2_conv_all_nth by (metis (no_types, lifting))

lemma routes_disjoint: "list_all (\<lambda>x. list_all (\<lambda>y. overlap (split_on (CHR ''/'') x) (split_on (CHR ''/'') y) \<longrightarrow> x = y) (map fst admin_routes)) (map fst admin_routes)"
  by code_simp

lemma routes_distinct: "distinct (map fst admin_routes)"
  by code_simp

lemma route_of_first:
  "(pat, h) \<in> set rs \<Longrightarrow> mt pat p = Some caps \<Longrightarrow> (\<And>pat' h'. (pat', h') \<in> set rs \<Longrightarrow> mt pat' p \<noteq> None \<Longrightarrow> pat' = pat) \<Longrightarrow> distinct (map fst rs) \<Longrightarrow>
   route_of mt (rs @ rs') p = Some (h, caps)"
proof (induction rs)
  case (Cons e rs)
  obtain pe he where e: "e = (pe, he)" by fastforce
  show ?case
  proof (cases "mt pe p")
    case None
    then have "(pat, h) \<in> set rs" using Cons.prems(1,2) e by auto
    moreover have "pat' = pat" if "(pat', h') \<in> set rs" "mt pat' p \<noteq> None" for pat' h' by (rule Cons.prems(3)[of pat' h']) (use that in simp_all)
    moreover have "distinct (map fst rs)" using Cons.prems(4) by simp
    ultimately have "route_of mt (rs @ rs') p = Some (h, caps)" using Cons.IH Cons.prems(2) by blast
    then show ?thesis using None e by simp
  next
    case (Some c)
    then have "pe = pat" using Cons.prems(3)[of pe he] e by simp
    moreover have "pe \<notin> fst ` set rs" using Cons.prems(4) e by simp
    ultimately have "(pat, h) \<notin> set rs" by force
    then have "he = h" using Cons.prems(1) e \<open>pe = pat\<close> by simp
    then show ?thesis using Some \<open>pe = pat\<close> Cons.prems(2) e by simp
  qed
qed simp

lemma serve_route:
  assumes "axum_paths (ah_match (ae_http E))" "(pat, hs) \<in> set admin_routes" "path_fits pat (aq_path q)" "method_handler hs (aq_method q) = Some h"
  shows "\<exists>caps. admin_serve E q a = admin_handle E h caps q a"
proof -
  let ?mt = "ah_match (ae_http E)"
  have fit: "?mt pat' (aq_path q) \<noteq> None \<longleftrightarrow> path_fits pat' (aq_path q)" if "(pat', h') \<in> set admin_routes" for pat' h'
    using assms(1) that unfolding axum_paths_def by force
  obtain caps where caps: "?mt pat (aq_path q) = Some caps" using fit[OF assms(2)] assms(3) by auto
  have "pat' = pat" if "(pat', h') \<in> set admin_routes" "?mt pat' (aq_path q) \<noteq> None" for pat' h'
  proof -
    have "path_fits pat' (aq_path q)" using fit that by blast
    then have "overlap (split_on (CHR ''/'') pat') (split_on (CHR ''/'') pat)" using fits_overlap assms(3) unfolding path_fits_def by blast
    then show ?thesis using routes_disjoint that(1) assms(2) unfolding list_all_iff by force
  qed
  then have "route_of ?mt admin_router (aq_path q) = Some (hs, caps)" unfolding admin_router_def
    by (intro route_of_first[where pat = pat] assms(2) caps routes_distinct) blast
  then show ?thesis using assms(4) by (auto simp: admin_serve_def)
qed

text \<open>The handler each subcommand is named after.\<close>

definition ctl_target :: "string list \<Rightarrow> admin_handler" where
  "ctl_target args = the (map_of
     [(''status'', HStatus), (''plugins'', HPlugins), (''routes'', HRoutes), (''queue'', HQueue), (''trace'', HTrace), (''identities'', HIdentities),
      (''federation'', HFederation), (''discovery'', HDiscovery), (''requeue'', HQueueRequeue), (''purge-dlq'', HQueuePurge), (''openapi'', HOpenapi),
      (''health'', HReadyz), (''link'', HCreateLink), (''unlink'', HDeleteLink), (''config show'', HConfigYaml), (''config validate'', HConfigValidate),
      (''config apply'', HConfigPut), (''config rollback'', HConfigRollback)]
     (if hd args = ''config'' then ''config '' @ args ! 1 else hd args))"

definition plain_id :: "string list \<Rightarrow> bool" where
  "plain_id args \<longleftrightarrow> (hd args \<in> {''trace'', ''requeue'', ''unlink''} \<and> length args \<ge> 2 \<longrightarrow> args ! 1 \<noteq> [] \<and> CHR ''/'' \<notin> set (args ! 1))"

lemma split_on_plain: "c \<notin> set s \<Longrightarrow> split_on c s = [s]"
  by (induction s) auto

lemma split_on_append: "split_on c (s @ c # t) = split_on c s @ split_on c t"
  by (induction s) (auto split: list.split)

lemma id_fits:
  assumes "i \<noteq> []" "CHR ''/'' \<notin> set i"
  shows "path_fits ''/v1/messages/{id}'' (''/v1/messages/'' @ i)" "path_fits ''/v1/identities/link/{id}'' (''/v1/identities/link/'' @ i)"
    "path_fits ''/v1/queue/{id}/requeue'' (''/v1/queue/'' @ i @ ''/requeue'')"
  using assms split_on_append[of "CHR ''/''" "''/v1/messages''" i] split_on_append[of "CHR ''/''" "''/v1/identities/link''" i]
    split_on_append[of "CHR ''/''" "''/v1/queue''" "i @ ''/requeue''"] split_on_append[of "CHR ''/''" i "''requeue''"]
  by (simp_all add: path_fits_def split_on_plain)

lemma static_fits: "path_fits p p" if "CHR ''{'' \<notin> set p"
proof -
  have "''{id}'' \<notin> set (split_on c p)" if "CHR ''{'' \<notin> set p" for c p
  proof -
    have "\<forall>s \<in> set (split_on c p). set s \<subseteq> set p" by (induction p) (auto split: list.splits)
    then show ?thesis using that by fastforce
  qed
  then show ?thesis using that unfolding path_fits_def by (auto intro!: list_all2_all_nthI dest: nth_mem)
qed

text \<open>The requests without an id.\<close>

definition static_requests :: "(string \<times> string \<times> admin_handler) list" where
  "static_requests =
     [(''GET'', ''/v1/status'', HStatus), (''GET'', ''/v1/plugins'', HPlugins), (''GET'', ''/v1/routes'', HRoutes), (''GET'', ''/v1/queue'', HQueue),
      (''GET'', ''/v1/identities'', HIdentities), (''GET'', ''/v1/federation'', HFederation), (''GET'', ''/v1/discovery'', HDiscovery), (''POST'', ''/v1/queue/purge'', HQueuePurge),
      (''GET'', ''/v1/openapi.json'', HOpenapi), (''GET'', ''/readyz'', HReadyz), (''POST'', ''/v1/identities/link'', HCreateLink), (''GET'', ''/v1/config'', HConfigYaml),
      (''POST'', ''/v1/config/validate'', HConfigValidate), (''PUT'', ''/v1/config'', HConfigPut), (''POST'', ''/v1/config/rollback'', HConfigRollback)]"

lemma static_requests_served:
  "list_all (\<lambda>(m, p, h). CHR ''{'' \<notin> set p \<and> list_ex (\<lambda>(pat, hs). pat = p \<and> method_handler hs m = Some h) admin_routes) static_requests"
  by code_simp

lemma request_fits:
  assumes "request_for files to_json args = Ok (m, path, body)" "plain_id args"
  shows "\<exists>pat hs. (pat, hs) \<in> set admin_routes \<and> path_fits pat path \<and> method_handler hs m = Some (ctl_target args)"
proof -
  have k: ?thesis if "(pat, hs) \<in> set admin_routes" "path_fits pat path" "method_handler hs m = Some (ctl_target args)" for pat hs using that by blast
  obtain cmd rest where args: "args = cmd # rest" using assms(1) by (cases args) (auto simp: request_for_def)
  have ids: "i \<noteq> [] \<and> CHR ''/'' \<notin> set i" if "cmd \<in> {''trace'', ''requeue'', ''unlink''}" "rest = i # more'" for i more'
    using assms(2) that by (auto simp: plain_id_def args)
  have st: "path = p \<Longrightarrow> CHR ''{'' \<notin> set p \<Longrightarrow> path_fits p path" for p using static_fits by simp
  note r = assms(1)[unfolded request_for_def args list.case]
  show ?thesis
  proof (cases "cmd \<in> {''trace'', ''requeue'', ''unlink''}")
    case True
    with r obtain i more' where i: "rest = i # more'" by (auto simp: with_id_def split: list.splits)
    note f = id_fits[of i] ids[OF True i]
    from True consider "cmd = ''trace''" | "cmd = ''requeue''" | "cmd = ''unlink''" by auto
    then show ?thesis
    proof cases
      case 1 then show ?thesis using r f by (intro k[of "''/v1/messages/{id}''" "[(''GET'', HTrace)]"]) (auto simp: args i with_id_def admin_routes_def method_handler_def ctl_target_def)
    next
      case 2 then show ?thesis using r f by (intro k[of "''/v1/queue/{id}/requeue''" "[(''POST'', HQueueRequeue)]"]) (auto simp: args i with_id_def admin_routes_def method_handler_def ctl_target_def)
    next
      case 3 then show ?thesis using r f by (intro k[of "''/v1/identities/link/{id}''" "[(''DELETE'', HDeleteLink)]"]) (auto simp: args i with_id_def admin_routes_def method_handler_def ctl_target_def)
    qed
  next
    case False
    have "(m, path, ctl_target args) \<in> set static_requests"
      using r False by (auto simp: ctl_link_def ctl_config_def args ctl_target_def static_requests_def split: if_splits list.splits sum.splits)
    with static_requests_served obtain hs where "(path, hs) \<in> set admin_routes" "method_handler hs m = Some (ctl_target args)" "CHR ''{'' \<notin> set path"
      unfolding list_all_iff list_ex_iff by force
    then show ?thesis using k static_fits by blast
  qed
qed

subsection \<open>What the tool reports\<close>

text \<open>A response as HTTP has it: a head whose second word is the status, an empty line, the body.\<close>

definition http_reply :: "string \<Rightarrow> nat \<Rightarrow> string \<Rightarrow> bool" where
  "http_reply raw n body \<longleftrightarrow> (\<exists>head v rest. split_at_str (CRLF @ CRLF) raw = Some (head, body) \<and> split_whitespace head = v # nat_str n # rest)"

lemma body_of_reply: "http_reply raw n body \<Longrightarrow> body_of raw expected = (if nat_str n = expected then Ok body else Err (''HTTP '' @ nat_str n @ '': '' @ body))"
  by (auto simp: http_reply_def body_of_def)

lemma request_command:
  assumes "request_for files to_json args = Ok r"
  shows "args \<noteq> [] \<and> hd args \<notin> {''--socket'', ''events'', ''docs'', ''plugin''}"
  using assms by (cases args) (auto simp: request_for_def)


definition demo_ctl :: ctl_world where
  "demo_ctl = \<lparr>cw_files = \<lambda>_. Err ''no such file'', cw_ask = \<lambda>_ _. Ok (''HTTP/1.0 204 No Content'' @ CRLF @ CRLF), cw_link_json = \<lambda>_. ''{}'', cw_pretty = Some,
     cw_conformance = \<lambda>_ _ _. (0, [])\<rparr>"


subsection \<open>The event stream\<close>

lemma cut_line_at: "CHR 0x0A \<notin> set x \<Longrightarrow> cut_line (x @ newline @ rest) = (x @ newline, rest)"
  by (induction x) (auto simp: newline_def)

lemma emit_line:
  assumes "CHR 0x0A \<notin> set x" "valid_utf8 (x @ newline)"
  shows "emit_data_lines (x @ newline @ rest) out = (case strip_prefix (trim_eol x) ''data:'' of
     Some d \<Rightarrow> emit_data_lines rest (out @ trim_start d @ newline) | None \<Rightarrow> emit_data_lines rest out)"
proof -
  have "trim_eol (x @ newline) = trim_eol x" by (simp add: trim_eol_def newline_def CRLF_def)
  moreover have "newline \<noteq> []" by (simp add: newline_def)
  ultimately show ?thesis using assms by (subst emit_data_lines.simps) (simp add: read_line_def cut_line_at)
qed

text \<open>One event, and the comment that keeps an idle connection alive, as server-sent events have them.\<close>

definition sse_event :: "string \<times> string \<Rightarrow> string" where
  "sse_event e = ''event: '' @ fst e @ newline @ ''data: '' @ snd e @ newline @ newline"

definition sse_comment :: string where
  "sse_comment = '':'' @ newline @ newline"

text \<open>A line of JSON: text that starts with a brace and has no line break.\<close>

definition json_line :: "string \<Rightarrow> bool" where
  "json_line d \<longleftrightarrow> valid_utf8 d \<and> d \<noteq> [] \<and> hd d = CHR ''{'' \<and> last d \<notin> set CRLF \<and> CHR 0x0A \<notin> set d"

lemma utf8_plain: "list_all (\<lambda>c. byte_val c < 128) s \<Longrightarrow> valid_utf8 s"
proof -
  assume s: "list_all (\<lambda>c. byte_val c < 128) s"
  have "rust_chars (concat (map (\<lambda>c. [c]) s)) = map (\<lambda>c. [c]) s"
    by (rule rust_chars_concat_shape) (use s in \<open>auto simp: list_all_iff char_shape_def is_cont_def\<close>)
  then show ?thesis using s by (simp add: valid_utf8_def list_all_iff utf8_char_def)
qed

lemma newline_utf8 [simp]: "valid_utf8 newline"
  by (rule utf8_plain) (simp add: newline_def byte_val_def)

lemma json_trim: "json_line d \<Longrightarrow> trim_eol (''data: '' @ d) = ''data: '' @ d \<and> trim_start ('' '' @ d) = d"
proof
  assume d: "json_line d"
  then obtain b u where rd: "rev d = b # u" "b \<notin> set CRLF" by (cases "rev d") (auto simp: json_line_def last_rev simp flip: hd_rev)
  have "rev (''data: '' @ d) = rev d @ rev ''data: ''" by (rule rev_append)
  then show "trim_eol (''data: '' @ d) = ''data: '' @ d" using rd unfolding trim_eol_def by (metis append_Cons dropWhile.simps(2) rev_rev_ident)
  have sp: "valid_utf8 '' ''" by (rule utf8_plain) (simp add: byte_val_def)
  have "rust_chars ('' '' @ d) = rust_chars '' '' @ rust_chars d" using d sp by (intro valid_utf8_append) (auto simp: json_line_def)
  moreover have "rust_chars '' '' = ['' '']" by code_simp
  moreover have "white_char '' ''" by code_simp
  moreover obtain c where c: "d = CHR ''{'' # c" using d by (cases d) (auto simp: json_line_def)
  then have "hd (rust_chars d) = ''{'' @ takeWhile is_cont c" "rust_chars d \<noteq> []" by (simp_all)
  moreover have "\<not> white_char (''{'' @ takeWhile is_cont c)" by (auto simp: white_char_def byte_val_def)
  then have "dropWhile white_char (rust_chars d) = rust_chars d" using calculation by (cases "rust_chars d") auto
  ultimately show "trim_start ('' '' @ d) = d" by (simp add: trim_start_def)
qed

lemma trim_eol_keep: "x \<noteq> [] \<Longrightarrow> last x \<notin> set CRLF \<Longrightarrow> trim_eol x = x"
  by (cases "rev x") (auto simp: trim_eol_def last_rev simp flip: hd_rev)

lemma emit_empty: "emit_data_lines (newline @ rest) out = emit_data_lines rest out"
proof -
  have "strip_prefix (trim_eol []) ''data:'' = None" by code_simp
  then show ?thesis using emit_line[of "[]" rest out] by simp
qed

lemma emit_other:
  assumes "CHR 0x0A \<notin> set x" "valid_utf8 x" "x \<noteq> []" "last x \<notin> set CRLF" "\<not> starts_with x ''data:''"
  shows "emit_data_lines (x @ newline @ rest) out = emit_data_lines rest out"
  using emit_line[OF assms(1), of rest out] assms valid_utf8_append(1)[OF assms(2) newline_utf8] by (simp add: trim_eol_keep strip_prefix_def)

lemma emit_event_line:
  assumes "json_line d"
  shows "emit_data_lines (''data: '' @ d @ newline @ rest) out = emit_data_lines rest (out @ d @ newline)"
proof -
  have v: "valid_utf8 ''data: ''" by (rule utf8_plain) (simp add: byte_val_def)
  have "valid_utf8 (''data: '' @ d)" using valid_utf8_append(1)[OF v] assms by (simp add: json_line_def)
  then have u: "valid_utf8 ((''data: '' @ d) @ newline)" by (rule valid_utf8_append(1)) simp
  have "strip_prefix (''data: '' @ d) ''data:'' = Some ('' '' @ d)" by (simp add: strip_prefix_def starts_with_def)
  then show ?thesis using emit_line[OF _ u, of rest out] json_trim[OF assms] assms by (auto simp: json_line_def)
qed

lemma event_name_plain: "CHR 0x0A \<notin> set (event_name e) \<and> valid_utf8 (''event: '' @ event_name e) \<and> last (''event: '' @ event_name e) \<notin> set CRLF"
proof -
  have "list_all (\<lambda>c. byte_val c < 128) (''event: '' @ event_name e)" by (cases e) (simp_all add: byte_val_def)
  then show ?thesis using utf8_plain[of "''event: '' @ event_name e"] by (cases e) (simp_all add: CRLF_def)
qed

text \<open>
  What the operator sees of the events. The tool prints the JSON text of every event its connection received, in order and one
  per line, and nothing else: neither comments that keep the connection alive nor the events a slow connection missed.
\<close>

theorem events_reach_operator:
  assumes "list_all (\<lambda>e. \<exists>d. to_json e = Some d \<and> json_line d) [e. Inr e \<leftarrow> items]"
    and "[e. Inr e \<leftarrow> wire] = events_stream_from to_json items"
  shows "emit_data_lines (concat (map (case_sum (\<lambda>_ :: unit. sse_comment) sse_event) wire)) [] = (Inr (), concat (map (\<lambda>e. the (to_json e) @ newline) [e. Inr e \<leftarrow> items]))"
proof -
  have ev: "emit_data_lines (sse_event (event_name e, d) @ rest) out = emit_data_lines rest (out @ d @ newline)" if "json_line d" for e d rest out
  proof -
    have "\<not> starts_with (''event: '' @ event_name e) ''data:''" by (simp add: starts_with_def)
    then have "emit_data_lines ((''event: '' @ event_name e) @ newline @ ''data: '' @ d @ newline @ newline @ rest) out = emit_data_lines (''data: '' @ d @ newline @ newline @ rest) out"
      by (intro emit_other) (use event_name_plain[of e] in simp_all)
    then show ?thesis using emit_event_line[OF that] emit_empty by (simp add: sse_event_def)
  qed
  have co: "emit_data_lines (sse_comment @ rest) out = emit_data_lines rest out" for rest out
  proof -
    have v: "valid_utf8 '':''" by (rule utf8_plain) (simp add: byte_val_def)
    have "emit_data_lines ('':'' @ newline @ newline @ rest) out = emit_data_lines (newline @ rest) out"
      by (rule emit_other[OF _ v]) (simp_all add: starts_with_def CRLF_def)
    then show ?thesis using emit_empty by (simp add: sse_comment_def)
  qed
  have stream: "events_stream_from to_json items = map (\<lambda>e. (event_name e, the (to_json e))) [e. Inr e \<leftarrow> items]"
    using assms(1) by (induction items) (auto simp: events_stream_from_def map_filter_simps split: sum.splits)
  have "emit_data_lines (concat (map (case_sum (\<lambda>_ :: unit. sse_comment) sse_event) wire)) out = (Inr (), out @ concat (map (\<lambda>e. the (to_json e) @ newline) es))"
    if "[e. Inr e \<leftarrow> wire] = map (\<lambda>e. (event_name e, the (to_json e))) es" "list_all (\<lambda>e. \<exists>d. to_json e = Some d \<and> json_line d) es" for es out
    using that
  proof (induction wire arbitrary: es out)
    case Nil
    have "valid_utf8 []" by (rule utf8_plain) simp
    then show ?case using Nil by (simp add: emit_data_lines.simps read_line_def)
  next
    case (Cons w wire)
    show ?case
    proof (cases w)
      case (Inl u) then show ?thesis using Cons co by simp
    next
      case (Inr x)
      with Cons.prems(1) obtain e es' where es: "es = e # es'" "x = (event_name e, the (to_json e))" "[e. Inr e \<leftarrow> wire] = map (\<lambda>e. (event_name e, the (to_json e))) es'"
        by (cases es) auto
      have "json_line (the (to_json e))" using Cons.prems(2) es by auto
      then show ?thesis using Cons.IH[OF es(3)] Cons.prems(2) ev es Inr by simp
    qed
  qed
  from this[OF assms(2)[unfolded stream] assms(1), of "[]"] show ?thesis by simp
qed

definition demo_json :: "event \<Rightarrow> string option" where
  "demo_json e = Some (''{'' @ event_name e @ ''}'')"

theorem events_reach_operator_witness:
  "emit_data_lines (sse_comment @ sse_event (''plugin'', ''{plugin}'')) [] = (Inr (), ''{plugin}'' @ newline)"
proof -
  let ?items = "[Inl 3, Inr (EvPlugin ''mqtt'' True 5)] :: (nat + event) list" and ?wire = "[Inl (), Inr (''plugin'', ''{plugin}'')] :: (unit + string \<times> string) list"
  have "json_line ''{plugin}''" by code_simp
  then have "list_all (\<lambda>e. \<exists>d. demo_json e = Some d \<and> json_line d) [e. Inr e \<leftarrow> ?items]" by (simp add: demo_json_def)
  moreover have "[e. Inr e \<leftarrow> ?wire] = events_stream_from demo_json ?items" by (simp add: events_stream_from_def demo_json_def map_filter_simps)
  ultimately show ?thesis using events_reach_operator[of demo_json ?items ?wire] by (simp add: demo_json_def)
qed

end
