(* ===== verification/Conformance.thy ===== *)
theory Conformance
  imports Relay_Ipc Ui_Auth
begin

text \<open>
  The conformance runner for plugins (\<open>src/switchyardctl/src/conformance.rs\<close>): it plays the daemon against one plugin process and
  reports on its hello, its answer to a routed message and its end. A run is given by what the plugin does: whether it
  connects, the bytes it sends until it closes or a read times out, which of the runner's writes it takes, how many frames arrive before
  the deadline, and how its process ends. CBOR values are those of \<open>Ui_Auth\<close>; the decoder is a parameter.
\<close>

definition CONF_MAX_FRAME :: nat where "CONF_MAX_FRAME = 16 * 1024 * 1024"
definition PLUGIN_NAME :: string where "PLUGIN_NAME = ''conformance''"

subsection \<open>Frames and fields\<close>

definition conf_read_frame :: "(bytes \<Rightarrow> string + cbor) \<Rightarrow> bytes \<Rightarrow> (string + cbor) \<times> bytes" where
  "conf_read_frame decode s =
     (if length s < 4 then (Err ''reading frame length'', [])
      else
        let len = unat (be_val4 (take 4 s)); rest = drop 4 s in
        if len > CONF_MAX_FRAME then (Err (''frame of '' @ nat_str len @ '' B exceeds MAX_FRAME''), rest)
        else if length rest < len then (Err ''reading frame body'', [])
        else (case decode (take len rest) of
                Inl e \<Rightarrow> Err (''frame is not valid CBOR: '' @ e)
              | Inr v \<Rightarrow> Ok v, drop len rest))"

fun as_text :: "cbor \<Rightarrow> string option" where
  "as_text (CText s) = Some s"
| "as_text _ = None"

fun as_map :: "cbor \<Rightarrow> (cbor \<times> cbor) list option" where
  "as_map (CMap m) = Some m"
| "as_map _ = None"

fun as_integer :: "cbor \<Rightarrow> int option" where
  "as_integer (CInteger i) = Some i"
| "as_integer _ = None"

definition cbor_field :: "cbor \<Rightarrow> string \<Rightarrow> cbor option" where
  "cbor_field m key = (case as_map m of None \<Rightarrow> None | Some kvs \<Rightarrow> map_option snd (find (\<lambda>(k, _). as_text k = Some key) kvs))"

definition text_field :: "cbor \<Rightarrow> string \<Rightarrow> string option" where
  "text_field m key = Option.bind (cbor_field m key) as_text"

definition cbor_map :: "(string \<times> cbor) list \<Rightarrow> cbor" where
  "cbor_map pairs = CMap (map (\<lambda>(k, v). (CText k, v)) pairs)"

subsection \<open>The checks\<close>

definition check_hello :: "cbor \<Rightarrow> string + unit" where
  "check_hello h =
     (if text_field h ''t'' \<noteq> Some ''hello'' then Err ''first frame's t is not hello''
      else if text_field h ''plugin'' \<noteq> Some PLUGIN_NAME then Err ''hello.plugin is not RELAYFABRIC_PLUGIN_NAME''
      else if Option.bind (cbor_field h ''protocol_version'') as_integer \<noteq> Some 1 then Err ''protocol_version is not 1''
      else if Option.bind (cbor_field h ''capabilities'') as_map = None then Err ''hello.capabilities missing or not a map''
      else Ok ())"

definition hello_ack :: cbor where
  "hello_ack = cbor_map [(''t'', CText ''hello_ack''), (''protocol_version'', CInteger 1), (''error'', COther)]"

definition conf_send :: "string \<Rightarrow> cbor" where
  "conf_send endpoint = cbor_map [(''t'', CText ''send''), (''corr'', CText ''conformance-1''), (''endpoint'', CText endpoint), (''body'', CText ''conformance ping'')]"

definition conf_shutdown :: cbor where
  "conf_shutdown = cbor_map [(''t'', CText ''shutdown'')]"

text \<open>The wait for the result: \<open>n\<close> frames are read before the deadline.\<close>

fun await_result :: "(bytes \<Rightarrow> string + cbor) \<Rightarrow> nat \<Rightarrow> bytes \<Rightarrow> string + unit" where
  "await_result decode 0 s = Err ''no delivery_result before timeout''"
| "await_result decode (Suc n) s =
     (case conf_read_frame decode s of
        (Inl e, _) \<Rightarrow> Err e
      | (Inr frame, rest) \<Rightarrow>
          if text_field frame ''t'' = Some ''delivery_result'' then
            if text_field frame ''corr'' = Some ''conformance-1'' then Ok () else Err ''delivery_result.corr is not conformance-1''
          else await_result decode n rest)"

datatype conf_connect = NoTempDir | NoSocket | NoProcess | NeverConnected | AcceptFailed | Connected
datatype conf_exit = ExitedWith nat | StillRunning | WaitFailed

record conf_world =
  co_connect :: conf_connect
  co_bytes :: bytes
  co_decode :: "bytes \<Rightarrow> string + cbor"
  co_takes :: "cbor \<Rightarrow> bool"
  co_in_time :: nat
  co_exit :: conf_exit

definition await_exit :: "conf_exit \<Rightarrow> string + unit" where
  "await_exit x =
     (case x of
        ExitedWith n \<Rightarrow> if n = 0 then Ok () else Err ''did not exit with 0''
      | StillRunning \<Rightarrow> Err ''still running after shutdown frame''
      | WaitFailed \<Rightarrow> Err ''cannot wait'')"

type_synonym conf_check = "string \<times> (string + unit)"

definition conf_report :: "conf_check list \<Rightarrow> nat" where
  "conf_report checks = (if list_all (\<lambda>(_, r). r = Ok ()) checks then 0 else 1)"

definition conf_write :: "conf_world \<Rightarrow> cbor \<Rightarrow> string + unit" where
  "conf_write W v = (if co_takes W v then Ok () else Err ''cannot write'')"

text \<open>The exit code, the checks that were reported, and whether the process was killed.\<close>

definition conf_run :: "conf_world \<Rightarrow> string \<Rightarrow> nat \<times> conf_check list \<times> bool" where
  "conf_run W endpoint =
     (case co_connect W of
        NoTempDir \<Rightarrow> (1, [], False)
      | NoSocket \<Rightarrow> (1, [], False)
      | NoProcess \<Rightarrow> (1, [], False)
      | NeverConnected \<Rightarrow> (1, [], True)
      | AcceptFailed \<Rightarrow> (1, [], True)
      | Connected \<Rightarrow>
          (case conf_read_frame (co_decode W) (co_bytes W) of
             (hello, rest) \<Rightarrow>
               let hello_ok = (case hello of Inl e \<Rightarrow> Err e | Inr h \<Rightarrow> check_hello h) in
               if hello_ok \<noteq> Ok () then (conf_report [(''HELLO'', hello_ok)], [(''HELLO'', hello_ok)], True)
               else case conf_write W hello_ack of
                      Inl e \<Rightarrow> (1, [(''HELLO'', hello_ok), (''SEND'', Err (''cannot write hello_ack: '' @ e))], True)
                    | Inr _ \<Rightarrow>
                        let send_ok = (case conf_write W (conf_send endpoint) of Inl e \<Rightarrow> Err e | Inr _ \<Rightarrow> await_result (co_decode W) (co_in_time W) rest);
                            shutdown_ok = (case conf_write W conf_shutdown of Inl e \<Rightarrow> Err e | Inr _ \<Rightarrow> await_exit (co_exit W));
                            checks = [(''HELLO'', hello_ok), (''SEND'', send_ok), (''SHUTDOWN'', shutdown_ok)]
                        in (conf_report checks, checks, case co_exit W of ExitedWith _ \<Rightarrow> False | _ \<Rightarrow> True)))"

subsection \<open>What a pass means\<close>

text \<open>The frames of a stream up to the first that cannot be read.\<close>

fun frames_upto :: "(bytes \<Rightarrow> string + cbor) \<Rightarrow> nat \<Rightarrow> bytes \<Rightarrow> cbor list" where
  "frames_upto decode 0 s = []"
| "frames_upto decode (Suc n) s =
     (case conf_read_frame decode s of
        (Inl _, _) \<Rightarrow> []
      | (Inr v, rest) \<Rightarrow> v # frames_upto decode n rest)"

lemma await_result_ok:
  assumes "await_result decode n s = Ok ()"
  shows "\<exists>v \<in> set (frames_upto decode n s). text_field v ''t'' = Some ''delivery_result'' \<and> text_field v ''corr'' = Some ''conformance-1''"
  using assms by (induction decode n s rule: await_result.induct) (auto split: prod.splits sum.splits if_splits)

lemma hello_ok_iff: "check_hello h = Ok () \<longleftrightarrow> text_field h ''t'' = Some ''hello'' \<and> text_field h ''plugin'' = Some PLUGIN_NAME \<and>
   Option.bind (cbor_field h ''protocol_version'') as_integer = Some 1 \<and> Option.bind (cbor_field h ''capabilities'') as_map \<noteq> None"
  by (auto simp: check_hello_def split: if_splits)

text \<open>
  What the runner certifies and that it leaves nothing behind. Exit code 0 means that the plugin connected, introduced itself with the
  name it was given in version 1 of the protocol and with capabilities, answered the message with a result for it, and ended with 0. A
  process that was started has ended or been killed, whatever happened.
\<close>

theorem conformance_sound:
  "(fst (conf_run W endpoint) = 0 \<longrightarrow>
     (\<exists>h rest. conf_read_frame (co_decode W) (co_bytes W) = (Ok h, rest) \<and> check_hello h = Ok () \<and>
        (\<exists>v \<in> set (frames_upto (co_decode W) (co_in_time W) rest). text_field v ''t'' = Some ''delivery_result'' \<and> text_field v ''corr'' = Some ''conformance-1'')) \<and>
     co_exit W = ExitedWith 0) \<and>
   (co_connect W \<in> {NeverConnected, AcceptFailed, Connected} \<longrightarrow> snd (snd (conf_run W endpoint)) \<or> (\<exists>n. co_exit W = ExitedWith n))"
proof
  show "fst (conf_run W endpoint) = 0 \<longrightarrow>
     (\<exists>h rest. conf_read_frame (co_decode W) (co_bytes W) = (Ok h, rest) \<and> check_hello h = Ok () \<and>
        (\<exists>v \<in> set (frames_upto (co_decode W) (co_in_time W) rest). text_field v ''t'' = Some ''delivery_result'' \<and> text_field v ''corr'' = Some ''conformance-1'')) \<and>
     co_exit W = ExitedWith 0"
    using await_result_ok[of "co_decode W" "co_in_time W"]
    by (auto simp: conf_run_def conf_report_def await_exit_def conf_write_def Let_def split: conf_connect.splits prod.splits sum.splits if_splits conf_exit.splits)
  show "co_connect W \<in> {NeverConnected, AcceptFailed, Connected} \<longrightarrow> snd (snd (conf_run W endpoint)) \<or> (\<exists>n. co_exit W = ExitedWith n)"
    by (auto simp: conf_run_def Let_def split: conf_connect.splits prod.splits sum.splits conf_exit.splits)
qed

text \<open>
  A plugin built on \<open>relay-ipc\<close> cannot pass. Its results carry the correlation as the integer the protocol has; the runner sends a
  text, wants that text back, and takes any other result for a failure.
\<close>

theorem conformance_rejects_ipc:
  assumes "\<forall>b v. co_decode W b = Ok v \<longrightarrow> text_field v ''t'' = Some ''delivery_result'' \<longrightarrow> (\<exists>i. cbor_field v ''corr'' = Some (CInteger i))"
  shows "fst (conf_run W endpoint) = 1"
proof -
  have dec: "\<exists>b. decode b = Ok v" if "v \<in> set (frames_upto decode n s)" for v decode n s
    using that by (induction decode n s rule: frames_upto.induct) (auto simp: conf_read_frame_def Let_def split: prod.splits sum.splits if_splits)
  have "await_result (co_decode W) n s \<noteq> Ok ()" for n s
  proof
    assume "await_result (co_decode W) n s = Ok ()"
    then obtain v where v: "v \<in> set (frames_upto (co_decode W) n s)" "text_field v ''t'' = Some ''delivery_result''" "text_field v ''corr'' = Some ''conformance-1''"
      using await_result_ok by blast
    obtain b where "co_decode W b = Ok v" using dec[OF v(1)] by blast
    then obtain i where "cbor_field v ''corr'' = Some (CInteger i)" using assms v(2) by blast
    then show False using v(3) by (simp add: text_field_def)
  qed
  then show ?thesis
    by (auto simp: conf_run_def conf_report_def conf_write_def Let_def split: conf_connect.splits prod.splits sum.splits)
qed

text \<open>Such a plugin: its hello is in order and it answers every message with a result of its own kind.\<close>

definition ipc_decode :: "bytes \<Rightarrow> string + cbor" where
  "ipc_decode b =
     (if b = ''h'' then Ok (cbor_map [(''t'', CText ''hello''), (''plugin'', CText ''conformance''), (''protocol_version'', CInteger 1), (''capabilities'', CMap [])])
      else Ok (cbor_map [(''t'', CText ''delivery_result''), (''corr'', CInteger 7), (''delivered'', COther)]))"

definition ipc_plugin :: conf_world where
  "ipc_plugin = \<lparr>co_connect = Connected, co_bytes = be_bytes4 1 @ ''h'' @ be_bytes4 1 @ ''r'', co_decode = ipc_decode, co_takes = \<lambda>_. True, co_in_time = 9, co_exit = ExitedWith 0\<rparr>"

theorem conformance_rejects_ipc_witness: "fst (conf_run ipc_plugin ''test'') = 1 \<and> snd (hd (fst (snd (conf_run ipc_plugin ''test'')))) = Ok ()"
proof
  have "\<forall>b v. co_decode ipc_plugin b = Ok v \<longrightarrow> text_field v ''t'' = Some ''delivery_result'' \<longrightarrow> (\<exists>i. cbor_field v ''corr'' = Some (CInteger i))"
    by (auto simp: ipc_plugin_def ipc_decode_def cbor_field_def text_field_def cbor_map_def split: if_splits)
  then show "fst (conf_run ipc_plugin ''test'') = 1" by (rule conformance_rejects_ipc)
  show "snd (hd (fst (snd (conf_run ipc_plugin ''test'')))) = Ok ()"
    by (simp add: conf_run_def ipc_plugin_def conf_read_frame_def be_roundtrip4 CONF_MAX_FRAME_def ipc_decode_def check_hello_def text_field_def cbor_field_def
        cbor_map_def PLUGIN_NAME_def conf_write_def Let_def)
qed

end
