(* ===== verification/Daemon_Main.thy ===== *)
theory Daemon_Main
  imports Data_Dir Plugin_Conn_Props
begin

text \<open>
  The entry point of the daemon (\<open>src/switchyardd/src/main.rs\<close>): the command line, the subcommands \<open>init\<close>, \<open>backup\<close> and
  \<open>restore\<close>, and the order in which a start opens sockets and starts tasks, with the permissions of each. Loading a configuration file and
  the two subcommands on the data directory are arguments here and defined in \<open>Secrets\<close> and \<open>Data_Dir\<close>. A failure of a
  start-up step ends the process.
\<close>

definition DEFAULT_CONFIG :: string where
  "DEFAULT_CONFIG = ''/etc/relayfabric/relayfabric.yaml''"

subsection \<open>The command line\<close>

datatype exit = Exited nat string

text \<open>\<open>config::load\<close>.\<close>

definition load_config :: "(string \<Rightarrow> string + config) \<Rightarrow> secret_world \<Rightarrow> cfg_fs \<Rightarrow> string \<Rightarrow> (string + load_error) + config" where
  "load_config yp w fs path =
     (case read_file path fs of
        None \<Rightarrow> Err (Inl (''cannot read '' @ path))
      | Some raw \<Rightarrow> (case load_from_str yp w raw of Inl e \<Rightarrow> Err (Inr e) | Inr c \<Rightarrow> Ok c))"

fun init_args :: "string list \<Rightarrow> string \<Rightarrow> string + string" where
  "init_args [] path = Ok path"
| "init_args [a] path = (if a = ''--config'' then Ok [] else Err a)"
| "init_args (a # v # args) path = (if a = ''--config'' then init_args args v else Err a)"

text \<open>\<open>parent_ok\<close> says whether the directory of the file is there or can be made, \<open>mode\<close> is what the umask leaves for a new file.\<close>

definition run_init :: "nat \<Rightarrow> string \<Rightarrow> bool \<Rightarrow> string list \<Rightarrow> cfg_fs \<Rightarrow> exit \<times> cfg_fs" where
  "run_init mode starter parent_ok args fs =
     (case init_args args DEFAULT_CONFIG of
        Inl a \<Rightarrow> (Exited 2 (''unknown argument: '' @ a), fs)
      | Inr path \<Rightarrow>
          if exists_file path fs then (Exited 1 (''init: '' @ path @ '' already exists; refusing to overwrite''), fs)
          else if \<not> parent_ok then (Exited 1 (''init: cannot create the directory of '' @ path), fs)
          else case write_file path mode starter fs of
                 (False, fs1) \<Rightarrow> (Exited 1 (''init: cannot write '' @ path), fs1)
               | (True, fs1) \<Rightarrow> (Exited 0 (''wrote starter config to '' @ path), fs1))"

fun sub_args :: "string list \<Rightarrow> string \<times> string option \<Rightarrow> string + string \<times> string option" where
  "sub_args [] acc = Ok acc"
| "sub_args (a # args) acc =
     (if a = ''--config'' then
        (case args of v # args' \<Rightarrow> sub_args args' (v, snd acc) | [] \<Rightarrow> Ok ([], snd acc))
      else if a = ''--out'' \<or> a = ''--in'' then
        (case args of v # args' \<Rightarrow> sub_args args' (fst acc, Some v) | [] \<Rightarrow> Ok (fst acc, None))
      else Err a)"

text \<open>The work of a subcommand is \<open>work config_path dir\<close>, with the text of its error.\<close>

definition run_subcommand :: "(string \<Rightarrow> string \<Rightarrow> string + unit) \<Rightarrow> string \<Rightarrow> string list \<Rightarrow> exit" where
  "run_subcommand work sub args =
     (case sub_args args (DEFAULT_CONFIG, None) of
        Inl a \<Rightarrow> Exited 2 (''unknown argument: '' @ a)
      | Inr (_, None) \<Rightarrow> Exited 2 (''usage: switchyardd '' @ sub @ '' '' @ (if sub = ''backup'' then ''--out'' else ''--in'') @ '' <dir> [--config <path>]'')
      | Inr (config_path, Some dir) \<Rightarrow>
          (case work config_path dir of Inl e \<Rightarrow> Exited 1 (sub @ '' failed: '' @ e) | Inr _ \<Rightarrow> Exited 0 []))"

text \<open>The arguments of the daemon itself; \<open>--config\<close> without a path is a panic (101).\<close>

fun daemon_args :: "string list \<Rightarrow> string \<times> bool \<Rightarrow> exit + string \<times> bool" where
  "daemon_args [] acc = Ok acc"
| "daemon_args (a # args) acc =
     (if a = ''--config'' then (case args of v # args' \<Rightarrow> daemon_args args' (v, snd acc) | [] \<Rightarrow> Err (Exited 101 ''--config needs a path''))
      else if a = ''--check-config'' then daemon_args args (fst acc, True)
      else Err (Exited 2 (''unknown argument: '' @ a)))"

datatype start = Stop exit | Init "string list" | Subcommand string "string list" | Serve string config

definition daemon_start :: "(string \<Rightarrow> (string + load_error) + config) \<Rightarrow> string list \<Rightarrow> start" where
  "daemon_start load args =
     (case daemon_args args (DEFAULT_CONFIG, False) of
        Inl e \<Rightarrow> Stop e
      | Inr (config_path, check_only) \<Rightarrow>
          (case load config_path of
             Inl _ \<Rightarrow> Stop (Exited 1 ''config error'')
           | Inr cfg \<Rightarrow>
               if check_only then Stop (Exited 0 (''configuration valid: '' @ nat_str (length (cf_routes cfg)) @ '' route(s), '' @
                 nat_str (length (cf_plugins cfg)) @ '' plugin(s)''))
               else Serve config_path cfg))"

definition daemon_main :: "(string \<Rightarrow> (string + load_error) + config) \<Rightarrow> string list \<Rightarrow> start" where
  "daemon_main load raw =
     (case raw of
        sub # args \<Rightarrow>
          if sub = ''backup'' \<or> sub = ''restore'' then Subcommand sub args
          else if sub = ''init'' then Init args
          else daemon_start load raw
      | [] \<Rightarrow> daemon_start load raw)"

definition STARTER_CONFIG :: string where
  "STARTER_CONFIG = join_with newline
     [''# RelayFabric config '' @ emdash @ '' generated by '' @ [CHR 0x60] @ ''switchyardd init'' @ [CHR 0x60] @ ''.'',
      ''# Full reference: docs/relayfabric.example.yaml and docs/configuration.md.'',
      ''node:'',
      ''  name: my-relayfabric'',
      ''  # Keep this a SHORT absolute path (the plugin/admin socket paths derive'',
      ''  # from it and must fit the ~104-byte Unix-socket limit):'',
      ''  data_dir: /var/lib/relayfabric'',
      [],
      ''# Bridges to other networks. Each plugin is a separate supervised process;'',
      ''# see docs/plugins.md. Example (commented) '' @ emdash @ '' enable and configure one:'',
      ''plugins: {}'',
      ''  # mqtt:'',
      ''  #   enabled: true'',
      ''  #   command: relayfabric-mqtt'',
      ''  #   config:'',
      ''  #     broker: mqtt://127.0.0.1:1883'',
      ''  #     client_id: relayfabric'',
      [],
      ''# Routes bridge one plugin'' @ [CHR 0x27] @ ''s endpoints to another (deny-by-default: nothing'',
      ''# flows until a route says so). Example:'',
      ''routes: []'',
      ''  # - name: example'',
      ''  #   sources: ['' @ dquote @ ''mqtt:chat/in'' @ dquote @ '']'',
      ''  #   destinations: ['' @ dquote @ ''mqtt:chat/out'' @ dquote @ '']'',
      [],
      ''ttl_default_secs: 86400'',
      ''dedup_ttl_secs: 86400'',
      ''retention_secs: 86400'',
      ''hop_limit: 8'',
      []]"

subsection \<open>Sockets and tasks\<close>

definition MODE_0711 :: nat where "MODE_0711 = 457"
definition MODE_0666 :: nat where "MODE_0666 = 438"

datatype boot_op =
    NewDaemon
  | MakeSocketDir nat
  | OpenSocketDir nat
  | OpenDataDir nat
  | BindPlugin string nat
  | SupervisePlugin string string
  | StartPump
  | StartFederation
  | StartAlerter
  | BindAdmin nat

definition boot_plugin :: "string \<times> plugin_config \<Rightarrow> boot_op list" where
  "boot_plugin np =
     (case np of (name, pc) \<Rightarrow>
        if \<not> pc_enabled pc then []
        else BindPlugin name (if pc_peer_uid pc \<noteq> None then MODE_0666 else MODE_0600) #
             (case pc_command pc of Some cmd \<Rightarrow> [SupervisePlugin name cmd] | None \<Rightarrow> []))"

definition isolated :: "config \<Rightarrow> bool" where
  "isolated cfg \<longleftrightarrow> list_ex (\<lambda>(_, p). pc_enabled p \<and> pc_peer_uid p \<noteq> None) (cf_plugins cfg)"

text \<open>The steps of a start in their order.\<close>

definition boot_plan :: "config \<Rightarrow> boot_op list" where
  "boot_plan cfg =
     [NewDaemon, MakeSocketDir MODE_0700] @
     (if isolated cfg then [OpenSocketDir MODE_0711, OpenDataDir MODE_0711] else []) @
     concat (map boot_plugin (cf_plugins cfg)) @
     [StartPump] @ (if cf_federation cfg \<noteq> None then [StartFederation] else []) @ [StartAlerter, BindAdmin MODE_0600]"

text \<open>A step that fails is a panic: what was done before it stays, nothing after it is done.\<close>

definition boot :: "(boot_op \<Rightarrow> bool) \<Rightarrow> config \<Rightarrow> bool \<times> boot_op list" where
  "boot fails cfg = (list_all (\<lambda>op. \<not> fails op) (boot_plan cfg), takeWhile (\<lambda>op. \<not> fails op) (boot_plan cfg))"

subsection \<open>First start\<close>

text \<open>
  A first configuration is written once. \<open>init\<close> reports success exactly when it made the file with the starter text; a file that is
  there is never changed, whatever the arguments, and neither is any other file.
\<close>

theorem init_never_overwrites:
  "(\<forall>path f. map_of (fs_files fs) path = Some f \<longrightarrow> map_of (fs_files (snd (run_init mode starter ok args fs))) path = Some f) \<and>
   (\<forall>msg. fst (run_init mode starter ok args fs) = Exited 0 msg \<longrightarrow>
     (\<exists>path. init_args args DEFAULT_CONFIG = Ok path \<and> \<not> exists_file path fs \<and> map_of (fs_files (snd (run_init mode starter ok args fs))) path = Some (starter, mode)))"
  by (auto simp: run_init_def write_file_def exists_file_def Let_def split: sum.splits if_splits option.splits)

text \<open>The first start after it: the configuration \<open>init\<close> wrote passes \<open>--check-config\<close> when the parser reads it as a valid one.\<close>

theorem init_then_check:
  assumes "run_init mode STARTER_CONFIG ok [''--config'', path] fs = (Exited 0 msg, fs1)" "\<not> fs_fails fs1 (ReadFile path)" "valid_utf8 STARTER_CONFIG"
    and "load_from_str yp w STARTER_CONFIG = Ok cfg"
  shows "\<exists>text. daemon_main (load_config yp w fs1) [''--check-config'', ''--config'', path] = Stop (Exited 0 text)"
proof -
  have "map_of (fs_files fs1) path = Some (STARTER_CONFIG, mode)"
    using assms(1) by (auto simp: run_init_def write_file_def exists_file_def Let_def split: if_splits option.splits)
  then show ?thesis using assms(2-4) by (simp add: daemon_main_def daemon_start_def load_config_def read_file_def)
qed

subsection \<open>Who can reach a socket\<close>

lemma plugin_bind: "BindPlugin name mode \<in> set (boot_plugin (n, pc)) \<longleftrightarrow> n = name \<and> pc_enabled pc \<and> mode = (if pc_peer_uid pc \<noteq> None then MODE_0666 else MODE_0600)"
  by (auto simp: boot_plugin_def split: option.splits)

lemma plan_plugin: "BindPlugin name mode \<in> set (boot_plan cfg) \<longleftrightarrow>
    (\<exists>pc. (name, pc) \<in> set (cf_plugins cfg) \<and> pc_enabled pc \<and> mode = (if pc_peer_uid pc \<noteq> None then MODE_0666 else MODE_0600))"
proof -
  have "BindPlugin name mode \<in> set (boot_plan cfg) \<longleftrightarrow> (\<exists>x \<in> set (cf_plugins cfg). BindPlugin name mode \<in> set (boot_plugin x))" by (simp add: boot_plan_def)
  also have "\<dots> \<longleftrightarrow> (\<exists>pc. (name, pc) \<in> set (cf_plugins cfg) \<and> BindPlugin name mode \<in> set (boot_plugin (name, pc)))" using plugin_bind by (metis surj_pair)
  finally show ?thesis by (simp add: plugin_bind)
qed

text \<open>
  A socket is open to others only behind the credential check. In a start, finished or not, the admin socket is bound for the owner only,
  the directories are opened for traversal only when an enabled plugin runs under a uid of its own, and only that plugin's socket is
  open to others: whoever becomes a plugin over a socket of mode 0666 has the uid configured for it, over one of mode 0600 the uid of
  the daemon.
\<close>

theorem sockets_guarded:
  assumes "boot fails cfg = (finished, done_ops)" "distinct (map fst (cf_plugins cfg))" "dm_cfg d = cfg"
  shows "(\<forall>mode. BindAdmin mode \<in> set done_ops \<longrightarrow> mode = MODE_0600) \<and>
    (\<forall>mode. OpenDataDir mode \<in> set done_ops \<or> OpenSocketDir mode \<in> set done_ops \<longrightarrow> mode = MODE_0711 \<and> (\<exists>(name, pc) \<in> set (cf_plugins cfg). pc_enabled pc \<and> pc_peer_uid pc \<noteq> None)) \<and>
    (\<forall>name mode p acks d'. BindPlugin name mode \<in> set done_ops \<longrightarrow> open_conn euid t now cid tx name uid hello ok d = (Ok p, acks, d') \<longrightarrow>
       p = name \<and> (mode = MODE_0666 \<and> Option.bind (map_of (cf_plugins cfg) name) pc_peer_uid = Some uid \<or> mode = MODE_0600 \<and> uid = euid))"
proof -
  have sub: "set done_ops \<subseteq> set (boot_plan cfg)" using assms(1) by (auto simp: boot_def dest: set_takeWhileD)
  have none: "BindAdmin m \<notin> set (concat (map boot_plugin ps))" "OpenDataDir m \<notin> set (concat (map boot_plugin ps))" "OpenSocketDir m \<notin> set (concat (map boot_plugin ps))" for m ps
    by (auto simp: boot_plugin_def split: if_splits option.splits)
  have a: "mode = MODE_0600" if "BindAdmin mode \<in> set (boot_plan cfg)" for mode using that none by (auto simp: boot_plan_def split: if_splits)
  have o: "mode = MODE_0711 \<and> isolated cfg" if "OpenDataDir mode \<in> set (boot_plan cfg) \<or> OpenSocketDir mode \<in> set (boot_plan cfg)" for mode
    using that none by (auto simp: boot_plan_def split: if_splits)
  have p: "p = name \<and> (mode = MODE_0666 \<and> Option.bind (map_of (cf_plugins cfg) name) pc_peer_uid = Some uid \<or> mode = MODE_0600 \<and> uid = euid)"
    if b: "BindPlugin name mode \<in> set (boot_plan cfg)" and c: "open_conn euid t now cid tx name uid hello ok d = (Ok p, acks, d')" for name mode p acks d'
  proof -
    obtain pc where pc: "map_of (cf_plugins cfg) name = Some pc" "mode = (if pc_peer_uid pc \<noteq> None then MODE_0666 else MODE_0600)"
      using b[unfolded plan_plugin] map_of_is_SomeI[OF assms(2)] by blast
    have "uid_ok cfg euid name uid" "p = name" using c assms(3)
      by (auto simp: open_conn_def hello_error_def Let_def split: if_splits option.splits sum.splits plugin_to_daemon.splits)
    then show ?thesis using pc by (auto simp: uid_ok_def split: option.splits)
  qed
  show ?thesis using sub a o p unfolding isolated_def list_ex_iff by blast
qed

definition isolated_cfg :: config where
  "isolated_cfg = cfg_demo\<lparr>cf_plugins := [(''lora'', \<lparr>pc_enabled = True, pc_command = None, pc_config = YNull, pc_peer_uid = Some 7\<rparr>),
     (''mqtt'', \<lparr>pc_enabled = True, pc_command = Some ''relayfabric-mqtt'', pc_config = YNull, pc_peer_uid = None\<rparr>)]\<rparr>"

theorem sockets_guarded_witness:
  "BindPlugin ''lora'' MODE_0666 \<in> set (snd (boot (\<lambda>_. False) isolated_cfg)) \<and> BindPlugin ''mqtt'' MODE_0600 \<in> set (snd (boot (\<lambda>_. False) isolated_cfg)) \<and>
   (\<forall>uid p acks d'. open_conn 1 5 5 2 (\<lambda>_. SendOk) ''lora'' uid hello_demo True (daemon_demo isolated_cfg (store_empty no_fails)) = (Ok p, acks, d') \<longrightarrow> uid = 7) \<and>
   fst (open_conn 1 5 5 2 (\<lambda>_. SendOk) ''lora'' 7 hello_demo True (daemon_demo isolated_cfg (store_empty no_fails))) = Ok ''lora''"
proof -
  let ?d = "daemon_demo isolated_cfg (store_empty no_fails)"
  have d: "dm_cfg ?d = isolated_cfg" by (simp add: daemon_demo_def)
  have b: "boot (\<lambda>_. False) isolated_cfg = (True, boot_plan isolated_cfg)" by (simp add: boot_def list_all_iff)
  have m: "MODE_0600 \<noteq> MODE_0666" by (simp add: MODE_0600_def MODE_0666_def)
  have in1: "BindPlugin ''lora'' MODE_0666 \<in> set (boot_plan isolated_cfg)" "BindPlugin ''mqtt'' MODE_0600 \<in> set (boot_plan isolated_cfg)"
    by (simp_all add: plan_plugin isolated_cfg_def)
  have dist: "distinct (map fst (cf_plugins isolated_cfg))" "map_of (cf_plugins isolated_cfg) ''lora'' = Some \<lparr>pc_enabled = True, pc_command = None, pc_config = YNull, pc_peer_uid = Some 7\<rparr>"
    by (simp_all add: isolated_cfg_def)
  have "uid = 7" if "open_conn 1 5 5 2 (\<lambda>_. SendOk) ''lora'' uid hello_demo True ?d = (Ok p, acks, d')" for uid p acks d'
    using sockets_guarded[OF b dist(1) d] in1(1) that dist(2) m by fastforce
  moreover have "fst (open_conn 1 5 5 2 (\<lambda>_. SendOk) ''lora'' 7 hello_demo True ?d) = Ok ''lora''"
    by (simp add: open_conn_def uid_ok_def d dist(2) hello_demo_def hello_error_def plugin_enabled_def PROTOCOL_VERSION_def Let_def)
  ultimately show ?thesis using in1 b by auto
qed

end
