(* ===== verification/Ui_Response.thy ===== *)
theory Ui_Response
  imports Ui_Gate
begin

text \<open>
  The headers of the web front end (\<open>src/relayfabric-ui/src/main.rs\<close>): the content type and policy of a static file, and the
  defences that the middleware puts on every response, also on those of the admin server.
\<close>

text \<open>\<open>Path::extension\<close>: what follows the last dot of the file name, unless the name starts with its only dot.\<close>

definition file_name :: "string \<Rightarrow> string" where
  "file_name path = last (split_on (CHR ''/'') path)"

definition extension :: "string \<Rightarrow> string option" where
  "extension path =
     (case rsplit_once (CHR ''.'') (file_name path) of
        Some (before, after) \<Rightarrow> if before = [] \<or> file_name path = ''..'' then None else Some after
      | None \<Rightarrow> None)"

definition content_type :: "string \<Rightarrow> string" where
  "content_type path =
     (case extension path of
        None \<Rightarrow> ''application/octet-stream''
      | Some e \<Rightarrow>
          if e = ''html'' then ''text/html; charset=utf-8''
          else if e = ''js'' \<or> e = ''mjs'' then ''text/javascript; charset=utf-8''
          else if e = ''css'' then ''text/css; charset=utf-8''
          else if e = ''png'' then ''image/png''
          else ''application/octet-stream'')"

definition csp_quoted :: "string \<Rightarrow> string" where
  "csp_quoted s = [CHR 0x27] @ s @ [CHR 0x27]"

definition CSP :: string where
  "CSP = ''default-src '' @ csp_quoted ''self'' @ ''; script-src '' @ csp_quoted ''self'' @ ''; style-src '' @ csp_quoted ''self'' @ '' '' @ csp_quoted ''unsafe-inline'' @
     '' https://unpkg.com https://fonts.googleapis.com; font-src '' @ csp_quoted ''self'' @ '' https://unpkg.com https://fonts.gstatic.com; img-src '' @ csp_quoted ''self'' @
     '' data:; connect-src '' @ csp_quoted ''self'' @ ''; frame-ancestors '' @ csp_quoted ''none'' @ ''; base-uri '' @ csp_quoted ''none'' @ ''; form-action '' @ csp_quoted ''self''"

text \<open>The headers a static answer carries: the page that stands in for an unknown path is the index.\<close>

definition static_headers :: "ui_response \<Rightarrow> (string \<times> string) list" where
  "static_headers r =
     (case r of
        UFile rel \<Rightarrow>
          if starts_with (content_type rel) ''text/html'' then [(''content-type'', ''text/html; charset=utf-8''), (''content-security-policy'', CSP)]
          else [(''content-type'', content_type rel)]
      | _ \<Rightarrow> [])"

definition security_headers :: "string \<Rightarrow> (string \<times> string) list \<Rightarrow> (string \<times> string) list" where
  "security_headers path hs =
     (let api = starts_with path ''/v1/'' \<or> starts_with path ''/auth/'' \<or> path = ''/metrics'';
          h1 = (if api then alist_put ''cache-control'' ''no-store'' hs else hs)
      in alist_put ''referrer-policy'' ''no-referrer'' (alist_put ''x-content-type-options'' ''nosniff'' (alist_put ''x-frame-options'' ''DENY'' h1)))"

text \<open>
  Whatever answered, the browser is told not to frame, sniff or send a referrer, and not to keep a response of the API or the auth
  endpoints, even if the admin server said otherwise; and a file the browser takes for a page comes with the policy that forbids
  foreign scripts.
\<close>

theorem responses_defended:
  "map_of (security_headers path hs) ''x-frame-options'' = Some ''DENY'' \<and> map_of (security_headers path hs) ''x-content-type-options'' = Some ''nosniff'' \<and>
   map_of (security_headers path hs) ''referrer-policy'' = Some ''no-referrer'' \<and>
   (starts_with path ''/v1/'' \<or> starts_with path ''/auth/'' \<or> path = ''/metrics'' \<longrightarrow> map_of (security_headers path hs) ''cache-control'' = Some ''no-store'') \<and>
   (map_of (security_headers path (static_headers (static_file st readable rq))) ''content-type'' = Some ''text/html; charset=utf-8'' \<longrightarrow>
      map_of (security_headers path (static_headers (static_file st readable rq))) ''content-security-policy'' = Some CSP)"
proof -
  have html: "starts_with ''text/html; charset=utf-8'' ''text/html''" by code_simp
  have "map_of (static_headers r) ''content-security-policy'' = Some CSP" if "map_of (static_headers r) ''content-type'' = Some ''text/html; charset=utf-8''" for r
  proof (cases r)
    case (UFile rel)
    then show ?thesis using that html by (cases "starts_with (content_type rel) ''text/html''") (simp_all add: static_headers_def)
  qed (use that in \<open>simp_all add: static_headers_def\<close>)
  then show ?thesis by (auto simp: security_headers_def Let_def)
qed

end
