(* ===== verification/Storage_Migrate.thy ===== *)
theory Storage_Migrate
  imports Rust_Prelude
begin

text \<open>
  The upgrade of an older database when it is opened (\<open>migrate\<close> in \<open>src/switchyardd/src/storage.rs\<close>): the columns that the
  \<open>deliveries\<close> table gained, and the values older rows get in them. A batch of statements runs outside a transaction, so each takes
  effect on its own and the first that fails ends the batch; which fail is a parameter.
\<close>

subsection \<open>The table\<close>

text \<open>The columns that the upgrade reads or writes; a column that is missing in the table has no meaning in the row.\<close>

record raw_row =
  rr_id :: int
  rr_priority :: nat
  rr_next_attempt :: string
  rr_created_at :: string
  rr_updated_at :: string

record raw_table =
  rt_columns :: "string list"
  rt_due_index :: "string list option"
  rt_rows :: "raw_row list"

datatype mig_stmt = CountPriority | AddPriority | DropDueIndex | CreateDueIndex | CountCreatedAt | AddCreatedAt | AddUpdatedAt | Backfill

definition add_column :: "string \<Rightarrow> (raw_row \<Rightarrow> raw_row) \<Rightarrow> raw_table \<Rightarrow> raw_table option" where
  "add_column name fill t =
     (if name \<in> set (rt_columns t) then None
      else Some (t\<lparr>rt_columns := rt_columns t @ [name], rt_rows := map fill (rt_rows t)\<rparr>))"

fun mig_exec :: "mig_stmt \<Rightarrow> raw_table \<Rightarrow> raw_table option" where
  "mig_exec AddPriority t = add_column ''priority'' (\<lambda>r. r\<lparr>rr_priority := 2\<rparr>) t"
| "mig_exec DropDueIndex t = Some (t\<lparr>rt_due_index := None\<rparr>)"
| "mig_exec CreateDueIndex t =
     (if rt_due_index t = None \<and> ''priority'' \<in> set (rt_columns t) then Some (t\<lparr>rt_due_index := Some [''state'', ''priority'', ''next_attempt'']\<rparr>) else None)"
| "mig_exec AddCreatedAt t = add_column ''created_at'' (\<lambda>r. r\<lparr>rr_created_at := []\<rparr>) t"
| "mig_exec AddUpdatedAt t = add_column ''updated_at'' (\<lambda>r. r\<lparr>rr_updated_at := []\<rparr>) t"
| "mig_exec Backfill t =
     (if {''created_at'', ''updated_at''} \<subseteq> set (rt_columns t) then
        Some (t\<lparr>rt_rows := map (\<lambda>r. if rr_created_at r = [] then r\<lparr>rr_created_at := rr_next_attempt r, rr_updated_at := rr_next_attempt r\<rparr> else r) (rt_rows t)\<rparr>)
      else None)"
| "mig_exec _ t = Some t"

fun execute_batch :: "(mig_stmt \<Rightarrow> bool) \<Rightarrow> mig_stmt list \<Rightarrow> raw_table \<Rightarrow> bool \<times> raw_table" where
  "execute_batch fails [] t = (True, t)"
| "execute_batch fails (s # ss) t =
     (if fails s then (False, t)
      else case mig_exec s t of None \<Rightarrow> (False, t) | Some t1 \<Rightarrow> execute_batch fails ss t1)"

definition migrate :: "(mig_stmt \<Rightarrow> bool) \<Rightarrow> raw_table \<Rightarrow> bool \<times> raw_table" where
  "migrate fails t =
     (if fails CountPriority then (False, t)
      else case (if ''priority'' \<in> set (rt_columns t) then (True, t) else execute_batch fails [AddPriority, DropDueIndex, CreateDueIndex] t) of
             (False, t1) \<Rightarrow> (False, t1)
           | (True, t1) \<Rightarrow>
               if fails CountCreatedAt then (False, t1)
               else if ''created_at'' \<in> set (rt_columns t1) then (True, t1)
               else execute_batch fails [AddCreatedAt, AddUpdatedAt, Backfill] t1)"

subsection \<open>The upgrade\<close>

text \<open>The tables there are: those of earlier releases have none of the three columns or the first only, or all of them.\<close>

definition released_table :: "raw_table \<Rightarrow> bool" where
  "released_table t \<longleftrightarrow> (''updated_at'' \<in> set (rt_columns t) \<longleftrightarrow> ''created_at'' \<in> set (rt_columns t)) \<and>
     (''created_at'' \<in> set (rt_columns t) \<longrightarrow> ''priority'' \<in> set (rt_columns t))"

text \<open>
  An upgrade that is not interrupted succeeds: the table then has every column, no row is lost and its fields that were there are
  kept, a row from before priorities gets the normal one, a row from before the stamps gets its next attempt as both; and opening
  the database again changes nothing.
\<close>

theorem migrate_complete:
  assumes "released_table t" "\<And>s. \<not> fails s"
  shows "\<exists>t'. migrate fails t = (True, t') \<and> {''priority'', ''created_at'', ''updated_at''} \<union> set (rt_columns t) \<subseteq> set (rt_columns t') \<and>
    rt_rows t' = map (\<lambda>r. r\<lparr>rr_priority := if ''priority'' \<in> set (rt_columns t) then rr_priority r else 2,
        rr_created_at := if ''created_at'' \<in> set (rt_columns t) then rr_created_at r else rr_next_attempt r,
        rr_updated_at := if ''created_at'' \<in> set (rt_columns t) then rr_updated_at r else rr_next_attempt r\<rparr>) (rt_rows t) \<and>
    migrate fails t' = (True, t')"
  using assms by (auto simp: migrate_def released_table_def add_column_def o_def)

text \<open>
  An upgrade that is interrupted is never finished. When the statement after the new column fails once, or the process ends there, the
  next open finds the column, reports success and skips the rest: without the second column every later query of deliveries fails, and
  without the last statement the older rows keep an empty stamp.
\<close>

theorem migrate_interrupted:
  assumes "''priority'' \<in> set (rt_columns t)" "''created_at'' \<notin> set (rt_columns t)" "''updated_at'' \<notin> set (rt_columns t)" "\<And>s. \<not> fails s"
  shows "\<exists>t'. migrate (\<lambda>s. s = AddUpdatedAt) t = (False, t') \<and> migrate fails t' = (True, t') \<and> ''updated_at'' \<notin> set (rt_columns t')"
    and "\<exists>t'. migrate (\<lambda>s. s = Backfill) t = (False, t') \<and> migrate fails t' = (True, t') \<and> list_all (\<lambda>r. rr_created_at r = []) (rt_rows t')"
  using assms by (auto simp: migrate_def add_column_def list_all_iff)

definition old_table :: raw_table where
  "old_table = \<lparr>rt_columns = [''id'', ''priority'', ''next_attempt''], rt_due_index = None,
     rt_rows = [\<lparr>rr_id = 1, rr_priority = 2, rr_next_attempt = ''t'', rr_created_at = [], rr_updated_at = []\<rparr>]\<rparr>"

theorem migrate_complete_witness: "\<exists>t'. migrate (\<lambda>_. False) old_table = (True, t') \<and> migrate (\<lambda>_. False) t' = (True, t')"
proof -
  have "released_table old_table" by code_simp
  from migrate_complete[OF this, of "\<lambda>_. False"] show ?thesis by auto
qed

theorem migrate_interrupted_witness: "\<exists>t'. migrate (\<lambda>s. s = Backfill) old_table = (False, t') \<and> list_all (\<lambda>r. rr_created_at r = []) (rt_rows t')"
  using migrate_interrupted(2)[of old_table "\<lambda>_. False"] by (auto simp: old_table_def)

end
