(* ===== verification/Spec2Isabelle.thy ===== *)
theory Spec2Isabelle
  imports Storage_Lifecycle Fed_Crypto_Props Egress_Frames Config_Props Attachment_Gc Plugin_Conn_Props Alerts Ui_Races
    Admin_Config_Props Admin_Api_Props Mqtt_Props Noise_Props Data_Dir_Props Ctl_Props
    Conformance Daemon_Main Ui_Response Storage_Migrate
begin

text \<open>
  RelayFabric relays messages between chat and radio networks. The daemon \<open>switchyardd\<close> takes messages from plugin
  processes (one per network, over a Unix socket) and from other daemons (federation, over encrypted TCP), stores
  each with one delivery row per destination of the routes it matches, and a pump hands the due rows to plugins or
  peers until each is delivered, failed, expired or dead-lettered. An operator watches and configures it through an
  admin API on a Unix socket; \<open>relayfabric-ui\<close> puts that API on the web behind passkeys; \<open>plugins/mqtt\<close> is a plugin.
  This development models these programs and proves what makes them correct. Source paths below are under \<open>src/\<close>;
  \<open>engine.rs\<close> and the like without a directory are in \<open>switchyardd/src/\<close>.

  \<^bold>\<open>Theories and sources.\<close> A theory without a suffix has the definitions that translate the code and the facts that need
  nothing else; a theory \<open>..._Props\<close> (and those named below) has the properties.

  \<^item> \<open>Rust_Prelude\<close>: byte strings, UTF-8, numbers to text, association lists as maps, and the interface
    \<open>invariant_system\<close> (a step relation and a predicate it preserves), interpreted for each of the nine interleavings.
  \<^item> \<open>Relay_Core\<close> (\<open>crates/relay-core\<close>): endpoints, priorities, envelopes, capabilities, transport policies.
    \<open>Relay_Ipc\<close> (\<open>crates/relay-ipc\<close>): the plugin protocol and its length-prefixed frames over the interface \<open>byte_stream\<close>.
  \<^item> \<open>Transform\<close>, \<open>Dedup\<close>, \<open>Limits\<close>, \<open>Routing_Policy\<close>, \<open>Cas\<close>, \<open>Metrics\<close> (\<open>transform.rs\<close>; \<open>dedup.rs\<close>, \<open>queue.rs\<close>,
    \<open>identity_links.rs\<close>; \<open>limits.rs\<close>; \<open>routes.rs\<close>, \<open>policy.rs\<close>, \<open>alias.rs\<close>; \<open>cas.rs\<close>; \<open>metrics.rs\<close>): the parts without
    a view of the rest. The duplicate filter refines the history of what was recorded, the sender limit holds in
    every window, rendering fits its limit, policies tighten, content is what its hash names.
  \<^item> \<open>Config_Types\<close>, \<open>Config_Validate\<close>, \<open>Secrets\<close> (\<open>config.rs\<close>, \<open>secrets.rs\<close>): the configuration, every check of
    \<open>validate\<close> with its error, secret references and \<open>load_from_str\<close>. \<open>Config_Props\<close>: what the engine may rely on in a
    validated configuration.
  \<^item> \<open>Storage\<close>, \<open>Storage_Peers\<close> (\<open>storage.rs\<close>): the tables and every statement. \<open>Storage_Lifecycle\<close>: the interfaces
    \<open>delivery_update\<close> and \<open>settling_update\<close>, interpreted on the updates of a row, the invariant of the tables, retention
    and the scheduler's query; \<open>capped_table\<close> in \<open>Storage_Peers\<close> is the interface of the two pruned tables.
  \<^item> \<open>Fed_Crypto\<close>, \<open>Fed_Crypto_Props\<close> (\<open>node_identity.rs\<close>, \<open>fed/sign.rs\<close>, \<open>fed/seal.rs\<close>, \<open>fed/domains.rs\<close>, part of
    \<open>fed/advert.rs\<close>): identities, signature chains and seals over an arbitrary signature scheme.
  \<^item> \<open>Engine_State\<close>, \<open>Engine_Ingress\<close>, \<open>Engine_Fed\<close>, \<open>Engine_Egress\<close> (\<open>engine.rs\<close>, \<open>events.rs\<close>): the \<open>Daemon\<close> record,
    \<open>handle_inbound\<close>, identity links, \<open>fed_ingress\<close>, \<open>fed_sealed_ingress\<close>, \<open>handle_result\<close>, \<open>process_due\<close> and its branches and the pump.
    \<open>Engine_Frame\<close> has what each leaves unchanged; \<open>Ingress_Props\<close>, \<open>Fed_Props\<close>, \<open>Egress_Props\<close>, \<open>Egress_Frames\<close> what each does.
  \<^item> \<open>Fed_Conn\<close>, \<open>Fed_Conn_Props\<close> (\<open>fed/conn.rs\<close>, \<open>fed/wire.rs\<close>, \<open>fed/advert.rs\<close>): admission, registry, pre-decode gate,
    frames, acknowledgements, adverts and the frame loop of a federation connection.
  \<^item> \<open>Daemon_Sys\<close>: the running daemon as a step relation over all handlers, the pump with its batch, operator actions,
    configuration swaps and restarts. \<open>Daemon_Props\<close> and \<open>Daemon_Safety\<close>: its invariant, that a delivered row stays as it
    is, that the pump drains what is due. \<open>Attachment_Gc\<close>: the race between an inbound message and the retention purge.
  \<^item> \<open>Plugin_Conn\<close>, \<open>Plugin_Conn_Props\<close> (\<open>plugins.rs\<close>): who may attach, the registry of plugins, the environment of a
    plugin process and the restart ladder. \<open>Alerts\<close> (\<open>alerts.rs\<close>).
  \<^item> \<open>Admin_Config\<close>, \<open>Admin_Config_Props\<close>, \<open>Admin_Api\<close>, \<open>Admin_Api_Props\<close> (\<open>admin.rs\<close>): writing, rolling back and validating the
    configuration with its file rotation, and the endpoints that report or change links. Requeue and purge are in \<open>Daemon_Sys\<close>.
  \<^item> \<open>Ui_Auth\<close>, \<open>Ui_Gate\<close>, \<open>Ui_Props\<close>, \<open>Ui_Races\<close> (\<open>relayfabric-ui/src/auth.rs\<close> and \<open>main.rs\<close>): WebAuthn verification, credentials,
    challenges, sessions and roles; the guards in front of the admin socket and of the static files.
  \<^item> \<open>Admin_Server\<close> (\<open>admin.rs\<close>): the route table and the dispatch of a request to its handler. \<open>Ui_Admin\<close> joins it to the gate of the
    web front end and shows what each role can change; \<open>Ui_Response\<close> has the response headers of the front end.
  \<^item> \<open>Ctl\<close>, \<open>Ctl_Props\<close>, \<open>Conformance\<close> (\<open>switchyardctl/src/main.rs\<close> and \<open>conformance.rs\<close>): the control tool against the admin server, its
    printing of events, and the runner that tests plugins.
  \<^item> \<open>Noise\<close>, \<open>Noise_Props\<close> (\<open>fed/noise.rs\<close>): the handshake with its identity payload, the cutting of frames into messages and the
    resumable reader, over the snow library as a parameter.
  \<^item> \<open>Data_Dir\<close>, \<open>Data_Dir_Props\<close> (\<open>keyfile.rs\<close> and the key loaders, \<open>backup.rs\<close>): key files, backup and restore over trees of files.
    \<open>Daemon_Main\<close> (\<open>main.rs\<close>): the command line and the order and permissions of a start. \<open>Storage_Migrate\<close> (\<open>storage.rs\<close>): the
    upgrade of an older database.
  \<^item> \<open>Mqtt\<close>, \<open>Mqtt_Props\<close> (\<open>plugins/mqtt/src/main.rs\<close>): the tracker that pairs publishes with acknowledgements, and both arms of
    the main loop.

  \<^bold>\<open>How Rust becomes HOL.\<close>

  \<^item> \<open>String\<close>, \<open>&str\<close> and \<open>Vec<u8>\<close> are a HOL \<open>string\<close> read as bytes, and \<open>rust_chars\<close> is \<open>chars()\<close>; a \<open>Uuid\<close> is its canonical text.
    \<open>DateTime<Utc>\<close> is an \<open>int\<close> of nanoseconds, \<open>Instant\<close> and \<open>Duration\<close> a \<open>nat\<close> of nanoseconds (their subtraction saturates
    in Rust as it does in HOL). Integers whose wrap-around matters are words; an \<open>f64\<close> is its bit pattern.
  \<^item> Structs are records whose fields keep their names behind a short prefix, enums are datatypes; \<open>Result\<close> is a sum with the
    abbreviations \<open>Ok\<close> and \<open>Err\<close>. Maps are association lists; where the code iterates over a hash map and the order shows, it is a parameter.
  \<^item> A handler is a function from the state to its result and the new state, and one step of the interleavings. It reads
    the clock once; new ids and random bytes are arguments. Where a lock is released in the middle the handler is also
    given in two parts (\<open>store_attachments\<close> and \<open>commit_inbound\<close>, \<open>login_verify\<close> and \<open>login_session\<close>, \<open>put_check\<close> and \<open>put_commit\<close>).
  \<^item> Any SQL statement and any file operation may fail: \<open>sql_fails\<close>, \<open>cs_fails\<close> and \<open>fs_fails\<close> say which do, and \<open>fs_torn\<close> what an
    interrupted write leaves. A data directory under backup is a tree with \<open>dw_fails\<close> and \<open>dw_torn\<close> in the same roles. Foreign keys are enforced; \<open>insert_message\<close> is \<open>INSERT OR IGNORE\<close>.
  \<^item> A channel to a plugin or peer is a function that says whether a frame is taken, and \<open>dm_sent\<close> and \<open>dm_fed_sent\<close> record what was. An
    event is recorded when somebody listens. A socket under the Noise reader is a list of arrivals (some bytes, an abandoned read, an error); one that
    is written to has a point at which it breaks. Log lines are left out.
  \<^item> Code of other crates is a parameter: the record \<open>ext\<close> (SHA-256, HMAC, Ed25519, the crypto box, CBOR and RFC 3339), the readers
    of wire frames, WebAuthn client data and HTTP bodies, the YAML parser, rumqttc, snow, axum's path matching and extractors. Properties that depend on what such code promises
    say so in a hypothesis, and their witnesses instantiate it. The socket address parser of the standard library is written out.

  \<^bold>\<open>What is shown.\<close> The claims C1 to C40 stand at their theorems. C1 to C3 are about the daemon as a whole; C4, C5 about plugin
  ingress; C6 to C9, C12, C13, C29 about federation; C10, C11 about egress; C14 to C18 about federation connections; C19 to C22 about the
  encrypted link under them; C23 about the web front end and the admin server together; C24, C26, C27 about the front end; C25, C36 about
  the configuration endpoints; C28 about validated configurations; C30 to C33 and C40 about the filters, the store, the blob store and
  the gauges; C34, C35 about plugin connections; C37 about backups; C38 about the control tool; C39 about the MQTT bridge. Theorems
  without a claim cover the rest: the invariant of the tables, honest chains and seals, rollback, secret references, masking of
  reports, key files, the events an operator sees, sockets and their permissions, database upgrades, rendering, policies, routes,
  identity links, guessing of codes, trust seeding, pruning, frame round trips, dedup keys, retry schedule, sealed routes, public nodes,
  environment and supervision of plugins, constant-time comparison, static files and response headers.
  Some state where the code does less than its comments say: \<open>mark_attempting_reopens\<close>, \<open>sender_limiter_wraps\<close>, \<open>attachment_gc_race\<close>,
  \<open>validated_advert_rejected\<close>, \<open>outage_alert_lost\<close>, \<open>revoked_session_survives\<close>, \<open>challenge_flood_locks_out\<close>,
  \<open>failed_registration_active\<close>, \<open>validate_probes_files\<close>, \<open>put_repoints_secret\<close>, \<open>late_send_mispaired\<close>, \<open>migrate_interrupted\<close>,
  \<open>conformance_rejects_ipc\<close>.

  \<^bold>\<open>Loops.\<close> Every definition is total. Loops over data are structural; the SQL \<open>LIKE\<close> matcher, number printing, the eviction loop
  of the web front end, the copying of trees, the resumable reader and the line readers of the control tool have a measure. The frame loops
  (\<open>run_conn\<close>, \<open>plugin_loop\<close>) are functions of the list of their inputs (frames, timer ticks, channel messages), so that a property for all
  lists holds for every run. The conformance runner takes the number of frames before its deadline. There is no fuel.

  \<^bold>\<open>Not modelled.\<close> Waiting for signals and the logging set-up of \<open>main.rs\<close>; the OpenAPI document and the pages of the Swagger UI, which
  are generated; TLS set-up, the lossy decoding of packets and the start-up of the MQTT plugin; argument parsing and response streaming
  of the web front end; sockets, tasks, process groups and signals, which are the operating system's; the SQL engine itself. Tests and fuzz
  targets are not part of the programs.
\<close>

end
